(* ===== verification/Prelude.thy ===== *)
theory Prelude
  imports Complex_Main "HOL-Library.List_Lexorder"
begin

text \<open>
  Shared vocabulary of the development: the representation of JavaScript strings, of points in
  time and of row identifiers, the Unicode data the runtime supplies, the table operations that
  the SQL statements of the repositories denote, and the generic lemmas on lists that the
  component theories use.
\<close>

section \<open>Collections of facts\<close>

named_theorems repo_defs \<open>definitions of repository operations\<close>
named_theorems row_simps \<open>what a row update leaves alone\<close>

section \<open>Strings, time, identifiers\<close>

text \<open>
  A JavaScript string is its sequence of UTF-16 code units. \<open>js\<close> embeds an ASCII literal.
  A \<open>Date\<close> is its time value in milliseconds since the epoch, a UUID the 128-bit number it
  stands for (Postgres orders \<open>uuid\<close> values as such numbers).
\<close>

type_synonym jstr = "nat list"
type_synonym time = int
type_synonym uuid = nat

definition js :: "string \<Rightarrow> jstr" where
  "js s = map of_char s"

lemma js_Nil [simp]: "js [] = []"
  by (simp add: js_def)

lemma js_Nil_iff [simp]: "js s = [] \<longleftrightarrow> s = []"
  by (simp add: js_def)

lemma js_Cons: "js (c # s) = of_char c # js s"
  by (simp add: js_def)

lemma js_append [simp]: "js (s @ t) = js s @ js t"
  by (simp add: js_def)

lemma length_js [simp]: "length (js s) = length s"
  by (simp add: js_def)

lemma js_inject [simp]: "js s = js t \<longleftrightarrow> s = t"
  by (simp add: js_def inj_map_eq_map inj_def)

text \<open>\<open>String.prototype.trim\<close>: ECMAScript white space and line terminators at both ends.\<close>

definition is_js_space :: "nat \<Rightarrow> bool" where
  "is_js_space c \<longleftrightarrow>
     9 \<le> c \<and> c \<le> 13 \<or> c = 32 \<or> c = 160 \<or> c = 5760 \<or> 8192 \<le> c \<and> c \<le> 8202
     \<or> c = 8232 \<or> c = 8233 \<or> c = 8239 \<or> c = 8287 \<or> c = 12288 \<or> c = 65279"

definition js_trim :: "jstr \<Rightarrow> jstr" where
  "js_trim s = rev (dropWhile is_js_space (rev (dropWhile is_js_space s)))"

text \<open>The replacement \<open>s.replace(/^#+/, '')\<close>.\<close>

definition strip_hashes :: "jstr \<Rightarrow> jstr" where
  "strip_hashes s = dropWhile (\<lambda>c. c = 35) s"

text \<open>\<open>s.slice(0, n)\<close> for a non-negative \<open>n\<close>.\<close>

definition js_slice :: "nat \<Rightarrow> jstr \<Rightarrow> jstr" where
  "js_slice n s = take n s"

lemma length_js_slice: "length (js_slice n s) \<le> n"
  by (simp add: js_slice_def)

text \<open>Decimal text of a number, as a template literal prints it.\<close>

fun dec_digits :: "nat \<Rightarrow> jstr" where
  "dec_digits n = (if n < 10 then [48 + n] else dec_digits (n div 10) @ [48 + n mod 10])"

declare dec_digits.simps [simp del]

definition show_int :: "int \<Rightarrow> jstr" where
  "show_int i = (if i < 0 then 45 # dec_digits (nat (- i)) else dec_digits (nat i))"

lemma dec_digits_range: "c \<in> set (dec_digits n) \<Longrightarrow> 48 \<le> c \<and> c \<le> 57"
proof (induction n rule: dec_digits.induct)
  case (1 n)
  then show ?case
    by (cases "n < 10") (auto simp: dec_digits.simps [of n])
qed

lemma dec_digits_nonempty [simp]: "dec_digits n \<noteq> []"
  by (subst dec_digits.simps) simp

section \<open>The Unicode data of the runtime\<close>

text \<open>
  Regular expressions with the \<open>u\<close> flag and \<open>toLowerCase\<close> consult the Unicode Character
  Database of the JavaScript engine, which is not part of the repository. It is a parameter:
  the general categories L, N and M of a code point, and the default case conversion of a whole
  string. \<open>unicode_ok\<close> states what the database says about ASCII.
\<close>

record unicode =
  u_letter :: "nat \<Rightarrow> bool"
  u_number :: "nat \<Rightarrow> bool"
  u_mark :: "nat \<Rightarrow> bool"
  u_lower :: "jstr \<Rightarrow> jstr"

definition ascii_upper :: "nat \<Rightarrow> bool" where
  "ascii_upper c \<longleftrightarrow> 65 \<le> c \<and> c \<le> 90"

definition ascii_letter :: "nat \<Rightarrow> bool" where
  "ascii_letter c \<longleftrightarrow> ascii_upper c \<or> 97 \<le> c \<and> c \<le> 122"

definition ascii_digit :: "nat \<Rightarrow> bool" where
  "ascii_digit c \<longleftrightarrow> 48 \<le> c \<and> c \<le> 57"

definition ascii_lower :: "nat \<Rightarrow> nat" where
  "ascii_lower c = (if ascii_upper c then c + 32 else c)"

definition unicode_ok :: "unicode \<Rightarrow> bool" where
  "unicode_ok u \<longleftrightarrow>
     (\<forall>c < 128. u_letter u c = ascii_letter c \<and> u_number u c = ascii_digit c \<and> \<not> u_mark u c)
     \<and> (\<forall>s. (\<forall>c \<in> set s. c < 128) \<longrightarrow> u_lower u s = map ascii_lower s)"

text \<open>The database restricted to ASCII: what the witnesses evaluate with.\<close>

definition ascii_unicode :: unicode where
  "ascii_unicode = \<lparr>u_letter = ascii_letter, u_number = ascii_digit, u_mark = (\<lambda>_. False),
     u_lower = map ascii_lower\<rparr>"

lemma unicode_ok_ascii [simp]: "unicode_ok ascii_unicode"
  by (simp add: unicode_ok_def ascii_unicode_def)

lemma unicode_ok_lower:
  "unicode_ok u \<Longrightarrow> (\<And>c. c \<in> set s \<Longrightarrow> c < 128) \<Longrightarrow> u_lower u s = map ascii_lower s"
  by (simp add: unicode_ok_def)

lemma length_lower_ascii:
  "unicode_ok u \<Longrightarrow> (\<And>c. c \<in> set s \<Longrightarrow> c < 128) \<Longrightarrow> length (u_lower u s) = length s"
  by (simp add: unicode_ok_lower)

section \<open>Tables\<close>

text \<open>
  A Postgres table is the list of its rows in insertion order. \<open>SELECT ... WHERE p LIMIT 1\<close> is
  \<open>find_row\<close>, \<open>UPDATE ... WHERE p\<close> is \<open>update_where\<close>, and \<open>latest_by\<close> is
  \<open>ORDER BY k DESC LIMIT 1\<close> (SQL leaves ties open; here the row inserted last wins).
\<close>

definition find_row :: "('r \<Rightarrow> bool) \<Rightarrow> 'r list \<Rightarrow> 'r option" where
  "find_row p t = List.find p t"

definition update_where :: "('r \<Rightarrow> bool) \<Rightarrow> ('r \<Rightarrow> 'r) \<Rightarrow> 'r list \<Rightarrow> 'r list" where
  "update_where p f t = map (\<lambda>r. if p r then f r else r) t"

definition latest_by :: "('r \<Rightarrow> 'k::linorder) \<Rightarrow> 'r list \<Rightarrow> 'r option" where
  "latest_by k t =
     (case t of [] \<Rightarrow> None | r # rs \<Rightarrow> Some (foldl (\<lambda>m x. if k m \<le> k x then x else m) r rs))"

lemma find_row_Nil [simp]: "find_row p [] = None"
  by (simp add: find_row_def)

lemma find_row_Cons: "find_row p (r # t) = (if p r then Some r else find_row p t)"
  by (simp add: find_row_def)

lemma find_row_None_iff: "find_row p t = None \<longleftrightarrow> (\<forall>r \<in> set t. \<not> p r)"
  by (auto simp: find_row_def find_None_iff)

lemma find_row_SomeD: "find_row p t = Some r \<Longrightarrow> r \<in> set t \<and> p r"
  by (auto simp: find_row_def find_Some_iff)

lemma find_row_append:
  "find_row p (t @ t') = (case find_row p t of None \<Rightarrow> find_row p t' | Some r \<Rightarrow> Some r)"
  by (induction t) (auto simp: find_row_Cons)

lemma find_row_unique:
  "distinct (map k t) \<Longrightarrow> r \<in> set t \<Longrightarrow> find_row (\<lambda>x. k x = k r) t = Some r"
  by (induction t) (auto simp: find_row_Cons rev_image_eqI)

lemma length_update_where [simp]: "length (update_where p f t) = length t"
  by (simp add: update_where_def)

lemma update_where_Nil [simp]: "update_where p f [] = []"
  by (simp add: update_where_def)

lemma update_where_append [simp]:
  "update_where p f (t @ t') = update_where p f t @ update_where p f t'"
  by (simp add: update_where_def)

lemma set_update_where:
  "set (update_where p f t) = (\<lambda>r. if p r then f r else r) ` set t"
  by (simp add: update_where_def)

lemma ball_update_where:
  "(\<forall>r \<in> set (update_where p f t). P r) \<longleftrightarrow> (\<forall>r \<in> set t. P (if p r then f r else r))"
  by (auto simp: update_where_def)

lemma map_update_where_same:
  "(\<And>r. k (f r) = k r) \<Longrightarrow> map k (update_where p f t) = map k t"
  by (simp add: update_where_def)

lemma image_update_where_same:
  "(\<And>r. k (f r) = k r) \<Longrightarrow> k ` set (update_where p f t) = k ` set t"
  by (metis map_update_where_same set_map)

lemma update_where_id: "(\<And>r. r \<in> set t \<Longrightarrow> \<not> p r) \<Longrightarrow> update_where p f t = t"
  by (simp add: update_where_def map_idI)

lemma find_row_update_where:
  assumes "\<And>r. p r \<Longrightarrow> p (f r)"
  shows "find_row p (update_where p f t) = map_option f (find_row p t)"
  using assms by (induction t) (auto simp: update_where_def find_row_Cons)

lemma find_row_update_where_other:
  assumes "\<And>r. q (if p r then f r else r) = q r" and "\<And>r. q r \<Longrightarrow> \<not> p r"
  shows "find_row q (update_where p f t) = find_row q t"
proof (induction t)
  case (Cons r t)
  then show ?case
    using assms(1) [of r] assms(2) [of r] by (auto simp: update_where_def find_row_Cons)
qed simp

lemma latest_by_Nil [simp]: "latest_by k [] = None"
  by (simp add: latest_by_def)

lemma latest_by_snoc:
  "latest_by k (t @ [r]) =
     (case latest_by k t of None \<Rightarrow> Some r | Some m \<Rightarrow> Some (if k m \<le> k r then r else m))"
  by (simp add: latest_by_def split: list.split)

lemma latest_by_None_iff [simp]: "latest_by k t = None \<longleftrightarrow> t = []"
  by (simp add: latest_by_def split: list.split)

lemma latest_by_mem: "latest_by k t = Some r \<Longrightarrow> r \<in> set t"
proof (induction t arbitrary: r rule: rev_induct)
  case (snoc x t)
  then show ?case by (auto simp: latest_by_snoc split: option.splits if_splits)
qed simp

lemma latest_by_max: "latest_by k t = Some r \<Longrightarrow> x \<in> set t \<Longrightarrow> k x \<le> k r"
proof (induction t arbitrary: r rule: rev_induct)
  case (snoc y t)
  then show ?case
    by (fastforce simp: latest_by_snoc split: option.splits if_splits)
qed simp

section \<open>Order-preserving deduplication\<close>

text \<open>
  A loop that pushes a value only when a \<open>Set\<close> has not seen it keeps the first occurrence of
  each value. \<open>dedup\<close> is that specification, independent of the loop.
\<close>

fun dedup :: "'a list \<Rightarrow> 'a list" where
  "dedup [] = []"
| "dedup (x # xs) = x # filter (\<lambda>y. y \<noteq> x) (dedup xs)"

lemma set_dedup [simp]: "set (dedup xs) = set xs"
  by (induction xs) auto

lemma distinct_dedup [simp]: "distinct (dedup xs)"
  by (induction xs) auto

lemma dedup_filter: "dedup (filter p xs) = filter p (dedup xs)"
  by (induction xs) (auto simp: filter_filter conj_commute intro: filter_cong)

lemma dedup_distinct: "distinct xs \<Longrightarrow> dedup xs = xs"
  by (induction xs) (auto simp: filter_id_conv)

section \<open>Sums\<close>

definition is_error :: "'e + 'a \<Rightarrow> bool" where
  "is_error r \<longleftrightarrow> (case r of Inl _ \<Rightarrow> True | Inr _ \<Rightarrow> False)"

lemma is_error_simps [simp]: "is_error (Inl e)" "\<not> is_error (Inr x)"
  by (simp_all add: is_error_def)

lemma not_is_error_iff: "\<not> is_error r \<longleftrightarrow> (\<exists>x. r = Inr x)"
  by (cases r) auto

end
