(* ===== verification/Json.thy ===== *)
theory Json
  imports Prelude
begin

text \<open>
  What the program uses of \<open>JSON\<close>: the values \<open>JSON.parse\<close> can return, the ECMA-404 grammar as
  an executable parser over UTF-16 code units, \<open>JSON.stringify\<close> of the flat objects of strings
  the program serialises (queue messages, the schedule input, pagination cursors), and the
  round trip between the two. Numbers are exact rationals.
\<close>

section \<open>Values\<close>

datatype json =
    JNull
  | JBool bool
  | JNum rat
  | JStr jstr
  | JArr "json list"
  | JObj "(jstr \<times> json) list"

text \<open>Property access: of duplicate keys the last one counts, a missing key is \<open>undefined\<close>.\<close>

fun jfield :: "string \<Rightarrow> json \<Rightarrow> json option" where
  "jfield k (JObj kvs) = map_of (rev kvs) (js k)"
| "jfield k _ = None"

section \<open>JSON.parse\<close>

definition is_json_space :: "nat \<Rightarrow> bool" where
  "is_json_space c \<longleftrightarrow> c = 32 \<or> c = 9 \<or> c = 10 \<or> c = 13"

definition skip_space :: "jstr \<Rightarrow> jstr" where
  "skip_space s = dropWhile is_json_space s"

definition hex_value :: "nat \<Rightarrow> nat option" where
  "hex_value c =
     (if 48 \<le> c \<and> c \<le> 57 then Some (c - 48)
      else if 97 \<le> c \<and> c \<le> 102 then Some (c - 87)
      else if 65 \<le> c \<and> c \<le> 70 then Some (c - 55) else None)"

definition hex4 :: "nat \<Rightarrow> nat \<Rightarrow> nat \<Rightarrow> nat \<Rightarrow> nat option" where
  "hex4 a b c d =
     (case (hex_value a, hex_value b, hex_value c, hex_value d) of
        (Some w, Some x, Some y, Some z) \<Rightarrow> Some (((w * 16 + x) * 16 + y) * 16 + z)
      | _ \<Rightarrow> None)"

definition simple_escape :: "nat \<Rightarrow> nat option" where
  "simple_escape c =
     (if c = 34 \<or> c = 92 \<or> c = 47 then Some c
      else if c = 98 then Some 8 else if c = 102 then Some 12
      else if c = 110 then Some 10 else if c = 114 then Some 13
      else if c = 116 then Some 9 else None)"

text \<open>The characters of a string literal after its opening quote.\<close>

function (sequential) jp_string :: "jstr \<Rightarrow> (jstr \<times> jstr) option" where
  "jp_string [] = None"
| "jp_string (c # r) =
     (if c = 34 then Some ([], r)
      else if c = 92 then
        (case r of
           [] \<Rightarrow> None
         | e # r1 \<Rightarrow>
             (if e = 117 then
                (case r1 of
                   h1 # h2 # h3 # h4 # r2 \<Rightarrow>
                     (case hex4 h1 h2 h3 h4 of
                        None \<Rightarrow> None
                      | Some u \<Rightarrow> map_option (\<lambda>(s, t). (u # s, t)) (jp_string r2))
                 | _ \<Rightarrow> None)
              else
                (case simple_escape e of
                   None \<Rightarrow> None
                 | Some u \<Rightarrow> map_option (\<lambda>(s, t). (u # s, t)) (jp_string r1))))
      else if c < 32 then None
      else map_option (\<lambda>(s, t). (c # s, t)) (jp_string r))"
  by pat_completeness auto
termination
  by (relation "measure length") auto

declare jp_string.simps(2) [simp del]

definition digits_value :: "jstr \<Rightarrow> rat" where
  "digits_value ds = foldl (\<lambda>v d. v * 10 + of_nat (d - 48)) 0 ds"

text \<open>\<open>-? (0 | [1-9][0-9]*) (. [0-9]+)? ([eE] [+-]? [0-9]+)?\<close>\<close>

definition jp_number :: "jstr \<Rightarrow> (rat \<times> jstr) option" where
  "jp_number s =
     (let neg = (case s of c # _ \<Rightarrow> c = 45 | [] \<Rightarrow> False);
          s1 = (if neg then tl s else s);
          ip = takeWhile ascii_digit s1; s2 = dropWhile ascii_digit s1
      in if ip = [] \<or> (length ip > 1 \<and> hd ip = 48) then None
         else
           let fr = (case s2 of c # r \<Rightarrow> if c = 46 then Some (takeWhile ascii_digit r) else None
                     | [] \<Rightarrow> None);
               s3 = (case fr of None \<Rightarrow> s2 | Some _ \<Rightarrow> dropWhile ascii_digit (tl s2));
               fp = (case fr of None \<Rightarrow> [] | Some f \<Rightarrow> f);
               ex = (case s3 of c # r \<Rightarrow> c = 101 \<or> c = 69 | [] \<Rightarrow> False);
               s4 = (if ex then tl s3 else s3);
               sg = (case s4 of c # _ \<Rightarrow> ex \<and> (c = 43 \<or> c = 45) | [] \<Rightarrow> False);
               eneg = (case s4 of c # _ \<Rightarrow> sg \<and> c = 45 | [] \<Rightarrow> False);
               s5 = (if sg then tl s4 else s4);
               ep = (if ex then takeWhile ascii_digit s5 else []);
               s6 = (if ex then dropWhile ascii_digit s5 else s5);
               mant = digits_value (ip @ fp) / 10 ^ length fp;
               scale = 10 ^ nat \<lfloor>digits_value ep\<rfloor>
           in if fr = Some [] \<or> (ex \<and> ep = []) then None
              else Some ((if neg then - 1 else 1) * (if eneg then mant / scale else mant * scale), s6))"

definition strip_prefix :: "jstr \<Rightarrow> jstr \<Rightarrow> jstr option" where
  "strip_prefix p s = (if take (length p) s = p then Some (drop (length p) s) else None)"

text \<open>
  Values, array elements and object members, by recursion on a depth budget that every nested
  call spends: the length of the text plus one is enough for any text
  (\<open>json_parse\<close> supplies it), since each level consumes a character.
\<close>

fun jp_value :: "nat \<Rightarrow> jstr \<Rightarrow> (json \<times> jstr) option"
  and jp_elems :: "nat \<Rightarrow> jstr \<Rightarrow> (json list \<times> jstr) option"
  and jp_members :: "nat \<Rightarrow> jstr \<Rightarrow> ((jstr \<times> json) list \<times> jstr) option"
where
  "jp_value 0 s = None"
| "jp_value (Suc n) s =
     (case skip_space s of
        [] \<Rightarrow> None
      | c # r \<Rightarrow>
          if c = 34 then map_option (\<lambda>(x, t). (JStr x, t)) (jp_string r)
          else if c = 123 then
            (case skip_space r of
               [] \<Rightarrow> None
             | d # r' \<Rightarrow> if d = 125 then Some (JObj [], r')
                        else map_option (\<lambda>(x, t). (JObj x, t)) (jp_members n (d # r')))
          else if c = 91 then
            (case skip_space r of
               [] \<Rightarrow> None
             | d # r' \<Rightarrow> if d = 93 then Some (JArr [], r')
                        else map_option (\<lambda>(x, t). (JArr x, t)) (jp_elems n (d # r')))
          else
            (case strip_prefix (js ''true'') (c # r) of
               Some t \<Rightarrow> Some (JBool True, t)
             | None \<Rightarrow>
                 (case strip_prefix (js ''false'') (c # r) of
                    Some t \<Rightarrow> Some (JBool False, t)
                  | None \<Rightarrow>
                      (case strip_prefix (js ''null'') (c # r) of
                         Some t \<Rightarrow> Some (JNull, t)
                       | None \<Rightarrow> map_option (\<lambda>(x, t). (JNum x, t)) (jp_number (c # r))))))"
| "jp_elems 0 s = None"
| "jp_elems (Suc n) s =
     (case jp_value n s of
        None \<Rightarrow> None
      | Some (v, t) \<Rightarrow>
          (case skip_space t of
             [] \<Rightarrow> None
           | c # r \<Rightarrow> if c = 93 then Some ([v], r)
                     else if c = 44 then map_option (\<lambda>(vs, t'). (v # vs, t')) (jp_elems n r)
                     else None))"
| "jp_members 0 s = None"
| "jp_members (Suc n) s =
     (case skip_space s of
        [] \<Rightarrow> None
      | q # r \<Rightarrow>
          if q \<noteq> 34 then None
          else
            (case jp_string r of
               None \<Rightarrow> None
             | Some (k, t) \<Rightarrow>
                 (case skip_space t of
                    [] \<Rightarrow> None
                  | c # r1 \<Rightarrow>
                      if c \<noteq> 58 then None
                      else
                        (case jp_value n r1 of
                           None \<Rightarrow> None
                         | Some (v, t1) \<Rightarrow>
                             (case skip_space t1 of
                                [] \<Rightarrow> None
                              | d # r2 \<Rightarrow>
                                  if d = 125 then Some ([(k, v)], r2)
                                  else if d = 44 then
                                    map_option (\<lambda>(kvs, t2). ((k, v) # kvs, t2)) (jp_members n r2)
                                  else None)))))"

text \<open>\<open>None\<close> is the \<open>SyntaxError\<close> that \<open>JSON.parse\<close> throws.\<close>

definition json_parse :: "jstr \<Rightarrow> json option" where
  "json_parse s =
     (case jp_value (2 * length s + 2) s of
        Some (v, t) \<Rightarrow> if skip_space t = [] then Some v else None
      | None \<Rightarrow> None)"

section \<open>JSON.stringify of a flat object of strings\<close>

definition hex_digit :: "nat \<Rightarrow> nat" where
  "hex_digit n = (if n < 10 then 48 + n else 87 + n)"

definition unicode_escape :: "nat \<Rightarrow> jstr" where
  "unicode_escape c =
     [92, 117, hex_digit (c div 4096 mod 16), hex_digit (c div 256 mod 16),
      hex_digit (c div 16 mod 16), hex_digit (c mod 16)]"

definition is_high :: "nat \<Rightarrow> bool" where
  "is_high c \<longleftrightarrow> 55296 \<le> c \<and> c \<le> 56319"

definition is_low :: "nat \<Rightarrow> bool" where
  "is_low c \<longleftrightarrow> 56320 \<le> c \<and> c \<le> 57343"

definition quote_unit :: "nat \<Rightarrow> jstr" where
  "quote_unit c =
     (if c = 34 then [92, 34] else if c = 92 then [92, 92]
      else if c = 8 then [92, 98] else if c = 12 then [92, 102]
      else if c = 10 then [92, 110] else if c = 13 then [92, 114] else if c = 9 then [92, 116]
      else if c < 32 \<or> is_high c \<or> is_low c then unicode_escape c
      else [c])"

text \<open>QuoteJSONString: surrogate pairs are kept, lone surrogates are escaped.\<close>

fun quote_units :: "jstr \<Rightarrow> jstr" where
  "quote_units [] = []"
| "quote_units [c] = quote_unit c"
| "quote_units (c # d # r) =
     (if is_high c \<and> is_low d then c # d # quote_units r
      else quote_unit c @ quote_units (d # r))"

definition quote_string :: "jstr \<Rightarrow> jstr" where
  "quote_string s = 34 # quote_units s @ [34]"

fun stringify_members :: "(string \<times> jstr) list \<Rightarrow> jstr" where
  "stringify_members [] = []"
| "stringify_members [(k, v)] = quote_string (js k) @ 58 # quote_string v"
| "stringify_members ((k, v) # kvs) =
     quote_string (js k) @ 58 # quote_string v @ 44 # stringify_members kvs"

definition stringify_object :: "(string \<times> jstr) list \<Rightarrow> jstr" where
  "stringify_object kvs = 123 # stringify_members kvs @ [125]"

section \<open>Round trip\<close>

lemma hex_value_digit: "n < 16 \<Longrightarrow> hex_value (hex_digit n) = Some n"
  by (auto simp: hex_value_def hex_digit_def)

lemma hex4_digits:
  "w < 16 \<Longrightarrow> x < 16 \<Longrightarrow> y < 16 \<Longrightarrow> z < 16 \<Longrightarrow>
     hex4 (hex_digit w) (hex_digit x) (hex_digit y) (hex_digit z) =
       Some (((w * 16 + x) * 16 + y) * 16 + z)"
  by (simp add: hex4_def hex_value_digit)

lemma hex4_escape:
  assumes "c < 65536"
  shows "hex4 (hex_digit (c div 4096 mod 16)) (hex_digit (c div 256 mod 16))
           (hex_digit (c div 16 mod 16)) (hex_digit (c mod 16)) = Some c"
proof -
  have top: "c div 4096 mod 16 = c div 4096"
    using assms by simp
  have gen: "((z * 16 + r) * 16 + q) * 16 + p = x"
    if "y' = 16 * z + r" "y = 16 * y' + q" "x = 16 * y + p" for p q r x y y' z :: nat
    using that by simp
  have "c div 256 = 16 * (c div 4096) + c div 256 mod 16"
    using div_mult_mod_eq [of "c div 256" 16] by (simp add: div_mult2_eq [symmetric])
  moreover have "c div 16 = 16 * (c div 256) + c div 16 mod 16"
    using div_mult_mod_eq [of "c div 16" 16] by (simp add: div_mult2_eq [symmetric])
  moreover have "c = 16 * (c div 16) + c mod 16"
    by simp
  ultimately have "((c div 4096 * 16 + c div 256 mod 16) * 16 + c div 16 mod 16) * 16 + c mod 16 = c"
    by (rule gen)
  moreover have "c div 4096 < 16"
    using assms by simp
  ultimately show ?thesis
    by (subst hex4_digits) (simp_all only: top mod_less_divisor zero_less_numeral)
qed

lemma jp_string_quote_unit:
  "jp_string (quote_unit c @ r) = map_option (\<lambda>(s, t). (c # s, t)) (jp_string r)"
proof -
  consider (esc) "c < 32 \<and> c \<notin> {8, 9, 10, 12, 13} \<or> is_high c \<or> is_low c"
    | (simple) "c \<in> {34, 92, 8, 9, 10, 12, 13}"
    | (plain) "quote_unit c = [c]" "c \<ge> 32" "c \<noteq> 34" "c \<noteq> 92"
    by (cases "c \<in> {34, 92, 8, 9, 10, 12, 13}"; cases "c < 32"; cases "is_high c \<or> is_low c")
      (simp_all add: quote_unit_def)
  then show ?thesis
  proof cases
    case esc
    then have q: "quote_unit c = unicode_escape c" and c: "c < 65536"
      by (auto simp: quote_unit_def is_high_def is_low_def)
    show ?thesis
      unfolding q unicode_escape_def using hex4_escape [OF c]
      by (simp add: jp_string.simps(2) [of 92])
  next
    case simple
    then show ?thesis
      by (auto simp: quote_unit_def jp_string.simps(2) [of 92] simple_escape_def)
  next
    case plain
    then show ?thesis by (simp add: jp_string.simps(2) [of c])
  qed
qed

lemma jp_string_quote_units: "jp_string (quote_units s @ 34 # r) = Some (s, r)"
proof (induction s rule: quote_units.induct)
  case 1
  show ?case by (simp add: jp_string.simps(2))
next
  case (2 c)
  show ?case by (simp add: jp_string_quote_unit jp_string.simps(2) [of 34])
next
  case (3 c d s)
  show ?case
  proof (cases "is_high c \<and> is_low d")
    case True
    then have "c \<ge> 32" "c \<noteq> 34" "c \<noteq> 92" "d \<ge> 32" "d \<noteq> 34" "d \<noteq> 92"
      by (auto simp: is_high_def is_low_def)
    with True 3 show ?thesis by (simp add: jp_string.simps(2) [of c] jp_string.simps(2) [of d])
  next
    case False
    with 3(2) have "jp_string (quote_units (d # s) @ 34 # r) = Some (d # s, r)" by blast
    moreover have "quote_units (c # d # s) = quote_unit c @ quote_units (d # s)"
      using False by (simp only: quote_units.simps if_False)
    ultimately show ?thesis by (simp add: jp_string_quote_unit)
  qed
qed

lemma jp_value_quote_string:
  "jp_value (Suc n) (quote_string s @ r) = Some (JStr s, r)"
  by (simp add: quote_string_def skip_space_def is_json_space_def jp_string_quote_units)

lemma jp_members_stringify:
  "kvs \<noteq> [] \<Longrightarrow> length kvs + 1 \<le> n \<Longrightarrow>
     jp_members n (stringify_members kvs @ 125 # r) = Some (map (\<lambda>(k, v). (js k, JStr v)) kvs, r)"
proof (induction kvs arbitrary: n rule: stringify_members.induct)
  case 1
  then show ?case by simp
next
  case (2 k v)
  then obtain m where n: "n = Suc (Suc m)" by (cases n rule: nat.exhaust; cases "n - 1") auto
  have "jp_value (Suc m) (quote_string v @ 125 # r) = Some (JStr v, 125 # r)"
    by (rule jp_value_quote_string)
  then show ?case
    unfolding n by (simp add: quote_string_def [of "js k"] skip_space_def is_json_space_def
        jp_string_quote_units del: jp_value.simps)
next
  case (3 k v kv kvs)
  then obtain m where n: "n = Suc (Suc m)" by (cases n rule: nat.exhaust; cases "n - 1") auto
  have IH: "jp_members (Suc m) (stringify_members (kv # kvs) @ 125 # r) =
      Some (map (\<lambda>(k, v). (js k, JStr v)) (kv # kvs), r)"
    using 3(1) [of "Suc m"] 3(3) n by (simp del: jp_members.simps)
  have "jp_value (Suc m) (quote_string v @ 44 # stringify_members (kv # kvs) @ 125 # r) =
      Some (JStr v, 44 # stringify_members (kv # kvs) @ 125 # r)"
    by (rule jp_value_quote_string)
  with IH show ?case
    unfolding n jp_members.simps(2) [of "Suc m"]
    by (simp add: quote_string_def [of "js k"] skip_space_def is_json_space_def
        jp_string_quote_units del: jp_value.simps jp_members.simps)
qed

lemma length_stringify_members: "length kvs \<le> length (stringify_members kvs)"
  by (induction kvs rule: stringify_members.induct) (auto simp: quote_string_def)

lemma json_parse_stringify:
  "json_parse (stringify_object kvs) = Some (JObj (map (\<lambda>(k, v). (js k, JStr v)) kvs))"
proof (cases "kvs = []")
  case True
  have "jp_value (Suc n) [123, 125] = Some (JObj [], [])" for n
    by (simp add: skip_space_def is_json_space_def)
  from this [of 5] True show ?thesis
    by (simp add: json_parse_def stringify_object_def skip_space_def del: jp_value.simps)
next
  case False
  then obtain r where m: "stringify_members kvs = 34 # r"
    by (cases kvs rule: stringify_members.cases) (auto simp: quote_string_def)
  let ?n = "2 * length (stringify_object kvs) + 1"
  have "length kvs + 1 \<le> ?n"
    using length_stringify_members [of kvs] by (simp add: stringify_object_def)
  then have mem: "jp_members ?n (stringify_members kvs @ 125 # []) =
      Some (map (\<lambda>(k, v). (js k, JStr v)) kvs, [])"
    by (rule jp_members_stringify [OF False])
  have "jp_value (Suc ?n) (stringify_object kvs) =
      Some (JObj (map (\<lambda>(k, v). (js k, JStr v)) kvs), [])"
    using mem unfolding stringify_object_def m
    by (simp add: skip_space_def is_json_space_def del: jp_members.simps)
  then show ?thesis
    by (simp add: json_parse_def skip_space_def del: jp_value.simps)
qed

end
