(* ===== verification/Api_Errors.thy ===== *)
theory Api_Errors
  imports Json
begin

text \<open>
  The exceptions of the program as values (\<open>src/api/errors/ApiError.ts\<close>, \<open>ZodError\<close>,
  \<open>UnprocessableJobError\<close>, plain \<open>Error\<close>) and the terminal Express error handler that turns
  them into HTTP responses (\<open>src/api/middlewares/errorHandler.ts\<close>).
\<close>

section \<open>Error classes\<close>

datatype api_class =
    ApiError
  | BadRequestError
  | NotFoundError
  | MetaAuthError
  | MetaRateLimitError
  | MetaPayloadTooLargeError nat \<comment> \<open>attemptedLimit\<close>

record api_error =
  ae_class :: api_class
  ae_status :: nat
  ae_code :: string
  ae_message :: jstr
  ae_details :: "json option"

record zod_issue =
  zi_path :: "jstr list"
  zi_message :: jstr

datatype js_error =
    Api_Error api_error
  | Zod_Error "zod_issue list"
  | Unprocessable_Job_Error jstr
  | Plain_Error jstr

definition apiError :: "nat \<Rightarrow> string \<Rightarrow> jstr \<Rightarrow> json option \<Rightarrow> js_error" where
  "apiError status code message details =
     Api_Error \<lparr>ae_class = ApiError, ae_status = status, ae_code = code, ae_message = message,
       ae_details = details\<rparr>"

definition badRequestError :: "jstr \<Rightarrow> json option \<Rightarrow> js_error" where
  "badRequestError message details =
     Api_Error \<lparr>ae_class = BadRequestError, ae_status = 400, ae_code = ''BAD_REQUEST'',
       ae_message = message, ae_details = details\<rparr>"

definition notFoundError :: "jstr \<Rightarrow> json option \<Rightarrow> js_error" where
  "notFoundError message details =
     Api_Error \<lparr>ae_class = NotFoundError, ae_status = 404, ae_code = ''NOT_FOUND'',
       ae_message = message, ae_details = details\<rparr>"

definition metaAuthError :: "jstr \<Rightarrow> json option \<Rightarrow> js_error" where
  "metaAuthError message details =
     Api_Error \<lparr>ae_class = MetaAuthError, ae_status = 502, ae_code = ''META_AUTH_FAILED'',
       ae_message = message, ae_details = details\<rparr>"

definition metaRateLimitError :: "jstr \<Rightarrow> json option \<Rightarrow> js_error" where
  "metaRateLimitError message details =
     Api_Error \<lparr>ae_class = MetaRateLimitError, ae_status = 429, ae_code = ''META_RATE_LIMITED'',
       ae_message = message, ae_details = details\<rparr>"

definition metaPayloadTooLargeError :: "jstr \<Rightarrow> nat \<Rightarrow> json option \<Rightarrow> js_error" where
  "metaPayloadTooLargeError message attemptedLimit details =
     Api_Error \<lparr>ae_class = MetaPayloadTooLargeError attemptedLimit, ae_status = 502,
       ae_code = ''META_PAYLOAD_TOO_LARGE'', ae_message = message, ae_details = details\<rparr>"

lemmas error_classes =
  apiError_def badRequestError_def notFoundError_def metaAuthError_def metaRateLimitError_def
  metaPayloadTooLargeError_def

text \<open>\<open>error instanceof C\<close> for the classes the program tests.\<close>

fun isMetaAuthError :: "js_error \<Rightarrow> bool" where
  "isMetaAuthError (Api_Error e) = (ae_class e = MetaAuthError)"
| "isMetaAuthError _ = False"

fun isPayloadTooLarge :: "js_error \<Rightarrow> bool" where
  "isPayloadTooLarge (Api_Error e) =
     (case ae_class e of MetaPayloadTooLargeError _ \<Rightarrow> True | _ \<Rightarrow> False)"
| "isPayloadTooLarge _ = False"

fun isUnprocessable :: "js_error \<Rightarrow> bool" where
  "isUnprocessable (Unprocessable_Job_Error _) = True"
| "isUnprocessable _ = False"

fun isZodError :: "js_error \<Rightarrow> bool" where
  "isZodError (Zod_Error _) = True"
| "isZodError _ = False"

text \<open>\<open>error.message\<close>; a \<open>ZodError\<close> prints its issues.\<close>

fun error_message :: "js_error \<Rightarrow> jstr" where
  "error_message (Api_Error e) = ae_message e"
| "error_message (Zod_Error is) = concat (map zi_message is)"
| "error_message (Unprocessable_Job_Error m) = m"
| "error_message (Plain_Error m) = m"

section \<open>The error handler\<close>

record http_response =
  hr_status :: nat
  hr_body :: json

fun join_path :: "jstr list \<Rightarrow> jstr" where
  "join_path [] = []"
| "join_path [p] = p"
| "join_path (p # ps) = p @ 46 # join_path ps"

definition error_body :: "string \<Rightarrow> jstr \<Rightarrow> json option \<Rightarrow> json" where
  "error_body code message details =
     JObj [(js ''error'',
       JObj ([(js ''code'', JStr (js code)), (js ''message'', JStr message)] @
         (case details of None \<Rightarrow> [] | Some d \<Rightarrow> [(js ''details'', d)])))]"

definition notFoundHandler :: "jstr \<Rightarrow> jstr \<Rightarrow> http_response" where
  "notFoundHandler method path =
     \<lparr>hr_status = 404,
       hr_body = error_body ''NOT_FOUND'' (js ''No route matches '' @ method @ 32 # path) None\<rparr>"

fun errorHandler :: "bool \<Rightarrow> js_error \<Rightarrow> http_response" where
  "errorHandler isProduction (Zod_Error issues) =
     \<lparr>hr_status = 400,
       hr_body = error_body ''VALIDATION_FAILED'' (js ''Request validation failed'')
         (Some (JArr (map (\<lambda>i. JObj [(js ''path'', JStr (join_path (zi_path i))),
                                     (js ''message'', JStr (zi_message i))]) issues)))\<rparr>"
| "errorHandler isProduction (Api_Error e) =
     \<lparr>hr_status = ae_status e, hr_body = error_body (ae_code e) (ae_message e) (ae_details e)\<rparr>"
| "errorHandler isProduction e =
     \<lparr>hr_status = 500,
       hr_body = error_body ''INTERNAL_ERROR''
         (if isProduction then js ''Internal server error'' else error_message e) None\<rparr>"

text \<open>The stable code and the message a client reads from an error body.\<close>

definition body_code :: "json \<Rightarrow> json option" where
  "body_code b = Option.bind (jfield ''error'' b) (jfield ''code'')"

definition body_message :: "json \<Rightarrow> json option" where
  "body_message b = Option.bind (jfield ''error'' b) (jfield ''message'')"

lemma body_code_error_body [simp]:
  "body_code (error_body code message details) = Some (JStr (js code))"
  by (simp add: body_code_def error_body_def split: option.split)

lemma body_message_error_body [simp]:
  "body_message (error_body code message details) = Some (JStr message)"
  by (simp add: body_message_def error_body_def split: option.split)

text \<open>Every response of the handler carries the envelope with a code.\<close>

lemma errorHandler_code:
  "body_code (hr_body (errorHandler p e)) =
     Some (JStr (js (case e of Zod_Error _ \<Rightarrow> ''VALIDATION_FAILED'' | Api_Error a \<Rightarrow> ae_code a
        | _ \<Rightarrow> ''INTERNAL_ERROR'')))"
  by (cases e) auto

text \<open>
  In production the message of an error that is neither a validation nor an API error does not
  reach the client: the whole response is the same for all of them.
\<close>

lemma errorHandler_production_opaque:
  assumes "\<And>is. e \<noteq> Zod_Error is" "\<And>a. e \<noteq> Api_Error a"
  shows "errorHandler True e =
    \<lparr>hr_status = 500, hr_body = error_body ''INTERNAL_ERROR'' (js ''Internal server error'') None\<rparr>"
  using assms by (cases e) auto

end
