(* ===== verification/Rate_Limit.thy ===== *)
theory Rate_Limit
  imports Json
begin

text \<open>
  \<open>src/lib/meta/rateLimit.ts\<close>: reading Meta's usage headers and turning the reading into a pause
  before the next request. Percentages are exact rationals where the code has doubles; the
  headers carry small decimal numbers, for which both agree.
\<close>

section \<open>Reading the headers\<close>

record rate_limit_usage =
  worstPct :: rat
  callCountPct :: "rat option"
  cpuTimePct :: "rat option"
  totalTimePct :: "rat option"
  regainMinutes :: "rat option" \<comment> \<open>estimatedTimeToRegainAccessMinutes\<close>
  raw_appUsage :: "json option"
  raw_bucUsage :: "json option"

text \<open>The two headers as \<open>headers.get\<close> returns them.\<close>

record usage_headers =
  x_app_usage :: "jstr option"
  x_business_use_case_usage :: "jstr option"

definition safeJsonParse :: "jstr option \<Rightarrow> json option" where
  "safeJsonParse value =
     (case value of None \<Rightarrow> None | Some v \<Rightarrow> if v = [] then None else json_parse v)"

text \<open>A JSON number beyond the range of a double reads as Infinity.\<close>

definition js_finite :: "rat \<Rightarrow> bool" where
  "js_finite v \<longleftrightarrow> \<bar>v\<bar> < 2 ^ 1024 - 2 ^ 970"

definition pctOf :: "json \<Rightarrow> string \<Rightarrow> rat option" where
  "pctOf source key =
     (case jfield key source of
        Some (JNum v) \<Rightarrow> if js_finite v then Some v else None
      | _ \<Rightarrow> None)"

text \<open>\<open>value && typeof value === 'object'\<close>: arrays are objects, \<open>null\<close> is falsy.\<close>

fun is_object :: "json \<Rightarrow> bool" where
  "is_object (JObj _) = True"
| "is_object (JArr _) = True"
| "is_object _ = False"

fun object_values :: "json \<Rightarrow> json list" where
  "object_values (JObj kvs) = map (\<lambda>k. the (map_of (rev kvs) k)) (dedup (map fst kvs))"
| "object_values (JArr xs) = xs"
| "object_values _ = []"

fun array_entries :: "json \<Rightarrow> json list" where
  "array_entries (JArr xs) = filter is_object xs"
| "array_entries _ = []"

definition usage_candidates :: "json option \<Rightarrow> json option \<Rightarrow> json list" where
  "usage_candidates appUsage bucUsage =
     (case appUsage of Some a \<Rightarrow> if is_object a then [a] else [] | None \<Rightarrow> []) @
     (case bucUsage of Some b \<Rightarrow> if is_object b then concat (map array_entries (object_values b)) else []
      | None \<Rightarrow> [])"

definition nz :: "rat option \<Rightarrow> rat" where
  "nz v = (case v of None \<Rightarrow> 0 | Some x \<Rightarrow> x)"

text \<open>\<open>Math.max(acc ?? 0, v ?? 0) || acc || v\<close>, where 0 and \<open>undefined\<close> are falsy.\<close>

definition best_pct :: "rat option \<Rightarrow> rat option \<Rightarrow> rat option" where
  "best_pct acc v =
     (let m = max (nz acc) (nz v)
      in if m \<noteq> 0 then Some m else if acc \<noteq> None \<and> acc \<noteq> Some 0 then acc else v)"

text \<open>One iteration of the loop over the candidates.\<close>

definition add_candidate :: "rate_limit_usage \<Rightarrow> json \<Rightarrow> rate_limit_usage" where
  "add_candidate u candidate =
     (let call = pctOf candidate ''call_count'';
          cpu = pctOf candidate ''total_cputime'';
          total = pctOf candidate ''total_time'';
          regain = pctOf candidate ''estimated_time_to_regain_access''
      in u\<lparr>callCountPct := best_pct (callCountPct u) call,
           cpuTimePct := best_pct (cpuTimePct u) cpu,
           totalTimePct := best_pct (totalTimePct u) total,
           regainMinutes :=
             (case regain of
                Some r \<Rightarrow> if r > 0 then Some (max (nz (regainMinutes u)) r) else regainMinutes u
              | None \<Rightarrow> regainMinutes u),
           worstPct := max (worstPct u) (max (nz call) (max (nz cpu) (nz total)))\<rparr>)"

definition parseRateLimitHeaders :: "usage_headers \<Rightarrow> rate_limit_usage option" where
  "parseRateLimitHeaders headers =
     (let appUsage = safeJsonParse (x_app_usage headers);
          bucUsage = safeJsonParse (x_business_use_case_usage headers);
          candidates = usage_candidates appUsage bucUsage
      in if candidates = [] then None
         else Some (foldl add_candidate
           \<lparr>worstPct = 0, callCountPct = None, cpuTimePct = None, totalTimePct = None,
             regainMinutes = None, raw_appUsage = appUsage, raw_bucUsage = bucUsage\<rparr> candidates))"

section \<open>The pause\<close>

text \<open>\<open>Math.round\<close> rounds halves up.\<close>

definition math_round :: "rat \<Rightarrow> int" where
  "math_round x = \<lfloor>x + 1 / 2\<rfloor>"

definition throttleDelayMs :: "rate_limit_usage option \<Rightarrow> rat \<Rightarrow> rat" where
  "throttleDelayMs usage thresholdPct =
     (case usage of
        None \<Rightarrow> 0
      | Some u \<Rightarrow>
          if nz (regainMinutes u) > 0 then min (nz (regainMinutes u) * 60000) (5 * 60000)
          else if worstPct u < thresholdPct then 0
          else
            let over = (worstPct u - thresholdPct) / max (100 - thresholdPct) 1
            in of_int (math_round (1000 + over * 29000)))"

section \<open>What the reading reports\<close>

text \<open>The figures of one candidate that count.\<close>

definition candidate_pcts :: "json \<Rightarrow> rat set" where
  "candidate_pcts c =
     {nz (pctOf c ''call_count''), nz (pctOf c ''total_cputime''), nz (pctOf c ''total_time'')}"

lemma worstPct_add_candidate [simp]:
  "worstPct (add_candidate u c) = Max (insert (worstPct u) (candidate_pcts c))"
  by (simp add: add_candidate_def candidate_pcts_def Let_def max.assoc)

lemma worstPct_foldl:
  "worstPct (foldl add_candidate u cs) = Max (insert (worstPct u) (\<Union>c \<in> set cs. candidate_pcts c))"
proof (induction cs arbitrary: u)
  case (Cons c cs)
  have fin: "finite (candidate_pcts c)" "finite (\<Union>d \<in> set cs. candidate_pcts d)"
    by (auto simp: candidate_pcts_def)
  have ne: "candidate_pcts c \<noteq> {}"
    by (simp add: candidate_pcts_def)
  have "worstPct (foldl add_candidate u (c # cs)) =
      Max (insert (Max (insert (worstPct u) (candidate_pcts c))) (\<Union>d \<in> set cs. candidate_pcts d))"
    using Cons.IH [of "add_candidate u c"] by simp
  also have "\<dots> = Max (insert (worstPct u) (candidate_pcts c) \<union> (\<Union>d \<in> set cs. candidate_pcts d))"
  proof (cases "(\<Union>d \<in> set cs. candidate_pcts d) = {}")
    case False
    have "Max (insert (Max (insert (worstPct u) (candidate_pcts c))) (\<Union>d \<in> set cs. candidate_pcts d))
        = max (Max (insert (worstPct u) (candidate_pcts c))) (Max (\<Union>d \<in> set cs. candidate_pcts d))"
      by (rule Max_insert [OF fin(2) False])
    also have "\<dots> = Max (insert (worstPct u) (candidate_pcts c) \<union> (\<Union>d \<in> set cs. candidate_pcts d))"
      by (rule Max_Un [symmetric]) (use fin False in simp_all)
    finally show ?thesis .
  next
    case True
    then show ?thesis by (simp only: Un_empty_right Max_singleton)
  qed
  finally show ?case by (simp add: Un_insert_left)
qed simp

lemma parseRateLimitHeaders_worst:
  assumes "parseRateLimitHeaders h = Some u"
  shows "worstPct u = Max (insert 0 (\<Union>c \<in> set (usage_candidates (safeJsonParse (x_app_usage h))
      (safeJsonParse (x_business_use_case_usage h))). candidate_pcts c))"
  using assms by (auto simp: parseRateLimitHeaders_def Let_def worstPct_foldl split: if_splits)

lemma worst_nonneg: "parseRateLimitHeaders h = Some u \<Longrightarrow> 0 \<le> worstPct u"
  by (drule parseRateLimitHeaders_worst) (auto simp: candidate_pcts_def intro!: Max_ge)

lemma regain_add_candidate_pos:
  "(\<forall>r. regainMinutes u = Some r \<longrightarrow> r > 0) \<Longrightarrow>
     regainMinutes (add_candidate u c) = Some r \<Longrightarrow> r > 0"
  by (auto simp: add_candidate_def Let_def nz_def less_max_iff_disj split: option.splits if_splits)

section \<open>Bounds of the pause\<close>

lemma math_round_of_int [simp]: "math_round (of_int i) = i"
  by (simp add: math_round_def floor_unique)

lemma math_round_mono: "x \<le> y \<Longrightarrow> math_round x \<le> math_round y"
  by (simp add: math_round_def floor_mono)

lemma math_round_1000: "math_round 1000 = 1000" and math_round_30000: "math_round 30000 = 30000"
  using math_round_of_int [of 1000] math_round_of_int [of 30000] by simp_all

lemma ramp_bounds:
  assumes "0 \<le> x" "x \<le> (1 :: rat)"
  shows "1000 \<le> math_round (1000 + x * 29000)" "math_round (1000 + x * 29000) \<le> 30000"
  using math_round_mono [of 1000 "1000 + x * 29000"] math_round_mono [of "1000 + x * 29000" 30000] assms
  by (simp_all add: math_round_1000 math_round_30000)

lemma ramp_nonneg: "0 \<le> (x :: rat) \<Longrightarrow> 0 \<le> math_round (1000 + x * 29000)"
  by (simp add: math_round_def)

lemma ramp_mono: "x \<le> (y :: rat) \<Longrightarrow> math_round (1000 + x * 29000) \<le> math_round (1000 + y * 29000)"
  by (rule math_round_mono) simp

lemma over_bounds:
  assumes "thr \<le> w" "w \<le> 100" "thr \<le> (100 :: rat)"
  shows "0 \<le> (w - thr) / max (100 - thr) 1" "(w - thr) / max (100 - thr) 1 \<le> 1"
  using assms by (auto simp: divide_le_eq max_def)

lemma throttle_no_reading [simp]: "throttleDelayMs None thr = 0"
  by (simp add: throttleDelayMs_def)

lemma throttle_blocked:
  "nz (regainMinutes u) > 0 \<Longrightarrow>
     0 < throttleDelayMs (Some u) thr \<and> throttleDelayMs (Some u) thr \<le> 300000"
  by (simp add: throttleDelayMs_def)

lemma throttle_below:
  "nz (regainMinutes u) \<le> 0 \<Longrightarrow> worstPct u < thr \<Longrightarrow> throttleDelayMs (Some u) thr = 0"
  by (simp add: throttleDelayMs_def)

lemma throttle_ramp:
  assumes "nz (regainMinutes u) \<le> 0" "thr \<le> worstPct u" "worstPct u \<le> 100"
  shows "1000 \<le> throttleDelayMs (Some u) thr" "throttleDelayMs (Some u) thr \<le> 30000"
proof -
  let ?o = "(worstPct u - thr) / max (100 - thr) 1"
  have o: "0 \<le> ?o" "?o \<le> 1"
    using over_bounds [of thr "worstPct u"] assms by auto
  have eq: "throttleDelayMs (Some u) thr = of_int (math_round (1000 + ?o * 29000))"
    using assms by (simp add: throttleDelayMs_def Let_def not_less)
  show "1000 \<le> throttleDelayMs (Some u) thr"
    unfolding eq using ramp_bounds(1) [OF o] by (metis of_int_le_iff of_int_numeral)
  show "throttleDelayMs (Some u) thr \<le> 30000"
    unfolding eq using ramp_bounds(2) [OF o] by (metis of_int_le_iff of_int_numeral)
qed

lemma throttle_mono_worst:
  assumes "nz (regainMinutes u) \<le> 0" "w \<le> w'" "0 \<le> w"
  shows "throttleDelayMs (Some (u\<lparr>worstPct := w\<rparr>)) thr \<le> throttleDelayMs (Some (u\<lparr>worstPct := w'\<rparr>)) thr"
proof (cases "w < thr")
  case True
  then have z: "throttleDelayMs (Some (u\<lparr>worstPct := w\<rparr>)) thr = 0"
    using assms by (simp add: throttleDelayMs_def)
  show ?thesis
  proof (cases "w' < thr")
    case False
    have "0 \<le> (w' - thr) / max (100 - thr) 1"
      using False by auto
    then have "0 \<le> math_round (1000 + (w' - thr) / max (100 - thr) 1 * 29000)"
      by (rule ramp_nonneg)
    then show ?thesis
      unfolding z using assms False by (simp add: throttleDelayMs_def Let_def)
  qed (use assms z in \<open>simp add: throttleDelayMs_def\<close>)
next
  case False
  then have "(w - thr) / max (100 - thr) 1 \<le> (w' - thr) / max (100 - thr) 1"
    using assms by (intro divide_right_mono) auto
  then have "math_round (1000 + (w - thr) / max (100 - thr) 1 * 29000)
      \<le> math_round (1000 + (w' - thr) / max (100 - thr) 1 * 29000)"
    by (rule ramp_mono)
  then show ?thesis
    using assms False by (simp add: throttleDelayMs_def Let_def)
qed

end
