(* ===== verification/Meta_Types.thy ===== *)
theory Meta_Types
  imports Api_Errors Rate_Limit "HOL-Library.Monad_Syntax"
begin

text \<open>
  \<open>src/lib/meta/types.ts\<close>: the schemas of Meta's responses as functions from JSON to a record, or
  \<open>None\<close> where \<open>parse\<close> throws a \<open>ZodError\<close>, and the timestamp normalisation. Zod's URL check and
  \<open>Date.parse\<close> are parameters.
\<close>

section \<open>Field combinators\<close>

definition req_field :: "string \<Rightarrow> (json \<Rightarrow> 'a option) \<Rightarrow> json \<Rightarrow> 'a option" where
  "req_field k check j = Option.bind (jfield k j) check"

text \<open>\<open>.optional()\<close>: absent is fine, anything present (also \<open>null\<close>) is checked.\<close>

definition opt_field :: "string \<Rightarrow> (json \<Rightarrow> 'a option) \<Rightarrow> json \<Rightarrow> 'a option option" where
  "opt_field k check j =
     (case jfield k j of None \<Rightarrow> Some None | Some v \<Rightarrow> map_option Some (check v))"

fun z_object :: "json \<Rightarrow> json option" where
  "z_object (JObj kvs) = Some (JObj kvs)"
| "z_object _ = None"

fun z_string :: "json \<Rightarrow> jstr option" where
  "z_string (JStr s) = Some s"
| "z_string _ = None"

definition z_nonempty_string :: "json \<Rightarrow> jstr option" where
  "z_nonempty_string j =
     (case z_string j of Some s \<Rightarrow> if s = [] then None else Some s | None \<Rightarrow> None)"

definition z_url :: "(jstr \<Rightarrow> bool) \<Rightarrow> json \<Rightarrow> jstr option" where
  "z_url is_url j =
     (case z_string j of Some s \<Rightarrow> if is_url s then Some s else None | None \<Rightarrow> None)"

fun z_number :: "json \<Rightarrow> rat option" where
  "z_number (JNum v) = Some v"
| "z_number _ = None"

text \<open>\<open>z.number().int().nonnegative()\<close>; Infinity is not an integer.\<close>

definition z_count :: "json \<Rightarrow> int option" where
  "z_count j =
     (case z_number j of
        Some v \<Rightarrow> if js_finite v \<and> of_int \<lfloor>v\<rfloor> = v \<and> 0 \<le> v then Some \<lfloor>v\<rfloor> else None
      | None \<Rightarrow> None)"

definition z_array :: "(json \<Rightarrow> 'a option) \<Rightarrow> json \<Rightarrow> 'a list option" where
  "z_array check j = (case j of JArr xs \<Rightarrow> those (map check xs) | _ \<Rightarrow> None)"

section \<open>Media\<close>

datatype media_type = IMAGE | VIDEO | CAROUSEL_ALBUM

definition media_type_name :: "media_type \<Rightarrow> string" where
  "media_type_name t =
     (case t of IMAGE \<Rightarrow> ''IMAGE'' | VIDEO \<Rightarrow> ''VIDEO'' | CAROUSEL_ALBUM \<Rightarrow> ''CAROUSEL_ALBUM'')"

definition media_type_of :: "jstr \<Rightarrow> media_type option" where
  "media_type_of s =
     (if s = js ''IMAGE'' then Some IMAGE else if s = js ''VIDEO'' then Some VIDEO
      else if s = js ''CAROUSEL_ALBUM'' then Some CAROUSEL_ALBUM else None)"

lemma media_type_of_name [simp]: "media_type_of (js (media_type_name t)) = Some t"
  by (cases t) (simp_all add: media_type_of_def media_type_name_def)

definition metaMediaTypeSchema :: "json \<Rightarrow> media_type option" where
  "metaMediaTypeSchema j = Option.bind (z_string j) media_type_of"

record meta_media =
  mm_id :: jstr
  mm_media_type :: media_type
  mm_timestamp :: jstr
  mm_permalink :: jstr
  mm_media_url :: "jstr option"
  mm_caption :: "jstr option"
  mm_like_count :: "int option"
  mm_comments_count :: "int option"

definition metaMediaSchema :: "(jstr \<Rightarrow> bool) \<Rightarrow> json \<Rightarrow> meta_media option" where
  "metaMediaSchema is_url j = do {
     ob \<leftarrow> z_object j;
     i \<leftarrow> req_field ''id'' z_nonempty_string ob;
     t \<leftarrow> req_field ''media_type'' metaMediaTypeSchema ob;
     ts \<leftarrow> req_field ''timestamp'' z_nonempty_string ob;
     p \<leftarrow> req_field ''permalink'' (z_url is_url) ob;
     mu \<leftarrow> opt_field ''media_url'' (z_url is_url) ob;
     c \<leftarrow> opt_field ''caption'' z_string ob;
     lc \<leftarrow> opt_field ''like_count'' z_count ob;
     cc \<leftarrow> opt_field ''comments_count'' z_count ob;
     Some \<lparr>mm_id = i, mm_media_type = t, mm_timestamp = ts, mm_permalink = p, mm_media_url = mu,
       mm_caption = c, mm_like_count = lc, mm_comments_count = cc\<rparr>
   }"

section \<open>Envelopes\<close>

record meta_cursors =
  cu_before :: "jstr option"
  cu_after :: "jstr option"

record meta_paging =
  pg_cursors :: "meta_cursors option"
  pg_next :: "jstr option"
  pg_previous :: "jstr option"

record meta_media_response =
  mr_data :: "meta_media list"
  mr_paging :: "meta_paging option"

definition metaCursorsSchema :: "json \<Rightarrow> meta_cursors option" where
  "metaCursorsSchema j = do {
     ob \<leftarrow> z_object j;
     b \<leftarrow> opt_field ''before'' z_string ob;
     a \<leftarrow> opt_field ''after'' z_string ob;
     Some \<lparr>cu_before = b, cu_after = a\<rparr>
   }"

definition metaPagingSchema :: "(jstr \<Rightarrow> bool) \<Rightarrow> json \<Rightarrow> meta_paging option" where
  "metaPagingSchema is_url j = do {
     ob \<leftarrow> z_object j;
     c \<leftarrow> opt_field ''cursors'' metaCursorsSchema ob;
     n \<leftarrow> opt_field ''next'' (z_url is_url) ob;
     p \<leftarrow> opt_field ''previous'' (z_url is_url) ob;
     Some \<lparr>pg_cursors = c, pg_next = n, pg_previous = p\<rparr>
   }"

definition metaMediaResponseSchema :: "(jstr \<Rightarrow> bool) \<Rightarrow> json \<Rightarrow> meta_media_response option" where
  "metaMediaResponseSchema is_url j = do {
     ob \<leftarrow> z_object j;
     d \<leftarrow> req_field ''data'' (z_array (metaMediaSchema is_url)) ob;
     p \<leftarrow> opt_field ''paging'' (metaPagingSchema is_url) ob;
     Some \<lparr>mr_data = d, mr_paging = p\<rparr>
   }"

definition metaHashtagSearchResponseSchema :: "json \<Rightarrow> jstr list option" where
  "metaHashtagSearchResponseSchema j = do {
     ob \<leftarrow> z_object j;
     req_field ''data'' (z_array (\<lambda>x. Option.bind (z_object x) (req_field ''id'' z_nonempty_string))) ob
   }"

record meta_error =
  me_message :: jstr
  me_type :: "jstr option"
  me_code :: "rat option"
  me_subcode :: "rat option"
  me_fbtrace :: "jstr option"

definition metaErrorResponseSchema :: "json \<Rightarrow> meta_error option" where
  "metaErrorResponseSchema j = do {
     ob \<leftarrow> z_object j;
     req_field ''error'' (\<lambda>x. do {
       e \<leftarrow> z_object x;
       m \<leftarrow> req_field ''message'' z_string e;
       t \<leftarrow> opt_field ''type'' z_string e;
       c \<leftarrow> opt_field ''code'' z_number e;
       s \<leftarrow> opt_field ''error_subcode'' z_number e;
       f \<leftarrow> opt_field ''fbtrace_id'' z_string e;
       Some \<lparr>me_message = m, me_type = t, me_code = c, me_subcode = s, me_fbtrace = f\<rparr>
     }) ob
   }"

definition MEDIA_FIELDS :: "string list" where
  "MEDIA_FIELDS = [''id'', ''media_type'', ''timestamp'', ''permalink'', ''media_url'', ''caption'',
     ''like_count'', ''comments_count'']"

section \<open>Timestamps\<close>

text \<open>\<open>raw.replace(/([+-]\d{2})(\d{2})$/, '$1:$2')\<close>\<close>

definition normalize_offset :: "jstr \<Rightarrow> jstr" where
  "normalize_offset raw =
     (case drop (length raw - 5) raw of
        [s, a, b, c, d] \<Rightarrow>
          if (s = 43 \<or> s = 45) \<and> ascii_digit a \<and> ascii_digit b \<and> ascii_digit c \<and> ascii_digit d
          then take (length raw - 5) raw @ [s, a, b, 58, c, d] else raw
      | _ \<Rightarrow> raw)"

definition parseMetaTimestamp :: "(jstr \<Rightarrow> time option) \<Rightarrow> jstr \<Rightarrow> js_error + time" where
  "parseMetaTimestamp date_parse raw =
     (case date_parse (normalize_offset raw) of
        None \<Rightarrow> Inl (Plain_Error (js ''unparseable Meta timestamp: '' @ raw))
      | Some t \<Rightarrow> Inr t)"

lemma normalize_offset_insert:
  assumes "s = 43 \<or> s = 45" "ascii_digit a" "ascii_digit b" "ascii_digit c" "ascii_digit d"
  shows "normalize_offset (p @ [s, a, b, c, d]) = p @ [s, a, b, 58, c, d]"
  using assms by (simp add: normalize_offset_def)

lemma normalize_offset_colon:
  "normalize_offset (p @ [s, a, b, 58, c, d]) = p @ [s, a, b, 58, c, d]"
proof -
  have "drop (Suc (length p)) (p @ [s, a, b, 58, c, d]) = [a, b, 58, c, d]"
    by (simp add: drop_append [of _ p])
  then show ?thesis
    by (simp add: normalize_offset_def ascii_digit_def)
qed

section \<open>The stored form of a media object\<close>

text \<open>
  What \<open>recordPage\<close> writes to the \<open>jsonb\<close> column: the object the schema returned, properties that
  are \<open>undefined\<close> left out. Reading it back through the schema gives the same object.
\<close>

definition opt_member :: "string \<Rightarrow> ('a \<Rightarrow> json) \<Rightarrow> 'a option \<Rightarrow> (jstr \<times> json) list" where
  "opt_member k f v = (case v of None \<Rightarrow> [] | Some x \<Rightarrow> [(js k, f x)])"

definition media_to_json :: "meta_media \<Rightarrow> json" where
  "media_to_json m = JObj (
     [(js ''id'', JStr (mm_id m)), (js ''media_type'', JStr (js (media_type_name (mm_media_type m)))),
      (js ''timestamp'', JStr (mm_timestamp m)), (js ''permalink'', JStr (mm_permalink m))]
     @ opt_member ''media_url'' JStr (mm_media_url m) @ opt_member ''caption'' JStr (mm_caption m)
     @ opt_member ''like_count'' (\<lambda>n. JNum (of_int n)) (mm_like_count m)
     @ opt_member ''comments_count'' (\<lambda>n. JNum (of_int n)) (mm_comments_count m))"

definition count_ok :: "int option \<Rightarrow> bool" where
  "count_ok c = (case c of None \<Rightarrow> True | Some n \<Rightarrow> 0 \<le> n \<and> js_finite (of_int n))"

definition media_valid :: "(jstr \<Rightarrow> bool) \<Rightarrow> meta_media \<Rightarrow> bool" where
  "media_valid is_url m \<longleftrightarrow>
     mm_id m \<noteq> [] \<and> mm_timestamp m \<noteq> [] \<and> is_url (mm_permalink m)
     \<and> (\<forall>u. mm_media_url m = Some u \<longrightarrow> is_url u)
     \<and> count_ok (mm_like_count m) \<and> count_ok (mm_comments_count m)"

lemma z_count_ok: "z_count j = Some n \<Longrightarrow> 0 \<le> n \<and> js_finite (of_int n)"
  by (auto simp: z_count_def split: option.splits if_splits)

lemma z_count_of_int: "0 \<le> n \<Longrightarrow> js_finite (of_int n) \<Longrightarrow> z_count (JNum (of_int n)) = Some n"
  by (simp add: z_count_def)

lemma req_fieldD: "req_field k c j = Some x \<Longrightarrow> \<exists>v. c v = Some x"
  by (auto simp: req_field_def bind_eq_Some_conv)

lemma opt_fieldD: "opt_field k c j = Some (Some x) \<Longrightarrow> \<exists>v. c v = Some x"
  by (auto simp: opt_field_def split: option.splits)

lemma z_nonempty_stringD: "z_nonempty_string v = Some s \<Longrightarrow> s \<noteq> []"
  by (auto simp: z_nonempty_string_def split: option.splits if_splits)

lemma z_urlD: "z_url is_url v = Some s \<Longrightarrow> is_url s"
  by (auto simp: z_url_def split: option.splits if_splits)

lemma count_ok_field: "opt_field k z_count j = Some c \<Longrightarrow> count_ok c"
  by (cases c) (auto simp: count_ok_def dest!: opt_fieldD z_count_ok)

lemma url_field: "opt_field k (z_url is_url) j = Some c \<Longrightarrow> c = Some u \<Longrightarrow> is_url u"
  by (auto dest!: opt_fieldD z_urlD)

lemma metaMediaSchema_valid:
  assumes "metaMediaSchema is_url j = Some m"
  shows "media_valid is_url m"
proof -
  from assms obtain ob where
    "req_field ''id'' z_nonempty_string ob = Some (mm_id m)"
    "req_field ''timestamp'' z_nonempty_string ob = Some (mm_timestamp m)"
    "req_field ''permalink'' (z_url is_url) ob = Some (mm_permalink m)"
    "opt_field ''media_url'' (z_url is_url) ob = Some (mm_media_url m)"
    "opt_field ''like_count'' z_count ob = Some (mm_like_count m)"
    "opt_field ''comments_count'' z_count ob = Some (mm_comments_count m)"
    by (auto simp: metaMediaSchema_def bind_eq_Some_conv)
  then show ?thesis
    unfolding media_valid_def
    by (blast dest: req_fieldD z_nonempty_stringD z_urlD count_ok_field url_field)
qed

lemma map_of_opt_member:
  "map_of (opt_member k f v) (js k') = (if k = k' then map_option f v else None)"
  by (simp add: opt_member_def split: option.split)

lemma map_of_rev_opt_member [simp]:
  "rev (opt_member k f v) = opt_member k f v"
  by (simp add: opt_member_def split: option.split)

lemma jfield_media_to_json:
  "jfield ''id'' (media_to_json m) = Some (JStr (mm_id m))"
  "jfield ''media_type'' (media_to_json m) = Some (JStr (js (media_type_name (mm_media_type m))))"
  "jfield ''timestamp'' (media_to_json m) = Some (JStr (mm_timestamp m))"
  "jfield ''permalink'' (media_to_json m) = Some (JStr (mm_permalink m))"
  "jfield ''media_url'' (media_to_json m) = map_option JStr (mm_media_url m)"
  "jfield ''caption'' (media_to_json m) = map_option JStr (mm_caption m)"
  "jfield ''like_count'' (media_to_json m) = map_option (\<lambda>n. JNum (of_int n)) (mm_like_count m)"
  "jfield ''comments_count'' (media_to_json m) = map_option (\<lambda>n. JNum (of_int n)) (mm_comments_count m)"
  by (simp_all add: media_to_json_def map_add_def map_of_opt_member split: option.split)

lemma metaMediaSchema_to_json:
  assumes "media_valid is_url m"
  shows "metaMediaSchema is_url (media_to_json m) = Some m"
proof -
  have o: "z_object (media_to_json m) = Some (media_to_json m)"
    by (simp add: media_to_json_def)
  have "opt_field ''media_url'' (z_url is_url) (media_to_json m) = Some (mm_media_url m)"
    "opt_field ''caption'' z_string (media_to_json m) = Some (mm_caption m)"
    "opt_field ''like_count'' z_count (media_to_json m) = Some (mm_like_count m)"
    "opt_field ''comments_count'' z_count (media_to_json m) = Some (mm_comments_count m)"
    using assms by (auto simp: opt_field_def jfield_media_to_json media_valid_def z_url_def
        count_ok_def z_count_of_int split: option.split)
  then show ?thesis
    using assms unfolding metaMediaSchema_def o
    by (simp add: req_field_def jfield_media_to_json z_nonempty_string_def z_url_def
        media_valid_def metaMediaTypeSchema_def)
qed

text \<open>
  One element that fails its schema fails the whole response, and a property the schema does not
  name is dropped from the object.
\<close>

lemma those_None: "x \<in> set xs \<Longrightarrow> f x = None \<Longrightarrow> those (map f xs) = None"
  by (induction xs) (auto split: option.splits)

lemma response_one_bad_item:
  assumes "jfield ''data'' j = Some (JArr items)" "x \<in> set items" "metaMediaSchema is_url x = None"
  shows "metaMediaResponseSchema is_url j = None"
  using those_None [of x items "metaMediaSchema is_url", OF assms(2,3)] assms(1)
  by (cases j) (auto simp: metaMediaResponseSchema_def req_field_def z_array_def)

lemma jfield_extra:
  "k \<noteq> js k' \<Longrightarrow> jfield k' (JObj ((k, v) # kvs)) = jfield k' (JObj kvs)"
  by (simp add: map_add_def split: option.split)

lemma metaMediaSchema_drops_unknown:
  assumes "k \<notin> js ` set MEDIA_FIELDS"
  shows "metaMediaSchema is_url (JObj ((k, v) # kvs)) = metaMediaSchema is_url (JObj kvs)"
proof -
  have "jfield f (JObj ((k, v) # kvs)) = jfield f (JObj kvs)" if "f \<in> set MEDIA_FIELDS" for f
    using assms that by (intro jfield_extra) auto
  then show ?thesis
    by (simp add: metaMediaSchema_def req_field_def opt_field_def MEDIA_FIELDS_def del: jfield.simps)
qed

end
