(* ===== verification/Models.thy ===== *)
theory Models
  imports Meta_Types
begin

text \<open>
  The Postgres schema of \<open>src/api/models/\<close>: one record per table, the enums, the database as the
  lists of its rows, and the invariant its constraints express (primary keys, unique indexes,
  foreign keys). Row identifiers come from \<open>gen_random_uuid()\<close>; the model draws them from a
  counter \<open>db_next\<close>, so that they never repeat.
\<close>

section \<open>Enums\<close>

datatype media_source = Top | Recent
datatype sync_run_type = SYNC_TOP_HASHTAG_MEDIA | SYNC_RECENT_HASHTAG_MEDIA
datatype sync_run_status = Running | Succeeded | Partial | Failed
datatype asset_status = Pending | Downloading | Stored | Asset_Failed | Skipped

section \<open>Rows\<close>

record hashtag =
  ht_id :: uuid
  ht_name :: jstr
  ht_igHashtagId :: "jstr option"
  ht_igHashtagIdResolvedAt :: "time option"
  ht_isActive :: bool
  ht_trackFrom :: "time option"
  ht_trackUntil :: "time option"
  ht_topSyncEnabled :: bool
  ht_recentSyncEnabled :: bool
  ht_maxMediaPerSync :: "int option"
  ht_lastTopSyncedAt :: "time option"
  ht_lastRecentSyncedAt :: "time option"
  ht_lastSyncError :: "jstr option"
  ht_consecutiveFailures :: nat
  ht_notes :: "jstr option"
  ht_createdAt :: time
  ht_updatedAt :: time

record sync_run =
  sr_id :: uuid
  sr_type :: sync_run_type
  sr_status :: sync_run_status
  sr_hashtagId :: uuid
  sr_triggeredByMessageId :: "jstr option"
  sr_startedAt :: time
  sr_finishedAt :: "time option"
  sr_durationMs :: "int option"
  sr_pagesFetched :: nat
  sr_itemsSeen :: nat
  sr_itemsNew :: nat
  sr_itemsUpdated :: nat
  sr_metricsRecorded :: nat
  sr_assetJobsEnqueued :: nat
  sr_hitItemCap :: nat
  sr_rateLimitSnapshot :: "rate_limit_usage option"
  sr_lastCursor :: "jstr option"
  sr_attempts :: nat
  sr_error :: "jstr option"
  sr_createdAt :: time

record data_point =
  dp_id :: uuid
  dp_syncRunId :: uuid
  dp_hashtagId :: uuid
  dp_igMediaId :: jstr
  dp_source :: media_source
  dp_pageNumber :: nat
  dp_positionInPage :: nat
  dp_positionOverall :: nat
  dp_payload :: json
  dp_fetchedAt :: time

record media_post =
  mp_id :: uuid
  mp_igMediaId :: jstr
  mp_hashtagId :: uuid
  mp_mediaType :: media_type
  mp_caption :: "jstr option"
  mp_permalink :: jstr
  mp_sourceMediaUrl :: "jstr option"
  mp_captionHashtags :: "jstr list"
  mp_captionMentions :: "jstr list"
  mp_takenAt :: time
  mp_firstSeenAt :: time
  mp_lastSeenAt :: time
  mp_contentUpdatedAt :: "time option"
  mp_likeCount :: "int option"
  mp_commentsCount :: "int option"
  mp_metricsUpdatedAt :: "time option"
  mp_firstSeenVia :: media_source
  mp_seenInTop :: bool
  mp_seenInRecent :: bool
  mp_bestTopRank :: "nat option"
  mp_isStale :: bool
  mp_createdAt :: time
  mp_updatedAt :: time

datatype tracked_field =
    F_likeCount | F_commentsCount | F_rank | F_caption | F_permalink | F_mediaType

record post_history =
  ph_id :: uuid
  ph_mediaId :: uuid
  ph_hashtagId :: uuid
  ph_syncRunId :: uuid
  ph_igMediaId :: jstr
  ph_mediaType :: media_type
  ph_caption :: "jstr option"
  ph_permalink :: jstr
  ph_captionHashtags :: "jstr list"
  ph_captionMentions :: "jstr list"
  ph_likeCount :: "int option"
  ph_commentsCount :: "int option"
  ph_rank :: "nat option"
  ph_source :: media_source
  ph_changedFields :: "tracked_field list"
  ph_capturedAt :: time

record media_asset =
  ma_id :: uuid
  ma_mediaId :: uuid
  ma_status :: asset_status
  ma_sha256 :: "jstr option"
  ma_storageKey :: "jstr option"
  ma_storageProvider :: "string option"
  ma_contentType :: "jstr option"
  ma_sizeBytes :: "nat option"
  ma_fetchedFromUrl :: "jstr option"
  ma_attempts :: nat
  ma_lastError :: "jstr option"
  ma_downloadStartedAt :: "time option"
  ma_storedAt :: "time option"
  ma_createdAt :: time
  ma_updatedAt :: time

record database =
  db_hashtags :: "hashtag list"
  db_syncRuns :: "sync_run list"
  db_dataPoints :: "data_point list"
  db_mediaPosts :: "media_post list"
  db_history :: "post_history list"
  db_assets :: "media_asset list"
  db_next :: uuid

definition empty_db :: database where
  "empty_db = \<lparr>db_hashtags = [], db_syncRuns = [], db_dataPoints = [], db_mediaPosts = [],
     db_history = [], db_assets = [], db_next = 0\<rparr>"

section \<open>Constraints\<close>

definition hashtag_ids :: "database \<Rightarrow> uuid set" where
  "hashtag_ids db = ht_id ` set (db_hashtags db)"

definition run_ids :: "database \<Rightarrow> uuid set" where
  "run_ids db = sr_id ` set (db_syncRuns db)"

definition post_ids :: "database \<Rightarrow> uuid set" where
  "post_ids db = mp_id ` set (db_mediaPosts db)"

definition pg_violation :: "string \<Rightarrow> js_error" where
  "pg_violation what = Plain_Error (js what)"

text \<open>\<open>integer\<close> columns are \<open>int4\<close>.\<close>

definition int4_ok :: "int \<Rightarrow> bool" where
  "int4_ok n \<longleftrightarrow> - 2147483648 \<le> n \<and> n \<le> 2147483647"

definition int4_opt_ok :: "int option \<Rightarrow> bool" where
  "int4_opt_ok n = (case n of None \<Rightarrow> True | Some i \<Rightarrow> int4_ok i)"

definition resolved_names :: "database \<Rightarrow> jstr list" where
  "resolved_names db = map (\<lambda>h. the (ht_igHashtagId h)) (filter (\<lambda>h. ht_igHashtagId h \<noteq> None) (db_hashtags db))"

definition unique_ok :: "database \<Rightarrow> bool" where
  "unique_ok db \<longleftrightarrow>
     distinct (map ht_name (db_hashtags db)) \<and> distinct (resolved_names db)
     \<and> distinct (map mp_igMediaId (db_mediaPosts db))
     \<and> distinct (map (\<lambda>h. (ph_mediaId h, ph_syncRunId h)) (db_history db))
     \<and> distinct (map ma_mediaId (db_assets db))"

definition keys_ok :: "database \<Rightarrow> bool" where
  "keys_ok db \<longleftrightarrow>
     distinct (map ht_id (db_hashtags db)) \<and> distinct (map sr_id (db_syncRuns db))
     \<and> distinct (map dp_id (db_dataPoints db)) \<and> distinct (map mp_id (db_mediaPosts db))
     \<and> distinct (map ph_id (db_history db)) \<and> distinct (map ma_id (db_assets db))"

definition fresh_ok :: "database \<Rightarrow> bool" where
  "fresh_ok db \<longleftrightarrow>
     (\<forall>h \<in> set (db_hashtags db). ht_id h < db_next db)
     \<and> (\<forall>r \<in> set (db_syncRuns db). sr_id r < db_next db)
     \<and> (\<forall>d \<in> set (db_dataPoints db). dp_id d < db_next db)
     \<and> (\<forall>m \<in> set (db_mediaPosts db). mp_id m < db_next db)
     \<and> (\<forall>h \<in> set (db_history db). ph_id h < db_next db)
     \<and> (\<forall>a \<in> set (db_assets db). ma_id a < db_next db)"

definition refs_ok :: "database \<Rightarrow> bool" where
  "refs_ok db \<longleftrightarrow>
     (\<forall>r \<in> set (db_syncRuns db). sr_hashtagId r \<in> hashtag_ids db)
     \<and> (\<forall>d \<in> set (db_dataPoints db). dp_syncRunId d \<in> run_ids db \<and> dp_hashtagId d \<in> hashtag_ids db)
     \<and> (\<forall>m \<in> set (db_mediaPosts db). mp_hashtagId m \<in> hashtag_ids db)
     \<and> (\<forall>h \<in> set (db_history db). ph_mediaId h \<in> post_ids db \<and> ph_hashtagId h \<in> hashtag_ids db
          \<and> ph_syncRunId h \<in> run_ids db)
     \<and> (\<forall>a \<in> set (db_assets db). ma_mediaId a \<in> post_ids db)"

definition db_wf :: "database \<Rightarrow> bool" where
  "db_wf db \<longleftrightarrow> unique_ok db \<and> keys_ok db \<and> fresh_ok db \<and> refs_ok db"

lemmas wf_defs = db_wf_def unique_ok_def keys_ok_def fresh_ok_def refs_ok_def
lemmas id_defs = hashtag_ids_def run_ids_def post_ids_def

lemma empty_db_wf [simp]: "db_wf empty_db"
  by (simp add: wf_defs empty_db_def resolved_names_def)

lemma db_wf_parts:
  assumes "db_wf db"
  shows "unique_ok db" "keys_ok db" "fresh_ok db" "refs_ok db"
  using assms by (simp_all add: db_wf_def)

text \<open>
  Facts a table update has to supply to keep the invariant: an update of rows that leaves the
  keys and references alone, one lemma per table.
\<close>

lemma db_wf_update_runs:
  assumes "db_wf db" and "\<And>r. sr_id (f r) = sr_id r" and "\<And>r. sr_hashtagId (f r) = sr_hashtagId r"
  shows "db_wf (db\<lparr>db_syncRuns := update_where p f (db_syncRuns db)\<rparr>)"
  using assms
  by (auto simp: wf_defs id_defs resolved_names_def map_update_where_same
      image_update_where_same ball_update_where)

lemma db_wf_update_assets:
  assumes "db_wf db" and "\<And>a. ma_id (f a) = ma_id a" and "\<And>a. ma_mediaId (f a) = ma_mediaId a"
  shows "db_wf (db\<lparr>db_assets := update_where p f (db_assets db)\<rparr>)"
  using assms
  by (auto simp: wf_defs id_defs resolved_names_def map_update_where_same
      image_update_where_same ball_update_where)

lemma db_wf_update_posts:
  assumes "db_wf db" and "\<And>m. mp_id (f m) = mp_id m" and "\<And>m. mp_igMediaId (f m) = mp_igMediaId m"
    and "\<And>m. mp_hashtagId (f m) = mp_hashtagId m"
  shows "db_wf (db\<lparr>db_mediaPosts := update_where p f (db_mediaPosts db)\<rparr>)"
  using assms
  by (auto simp: wf_defs id_defs resolved_names_def map_update_where_same
      image_update_where_same ball_update_where)

lemma resolved_update_where_same:
  assumes "\<And>h. ht_igHashtagId (f h) = ht_igHashtagId h"
  shows "resolved_names (db\<lparr>db_hashtags := update_where p f (db_hashtags db)\<rparr>) = resolved_names db"
proof -
  have "map (\<lambda>h. the (ht_igHashtagId h)) (filter (\<lambda>h. ht_igHashtagId h \<noteq> None) (update_where p f t)) =
      map (\<lambda>h. the (ht_igHashtagId h)) (filter (\<lambda>h. ht_igHashtagId h \<noteq> None) t)" for t
    using assms by (induction t) (auto simp: update_where_def)
  then show ?thesis by (simp add: resolved_names_def)
qed

lemma db_wf_update_hashtags:
  assumes "db_wf db" and "\<And>h. ht_id (f h) = ht_id h" and "\<And>h. ht_name (f h) = ht_name h"
    and "\<And>h. ht_igHashtagId (f h) = ht_igHashtagId h"
  shows "db_wf (db\<lparr>db_hashtags := update_where p f (db_hashtags db)\<rparr>)"
  using assms
  by (auto simp: wf_defs id_defs map_update_where_same resolved_update_where_same
      image_update_where_same ball_update_where)

end
