(* ===== verification/Uuid.thy ===== *)
theory Uuid
  imports Json
begin

text \<open>
  The text form of a UUID: what \<open>z.string().uuid()\<close> accepts and what Postgres and
  \<open>randomUUID\<close> print. A UUID is the 128-bit number it denotes.
\<close>

fun hex_show :: "nat \<Rightarrow> nat \<Rightarrow> jstr" where
  "hex_show 0 n = []"
| "hex_show (Suc k) n = hex_show k (n div 16) @ [hex_digit (n mod 16)]"

fun hex_read :: "nat \<Rightarrow> jstr \<Rightarrow> nat option" where
  "hex_read acc [] = Some acc"
| "hex_read acc (c # s) =
     (case hex_value c of None \<Rightarrow> None | Some d \<Rightarrow> hex_read (acc * 16 + d) s)"

definition uuid_show :: "uuid \<Rightarrow> jstr" where
  "uuid_show n =
     (let h = hex_show 32 n
      in take 8 h @ [45] @ take 4 (drop 8 h) @ [45] @ take 4 (drop 12 h) @ [45]
         @ take 4 (drop 16 h) @ [45] @ drop 20 h)"

text \<open>\<open>/^[0-9a-f]{8}-[0-9a-f]{4}-[0-9a-f]{4}-[0-9a-f]{4}-[0-9a-f]{12}$/i\<close>, and the value.\<close>

definition uuid_parse :: "jstr \<Rightarrow> uuid option" where
  "uuid_parse s =
     (if length s = 36 \<and> s ! 8 = 45 \<and> s ! 13 = 45 \<and> s ! 18 = 45 \<and> s ! 23 = 45
      then hex_read 0 (take 8 s @ take 4 (drop 9 s) @ take 4 (drop 14 s) @ take 4 (drop 19 s) @ drop 24 s)
      else None)"

definition uuid_limit :: nat where
  "uuid_limit = 2 ^ 128"

lemma length_hex_show [simp]: "length (hex_show k n) = k"
  by (induction k arbitrary: n) auto

lemma hex_read_append:
  "hex_read acc (s @ t) = (case hex_read acc s of None \<Rightarrow> None | Some a \<Rightarrow> hex_read a t)"
  by (induction s arbitrary: acc) (auto split: option.split)

lemma hex_read_show: "hex_read acc (hex_show k n) = Some (acc * 16 ^ k + n mod 16 ^ k)"
proof (induction k arbitrary: n acc)
  case (Suc k)
  have "n mod 16 ^ Suc k = (n div 16 mod 16 ^ k) * 16 + n mod 16"
    by (metis mod_mult2_eq mult.commute power_Suc2 power_commutes)
  then show ?case
    by (simp add: Suc hex_read_append hex_value_digit algebra_simps)
qed simp

lemma split_32: "take 8 h @ take 4 (drop 8 h) @ take 4 (drop 12 h) @ take 4 (drop 16 h) @ drop 20 h = h"
proof -
  have step: "take k (drop m h) @ drop (k + m) h = drop m h" for k m
    using append_take_drop_id [of k "drop m h"] by (simp add: drop_drop)
  show ?thesis
    using step [of 4 16] step [of 4 12] step [of 4 8] append_take_drop_id [of 8 h] by simp
qed

lemma uuid_parse_groups:
  assumes "length a = 8" "length b = 4" "length c = 4" "length d = 4" "length e = 12"
  shows "uuid_parse (a @ [45] @ b @ [45] @ c @ [45] @ d @ [45] @ e) = hex_read 0 (a @ b @ c @ d @ e)"
  using assms by (simp add: uuid_parse_def nth_append)

lemma uuid_parse_show: "n < uuid_limit \<Longrightarrow> uuid_parse (uuid_show n) = Some n"
proof -
  assume "n < uuid_limit"
  then have "n mod 16 ^ 32 = n" by (simp add: uuid_limit_def)
  then have "hex_read 0 (hex_show 32 n) = Some n"
    using hex_read_show [of 0 32 n] by simp
  then show ?thesis
    unfolding uuid_show_def Let_def
    by (subst uuid_parse_groups) (simp_all add: split_32)
qed

lemma hex_value_bound: "hex_value c = Some d \<Longrightarrow> d < 16"
  by (auto simp: hex_value_def split: if_splits)

lemma hex_read_bound: "hex_read acc s = Some n \<Longrightarrow> n < (acc + 1) * 16 ^ length s"
proof (induction s arbitrary: acc)
  case (Cons c s)
  then obtain d where d: "hex_value c = Some d" "hex_read (acc * 16 + d) s = Some n"
    by (auto split: option.splits)
  have "n < (acc * 16 + d + 1) * 16 ^ length s"
    using Cons.IH d(2) by blast
  also have "\<dots> \<le> ((acc + 1) * 16) * 16 ^ length s"
    using hex_value_bound [OF d(1)] by (intro mult_right_mono) auto
  finally show ?case by (simp add: algebra_simps)
qed simp

lemma uuid_parse_bound: "uuid_parse s = Some n \<Longrightarrow> n < uuid_limit"
proof -
  assume "uuid_parse s = Some n"
  then have "length s = 36" "hex_read 0 (take 8 s @ take 4 (drop 9 s) @ take 4 (drop 14 s)
      @ take 4 (drop 19 s) @ drop 24 s) = Some n"
    by (auto simp: uuid_parse_def split: if_splits)
  then obtain t where "length t = 32" "hex_read 0 t = Some n"
    using that [of "take 8 s @ take 4 (drop 9 s) @ take 4 (drop 14 s) @ take 4 (drop 19 s) @ drop 24 s"]
    by simp
  then show ?thesis
    using hex_read_bound [of 0 t n] by (simp add: uuid_limit_def)
qed

end
