(* ===== verification/Jobs.thy ===== *)
theory Jobs
  imports Models Uuid
begin

text \<open>
  \<open>src/types/jobs.ts\<close>: the queue message contracts, their JSON form and the schema the consuming
  side parses them with. A UUID field is the number it denotes.
\<close>

datatype job_type = Dispatch_Due_Syncs | Sync_Top | Sync_Recent | Download_Asset

datatype job =
    Dispatch_Job media_source
  | Sync_Top_Job uuid
  | Sync_Recent_Job uuid
  | Download_Job uuid

fun type_of_job :: "job \<Rightarrow> job_type" where
  "type_of_job (Dispatch_Job _) = Dispatch_Due_Syncs"
| "type_of_job (Sync_Top_Job _) = Sync_Top"
| "type_of_job (Sync_Recent_Job _) = Sync_Recent"
| "type_of_job (Download_Job _) = Download_Asset"

definition job_type_name :: "job_type \<Rightarrow> string" where
  "job_type_name t =
     (case t of Dispatch_Due_Syncs \<Rightarrow> ''DISPATCH_DUE_SYNCS'' | Sync_Top \<Rightarrow> ''SYNC_TOP_HASHTAG_MEDIA''
      | Sync_Recent \<Rightarrow> ''SYNC_RECENT_HASHTAG_MEDIA'' | Download_Asset \<Rightarrow> ''DOWNLOAD_MEDIA_ASSET'')"

definition kind_name :: "media_source \<Rightarrow> string" where
  "kind_name k = (case k of Top \<Rightarrow> ''top'' | Recent \<Rightarrow> ''recent'')"

definition z_kind :: "json \<Rightarrow> media_source option" where
  "z_kind j =
     (case z_string j of
        None \<Rightarrow> None
      | Some s \<Rightarrow> if s = js ''top'' then Some Top else if s = js ''recent'' then Some Recent else None)"

definition z_uuid :: "json \<Rightarrow> uuid option" where
  "z_uuid j = Option.bind (z_string j) uuid_parse"

text \<open>The discriminated union: the literal in \<open>type\<close> selects the object schema.\<close>

definition jobSchema :: "json \<Rightarrow> job option" where
  "jobSchema j = do {
     ob \<leftarrow> z_object j;
     t \<leftarrow> req_field ''type'' z_string ob;
     if t = js (job_type_name Dispatch_Due_Syncs)
     then map_option Dispatch_Job (req_field ''kind'' z_kind ob)
     else if t = js (job_type_name Sync_Top)
     then map_option Sync_Top_Job (req_field ''hashtagId'' z_uuid ob)
     else if t = js (job_type_name Sync_Recent)
     then map_option Sync_Recent_Job (req_field ''hashtagId'' z_uuid ob)
     else if t = js (job_type_name Download_Asset)
     then map_option Download_Job (req_field ''mediaId'' z_uuid ob)
     else None
   }"

text \<open>\<open>JSON.stringify(job)\<close>.\<close>

fun job_members :: "job \<Rightarrow> (string \<times> jstr) list" where
  "job_members (Dispatch_Job k) =
     [(''type'', js (job_type_name Dispatch_Due_Syncs)), (''kind'', js (kind_name k))]"
| "job_members (Sync_Top_Job i) =
     [(''type'', js (job_type_name Sync_Top)), (''hashtagId'', uuid_show i)]"
| "job_members (Sync_Recent_Job i) =
     [(''type'', js (job_type_name Sync_Recent)), (''hashtagId'', uuid_show i)]"
| "job_members (Download_Job i) =
     [(''type'', js (job_type_name Download_Asset)), (''mediaId'', uuid_show i)]"

definition stringify_job :: "job \<Rightarrow> jstr" where
  "stringify_job j = stringify_object (job_members j)"

definition syncKindFor :: "job_type \<Rightarrow> media_source option" where
  "syncKindFor t = (case t of Sync_Top \<Rightarrow> Some Top | Sync_Recent \<Rightarrow> Some Recent | _ \<Rightarrow> None)"

fun job_ids_ok :: "job \<Rightarrow> bool" where
  "job_ids_ok (Dispatch_Job _) = True"
| "job_ids_ok (Sync_Top_Job i) = (i < uuid_limit)"
| "job_ids_ok (Sync_Recent_Job i) = (i < uuid_limit)"
| "job_ids_ok (Download_Job i) = (i < uuid_limit)"

lemma z_uuid_show [simp]: "i < uuid_limit \<Longrightarrow> z_uuid (JStr (uuid_show i)) = Some i"
  by (simp add: z_uuid_def uuid_parse_show)

lemma jobSchema_members:
  "job_ids_ok j \<Longrightarrow> jobSchema (JObj (map (\<lambda>(k, v). (js k, JStr v)) (job_members j))) = Some j"
proof (cases j)
  case (Dispatch_Job k)
  then show ?thesis
    by (cases k) (simp_all add: jobSchema_def req_field_def job_type_name_def kind_name_def z_kind_def)
qed (simp_all add: jobSchema_def req_field_def job_type_name_def)

lemma jobSchema_ids_ok: "jobSchema j = Some job \<Longrightarrow> job_ids_ok job"
  by (auto simp: jobSchema_def req_field_def z_uuid_def bind_eq_Some_conv dest: uuid_parse_bound
      split: if_splits)

text \<open>\<open>safeParse(JSON.parse(body))\<close>.\<close>

definition parseBody :: "jstr \<Rightarrow> job option" where
  "parseBody body = Option.bind (json_parse body) jobSchema"

lemma parseBody_stringify: "job_ids_ok j \<Longrightarrow> parseBody (stringify_job j) = Some j"
  by (simp add: parseBody_def stringify_job_def json_parse_stringify jobSchema_members)

end
