(* ===== verification/Queue_Port.thy ===== *)
theory Queue_Port
  imports Jobs "HOL-Library.Multiset"
begin

text \<open>
  \<open>src/ports/Queue.ts\<close>: a message, and the contract of a queue driver as a locale. \<open>held\<close> gives the
  job behind a live receipt handle, \<open>stock\<close> the jobs that can still be delivered, \<open>dead\<close> the jobs
  parked in the dead-letter queue.
\<close>

record 'h queue_message =
  qm_id :: 'h
  qm_job :: job
  qm_receiptHandle :: 'h
  qm_receivedCount :: nat

locale queue_sink =
  fixes ack :: "'h queue_message \<Rightarrow> 's \<Rightarrow> (js_error + unit) \<times> 's"
    and nack :: "'h queue_message \<Rightarrow> 's \<Rightarrow> (js_error + unit) \<times> 's"
    and held :: "'s \<Rightarrow> 'h \<Rightarrow> job option"
    and stock :: "'s \<Rightarrow> job multiset"
  assumes ack_held: "fst (ack m s) = Inr () \<Longrightarrow> held (snd (ack m s)) = (held s)(qm_receiptHandle m := None)"
    and ack_stock: "stock (snd (ack m s)) = stock s"
    and ack_rejected: "fst (ack m s) = Inl e \<Longrightarrow> held (snd (ack m s)) = held s"
    and nack_held: "fst (nack m s) = Inr () \<Longrightarrow> held (snd (nack m s)) = (held s)(qm_receiptHandle m := None)"
    and nack_stock: "fst (nack m s) = Inr () \<Longrightarrow>
      stock (snd (nack m s)) = stock s + mset_set (set_option (held s (qm_receiptHandle m)))"
    and nack_rejected: "fst (nack m s) = Inl e \<Longrightarrow>
      held (snd (nack m s)) = held s \<and> stock (snd (nack m s)) = stock s"
begin

text \<open>A handle that is not live any more has no effect.\<close>

lemma stale_ack:
  assumes "held s (qm_receiptHandle m) = None"
  shows "held (snd (ack m s)) = held s \<and> stock (snd (ack m s)) = stock s"
proof (cases "fst (ack m s)")
  case (Inr u)
  then show ?thesis using assms ack_held [of m s] ack_stock by (auto simp: fun_upd_idem)
qed (use ack_rejected ack_stock in auto)

lemma stale_nack:
  assumes "held s (qm_receiptHandle m) = None"
  shows "held (snd (nack m s)) = held s \<and> stock (snd (nack m s)) = stock s"
proof (cases "fst (nack m s)")
  case (Inr u)
  then show ?thesis using assms nack_held [of m s] nack_stock [of m s] by (auto simp: fun_upd_idem)
qed (use nack_rejected in auto)

lemma nack_live:
  assumes "held s (qm_receiptHandle m) = Some j" "fst (nack m s) = Inr ()"
  shows "stock (snd (nack m s)) = add_mset j (stock s)"
  using assms nack_stock by simp

end

text \<open>The producing and receiving side.\<close>

locale job_queue = queue_sink ack nack held stock
  for ack :: "'h queue_message \<Rightarrow> 's \<Rightarrow> (js_error + unit) \<times> 's"
    and nack :: "'h queue_message \<Rightarrow> 's \<Rightarrow> (js_error + unit) \<times> 's"
    and held :: "'s \<Rightarrow> 'h \<Rightarrow> job option"
    and stock :: "'s \<Rightarrow> job multiset" +
  fixes enqueue :: "job \<Rightarrow> 's \<Rightarrow> (js_error + 'h) \<times> 's"
    and receive :: "nat \<Rightarrow> 's \<Rightarrow> 'h queue_message list \<times> 's"
    and dead :: "'s \<Rightarrow> job multiset"
    and ok :: "'s \<Rightarrow> bool"
  assumes enqueue_stock: "fst (enqueue j s) = Inr i \<Longrightarrow> stock (snd (enqueue j s)) = add_mset j (stock s)"
    and enqueue_held: "held (snd (enqueue j s)) = held s"
    and enqueue_rejected: "fst (enqueue j s) = Inl e \<Longrightarrow> snd (enqueue j s) = s"
    and receive_bound: "length (fst (receive n s)) \<le> n"
    and receive_held: "ok s \<Longrightarrow> m \<in> set (fst (receive n s)) \<Longrightarrow>
      held s (qm_receiptHandle m) = None \<and> held (snd (receive n s)) (qm_receiptHandle m) = Some (qm_job m)"
    and receive_keeps: "ok s \<Longrightarrow> held s h = Some j \<Longrightarrow> held (snd (receive n s)) h = Some j"
    and receive_stock: "stock s + dead s =
      mset (map qm_job (fst (receive n s))) + stock (snd (receive n s)) + dead (snd (receive n s))"
    and ok_steps: "ok s \<Longrightarrow> ok (snd (ack m s))" "ok s \<Longrightarrow> ok (snd (nack m s))"
      "ok s \<Longrightarrow> ok (snd (enqueue j s))" "ok s \<Longrightarrow> ok (snd (receive n s))"
begin

text \<open>A delivery that is returned is back in stock, one that is acknowledged is gone for good.\<close>

lemma receive_then_nack:
  assumes "ok s" "m \<in> set (fst (receive n s))" "fst (nack m (snd (receive n s))) = Inr ()"
  shows "stock (snd (nack m (snd (receive n s)))) = add_mset (qm_job m) (stock (snd (receive n s)))"
    and "held (snd (nack m (snd (receive n s)))) (qm_receiptHandle m) = None"
  using assms receive_held [OF assms(1,2)] nack_live [of "snd (receive n s)" m "qm_job m"]
    nack_held [of m "snd (receive n s)"] by auto

lemma receive_then_ack:
  assumes "ok s" "m \<in> set (fst (receive n s))" "fst (ack m (snd (receive n s))) = Inr ()"
  shows "stock (snd (ack m (snd (receive n s)))) = stock (snd (receive n s))"
    and "held (snd (ack m (snd (receive n s)))) (qm_receiptHandle m) = None"
  using assms ack_stock ack_held [of m "snd (receive n s)"] by auto

end

end
