(* ===== verification/Memory_Queue.thy ===== *)
theory Memory_Queue
  imports Queue_Port
begin

text \<open>
  \<open>src/adapters/local/InMemoryQueue.ts\<close>: the in-memory driver. Its three private collections are
  lists of envelopes; the map \<open>inFlight\<close> is keyed by the envelope's own receipt handle.
  \<open>randomUUID()\<close> draws from \<open>mq_next\<close>, so no identifier repeats.
\<close>

section \<open>State and operations\<close>

record envelope =
  en_id :: uuid
  en_job :: job
  en_receiptHandle :: uuid
  en_receivedCount :: nat
  en_visibleAt :: time

record mem_queue =
  mq_messages :: "envelope list"
  mq_inFlight :: "envelope list"
  mq_deadLetters :: "envelope list"
  mq_closed :: bool
  mq_next :: uuid

record mem_config =
  mc_visibilityTimeoutMs :: int
  mc_maxReceiveCount :: nat

definition mem_default :: mem_config where
  "mem_default = \<lparr>mc_visibilityTimeoutMs = 300000, mc_maxReceiveCount = 3\<rparr>"

definition mem_empty :: mem_queue where
  "mem_empty = \<lparr>mq_messages = [], mq_inFlight = [], mq_deadLetters = [], mq_closed = False, mq_next = 0\<rparr>"

definition mem_enqueue :: "time \<Rightarrow> int \<Rightarrow> job \<Rightarrow> mem_queue \<Rightarrow> (js_error + uuid) \<times> mem_queue" where
  "mem_enqueue now delaySeconds job q =
     (if mq_closed q then (Inl (Plain_Error (js ''queue is closed'')), q)
      else (Inr (mq_next q),
            q\<lparr>mq_messages := mq_messages q @
                 [\<lparr>en_id = mq_next q, en_job = job, en_receiptHandle = Suc (mq_next q),
                   en_receivedCount = 0, en_visibleAt = now + delaySeconds * 1000\<rparr>],
              mq_next := Suc (Suc (mq_next q))\<rparr>))"

text \<open>\<open>Promise.all\<close> over the synchronous bodies: each push happens, the first rejection wins.\<close>

fun mem_enqueueBatch ::
  "time \<Rightarrow> int \<Rightarrow> job list \<Rightarrow> mem_queue \<Rightarrow> (js_error + uuid list) \<times> mem_queue" where
  "mem_enqueueBatch now d [] q = (Inr [], q)"
| "mem_enqueueBatch now d (j # jobs) q =
     (case mem_enqueue now d j q of
        (Inl e, q1) \<Rightarrow> (Inl e, snd (mem_enqueueBatch now d jobs q1))
      | (Inr i, q1) \<Rightarrow>
          (case mem_enqueueBatch now d jobs q1 of
             (Inl e, q2) \<Rightarrow> (Inl e, q2)
           | (Inr ids, q2) \<Rightarrow> (Inr (i # ids), q2)))"

text \<open>
  The \<open>for\<close> loop of one poll over \<open>messages\<close>: what stays, what is delivered (with its fresh
  handle), what goes to the dead letters, and the next identifier.
\<close>

fun mem_scan ::
  "mem_config \<Rightarrow> time \<Rightarrow> nat \<Rightarrow> uuid \<Rightarrow> envelope list \<Rightarrow>
     envelope list \<times> envelope list \<times> envelope list \<times> uuid" where
  "mem_scan c now room next [] = ([], [], [], next)"
| "mem_scan c now room next (e # es) =
     (if room = 0 then (e # es, [], [], next)
      else if en_visibleAt e > now
      then (case mem_scan c now room next es of (keep, out, dead, n) \<Rightarrow> (e # keep, out, dead, n))
      else
        let e1 = e\<lparr>en_receivedCount := en_receivedCount e + 1\<rparr>
        in if en_receivedCount e1 > mc_maxReceiveCount c
           then (case mem_scan c now room next es of (keep, out, dead, n) \<Rightarrow> (keep, out, e1 # dead, n))
           else
             let e2 = e1\<lparr>en_receiptHandle := next, en_visibleAt := now + mc_visibilityTimeoutMs c\<rparr>
             in (case mem_scan c now (room - 1) (Suc next) es of
                   (keep, out, dead, n) \<Rightarrow> (keep, e2 # out, dead, n)))"

definition message_of :: "envelope \<Rightarrow> uuid queue_message" where
  "message_of e = \<lparr>qm_id = en_id e, qm_job = en_job e, qm_receiptHandle = en_receiptHandle e,
     qm_receivedCount = en_receivedCount e\<rparr>"

text \<open>One iteration of the polling loop.\<close>

definition mem_poll ::
  "mem_config \<Rightarrow> time \<Rightarrow> nat \<Rightarrow> mem_queue \<Rightarrow> uuid queue_message list \<times> mem_queue" where
  "mem_poll c now maxMessages q =
     (case mem_scan c now maxMessages (mq_next q) (mq_messages q) of
        (keep, out, dead, n) \<Rightarrow>
          (map message_of out,
           q\<lparr>mq_messages := keep, mq_inFlight := mq_inFlight q @ out,
             mq_deadLetters := mq_deadLetters q @ dead, mq_next := n\<rparr>))"

text \<open>
  The loop. \<open>clock k\<close> is \<open>Date.now()\<close> in the k-th iteration (the call that sets the deadline reads
  the clock before, the test after the scan reads it again: \<open>later k\<close>), and \<open>others k\<close> is what the
  other tasks of the process do to the queue while the k-th 100 ms timer runs.
\<close>

record poll_env =
  pe_start :: time
  pe_clock :: "nat \<Rightarrow> time"
  pe_later :: "nat \<Rightarrow> time"
  pe_others :: "nat \<Rightarrow> mem_queue \<Rightarrow> mem_queue"

fun mem_receive_from ::
  "nat \<Rightarrow> mem_config \<Rightarrow> poll_env \<Rightarrow> time \<Rightarrow> nat \<Rightarrow> nat \<Rightarrow> mem_queue \<Rightarrow>
     (uuid queue_message list \<times> mem_queue) option" where
  "mem_receive_from 0 c env deadline maxMessages k q = None"
| "mem_receive_from (Suc fuel) c env deadline maxMessages k q =
     (case mem_poll c (pe_clock env k) maxMessages q of
        (ready, q1) \<Rightarrow>
          if ready \<noteq> [] \<or> mq_closed q1 \<or> pe_later env k \<ge> deadline then Some (ready, q1)
          else mem_receive_from fuel c env deadline maxMessages (Suc k) (pe_others env k q1))"

definition mem_receive ::
  "nat \<Rightarrow> mem_config \<Rightarrow> poll_env \<Rightarrow> nat \<Rightarrow> int \<Rightarrow> mem_queue \<Rightarrow>
     (uuid queue_message list \<times> mem_queue) option" where
  "mem_receive fuel c env maxMessages waitTimeSeconds q =
     mem_receive_from fuel c env (pe_start env + waitTimeSeconds * 1000) maxMessages 0 q"

definition mem_ack :: "uuid queue_message \<Rightarrow> mem_queue \<Rightarrow> mem_queue" where
  "mem_ack m q = q\<lparr>mq_inFlight := filter (\<lambda>e. en_receiptHandle e \<noteq> qm_receiptHandle m) (mq_inFlight q)\<rparr>"

definition mem_find :: "uuid \<Rightarrow> mem_queue \<Rightarrow> envelope option" where
  "mem_find h q = find_row (\<lambda>e. en_receiptHandle e = h) (mq_inFlight q)"

definition mem_nack :: "time \<Rightarrow> uuid queue_message \<Rightarrow> mem_queue \<Rightarrow> mem_queue" where
  "mem_nack now m q =
     (case mem_find (qm_receiptHandle m) q of
        None \<Rightarrow> q
      | Some e \<Rightarrow>
          q\<lparr>mq_inFlight := filter (\<lambda>e. en_receiptHandle e \<noteq> qm_receiptHandle m) (mq_inFlight q),
            mq_messages := mq_messages q @ [e\<lparr>en_visibleAt := now\<rparr>]\<rparr>)"

definition mem_extendVisibility :: "time \<Rightarrow> uuid queue_message \<Rightarrow> int \<Rightarrow> mem_queue \<Rightarrow> mem_queue" where
  "mem_extendVisibility now m seconds q =
     q\<lparr>mq_inFlight := update_where (\<lambda>e. en_receiptHandle e = qm_receiptHandle m)
          (\<lambda>e. e\<lparr>en_visibleAt := now + seconds * 1000\<rparr>) (mq_inFlight q)\<rparr>"

definition mem_close :: "mem_queue \<Rightarrow> mem_queue" where
  "mem_close q = q\<lparr>mq_closed := True\<rparr>"

definition mem_depth :: "mem_queue \<Rightarrow> nat" where
  "mem_depth q = length (mq_messages q)"

definition mem_inFlightCount :: "mem_queue \<Rightarrow> nat" where
  "mem_inFlightCount q = length (mq_inFlight q)"

definition mem_deadLetterCount :: "mem_queue \<Rightarrow> nat" where
  "mem_deadLetterCount q = length (mq_deadLetters q)"

section \<open>One scan\<close>

text \<open>The five ways an iteration can go, as an induction rule.\<close>

definition received :: "envelope \<Rightarrow> envelope" where
  "received e = e\<lparr>en_receivedCount := en_receivedCount e + 1\<rparr>"

definition delivered :: "mem_config \<Rightarrow> time \<Rightarrow> uuid \<Rightarrow> envelope \<Rightarrow> envelope" where
  "delivered c now h e =
     e\<lparr>en_receivedCount := en_receivedCount e + 1, en_receiptHandle := h,
       en_visibleAt := now + mc_visibilityTimeoutMs c\<rparr>"

lemma received_sel [simp]:
  "en_id (received e) = en_id e" "en_job (received e) = en_job e"
  "en_receivedCount (received e) = en_receivedCount e + 1"
  by (simp_all add: received_def)

lemma delivered_sel [simp]:
  "en_id (delivered c now h e) = en_id e" "en_job (delivered c now h e) = en_job e"
  "en_receivedCount (delivered c now h e) = en_receivedCount e + 1"
  "en_receiptHandle (delivered c now h e) = h"
  "en_visibleAt (delivered c now h e) = now + mc_visibilityTimeoutMs c"
  by (simp_all add: delivered_def)

lemma mem_scan_induct [consumes 1, case_names Nil Full Hidden Dead Deliver]:
  assumes "mem_scan c now room n es = (keep, out, dead, n')"
    and "\<And>room n. P room n [] [] [] [] n"
    and "\<And>n e es. P 0 n (e # es) (e # es) [] [] n"
    and "\<And>room n e es keep out dead n'. P room n es keep out dead n' \<Longrightarrow> 0 < room \<Longrightarrow>
      now < en_visibleAt e \<Longrightarrow> P room n (e # es) (e # keep) out dead n'"
    and "\<And>room n e es keep out dead n'. P room n es keep out dead n' \<Longrightarrow> 0 < room \<Longrightarrow>
      en_visibleAt e \<le> now \<Longrightarrow> mc_maxReceiveCount c < en_receivedCount e + 1 \<Longrightarrow>
      P room n (e # es) keep out (received e # dead) n'"
    and "\<And>room n e es keep out dead n'. P room (Suc n) es keep out dead n' \<Longrightarrow>
      en_visibleAt e \<le> now \<Longrightarrow> en_receivedCount e + 1 \<le> mc_maxReceiveCount c \<Longrightarrow>
      P (Suc room) n (e # es) keep (delivered c now n e # out) dead n'"
  shows "P room n es keep out dead n'"
  using assms(1)
proof (induction es arbitrary: room n keep out dead n')
  case Nil
  then show ?case using assms(2) by simp
next
  case (Cons e es)
  consider "room = 0" | "0 < room" "now < en_visibleAt e"
    | "0 < room" "en_visibleAt e \<le> now" "mc_maxReceiveCount c < en_receivedCount e + 1"
    | r where "room = Suc r" "en_visibleAt e \<le> now" "en_receivedCount e + 1 \<le> mc_maxReceiveCount c"
    by (metis gr0_conv_Suc gr_zeroI linorder_not_less)
  then show ?case
  proof cases
    case 1
    then show ?thesis using Cons.prems by (auto intro: assms(3))
  next
    case 2
    then show ?thesis
      using Cons.prems Cons.IH assms(4) by (auto split: prod.splits)
  next
    case 3
    obtain k' o' d' m' where sc: "mem_scan c now room n es = (k', o', d', m')"
      by (metis prod_cases4)
    show ?thesis
      using assms(5) [OF Cons.IH [OF sc] 3] Cons.prems 3 sc by (simp add: received_def)
  next
    case (4 r)
    obtain k' o' d' m' where sc: "mem_scan c now r (Suc n) es = (k', o', d', m')"
      by (metis prod_cases4)
    show ?thesis
      using assms(6) [OF Cons.IH [OF sc] 4(2,3)] Cons.prems 4 sc by (auto simp: delivered_def)
  qed
qed

lemma mem_scan_room: "mem_scan c now room n es = (keep, out, dead, n') \<Longrightarrow> length out \<le> room"
  by (induction rule: mem_scan_induct) auto

lemma mem_scan_jobs:
  "mem_scan c now room n es = (keep, out, dead, n') \<Longrightarrow>
     mset (map en_job es) = mset (map en_job keep) + mset (map en_job out) + mset (map en_job dead)"
  by (induction rule: mem_scan_induct) auto

lemma mem_scan_ids:
  "mem_scan c now room n es = (keep, out, dead, n') \<Longrightarrow>
     mset (map en_id es) = mset (map en_id keep) + mset (map en_id out) + mset (map en_id dead)"
  by (induction rule: mem_scan_induct) auto

lemma mem_scan_handles:
  "mem_scan c now room n es = (keep, out, dead, n') \<Longrightarrow>
     map en_receiptHandle out = [n..<n'] \<and> n' = n + length out"
  by (induction rule: mem_scan_induct) (simp_all del: upt_Suc add: upt_conv_Cons)

text \<open>Counts: every delivery is within the ceiling, every dead letter is over it.\<close>

lemma mem_scan_counts:
  "mem_scan c now room n es = (keep, out, dead, n') \<Longrightarrow>
     set keep \<subseteq> set es \<and> (\<forall>e \<in> set out. 1 \<le> en_receivedCount e \<and> en_receivedCount e \<le> mc_maxReceiveCount c)
     \<and> (\<forall>e \<in> set dead. mc_maxReceiveCount c < en_receivedCount e)"
  by (induction rule: mem_scan_induct) auto

text \<open>Where a delivered or a dead envelope comes from.\<close>

lemma mem_scan_origin:
  "mem_scan c now room n es = (keep, out, dead, n') \<Longrightarrow>
     (\<forall>e \<in> set out. \<exists>e0 \<in> set es. \<exists>h. e = delivered c now h e0 \<and> en_visibleAt e0 \<le> now)
     \<and> (\<forall>e \<in> set dead. \<exists>e0 \<in> set es. e = received e0 \<and> en_visibleAt e0 \<le> now)"
  by (induction rule: mem_scan_induct) auto

text \<open>Nothing is overlooked: when there was room to spare, no visible message is left behind.\<close>

lemma mem_scan_complete:
  "mem_scan c now room n es = (keep, out, dead, n') \<Longrightarrow> length out < room \<Longrightarrow>
     \<forall>e \<in> set keep. now < en_visibleAt e"
  by (induction rule: mem_scan_induct) auto


section \<open>Polling\<close>

lemma mem_poll_split:
  assumes "mem_poll c now k q = (ready, q')"
  obtains keep out dead n where "mem_scan c now k (mq_next q) (mq_messages q) = (keep, out, dead, n)"
    "ready = map message_of out"
    "q' = q\<lparr>mq_messages := keep, mq_inFlight := mq_inFlight q @ out,
             mq_deadLetters := mq_deadLetters q @ dead, mq_next := n\<rparr>"
  using assms by (cases "mem_scan c now k (mq_next q) (mq_messages q)") (auto simp: mem_poll_def)

text \<open>
  The invariant: live handles are distinct and were drawn from the counter, a waiting message has
  not used up its deliveries, a message in flight is within the ceiling, a dead one is over it.
\<close>

definition mem_ok :: "mem_config \<Rightarrow> mem_queue \<Rightarrow> bool" where
  "mem_ok c q \<longleftrightarrow>
     distinct (map en_receiptHandle (mq_inFlight q))
     \<and> (\<forall>e \<in> set (mq_inFlight q). en_receiptHandle e < mq_next q)
     \<and> (\<forall>e \<in> set (mq_messages q). en_receivedCount e \<le> mc_maxReceiveCount c)
     \<and> (\<forall>e \<in> set (mq_inFlight q). 1 \<le> en_receivedCount e \<and> en_receivedCount e \<le> mc_maxReceiveCount c)
     \<and> (\<forall>e \<in> set (mq_deadLetters q). en_receivedCount e = mc_maxReceiveCount c + 1)"

lemma mem_empty_ok [simp]: "mem_ok c mem_empty"
  by (simp add: mem_ok_def mem_empty_def)

lemma mem_enqueue_ok: "mem_ok c q \<Longrightarrow> mem_ok c (snd (mem_enqueue now d j q))"
  by (auto simp: mem_ok_def mem_enqueue_def)

lemma mem_ack_ok: "mem_ok c q \<Longrightarrow> mem_ok c (mem_ack m q)"
  by (auto simp: mem_ok_def mem_ack_def distinct_map_filter)

lemma mem_nack_ok: "mem_ok c q \<Longrightarrow> mem_ok c (mem_nack now m q)"
  by (auto simp: mem_ok_def mem_nack_def mem_find_def distinct_map_filter dest!: find_row_SomeD
      split: option.split)

lemma mem_extend_ok: "mem_ok c q \<Longrightarrow> mem_ok c (mem_extendVisibility now m s q)"
  by (auto simp: mem_ok_def mem_extendVisibility_def map_update_where_same ball_update_where)

lemma mem_poll_ok:
  assumes "mem_ok c q"
  shows "mem_ok c (snd (mem_poll c now k q))"
proof (cases "mem_poll c now k q")
  case (Pair ready q')
  then obtain keep out dead n where
    scan: "mem_scan c now k (mq_next q) (mq_messages q) = (keep, out, dead, n)"
    and q': "q' = q\<lparr>mq_messages := keep, mq_inFlight := mq_inFlight q @ out,
             mq_deadLetters := mq_deadLetters q @ dead, mq_next := n\<rparr>"
    by (rule mem_poll_split)
  note h = mem_scan_handles [OF scan]
  have hs: "en_receiptHandle ` set out = {mq_next q..<n}"
    using h by (metis set_map set_upt)
  have "distinct (map en_receiptHandle out)" using h by simp
  moreover have "\<forall>e \<in> set out. mq_next q \<le> en_receiptHandle e \<and> en_receiptHandle e < n"
    using hs by (metis atLeastLessThan_iff imageI)
  moreover have "\<forall>e \<in> set dead. en_receivedCount e = mc_maxReceiveCount c + 1"
    using mem_scan_origin [OF scan] mem_scan_counts [OF scan] assms
    by (fastforce simp: mem_ok_def)
  ultimately show ?thesis
    using assms mem_scan_counts [OF scan] h
    by (fastforce simp: mem_ok_def Pair q' distinct_append)
qed

section \<open>The queue contract\<close>

definition mem_held :: "mem_queue \<Rightarrow> uuid \<Rightarrow> job option" where
  "mem_held q h = map_option en_job (mem_find h q)"

definition mem_stock :: "mem_queue \<Rightarrow> job multiset" where
  "mem_stock q = mset (map en_job (mq_messages q))"

definition mem_dead :: "mem_queue \<Rightarrow> job multiset" where
  "mem_dead q = mset (map en_job (mq_deadLetters q))"

lemma find_row_filter_ne: "find_row (\<lambda>e. k e = x) (filter (\<lambda>e. k e \<noteq> y) t) =
    (if x = y then None else find_row (\<lambda>e. k e = x) t)"
  by (induction t) (auto simp: find_row_Cons)

lemma mem_held_ack: "mem_held (mem_ack m q) = (mem_held q)(qm_receiptHandle m := None)"
  by (rule ext) (simp add: mem_held_def mem_find_def mem_ack_def find_row_filter_ne)

lemma mem_held_nack: "mem_held (mem_nack now m q) = (mem_held q)(qm_receiptHandle m := None)"
  by (rule ext)
    (auto simp: mem_held_def mem_find_def mem_nack_def find_row_filter_ne split: option.split)

lemma mem_stock_nack:
  "mem_stock (mem_nack now m q) = mem_stock q + mset_set (set_option (mem_held q (qm_receiptHandle m)))"
  by (auto simp: mem_stock_def mem_held_def mem_nack_def split: option.split)

lemma mem_poll_held:
  assumes "mem_ok c q" "mem_poll c now k q = (ready, q')"
  shows "m \<in> set ready \<Longrightarrow> mem_held q (qm_receiptHandle m) = None
      \<and> mem_held q' (qm_receiptHandle m) = Some (qm_job m)"
    and "mem_held q h = Some j \<Longrightarrow> mem_held q' h = Some j"
proof -
  obtain keep out dead n where
    scan: "mem_scan c now k (mq_next q) (mq_messages q) = (keep, out, dead, n)"
    and r: "ready = map message_of out"
    and q': "q' = q\<lparr>mq_messages := keep, mq_inFlight := mq_inFlight q @ out,
             mq_deadLetters := mq_deadLetters q @ dead, mq_next := n\<rparr>"
    using assms(2) by (rule mem_poll_split)
  note h = mem_scan_handles [OF scan]
  have dist: "distinct (map en_receiptHandle out)" using h by simp
  have fresh: "find_row (\<lambda>x. en_receiptHandle x = en_receiptHandle e) (mq_inFlight q) = None"
    if "e \<in> set out" for e
  proof -
    have "mq_next q \<le> en_receiptHandle e"
      using h that by (metis atLeastLessThan_iff image_eqI set_map set_upt)
    then show ?thesis
      using assms(1) by (auto simp: find_row_None_iff mem_ok_def)
  qed
  show "m \<in> set ready \<Longrightarrow> mem_held q (qm_receiptHandle m) = None
      \<and> mem_held q' (qm_receiptHandle m) = Some (qm_job m)"
    using fresh dist
    by (auto simp: r q' message_of_def mem_held_def mem_find_def find_row_append find_row_unique)
  show "mem_held q h = Some j \<Longrightarrow> mem_held q' h = Some j"
    by (auto simp: q' mem_held_def mem_find_def find_row_append)
qed

lemma mem_poll_stock:
  assumes "mem_poll c now k q = (ready, q')"
  shows "mem_stock q + mem_dead q = mset (map qm_job ready) + mem_stock q' + mem_dead q'"
proof -
  obtain keep out dead n where
    scan: "mem_scan c now k (mq_next q) (mq_messages q) = (keep, out, dead, n)"
    and r: "ready = map message_of out"
    and q': "q' = q\<lparr>mq_messages := keep, mq_inFlight := mq_inFlight q @ out,
             mq_deadLetters := mq_deadLetters q @ dead, mq_next := n\<rparr>"
    using assms by (rule mem_poll_split)
  have "map qm_job ready = map en_job out"
    by (simp add: r message_of_def)
  then show ?thesis
    using mem_scan_jobs [OF scan] by (simp add: q' mem_stock_def mem_dead_def)
qed

lemma mem_poll_bound: "length (fst (mem_poll c now k q)) \<le> k"
proof (cases "mem_poll c now k q")
  case (Pair ready q')
  then show ?thesis
    by (rule mem_poll_split) (simp add: Pair mem_scan_room)
qed

lemma mem_enqueue_view:
  "fst (mem_enqueue now d j q) = Inr i \<Longrightarrow> mem_stock (snd (mem_enqueue now d j q)) = add_mset j (mem_stock q)"
  "mem_held (snd (mem_enqueue now d j q)) = mem_held q"
  "fst (mem_enqueue now d j q) = Inl e \<Longrightarrow> snd (mem_enqueue now d j q) = q"
  by (auto simp: mem_enqueue_def mem_stock_def mem_held_def mem_find_def fun_eq_iff split: if_splits)

lemma mem_stock_ack: "mem_stock (mem_ack m q) = mem_stock q"
  by (simp add: mem_stock_def mem_ack_def)

interpretation mem_q: job_queue
  "\<lambda>m q. (Inr (), mem_ack m q)" "\<lambda>m q. (Inr (), mem_nack now m q)" mem_held mem_stock
  "mem_enqueue now d" "mem_poll c now" mem_dead "mem_ok c"
  for now d c
proof (unfold_locales, goal_cases)
  case (11 s m n)
  then show ?case by (cases "mem_poll c now n s") (simp add: mem_poll_held(1))
next
  case (12 s h j n)
  then show ?case by (cases "mem_poll c now n s") (simp add: mem_poll_held(2))
next
  case (13 s n)
  then show ?case by (cases "mem_poll c now n s") (simp add: mem_poll_stock)
qed (simp_all add: mem_held_ack mem_held_nack mem_stock_nack mem_stock_ack mem_poll_bound mem_ack_ok
    mem_nack_ok mem_enqueue_ok mem_poll_ok mem_enqueue_view)

end
