(* ===== verification/Memory_Queue_Steps.thy ===== *)
theory Memory_Queue_Steps
  imports Memory_Queue
begin

text \<open>
  The in-memory queue over time: the step relation of its operations, what holds in every
  reachable state, the end of long polling, and the fate of a message that keeps failing.
\<close>

section \<open>Steps\<close>

text \<open>Each operation, at any time, on any message.\<close>

inductive mem_step :: "mem_config \<Rightarrow> mem_queue \<Rightarrow> mem_queue \<Rightarrow> bool" for c where
  enqueue: "mem_step c q (snd (mem_enqueue now d j q))"
| poll: "mem_step c q (snd (mem_poll c now k q))"
| ack: "mem_step c q (mem_ack m q)"
| nack: "mem_step c q (mem_nack now m q)"
| extend: "mem_step c q (mem_extendVisibility now m s q)"
| close: "mem_step c q (mem_close q)"

inductive_cases mem_stepE: "mem_step c q q'"

abbreviation mem_reachable :: "mem_config \<Rightarrow> mem_queue \<Rightarrow> bool" where
  "mem_reachable c \<equiv> (mem_step c)\<^sup>*\<^sup>* mem_empty"

lemma mem_close_ok: "mem_ok c q \<Longrightarrow> mem_ok c (mem_close q)"
  by (simp add: mem_ok_def mem_close_def)

lemmas mem_ok_steps = mem_enqueue_ok mem_poll_ok mem_ack_ok mem_nack_ok mem_extend_ok mem_close_ok

lemma mem_step_ok: "mem_step c q q' \<Longrightarrow> mem_ok c q \<Longrightarrow> mem_ok c q'"
  by (induction rule: mem_step.induct) (auto intro: mem_ok_steps)

lemma mem_reachable_ok: "mem_reachable c q \<Longrightarrow> mem_ok c q"
  by (induction rule: rtranclp_induct) (auto intro: mem_step_ok)

section \<open>Conservation\<close>

definition mem_ids :: "mem_queue \<Rightarrow> uuid multiset" where
  "mem_ids q = mset (map en_id (mq_messages q)) + mset (map en_id (mq_inFlight q))
     + mset (map en_id (mq_deadLetters q))"

lemma mem_ids_enqueue:
  "mem_ids (snd (mem_enqueue now d j q)) =
     (if mq_closed q then mem_ids q else add_mset (mq_next q) (mem_ids q))"
  by (simp add: mem_ids_def mem_enqueue_def)

lemma mem_ids_poll: "mem_ids (snd (mem_poll c now k q)) = mem_ids q"
proof (cases "mem_poll c now k q")
  case (Pair ready q')
  then show ?thesis
  proof (rule mem_poll_split)
    fix keep out dead n
    assume "mem_scan c now k (mq_next q) (mq_messages q) = (keep, out, dead, n)"
    from mem_scan_ids [OF this] show "q' = q\<lparr>mq_messages := keep, mq_inFlight := mq_inFlight q @ out,
        mq_deadLetters := mq_deadLetters q @ dead, mq_next := n\<rparr> \<Longrightarrow> ?thesis"
      by (simp add: Pair mem_ids_def)
  qed
qed

lemma mset_filter_key:
  assumes "distinct (map k t)" "find_row (\<lambda>e. k e = x) t = Some e"
  shows "mset (map f t) = add_mset (f e) (mset (map f (filter (\<lambda>e. k e \<noteq> x) t)))"
  using assms
proof (induction t)
  case (Cons a t)
  show ?case
  proof (cases "k a = x")
    case True
    then have "filter (\<lambda>e. k e \<noteq> x) t = t"
      using Cons.prems(1) by (auto simp: filter_id_conv image_iff)
    then show ?thesis using Cons.prems True by (simp add: find_row_Cons)
  next
    case False
    then show ?thesis using Cons by (simp add: find_row_Cons)
  qed
qed simp

lemma mem_ids_nack: "mem_ok c q \<Longrightarrow> mem_ids (mem_nack now m q) = mem_ids q"
proof (cases "mem_find (qm_receiptHandle m) q")
  case None
  then show ?thesis by (simp add: mem_nack_def)
next
  case (Some e)
  assume "mem_ok c q"
  then have "mset (map en_id (mq_inFlight q)) = add_mset (en_id e) (mset (map en_id
      (filter (\<lambda>e. en_receiptHandle e \<noteq> qm_receiptHandle m) (mq_inFlight q))))"
    using Some by (intro mset_filter_key) (simp_all add: mem_ok_def mem_find_def)
  then show ?thesis
    using Some by (simp add: mem_nack_def mem_ids_def)
qed

lemma mem_ids_ack: "mem_ids (mem_ack m q) \<subseteq># mem_ids q"
proof -
  have "mset (map en_id (filter P t)) \<subseteq># mset (map en_id t)" for P and t :: "envelope list"
    by (simp add: image_mset_subseteq_mono)
  then show ?thesis
    by (simp add: mem_ids_def mem_ack_def del: mset_map mset_filter)
qed

lemma mem_ids_extend: "mem_ids (mem_extendVisibility now m s q) = mem_ids q"
proof -
  have "map en_id (update_where (\<lambda>e. en_receiptHandle e = qm_receiptHandle m)
      (\<lambda>e. e\<lparr>en_visibleAt := now + s * 1000\<rparr>) (mq_inFlight q)) = map en_id (mq_inFlight q)"
    by (rule map_update_where_same) simp
  then show ?thesis by (simp add: mem_ids_def mem_extendVisibility_def del: mset_map)
qed

text \<open>Identifiers never repeat: a message is in exactly one of the three collections.\<close>

definition mem_ids_ok :: "mem_queue \<Rightarrow> bool" where
  "mem_ids_ok q \<longleftrightarrow> (\<forall>i. count (mem_ids q) i \<le> 1) \<and> (\<forall>i \<in># mem_ids q. i < mq_next q)"

lemma mem_ids_ok_sub:
  "mem_ids_ok q \<Longrightarrow> mem_ids q' \<subseteq># mem_ids q \<Longrightarrow> mq_next q \<le> mq_next q' \<Longrightarrow> mem_ids_ok q'"
  by (auto simp: mem_ids_ok_def dest: mset_subset_eqD intro: order_trans [OF mset_subset_eq_count]
      less_le_trans)

lemma mq_next_mono: "mem_step c q q' \<Longrightarrow> mq_next q \<le> mq_next q'"
proof (induction rule: mem_step.induct)
  case (poll q now k)
  show ?case
  proof (cases "mem_poll c now k q")
    case (Pair ready q')
    then show ?thesis
      by (rule mem_poll_split) (use mem_scan_handles in \<open>fastforce simp: Pair\<close>)
  qed
qed (auto simp: mem_enqueue_def mem_ack_def mem_nack_def mem_extendVisibility_def mem_close_def
    split: option.split)

lemma mem_step_ids_ok:
  assumes "mem_step c q q'" "mem_ok c q" "mem_ids_ok q"
  shows "mem_ids_ok q'"
proof -
  note next_le = mq_next_mono [OF assms(1)]
  from assms show ?thesis
  proof (cases rule: mem_step.cases)
    case (enqueue now d j)
    have "mq_next q \<notin># mem_ids q"
      using assms(3) by (auto simp: mem_ids_ok_def)
    then have fresh: "count (mem_ids q) (mq_next q) = 0" by (simp add: count_eq_zero_iff)
    show ?thesis
    proof (cases "mq_closed q")
      case True
      then show ?thesis using assms(3) by (simp add: enqueue mem_enqueue_def)
    next
      case False
      then have "mem_ids q' = add_mset (mq_next q) (mem_ids q)"
        by (simp add: enqueue mem_ids_enqueue)
      moreover have "mq_next q' = Suc (Suc (mq_next q))"
        using False by (simp add: enqueue mem_enqueue_def)
      ultimately show ?thesis
        using assms(3) fresh by (fastforce simp: mem_ids_ok_def)
    qed
  next
    case close
    then show ?thesis using assms(3) by (simp add: mem_ids_ok_def mem_ids_def mem_close_def)
  qed (use assms next_le in \<open>auto intro!: mem_ids_ok_sub [of q] simp: mem_ids_poll mem_ids_nack
      mem_ids_extend mem_ids_ack\<close>)
qed

lemma mem_reachable_ids_ok: "mem_reachable c q \<Longrightarrow> mem_ids_ok q"
proof (induction rule: rtranclp_induct)
  case base
  show ?case by (simp add: mem_ids_ok_def mem_ids_def mem_empty_def)
next
  case (step q q')
  then show ?case using mem_step_ids_ok mem_reachable_ok by blast
qed

section \<open>An unacknowledged message\<close>

text \<open>Steps that neither acknowledge nor return the delivery with handle \<open>h\<close>.\<close>

inductive mem_step_leaving :: "mem_config \<Rightarrow> uuid \<Rightarrow> mem_queue \<Rightarrow> mem_queue \<Rightarrow> bool" for c h where
  "mem_step_leaving c h q (snd (mem_enqueue now d j q))"
| "mem_step_leaving c h q (snd (mem_poll c now k q))"
| "qm_receiptHandle m \<noteq> h \<Longrightarrow> mem_step_leaving c h q (mem_ack m q)"
| "qm_receiptHandle m \<noteq> h \<Longrightarrow> mem_step_leaving c h q (mem_nack now m q)"
| "mem_step_leaving c h q (mem_extendVisibility now m s q)"
| "mem_step_leaving c h q (mem_close q)"

lemma mem_step_leaving_step: "mem_step_leaving c h q q' \<Longrightarrow> mem_step c q q'"
  by (induction rule: mem_step_leaving.induct) (auto intro: mem_step.intros)

definition in_flight_id :: "mem_queue \<Rightarrow> uuid \<Rightarrow> uuid \<Rightarrow> bool" where
  "in_flight_id q h i \<longleftrightarrow> (\<exists>e \<in> set (mq_inFlight q). en_receiptHandle e = h \<and> en_id e = i)"

lemma mem_step_leaving_in_flight:
  "mem_step_leaving c h q q' \<Longrightarrow> in_flight_id q h i \<Longrightarrow> in_flight_id q' h i"
proof (induction rule: mem_step_leaving.induct)
  case (2 q now k)
  then show ?case
    by (cases "mem_poll c now k q") (auto simp: in_flight_id_def elim!: mem_poll_split)
next
  case (5 q now m s)
  then obtain e where "e \<in> set (mq_inFlight q)" "en_receiptHandle e = h" "en_id e = i"
    by (auto simp: in_flight_id_def)
  then show ?case
    unfolding in_flight_id_def mem_extendVisibility_def
    by (intro bexI [of _ "if en_receiptHandle e = qm_receiptHandle m
          then e\<lparr>en_visibleAt := now + s * 1000\<rparr> else e"]) (auto simp: set_update_where)
qed (auto simp: in_flight_id_def mem_enqueue_def mem_ack_def mem_nack_def mem_close_def
    split: option.split)

lemma mem_steps_leaving_in_flight:
  "(mem_step_leaving c h)\<^sup>*\<^sup>* q q' \<Longrightarrow> in_flight_id q h i \<Longrightarrow> in_flight_id q' h i"
  by (induction rule: rtranclp_induct) (auto intro: mem_step_leaving_in_flight)

lemma mem_steps_leaving_reachable:
  "(mem_step_leaving c h)\<^sup>*\<^sup>* q q' \<Longrightarrow> mem_reachable c q \<Longrightarrow> mem_reachable c q'"
  by (induction rule: rtranclp_induct) (auto intro: mem_step_leaving_step rtranclp.rtrancl_into_rtrancl)

lemma in_flight_not_delivered:
  assumes "mem_reachable c q" "in_flight_id q h i" "m \<in> set (fst (mem_poll c now k q))"
  shows "qm_id m \<noteq> i"
proof (cases "mem_poll c now k q")
  case (Pair ready q')
  then obtain keep out dead n where
    scan: "mem_scan c now k (mq_next q) (mq_messages q) = (keep, out, dead, n)"
    and r: "ready = map message_of out"
    by (rule mem_poll_split)
  obtain e where e: "e \<in> set out" "qm_id m = en_id e"
    using assms(3) by (auto simp: Pair r message_of_def)
  then obtain e0 where e0: "e0 \<in> set (mq_messages q)" "en_id e = en_id e0"
    using mem_scan_origin [OF scan] by fastforce
  obtain f where f: "f \<in> set (mq_inFlight q)" "en_id f = i"
    using assms(2) by (auto simp: in_flight_id_def)
  have "count (mem_ids q) i \<le> 1"
    using mem_reachable_ids_ok [OF assms(1)] by (simp add: mem_ids_ok_def)
  moreover have "1 \<le> count (mset (map en_id (mq_inFlight q))) i"
    using f by (metis Suc_leI One_nat_def count_greater_zero_iff image_eqI set_map set_mset_mset)
  ultimately have "count (mset (map en_id (mq_messages q))) i = 0"
    unfolding mem_ids_def count_union by linarith
  then have "i \<notin> en_id ` set (mq_messages q)"
    by (metis count_eq_zero_iff set_map set_mset_mset)
  then show ?thesis using e e0 by auto
qed

section \<open>Long polling ends\<close>

text \<open>What the code relies on: a 100 ms timer takes at least 100 ms of the clock.\<close>

definition clock_ok :: "poll_env \<Rightarrow> bool" where
  "clock_ok env \<longleftrightarrow> pe_start env \<le> pe_later env 0 \<and> (\<forall>k. pe_later env k + 100 \<le> pe_later env (Suc k))"

lemma clock_ok_progress: "clock_ok env \<Longrightarrow> pe_start env + 100 * int k \<le> pe_later env k"
proof (induction k)
  case (Suc k)
  then have "pe_later env k + 100 \<le> pe_later env (Suc k)" by (simp add: clock_ok_def)
  then show ?case using Suc by simp
qed (simp add: clock_ok_def)

lemma mem_receive_from_ends:
  assumes "clock_ok env" "deadline \<le> pe_start env + 100 * int (k + fuel)"
  shows "\<exists>r. mem_receive_from (Suc fuel) c env deadline maxMessages k q = Some r"
  using assms
proof (induction fuel arbitrary: k q)
  case 0
  then have "deadline \<le> pe_later env k"
    using clock_ok_progress [of env k] by simp
  then show ?case by (auto split: prod.split)
next
  case (Suc fuel)
  then show ?case
    using Suc.IH [of "Suc k"] by (auto split: prod.split simp del: mem_receive_from.simps(2)
        simp add: mem_receive_from.simps(2) [of "Suc fuel"])
qed

lemma mem_receive_from_result:
  assumes "mem_receive_from fuel c env deadline n k q = Some (ready, q')" "mem_ok c q"
    and "\<And>k q. mem_ok c q \<Longrightarrow> mem_ok c (pe_others env k q)"
  shows "length ready \<le> n \<and> mem_ok c q'
    \<and> (\<forall>m \<in> set ready. mem_held q' (qm_receiptHandle m) = Some (qm_job m))
    \<and> (ready \<noteq> [] \<or> mq_closed q' \<or> (\<exists>k. deadline \<le> pe_later env k))"
  using assms(1,2)
proof (induction fuel arbitrary: k q)
  case (Suc fuel)
  obtain r1 q1 where p: "mem_poll c (pe_clock env k) n q = (r1, q1)" by fastforce
  show ?case
  proof (cases "r1 \<noteq> [] \<or> mq_closed q1 \<or> pe_later env k \<ge> deadline")
    case True
    then have "ready = r1" "q' = q1" using Suc.prems(1) p by auto
    then show ?thesis
      using True mem_poll_bound [of c "pe_clock env k" n q] mem_poll_ok [OF Suc.prems(2)]
        mem_poll_held(1) [OF Suc.prems(2) p] p by (metis fst_conv snd_conv)
  next
    case False
    then have "mem_receive_from fuel c env deadline n (Suc k) (pe_others env k q1) = Some (ready, q')"
      using Suc.prems(1) p by auto
    moreover have "mem_ok c (pe_others env k q1)"
      using mem_poll_ok [OF Suc.prems(2)] p assms(3) by (metis snd_conv)
    ultimately show ?thesis using Suc.IH by blast
  qed
qed simp

section \<open>A message that keeps failing\<close>

text \<open>One delivery attempt that fails: receive one message, give it back.\<close>

definition fail_once :: "mem_config \<Rightarrow> time \<Rightarrow> mem_queue \<Rightarrow> mem_queue" where
  "fail_once c now q =
     (case mem_poll c now 1 q of (ready, q1) \<Rightarrow> (case ready of [] \<Rightarrow> q1 | m # _ \<Rightarrow> mem_nack now m q1))"

lemma fail_once_single:
  assumes "mq_messages q = [e]" "mq_inFlight q = []" "en_visibleAt e \<le> now"
  shows "en_receivedCount e < mc_maxReceiveCount c \<Longrightarrow>
      \<exists>e'. mq_messages (fail_once c now q) = [e'] \<and> mq_inFlight (fail_once c now q) = []
        \<and> mq_deadLetters (fail_once c now q) = mq_deadLetters q \<and> en_visibleAt e' \<le> now
        \<and> en_id e' = en_id e \<and> en_job e' = en_job e \<and> en_receivedCount e' = en_receivedCount e + 1"
    and "mc_maxReceiveCount c \<le> en_receivedCount e \<Longrightarrow>
      mq_messages (fail_once c now q) = [] \<and> mq_inFlight (fail_once c now q) = []
        \<and> mq_deadLetters (fail_once c now q) = mq_deadLetters q @ [received e]"
  using assms by (auto simp: fail_once_def mem_poll_def mem_nack_def mem_find_def find_row_Cons
      message_of_def received_def)

lemma fail_repeatedly:
  assumes "mq_messages q = [e]" "mq_inFlight q = []" "en_visibleAt e \<le> now"
    "en_receivedCount e + k \<le> mc_maxReceiveCount c"
  shows "\<exists>e'. mq_messages ((fail_once c now ^^ k) q) = [e'] \<and> mq_inFlight ((fail_once c now ^^ k) q) = []
      \<and> mq_deadLetters ((fail_once c now ^^ k) q) = mq_deadLetters q \<and> en_visibleAt e' \<le> now
      \<and> en_id e' = en_id e \<and> en_job e' = en_job e \<and> en_receivedCount e' = en_receivedCount e + k"
  using assms(4)
proof (induction k)
  case 0
  then show ?case using assms(1-3) by simp
next
  case (Suc k)
  then obtain e' where e': "mq_messages ((fail_once c now ^^ k) q) = [e']"
    "mq_inFlight ((fail_once c now ^^ k) q) = []" "en_visibleAt e' \<le> now"
    "mq_deadLetters ((fail_once c now ^^ k) q) = mq_deadLetters q"
    "en_id e' = en_id e" "en_job e' = en_job e" "en_receivedCount e' = en_receivedCount e + k"
    by auto
  then show ?case
    using fail_once_single(1) [OF e'(1-3)] Suc.prems by simp
qed

end
