(* ===== verification/Job_Runner.thy ===== *)
theory Job_Runner
  imports Memory_Queue_Steps
begin

text \<open>
  \<open>src/worker/JobRunner.ts\<close> and the shutdown of \<open>src/worker.ts\<close>: what happens to one message
  (a client of the queue contract), the heartbeat, and the poll loop as a step relation.
\<close>

section \<open>One message\<close>

record 'h job_context =
  jc_messageId :: 'h
  jc_attempt :: nat

type_synonym ('h, 's) handler = "job \<Rightarrow> 'h job_context \<Rightarrow> 's \<Rightarrow> (js_error + unit) \<times> 's"

definition context_of :: "'h queue_message \<Rightarrow> 'h job_context" where
  "context_of m = \<lparr>jc_messageId = qm_id m, jc_attempt = qm_receivedCount m\<rparr>"

text \<open>\<open>error instanceof UnprocessableJobError || error instanceof ZodError\<close>\<close>

definition is_permanent :: "js_error \<Rightarrow> bool" where
  "is_permanent e \<longleftrightarrow> isUnprocessable e \<or> isZodError e"

text \<open>How the promise of \<open>process\<close> settles, and the state it leaves.\<close>

definition process ::
  "('h queue_message \<Rightarrow> 's \<Rightarrow> (js_error + unit) \<times> 's) \<Rightarrow>
   ('h queue_message \<Rightarrow> 's \<Rightarrow> (js_error + unit) \<times> 's) \<Rightarrow>
   (job_type \<Rightarrow> ('h, 's) handler option) \<Rightarrow> 'h queue_message \<Rightarrow> 's \<Rightarrow> (js_error + unit) \<times> 's" where
  "process ack nack handlers m s =
     (case handlers (type_of_job (qm_job m)) of
        None \<Rightarrow> ack m s
      | Some h \<Rightarrow>
          (let attempt =
             (case h (qm_job m) (context_of m) s of
                (Inl e, s1) \<Rightarrow> (Inl e, s1)
              | (Inr u, s1) \<Rightarrow> ack m s1)
           in case attempt of
                (Inr u, s2) \<Rightarrow> (Inr (), s2)
              | (Inl e, s2) \<Rightarrow>
                  if is_permanent e then ack m s2
                  else (Inr (), snd (nack m s2))))"

context queue_sink
begin

lemma process_no_handler:
  "handlers (type_of_job (qm_job m)) = None \<Longrightarrow> process ack nack handlers m s = ack m s"
  by (simp add: process_def)

lemma process_success:
  assumes "handlers (type_of_job (qm_job m)) = Some h"
    "h (qm_job m) (context_of m) s = (Inr (), s1)" "fst (ack m s1) = Inr ()"
  shows "process ack nack handlers m s = (Inr (), snd (ack m s1))"
  using assms by (cases "ack m s1") (simp add: process_def Let_def)

lemma process_failure:
  assumes "handlers (type_of_job (qm_job m)) = Some h"
    "h (qm_job m) (context_of m) s = (Inl e, s1)"
  shows "process ack nack handlers m s =
      (if is_permanent e then ack m s1 else (Inr (), snd (nack m s1)))"
  using assms by (simp add: process_def Let_def)

text \<open>After a retryable failure the job can be delivered again; nothing else is back in stock.\<close>

lemma process_retry_stock:
  assumes "handlers (type_of_job (qm_job m)) = Some h"
    "h (qm_job m) (context_of m) s = (Inl e, s1)" "\<not> is_permanent e"
    "held s1 (qm_receiptHandle m) = Some j" "fst (nack m s1) = Inr ()"
  shows "stock (snd (process ack nack handlers m s)) = add_mset j (stock s1)"
    and "held (snd (process ack nack handlers m s)) (qm_receiptHandle m) = None"
  using assms nack_live [OF assms(4,5)] nack_held [OF assms(5)] by (simp_all add: process_failure)

text \<open>
  With a driver that does not reject, every message is settled when \<open>process\<close> ends: its handle is
  not live any more, whatever the handler did.
\<close>

lemma process_settles:
  assumes "\<And>s. fst (ack m s) = Inr ()" "\<And>s. fst (nack m s) = Inr ()"
  shows "fst (process ack nack handlers m s) = Inr ()"
    and "held (snd (process ack nack handlers m s)) (qm_receiptHandle m) = None"
proof -
  have a: "held (snd (ack m s')) (qm_receiptHandle m) = None" for s'
    using ack_held [OF assms(1)] by simp
  have n: "held (snd (nack m s')) (qm_receiptHandle m) = None" for s'
    using nack_held [OF assms(2)] by simp
  have "fst (process ack nack handlers m s) = Inr ()
      \<and> held (snd (process ack nack handlers m s)) (qm_receiptHandle m) = None"
  proof (cases "handlers (type_of_job (qm_job m))")
    case None
    then show ?thesis using assms(1) a by (simp add: process_no_handler)
  next
    case (Some h)
    obtain r s1 where hs: "h (qm_job m) (context_of m) s = (r, s1)" by fastforce
    show ?thesis
    proof (cases r)
      case (Inl e)
      then show ?thesis using Some hs assms(1) a n by (simp add: process_failure)
    next
      case (Inr u)
      then show ?thesis using Some hs assms(1) a by (simp add: process_success)
    qed
  qed
  then show "fst (process ack nack handlers m s) = Inr ()"
    "held (snd (process ack nack handlers m s)) (qm_receiptHandle m) = None" by simp_all
qed

end

text \<open>The in-memory driver beside the rest of the world, as a provider of the contract.\<close>

definition mem_ack_w :: "uuid queue_message \<Rightarrow> mem_queue \<times> 'w \<Rightarrow> (js_error + unit) \<times> mem_queue \<times> 'w" where
  "mem_ack_w m p = (Inr (), mem_ack m (fst p), snd p)"

definition mem_nack_w ::
  "time \<Rightarrow> uuid queue_message \<Rightarrow> mem_queue \<times> 'w \<Rightarrow> (js_error + unit) \<times> mem_queue \<times> 'w" where
  "mem_nack_w now m p = (Inr (), mem_nack now m (fst p), snd p)"

interpretation mem_world: queue_sink mem_ack_w "mem_nack_w now" "\<lambda>p. mem_held (fst p)" "\<lambda>p. mem_stock (fst p)"
  for now
  by unfold_locales
    (simp_all add: mem_ack_w_def mem_nack_w_def mem_held_ack mem_held_nack mem_stock_nack mem_stock_ack)

text \<open>A rejected acknowledgement in a dropping branch is not caught: the task rejects.\<close>

lemma process_ack_rejection:
  assumes "handlers (type_of_job (qm_job m)) = None \<or>
      (\<exists>h s1 e. handlers (type_of_job (qm_job m)) = Some h
        \<and> h (qm_job m) (context_of m) s = (Inl e, s1) \<and> is_permanent e)"
    "\<And>s. fst (ack m s) = Inl err"
  shows "fst (process ack nack handlers m s) = Inl err"
  using assms by (auto simp: process_def Let_def)

section \<open>The heartbeat\<close>

text \<open>\<open>Math.max((visibilityTimeoutSeconds * 1000) / 2, 30_000)\<close>, in milliseconds.\<close>

definition heartbeat_ms :: "rat \<Rightarrow> rat" where
  "heartbeat_ms visibilityTimeoutSeconds = max (visibilityTimeoutSeconds * 1000 / 2) 30000"

lemma heartbeat_before_expiry:
  "30 < t \<Longrightarrow> heartbeat_ms t < t * 1000"
  by (simp add: heartbeat_ms_def)

lemma heartbeat_too_late: "t \<le> 30 \<Longrightarrow> t * 1000 \<le> heartbeat_ms t"
  by (simp add: heartbeat_ms_def)

lemma heartbeat_second_beat: "t * 1000 \<le> 2 * heartbeat_ms t"
  by (simp add: heartbeat_ms_def max_def)

section \<open>The poll loop\<close>

text \<open>
  The points at which \<open>start\<close> can be suspended. \<open>Receiving k\<close> awaits a receive that asked for \<open>k\<close>
  messages; \<open>rn_raced\<close> are the tasks a \<open>Promise.race\<close> has attached a handler to, so that a later
  rejection of theirs is not an unhandled one.
\<close>

datatype phase = Polling | Receiving nat | Racing | Pausing | Draining | Stopped | Crashed

record 'h runner =
  rn_phase :: phase
  rn_running :: bool
  rn_aborted :: bool
  rn_active :: "'h list"
  rn_raced :: "'h set"

definition runner_start :: "'h runner" where
  "runner_start = \<lparr>rn_phase = Polling, rn_running = True, rn_aborted = False, rn_active = [], rn_raced = {}\<rparr>"

inductive runner_step :: "nat \<Rightarrow> 'h runner \<Rightarrow> 'h runner \<Rightarrow> bool" for maxConcurrent where
  poll: "rn_phase r = Polling \<Longrightarrow> rn_running r \<Longrightarrow> length (rn_active r) < maxConcurrent \<Longrightarrow>
    runner_step maxConcurrent r (r\<lparr>rn_phase := Receiving (min (maxConcurrent - length (rn_active r)) 10)\<rparr>)"
| race: "rn_phase r = Polling \<Longrightarrow> rn_running r \<Longrightarrow> maxConcurrent \<le> length (rn_active r) \<Longrightarrow>
    runner_step maxConcurrent r (r\<lparr>rn_phase := Racing, rn_raced := rn_raced r \<union> set (rn_active r)\<rparr>)"
| leave: "rn_phase r = Polling \<Longrightarrow> \<not> rn_running r \<Longrightarrow>
    runner_step maxConcurrent r (r\<lparr>rn_phase := Draining\<rparr>)"
| deliver: "rn_phase r = Receiving k \<Longrightarrow> ms \<noteq> [] \<Longrightarrow> length ms \<le> k \<Longrightarrow>
    runner_step maxConcurrent r (r\<lparr>rn_phase := Polling, rn_active := rn_active r @ ms\<rparr>)"
| empty: "rn_phase r = Receiving k \<Longrightarrow> p \<in> {Polling, Pausing} \<Longrightarrow>
    runner_step maxConcurrent r (r\<lparr>rn_phase := p\<rparr>)"
| receive_failed: "rn_phase r = Receiving k \<Longrightarrow>
    runner_step maxConcurrent r (r\<lparr>rn_phase := (if rn_running r then Pausing else Draining)\<rparr>)"
| resume: "rn_phase r = Pausing \<Longrightarrow> runner_step maxConcurrent r (r\<lparr>rn_phase := Polling\<rparr>)"
| settled: "t \<in> set (rn_active r) \<Longrightarrow> rn_phase r \<notin> {Stopped, Crashed} \<Longrightarrow>
    runner_step maxConcurrent r (r\<lparr>rn_active := remove1 t (rn_active r),
      rn_phase := (if rn_phase r = Racing then Polling else rn_phase r)\<rparr>)"
| rejected: "t \<in> set (rn_active r) \<Longrightarrow> rn_phase r \<notin> {Stopped, Crashed} \<Longrightarrow>
    runner_step maxConcurrent r (r\<lparr>rn_active := remove1 t (rn_active r),
      rn_phase := (if rn_phase r = Racing \<or> rn_phase r \<noteq> Draining \<and> t \<notin> rn_raced r then Crashed
                   else rn_phase r)\<rparr>)"
| stop: "rn_running r \<Longrightarrow>
    runner_step maxConcurrent r (r\<lparr>rn_running := False, rn_aborted := True\<rparr>)"
| drained: "rn_phase r = Draining \<Longrightarrow> rn_active r = [] \<Longrightarrow>
    runner_step maxConcurrent r (r\<lparr>rn_phase := Stopped\<rparr>)"

inductive_cases runner_stepE: "runner_step n r r'"

definition runner_ok :: "nat \<Rightarrow> 'h runner \<Rightarrow> bool" where
  "runner_ok maxConcurrent r \<longleftrightarrow>
     length (rn_active r) \<le> maxConcurrent
     \<and> (\<forall>k. rn_phase r = Receiving k \<longrightarrow> 1 \<le> k \<and> k \<le> 10 \<and> length (rn_active r) + k \<le> maxConcurrent)
     \<and> (rn_phase r = Racing \<longrightarrow> rn_active r \<noteq> [] \<or> maxConcurrent = 0)
     \<and> (rn_phase r \<in> {Draining, Stopped} \<longrightarrow> \<not> rn_running r)
     \<and> (rn_phase r = Stopped \<longrightarrow> rn_active r = [])
     \<and> (rn_running r \<longleftrightarrow> \<not> rn_aborted r)"

lemma length_remove1_le: "length (remove1 t xs) \<le> length xs"
  by (simp add: length_remove1)

lemma runner_step_ok: "runner_step n r r' \<Longrightarrow> runner_ok n r \<Longrightarrow> runner_ok n r'"
proof (induction rule: runner_step.induct)
  case (settled t r)
  then show ?case
    by (auto simp: runner_ok_def length_remove1)
next
  case (rejected t r)
  then show ?case
    by (auto simp: runner_ok_def length_remove1)
qed (auto simp: runner_ok_def)

lemma runner_reachable_ok: "(runner_step n)\<^sup>*\<^sup>* runner_start r \<Longrightarrow> runner_ok n r"
proof (induction rule: rtranclp_induct)
  case base
  show ?case by (simp add: runner_ok_def runner_start_def)
next
  case (step r r')
  then show ?case using runner_step_ok by blast
qed

text \<open>Once stopped and not waiting for a receive, the runner takes on no more work.\<close>

definition closing :: "'h runner \<Rightarrow> bool" where
  "closing r \<longleftrightarrow> \<not> rn_running r \<and> (\<forall>k. rn_phase r \<noteq> Receiving k)"

lemma closing_step:
  "runner_step n r r' \<Longrightarrow> closing r \<Longrightarrow> closing r' \<and> mset (rn_active r') \<subseteq># mset (rn_active r)"
  by (induction rule: runner_step.induct) (auto simp: closing_def)

lemma closing_steps:
  "(runner_step n)\<^sup>*\<^sup>* r r' \<Longrightarrow> closing r \<Longrightarrow> closing r' \<and> mset (rn_active r') \<subseteq># mset (rn_active r)"
proof (induction rule: rtranclp_induct)
  case (step r1 r2)
  then show ?case using closing_step subset_mset.order_trans by blast
qed simp

text \<open>And it can always finish: from such a state a run of tasks settling leads to \<open>Stopped\<close>.\<close>

lemma draining_can_stop:
  "rn_phase r = Draining \<Longrightarrow> \<exists>r'. (runner_step n)\<^sup>*\<^sup>* r r' \<and> rn_phase r' = Stopped"
proof (induction "rn_active r" arbitrary: r)
  case Nil
  then have "runner_step n r (r\<lparr>rn_phase := Stopped\<rparr>)"
    by (intro runner_step.drained) simp_all
  then show ?case
    by (intro exI [of _ "r\<lparr>rn_phase := Stopped\<rparr>"]) auto
next
  case (Cons t ts)
  let ?r = "r\<lparr>rn_active := remove1 t (rn_active r),
      rn_phase := (if rn_phase r = Racing then Polling else rn_phase r)\<rparr>"
  have "t \<in> set (rn_active r)" using Cons.hyps(2) by (metis list.set_intros(1))
  then have step: "runner_step n r ?r"
    using Cons.prems by (intro runner_step.settled) simp_all
  have "ts = rn_active ?r" using Cons.hyps(2) [symmetric] by simp
  moreover have "rn_phase ?r = Draining" using Cons.prems by simp
  ultimately obtain r' where "(runner_step n)\<^sup>*\<^sup>* ?r r'" "rn_phase r' = Stopped"
    using Cons.hyps(1) [of ?r] by blast
  then show ?case
    using step by (meson converse_rtranclp_into_rtranclp)
qed

section \<open>Shutting the worker down\<close>

text \<open>
  The signal handler of \<open>worker.ts\<close>: \<open>runner.stop()\<close>, \<open>closeAdapters()\<close>, \<open>closeDatabase()\<close>,
  \<open>process.exit(0)\<close>, interleaved with the runner. Ending the pool waits for the tasks that have a
  client checked out (\<open>ws_clients\<close>).
\<close>

datatype shutdown_pc = Serving | Stop_Called | Adapters_Closed | Database_Closed | Exited

record 'h worker =
  ws_runner :: "'h runner"
  ws_pc :: shutdown_pc
  ws_clients :: "'h set"

inductive worker_step :: "nat \<Rightarrow> 'h worker \<Rightarrow> 'h worker \<Rightarrow> bool" for maxConcurrent where
  run: "runner_step maxConcurrent (ws_runner w) r \<Longrightarrow> ws_pc w \<noteq> Exited \<Longrightarrow>
    (rn_running (ws_runner w) \<longleftrightarrow> rn_running r) \<Longrightarrow> worker_step maxConcurrent w (w\<lparr>ws_runner := r\<rparr>)"
| clients: "ws_pc w \<noteq> Exited \<Longrightarrow> cs \<subseteq> set (rn_active (ws_runner w)) \<Longrightarrow>
    worker_step maxConcurrent w (w\<lparr>ws_clients := cs\<rparr>)"
| signal: "ws_pc w = Serving \<Longrightarrow>
    worker_step maxConcurrent w (w\<lparr>ws_pc := Stop_Called,
      ws_runner := (ws_runner w)\<lparr>rn_running := False, rn_aborted := True\<rparr>\<rparr>)"
| close_adapters: "ws_pc w = Stop_Called \<Longrightarrow> worker_step maxConcurrent w (w\<lparr>ws_pc := Adapters_Closed\<rparr>)"
| close_database: "ws_pc w = Adapters_Closed \<Longrightarrow> ws_clients w \<inter> set (rn_active (ws_runner w)) = {} \<Longrightarrow>
    worker_step maxConcurrent w (w\<lparr>ws_pc := Database_Closed\<rparr>)"
| exit: "ws_pc w = Database_Closed \<Longrightarrow> worker_step maxConcurrent w (w\<lparr>ws_pc := Exited\<rparr>)"

definition worker_start :: "'h worker" where
  "worker_start = \<lparr>ws_runner = runner_start, ws_pc = Serving, ws_clients = {}\<rparr>"

text \<open>No step of the handler waits for the runner: the process exits with a job in flight.\<close>

lemma worker_exits_with_active_job:
  assumes "0 < n"
  shows "\<exists>w. (worker_step n)\<^sup>*\<^sup>* worker_start w \<and> ws_pc w = Exited \<and> rn_active (ws_runner w) = [m]
      \<and> rn_phase (ws_runner w) \<noteq> Stopped"
proof -
  let ?r0 = "runner_start :: 'a runner"
  let ?r1 = "?r0\<lparr>rn_phase := Receiving (min (n - length (rn_active ?r0)) 10)\<rparr>"
  let ?r2 = "?r1\<lparr>rn_phase := Polling, rn_active := rn_active ?r1 @ [m]\<rparr>"
  let ?w0 = "worker_start :: 'a worker"
  let ?w1 = "?w0\<lparr>ws_runner := ?r1\<rparr>"
  let ?w2 = "?w1\<lparr>ws_runner := ?r2\<rparr>"
  let ?w3 = "?w2\<lparr>ws_pc := Stop_Called, ws_runner := ?r2\<lparr>rn_running := False, rn_aborted := True\<rparr>\<rparr>"
  have "runner_step n ?r0 ?r1"
    using assms by (intro runner_step.poll) (simp_all add: runner_start_def)
  then have 1: "worker_step n ?w0 ?w1"
    by (intro worker_step.run) (simp_all add: worker_start_def runner_start_def)
  have "runner_step n ?r1 ?r2"
    using assms by (intro runner_step.deliver [where k = "min n 10"]) (simp_all add: runner_start_def)
  then have 2: "worker_step n ?w1 ?w2"
    using worker_step.run [of n ?w1 ?r2] by (simp add: worker_start_def runner_start_def)
  have 3: "worker_step n ?w2 ?w3"
    using worker_step.signal [of ?w2 n] by (simp add: worker_start_def)
  have 4: "worker_step n ?w3 (?w3\<lparr>ws_pc := Adapters_Closed\<rparr>)"
    by (rule worker_step.close_adapters) simp
  have 5: "worker_step n (?w3\<lparr>ws_pc := Adapters_Closed\<rparr>) (?w3\<lparr>ws_pc := Database_Closed\<rparr>)"
    using worker_step.close_database [of "?w3\<lparr>ws_pc := Adapters_Closed\<rparr>" n] by (simp add: worker_start_def)
  have 6: "worker_step n (?w3\<lparr>ws_pc := Database_Closed\<rparr>) (?w3\<lparr>ws_pc := Exited\<rparr>)"
    using worker_step.exit [of "?w3\<lparr>ws_pc := Database_Closed\<rparr>" n] by simp
  have "(worker_step n)\<^sup>*\<^sup>* ?w0 (?w3\<lparr>ws_pc := Exited\<rparr>)"
    using 1 2 3 4 5 6 by (meson rtranclp.rtrancl_into_rtrancl rtranclp.rtrancl_refl)
  moreover have "rn_active (ws_runner (?w3\<lparr>ws_pc := Exited\<rparr>)) = [m]"
    "rn_phase (ws_runner (?w3\<lparr>ws_pc := Exited\<rparr>)) \<noteq> Stopped"
    by (simp_all add: runner_start_def)
  ultimately show ?thesis by (intro exI [of _ "?w3\<lparr>ws_pc := Exited\<rparr>"]) simp
qed

end
