(* ===== verification/Hashtag_Repository.thy ===== *)
theory Hashtag_Repository
  imports Models
begin

text \<open>
  \<open>src/api/repositories/HashtagRepository.ts\<close>: the tracked hashtags. Every operation is a function
  of the current time and the database; \<open>Inl\<close> is a statement Postgres rejects.
\<close>

section \<open>Operations\<close>

definition normalizeHashtagName :: "unicode \<Rightarrow> jstr \<Rightarrow> jstr" where
  "normalizeHashtagName u raw = u_lower u (strip_hashes (js_trim raw))"

definition findByName :: "unicode \<Rightarrow> jstr \<Rightarrow> database \<Rightarrow> hashtag option" where
  "findByName u name db = find_row (\<lambda>h. ht_name h = normalizeHashtagName u name) (db_hashtags db)"

definition findHashtagById :: "uuid \<Rightarrow> database \<Rightarrow> hashtag option" where
  "findHashtagById i db = find_row (\<lambda>h. ht_id h = i) (db_hashtags db)"

record track_input =
  ti_name :: jstr
  ti_trackFrom :: "time option"
  ti_trackUntil :: "time option"
  ti_notes :: "jstr option"

text \<open>The row an \<open>INSERT\<close> creates: given values, column defaults elsewhere.\<close>

definition new_hashtag :: "time \<Rightarrow> uuid \<Rightarrow> jstr \<Rightarrow> track_input \<Rightarrow> hashtag" where
  "new_hashtag now i name inp =
     \<lparr>ht_id = i, ht_name = name, ht_igHashtagId = None, ht_igHashtagIdResolvedAt = None,
       ht_isActive = True, ht_trackFrom = ti_trackFrom inp, ht_trackUntil = ti_trackUntil inp,
       ht_topSyncEnabled = True, ht_recentSyncEnabled = True, ht_maxMediaPerSync = None,
       ht_lastTopSyncedAt = None, ht_lastRecentSyncedAt = None, ht_lastSyncError = None,
       ht_consecutiveFailures = 0, ht_notes = ti_notes inp, ht_createdAt = now, ht_updatedAt = now\<rparr>"

definition ensureTracked :: "unicode \<Rightarrow> time \<Rightarrow> track_input \<Rightarrow> database \<Rightarrow> hashtag \<times> database" where
  "ensureTracked u now inp db =
     (let name = normalizeHashtagName u (ti_name inp)
      in case find_row (\<lambda>h. ht_name h = name) (db_hashtags db) of
           Some h \<Rightarrow>
             (h\<lparr>ht_updatedAt := now\<rparr>,
              db\<lparr>db_hashtags := update_where (\<lambda>h. ht_name h = name) (\<lambda>h. h\<lparr>ht_updatedAt := now\<rparr>)
                   (db_hashtags db)\<rparr>)
         | None \<Rightarrow>
             (let h = new_hashtag now (db_next db) name inp
              in (h, db\<lparr>db_hashtags := db_hashtags db @ [h], db_next := Suc (db_next db)\<rparr>)))"

definition setIgHashtagId :: "time \<Rightarrow> uuid \<Rightarrow> jstr \<Rightarrow> database \<Rightarrow> (js_error + unit) \<times> database" where
  "setIgHashtagId now i ig db =
     (if (\<exists>h \<in> set (db_hashtags db). ht_id h = i)
         \<and> (\<exists>h \<in> set (db_hashtags db). ht_id h \<noteq> i \<and> ht_igHashtagId h = Some ig)
      then (Inl (pg_violation ''hashtags_ig_hashtag_id_unique''), db)
      else (Inr (), db\<lparr>db_hashtags := update_where (\<lambda>h. ht_id h = i)
              (\<lambda>h. h\<lparr>ht_igHashtagId := Some ig, ht_igHashtagIdResolvedAt := Some now,
                     ht_updatedAt := now\<rparr>) (db_hashtags db)\<rparr>))"

definition kindEnabled :: "media_source \<Rightarrow> hashtag \<Rightarrow> bool" where
  "kindEnabled kind h = (case kind of Top \<Rightarrow> ht_topSyncEnabled h | Recent \<Rightarrow> ht_recentSyncEnabled h)"

definition is_due :: "media_source \<Rightarrow> time \<Rightarrow> hashtag \<Rightarrow> bool" where
  "is_due kind now h \<longleftrightarrow>
     ht_isActive h \<and> kindEnabled kind h
     \<and> (case ht_trackFrom h of None \<Rightarrow> True | Some t \<Rightarrow> t \<le> now)
     \<and> (case ht_trackUntil h of None \<Rightarrow> True | Some t \<Rightarrow> t \<ge> now)"

definition findDueForSync :: "media_source \<Rightarrow> time \<Rightarrow> database \<Rightarrow> hashtag list" where
  "findDueForSync kind now db = filter (is_due kind now) (db_hashtags db)"

definition setActive ::
  "unicode \<Rightarrow> time \<Rightarrow> jstr \<Rightarrow> bool \<Rightarrow> database \<Rightarrow> hashtag option \<times> database" where
  "setActive u now name isActive db =
     (let p = (\<lambda>h. ht_name h = normalizeHashtagName u name);
          rows = update_where p (\<lambda>h. h\<lparr>ht_isActive := isActive, ht_updatedAt := now\<rparr>) (db_hashtags db)
      in (find_row p rows, db\<lparr>db_hashtags := rows\<rparr>))"

definition markSyncSucceeded :: "time \<Rightarrow> uuid \<Rightarrow> media_source \<Rightarrow> database \<Rightarrow> database" where
  "markSyncSucceeded now i kind db =
     db\<lparr>db_hashtags := update_where (\<lambda>h. ht_id h = i)
          (\<lambda>h. (case kind of Top \<Rightarrow> h\<lparr>ht_lastTopSyncedAt := Some now\<rparr>
                | Recent \<Rightarrow> h\<lparr>ht_lastRecentSyncedAt := Some now\<rparr>)
                \<lparr>ht_consecutiveFailures := 0, ht_lastSyncError := None, ht_updatedAt := now\<rparr>)
          (db_hashtags db)\<rparr>"

definition markSyncFailed :: "time \<Rightarrow> uuid \<Rightarrow> jstr \<Rightarrow> database \<Rightarrow> database" where
  "markSyncFailed now i error db =
     db\<lparr>db_hashtags := update_where (\<lambda>h. ht_id h = i)
          (\<lambda>h. h\<lparr>ht_consecutiveFailures := ht_consecutiveFailures h + 1,
                 ht_lastSyncError := Some (js_slice 2000 error), ht_updatedAt := now\<rparr>)
          (db_hashtags db)\<rparr>"

definition findResolved :: "database \<Rightarrow> hashtag list" where
  "findResolved db = filter (\<lambda>h. ht_igHashtagId h \<noteq> None) (db_hashtags db)"

lemmas hashtag_repo_defs [repo_defs] =
  findByName_def findHashtagById_def ensureTracked_def setIgHashtagId_def findDueForSync_def
  setActive_def markSyncSucceeded_def markSyncFailed_def findResolved_def

section \<open>The constraints are kept\<close>

lemma db_wf_insert_hashtag:
  assumes "db_wf db" "ht_id h = db_next db" "ht_name h \<notin> ht_name ` set (db_hashtags db)"
    "ht_igHashtagId h = None"
  shows "db_wf (db\<lparr>db_hashtags := db_hashtags db @ [h], db_next := Suc (db_next db)\<rparr>)"
  using assms by (auto simp: wf_defs id_defs resolved_names_def less_Suc_eq)

lemma ensureTracked_wf: "db_wf db \<Longrightarrow> db_wf (snd (ensureTracked u now inp db))"
  by (auto simp: ensureTracked_def Let_def find_row_None_iff new_hashtag_def split: option.split
      intro!: db_wf_update_hashtags db_wf_insert_hashtag)

lemma resolved_set_ig:
  assumes "distinct (map ht_id t)"
    and "distinct (map (\<lambda>h. the (ht_igHashtagId h)) (filter (\<lambda>h. ht_igHashtagId h \<noteq> None) t))"
    and "\<forall>h \<in> set t. ht_id h \<noteq> i \<longrightarrow> ht_igHashtagId h \<noteq> Some ig"
  shows "distinct (map (\<lambda>h. the (ht_igHashtagId h)) (filter (\<lambda>h. ht_igHashtagId h \<noteq> None)
    (update_where (\<lambda>h. ht_id h = i) (\<lambda>h. h\<lparr>ht_igHashtagId := Some ig,
       ht_igHashtagIdResolvedAt := Some rt, ht_updatedAt := now\<rparr>) t)))"
  using assms
proof (induction t)
  case (Cons h t)
  show ?case
  proof (cases "ht_id h = i")
    case True
    have other: "ht_id r \<noteq> i" if "r \<in> set t" for r
      using Cons.prems(1) True that by (auto simp: image_iff)
    then have "update_where (\<lambda>h. ht_id h = i) f t = t" for f
      by (rule update_where_id)
    then have "update_where (\<lambda>h. ht_id h = i) f (h # t) = f h # t" for f
      using True by (simp add: update_where_def)
    moreover have "ig \<notin> set (map (\<lambda>h. the (ht_igHashtagId h)) (filter (\<lambda>h. ht_igHashtagId h \<noteq> None) t))"
      using Cons.prems(3) other by auto
    moreover have "distinct (map (\<lambda>h. the (ht_igHashtagId h)) (filter (\<lambda>h. ht_igHashtagId h \<noteq> None) t))"
      using Cons.prems(2) by (cases "ht_igHashtagId h") simp_all
    ultimately show ?thesis by simp
  next
    case False
    let ?f = "\<lambda>h. h\<lparr>ht_igHashtagId := Some ig, ht_igHashtagIdResolvedAt := Some rt, ht_updatedAt := now\<rparr>"
    let ?names = "\<lambda>t. map (\<lambda>h. the (ht_igHashtagId h)) (filter (\<lambda>h. ht_igHashtagId h \<noteq> None) t)"
    let ?u = "update_where (\<lambda>h. ht_id h = i) ?f"
    have eq: "?u (h # t) = h # ?u t"
      using False by (simp add: update_where_def)
    have IH: "distinct (?names (?u t))"
      using Cons by (cases "ht_igHashtagId h") simp_all
    show ?thesis
    proof (cases "ht_igHashtagId h")
      case None
      then show ?thesis using IH by (simp only: eq) simp
    next
      case (Some x)
      have "x \<noteq> ig"
        using Some Cons.prems(3) False by auto
      moreover have "x \<notin> set (?names t)"
        using Some Cons.prems(2) by simp
      moreover have "set (?names (?u t)) \<subseteq> insert ig (set (?names t))"
        by (auto simp: update_where_def image_iff)
      ultimately have "x \<notin> set (?names (?u t))" by blast
      then show ?thesis using IH Some by (simp only: eq) simp
    qed
  qed
qed simp

lemma setIgHashtagId_wf:
  assumes "db_wf db"
  shows "db_wf (snd (setIgHashtagId now i ig db))"
proof (cases "(\<exists>h \<in> set (db_hashtags db). ht_id h = i)
    \<and> (\<exists>h \<in> set (db_hashtags db). ht_id h \<noteq> i \<and> ht_igHashtagId h = Some ig)")
  case True
  then show ?thesis using assms by (simp add: setIgHashtagId_def)
next
  case False
  let ?f = "\<lambda>h. h\<lparr>ht_igHashtagId := Some ig, ht_igHashtagIdResolvedAt := Some now, ht_updatedAt := now\<rparr>"
  let ?t = "update_where (\<lambda>h. ht_id h = i) ?f (db_hashtags db)"
  have "distinct (resolved_names (db\<lparr>db_hashtags := ?t\<rparr>))"
  proof (cases "\<exists>h \<in> set (db_hashtags db). ht_id h = i")
    case True
    then have "\<forall>h \<in> set (db_hashtags db). ht_id h \<noteq> i \<longrightarrow> ht_igHashtagId h \<noteq> Some ig"
      using False by blast
    moreover have "distinct (map ht_id (db_hashtags db))"
      "distinct (map (\<lambda>h. the (ht_igHashtagId h)) (filter (\<lambda>h. ht_igHashtagId h \<noteq> None) (db_hashtags db)))"
      using assms by (simp_all add: wf_defs resolved_names_def)
    ultimately show ?thesis
      using resolved_set_ig [of "db_hashtags db" i ig now now]
      by (simp add: resolved_names_def)
  next
    case no: False
    then have "?t = db_hashtags db"
      by (intro update_where_id) auto
    then show ?thesis
      using assms by (simp add: wf_defs resolved_names_def)
  qed
  then have "db_wf (db\<lparr>db_hashtags := ?t\<rparr>)"
    using assms by (auto simp: wf_defs id_defs map_update_where_same image_update_where_same
        ball_update_where)
  then show ?thesis
    unfolding setIgHashtagId_def if_not_P [OF False] by simp
qed

lemma setActive_wf: "db_wf db \<Longrightarrow> db_wf (snd (setActive u now name a db))"
  by (simp add: setActive_def Let_def db_wf_update_hashtags)

lemma markSyncSucceeded_wf: "db_wf db \<Longrightarrow> db_wf (markSyncSucceeded now i kind db)"
  by (auto simp: markSyncSucceeded_def split: media_source.split intro!: db_wf_update_hashtags)

lemma markSyncFailed_wf: "db_wf db \<Longrightarrow> db_wf (markSyncFailed now i e db)"
  by (simp add: markSyncFailed_def db_wf_update_hashtags)

text \<open>Which rows exist is changed by \<open>ensureTracked\<close> only.\<close>

lemma hashtag_ids_setIg [simp]: "hashtag_ids (snd (setIgHashtagId now i ig db)) = hashtag_ids db"
  by (simp add: setIgHashtagId_def hashtag_ids_def image_update_where_same)

lemma hashtag_ids_mark [simp]:
  "hashtag_ids (markSyncSucceeded now i kind db) = hashtag_ids db"
  "hashtag_ids (markSyncFailed now i e db) = hashtag_ids db"
  by (cases kind; simp add: markSyncSucceeded_def markSyncFailed_def hashtag_ids_def image_update_where_same)+

section \<open>Tracking\<close>

text \<open>What tracking configuration means: every column but the bookkeeping time stamp.\<close>

lemma ensureTracked_existing:
  assumes "findByName u (ti_name inp) db = Some h"
  shows "fst (ensureTracked u now inp db) = h\<lparr>ht_updatedAt := now\<rparr>"
    and "map (\<lambda>h. h\<lparr>ht_updatedAt := 0\<rparr>) (db_hashtags (snd (ensureTracked u now inp db))) =
         map (\<lambda>h. h\<lparr>ht_updatedAt := 0\<rparr>) (db_hashtags db)"
  using assms by (auto simp: ensureTracked_def findByName_def Let_def update_where_def)

lemma ensureTracked_new:
  assumes "findByName u (ti_name inp) db = None"
  shows "db_hashtags (snd (ensureTracked u now inp db)) =
      db_hashtags db @ [new_hashtag now (db_next db) (normalizeHashtagName u (ti_name inp)) inp]"
  using assms by (simp add: ensureTracked_def findByName_def Let_def)

lemma ensureTracked_finds:
  "findByName u (ti_name inp) (snd (ensureTracked u now inp db)) = Some (fst (ensureTracked u now inp db))"
proof (cases "findByName u (ti_name inp) db")
  case None
  then show ?thesis
    by (simp add: ensureTracked_def findByName_def Let_def find_row_append find_row_Cons new_hashtag_def)
next
  case (Some h)
  then show ?thesis
    by (simp add: ensureTracked_def findByName_def Let_def find_row_update_where)
qed

lemma setActive_not_due:
  assumes "h \<in> set (db_hashtags (snd (setActive u now name False db)))"
    and "ht_name h = normalizeHashtagName u name"
  shows "\<not> is_due kind t h"
  using assms by (auto simp: setActive_def Let_def update_where_def is_due_def split: if_splits)

lemma findDueForSync_iff:
  "h \<in> set (findDueForSync kind now db) \<longleftrightarrow>
     h \<in> set (db_hashtags db) \<and> ht_isActive h \<and> kindEnabled kind h
     \<and> (\<forall>t. ht_trackFrom h = Some t \<longrightarrow> t \<le> now) \<and> (\<forall>t. ht_trackUntil h = Some t \<longrightarrow> now \<le> t)"
  by (auto simp: findDueForSync_def is_due_def split: option.splits)

lemma distinct_findDueForSync: "db_wf db \<Longrightarrow> distinct (map ht_id (findDueForSync kind now db))"
  by (auto simp: findDueForSync_def wf_defs distinct_map inj_on_def)

end
