(* ===== verification/Sync_Run_Repository.thy ===== *)
theory Sync_Run_Repository
  imports Hashtag_Repository
begin

text \<open>
  \<open>src/api/repositories/SyncRunRepository.ts\<close> and \<open>DataPointRepository.ts\<close>: the audit row of a
  run with its resume cursor, and the raw landing layer.
\<close>

section \<open>Sync runs\<close>

record start_run_input =
  si_type :: sync_run_type
  si_hashtagId :: uuid
  si_messageId :: "jstr option"
  si_attempt :: "nat option"

definition new_run :: "time \<Rightarrow> uuid \<Rightarrow> start_run_input \<Rightarrow> sync_run" where
  "new_run now i inp =
     \<lparr>sr_id = i, sr_type = si_type inp, sr_status = Running, sr_hashtagId = si_hashtagId inp,
       sr_triggeredByMessageId = si_messageId inp, sr_startedAt = now, sr_finishedAt = None,
       sr_durationMs = None, sr_pagesFetched = 0, sr_itemsSeen = 0, sr_itemsNew = 0,
       sr_itemsUpdated = 0, sr_metricsRecorded = 0, sr_assetJobsEnqueued = 0, sr_hitItemCap = 0,
       sr_rateLimitSnapshot = None, sr_lastCursor = None,
       sr_attempts = (case si_attempt inp of None \<Rightarrow> 1 | Some n \<Rightarrow> n), sr_error = None,
       sr_createdAt = now\<rparr>"

definition startRun :: "time \<Rightarrow> start_run_input \<Rightarrow> database \<Rightarrow> (js_error + sync_run) \<times> database" where
  "startRun now inp db =
     (if si_hashtagId inp \<notin> hashtag_ids db
      then (Inl (pg_violation ''sync_runs_hashtag_id_hashtags_id_fk''), db)
      else let r = new_run now (db_next db) inp
           in (Inr r, db\<lparr>db_syncRuns := db_syncRuns db @ [r], db_next := Suc (db_next db)\<rparr>))"

definition resumable :: "sync_run_type \<Rightarrow> uuid \<Rightarrow> sync_run \<Rightarrow> bool" where
  "resumable ty hid r \<longleftrightarrow> sr_type r = ty \<and> sr_hashtagId r = hid \<and> sr_status r = Running"

definition findResumableRun :: "sync_run_type \<Rightarrow> uuid \<Rightarrow> database \<Rightarrow> sync_run option" where
  "findResumableRun ty hid db = latest_by sr_startedAt (filter (resumable ty hid) (db_syncRuns db))"

record page_delta =
  pd_itemsSeen :: nat
  pd_itemsNew :: nat
  pd_itemsUpdated :: nat
  pd_metricsRecorded :: nat
  pd_assetJobsEnqueued :: nat
  pd_lastCursor :: "jstr option"
  pd_rateLimit :: "rate_limit_usage option"

definition add_progress :: "page_delta \<Rightarrow> sync_run \<Rightarrow> sync_run" where
  "add_progress delta r =
     r\<lparr>sr_pagesFetched := sr_pagesFetched r + 1,
       sr_itemsSeen := sr_itemsSeen r + pd_itemsSeen delta,
       sr_itemsNew := sr_itemsNew r + pd_itemsNew delta,
       sr_itemsUpdated := sr_itemsUpdated r + pd_itemsUpdated delta,
       sr_metricsRecorded := sr_metricsRecorded r + pd_metricsRecorded delta,
       sr_assetJobsEnqueued := sr_assetJobsEnqueued r + pd_assetJobsEnqueued delta,
       sr_lastCursor := (case pd_lastCursor delta of None \<Rightarrow> sr_lastCursor r | Some c \<Rightarrow> Some c),
       sr_rateLimitSnapshot :=
         (case pd_rateLimit delta of None \<Rightarrow> sr_rateLimitSnapshot r | Some u \<Rightarrow> Some u)\<rparr>"

definition recordPageProgress :: "uuid \<Rightarrow> page_delta \<Rightarrow> database \<Rightarrow> database" where
  "recordPageProgress runId delta db =
     db\<lparr>db_syncRuns := update_where (\<lambda>r. sr_id r = runId) (add_progress delta) (db_syncRuns db)\<rparr>"

record run_outcome =
  ro_status :: sync_run_status
  ro_error :: "jstr option"
  ro_hitItemCap :: bool

definition finish :: "time \<Rightarrow> run_outcome \<Rightarrow> sync_run \<Rightarrow> sync_run" where
  "finish finishedAt outcome r =
     r\<lparr>sr_status := ro_status outcome, sr_finishedAt := Some finishedAt,
       sr_durationMs := Some (finishedAt - sr_startedAt r),
       sr_error := map_option (js_slice 4000) (ro_error outcome),
       sr_hitItemCap := (if ro_hitItemCap outcome then 1 else 0)\<rparr>"

definition finishRun :: "time \<Rightarrow> uuid \<Rightarrow> run_outcome \<Rightarrow> database \<Rightarrow> database" where
  "finishRun now runId outcome db =
     db\<lparr>db_syncRuns := update_where (\<lambda>r. sr_id r = runId) (finish now outcome) (db_syncRuns db)\<rparr>"

definition findRunById :: "uuid \<Rightarrow> database \<Rightarrow> sync_run option" where
  "findRunById i db = find_row (\<lambda>r. sr_id r = i) (db_syncRuns db)"

definition findRecent :: "nat \<Rightarrow> database \<Rightarrow> sync_run list" where
  "findRecent n db = take n (sort_key (\<lambda>r. - sr_startedAt r) (db_syncRuns db))"

section \<open>Data points\<close>

record page_input =
  pi_syncRunId :: uuid
  pi_hashtagId :: uuid
  pi_source :: media_source
  pi_pageNumber :: nat
  pi_offset :: nat
  pi_items :: "meta_media list"

definition data_point_of :: "time \<Rightarrow> uuid \<Rightarrow> page_input \<Rightarrow> nat \<Rightarrow> meta_media \<Rightarrow> data_point" where
  "data_point_of now base inp index item =
     \<lparr>dp_id = base + index, dp_syncRunId = pi_syncRunId inp, dp_hashtagId = pi_hashtagId inp,
       dp_igMediaId = mm_id item, dp_source = pi_source inp, dp_pageNumber = pi_pageNumber inp,
       dp_positionInPage = index, dp_positionOverall = pi_offset inp + index,
       dp_payload = media_to_json item, dp_fetchedAt = now\<rparr>"

definition page_rows :: "time \<Rightarrow> uuid \<Rightarrow> page_input \<Rightarrow> data_point list" where
  "page_rows now base inp =
     map (\<lambda>(index, item). data_point_of now base inp index item) (enumerate 0 (pi_items inp))"

definition recordPage :: "time \<Rightarrow> page_input \<Rightarrow> database \<Rightarrow> (js_error + unit) \<times> database" where
  "recordPage now inp db =
     (if pi_items inp = [] then (Inr (), db)
      else if pi_syncRunId inp \<notin> run_ids db \<or> pi_hashtagId inp \<notin> hashtag_ids db
      then (Inl (pg_violation ''data_points_fk''), db)
      else (Inr (), db\<lparr>db_dataPoints := db_dataPoints db @ page_rows now (db_next db) inp,
              db_next := db_next db + length (pi_items inp)\<rparr>))"

definition findByRunId :: "uuid \<Rightarrow> database \<Rightarrow> data_point list" where
  "findByRunId i db =
     sort_key dp_positionOverall (filter (\<lambda>d. dp_syncRunId d = i) (db_dataPoints db))"

definition countByRunId :: "uuid \<Rightarrow> database \<Rightarrow> nat" where
  "countByRunId i db = length (filter (\<lambda>d. dp_syncRunId d = i) (db_dataPoints db))"

lemmas run_repo_defs [repo_defs] =
  startRun_def findResumableRun_def recordPageProgress_def finishRun_def findRunById_def
  recordPage_def findByRunId_def countByRunId_def

section \<open>The constraints are kept\<close>

lemma db_wf_insert_run:
  assumes "db_wf db" "sr_id r = db_next db" "sr_hashtagId r \<in> hashtag_ids db"
  shows "db_wf (db\<lparr>db_syncRuns := db_syncRuns db @ [r], db_next := Suc (db_next db)\<rparr>)"
    (is "db_wf ?db")
proof -
  have "unique_ok ?db"
    using db_wf_parts(1) [OF assms(1)] by (simp add: unique_ok_def resolved_names_def)
  moreover have "fresh_ok ?db"
    using db_wf_parts(3) [OF assms(1)] assms(2) by (simp add: fresh_ok_def less_Suc_eq)
  moreover have "keys_ok ?db"
    using db_wf_parts(2,3) [OF assms(1)] assms(2) by (auto simp: keys_ok_def fresh_ok_def)
  moreover have "refs_ok ?db"
    using db_wf_parts(4) [OF assms(1)] assms(3) by (simp add: refs_ok_def id_defs)
  ultimately show ?thesis
    by (simp add: db_wf_def)
qed

lemma startRun_wf: "db_wf db \<Longrightarrow> db_wf (snd (startRun now inp db))"
proof (cases "si_hashtagId inp \<in> hashtag_ids db")
  case True
  assume "db_wf db"
  then have "db_wf (db\<lparr>db_syncRuns := db_syncRuns db @ [new_run now (db_next db) inp],
      db_next := Suc (db_next db)\<rparr>)"
    by (rule db_wf_insert_run) (simp_all add: new_run_def True)
  then show ?thesis
    using True by (simp add: startRun_def Let_def)
qed (simp add: startRun_def)

lemma recordPageProgress_wf: "db_wf db \<Longrightarrow> db_wf (recordPageProgress i d db)"
  by (simp add: recordPageProgress_def db_wf_update_runs add_progress_def)

lemma finishRun_wf: "db_wf db \<Longrightarrow> db_wf (finishRun now i out db)"
  by (simp add: finishRun_def db_wf_update_runs finish_def)

lemma page_rows_ids: "map dp_id (page_rows now base inp) = [base..<base + length (pi_items inp)]"
  by (rule nth_equalityI)
    (auto simp: page_rows_def data_point_of_def nth_enumerate_eq)

lemma page_rows_nth:
  "n < length (pi_items inp) \<Longrightarrow>
     page_rows now base inp ! n = data_point_of now base inp n (pi_items inp ! n)"
  by (simp add: page_rows_def nth_enumerate_eq)

lemma length_page_rows [simp]: "length (page_rows now base inp) = length (pi_items inp)"
  by (simp add: page_rows_def)

lemma page_rows_const:
  "d \<in> set (page_rows now base inp) \<Longrightarrow>
     dp_syncRunId d = pi_syncRunId inp \<and> dp_hashtagId d = pi_hashtagId inp \<and> dp_source d = pi_source inp"
  by (auto simp: page_rows_def data_point_of_def)

lemma page_rows_payload:
  "map dp_payload (page_rows now base inp) = map media_to_json (pi_items inp)"
  by (rule nth_equalityI) (auto simp: page_rows_nth data_point_of_def)

lemma db_wf_insert_data_points:
  assumes "db_wf db" "map dp_id rows = [db_next db..<n]" "db_next db \<le> n"
    and "\<And>d. d \<in> set rows \<Longrightarrow> dp_syncRunId d \<in> run_ids db \<and> dp_hashtagId d \<in> hashtag_ids db"
  shows "db_wf (db\<lparr>db_dataPoints := db_dataPoints db @ rows, db_next := n\<rparr>)"
proof -
  have ids: "dp_id ` set rows = {db_next db..<n}"
    using assms(2) by (metis set_map set_upt)
  let ?db = "db\<lparr>db_dataPoints := db_dataPoints db @ rows, db_next := n\<rparr>"
  have "unique_ok ?db"
    using db_wf_parts(1) [OF assms(1)] by (simp add: unique_ok_def resolved_names_def)
  moreover have "fresh_ok ?db"
    using db_wf_parts(3) [OF assms(1)] assms(3) ids by (fastforce simp: fresh_ok_def)
  moreover have "keys_ok ?db"
  proof -
    have "distinct (map dp_id rows)"
      by (simp add: assms(2))
    moreover have "\<forall>d \<in> set (db_dataPoints db). dp_id d < db_next db"
      using db_wf_parts(3) [OF assms(1)] by (simp add: fresh_ok_def)
    then have "dp_id ` set (db_dataPoints db) \<inter> dp_id ` set rows = {}"
      unfolding ids by auto
    ultimately show ?thesis
      using db_wf_parts(2) [OF assms(1)] by (simp add: keys_ok_def)
  qed
  moreover have "refs_ok ?db"
    using db_wf_parts(4) [OF assms(1)] assms(4) by (auto simp: refs_ok_def id_defs)
  ultimately show ?thesis
    by (simp add: db_wf_def)
qed

lemma recordPage_wf:
  assumes "db_wf db"
  shows "db_wf (snd (recordPage now inp db))"
proof (cases "pi_items inp = [] \<or> pi_syncRunId inp \<notin> run_ids db \<or> pi_hashtagId inp \<notin> hashtag_ids db")
  case True
  then show ?thesis using assms by (auto simp: recordPage_def)
next
  case False
  from assms have "db_wf (db\<lparr>db_dataPoints := db_dataPoints db @ page_rows now (db_next db) inp,
      db_next := db_next db + length (pi_items inp)\<rparr>)"
    by (rule db_wf_insert_data_points) (use False page_rows_const in \<open>simp_all add: page_rows_ids\<close>)
  then show ?thesis
    using False by (simp add: recordPage_def)
qed

section \<open>Behaviour\<close>

text \<open>The raw rows of a page, in response order, at absolute positions.\<close>

lemma recordPage_rows:
  assumes "fst (recordPage now inp db) = Inr ()"
  shows "db_dataPoints (snd (recordPage now inp db)) =
      db_dataPoints db @ page_rows now (db_next db) inp"
  using assms by (auto simp: recordPage_def page_rows_def split: if_splits)

lemma findResumableRun_running:
  "findResumableRun ty hid db = Some r \<Longrightarrow> r \<in> set (db_syncRuns db) \<and> resumable ty hid r"
  unfolding findResumableRun_def by (drule latest_by_mem) simp

lemma startRun_ok:
  assumes "fst (startRun now inp db) = Inr r"
  shows "r \<in> set (db_syncRuns (snd (startRun now inp db)))" "sr_hashtagId r \<in> hashtag_ids db"
    "sr_id r = db_next db" "sr_status r = Running"
  using assms by (auto simp: startRun_def Let_def new_run_def split: if_splits)

text \<open>A finished run is not resumable any more, whatever its status.\<close>

lemma finish_not_resumable:
  "ro_status out \<noteq> Running \<Longrightarrow> \<not> resumable ty hid (finish now out r)"
  by (simp add: resumable_def finish_def)

lemma resumable_unknown_after_finish:
  assumes "db_wf db" "ro_status out \<noteq> Running" "sr_id r = i"
  shows "findResumableRun ty hid (finishRun now i out db) \<noteq> Some r"
proof
  assume "findResumableRun ty hid (finishRun now i out db) = Some r"
  then have "r \<in> (\<lambda>r. if sr_id r = i then finish now out r else r) ` set (db_syncRuns db)"
    and run: "sr_status r = Running"
    using findResumableRun_running [of ty hid "finishRun now i out db" r]
    by (simp_all add: finishRun_def set_update_where resumable_def)
  from this(1) obtain r' where "r = (if sr_id r' = i then finish now out r' else r')"
    by (rule imageE)
  then show False
    using assms(2,3) run by (cases "sr_id r' = i") (simp_all add: finish_def)
qed

end
