(* ===== verification/Media_Asset_Repository.thy ===== *)
theory Media_Asset_Repository
  imports Sync_Run_Repository
begin

text \<open>
  \<open>src/api/repositories/MediaAssetRepository.ts\<close>: the life cycle of the stored copy of a media
  file, one row per post.
\<close>

section \<open>Operations\<close>

text \<open>A string is truthy when it is not empty.\<close>

definition truthy_url :: "jstr option \<Rightarrow> bool" where
  "truthy_url url \<longleftrightarrow> (case url of None \<Rightarrow> False | Some s \<Rightarrow> s \<noteq> [])"

definition new_asset :: "time \<Rightarrow> uuid \<Rightarrow> uuid \<Rightarrow> jstr option \<Rightarrow> media_asset" where
  "new_asset now i mediaId sourceUrl =
     \<lparr>ma_id = i, ma_mediaId = mediaId, ma_status = (if truthy_url sourceUrl then Pending else Skipped),
       ma_sha256 = None, ma_storageKey = None, ma_storageProvider = None, ma_contentType = None,
       ma_sizeBytes = None, ma_fetchedFromUrl = sourceUrl, ma_attempts = 0, ma_lastError = None,
       ma_downloadStartedAt = None, ma_storedAt = None, ma_createdAt = now, ma_updatedAt = now\<rparr>"

definition findByMediaId :: "uuid \<Rightarrow> database \<Rightarrow> media_asset option" where
  "findByMediaId mediaId db = find_row (\<lambda>a. ma_mediaId a = mediaId) (db_assets db)"

definition refresh_url :: "time \<Rightarrow> jstr option \<Rightarrow> media_asset \<Rightarrow> media_asset" where
  "refresh_url now sourceUrl a = a\<lparr>ma_fetchedFromUrl := sourceUrl, ma_updatedAt := now\<rparr>"

definition ensurePending ::
  "time \<Rightarrow> uuid \<Rightarrow> jstr option \<Rightarrow> database \<Rightarrow> (js_error + uuid \<times> bool) \<times> database" where
  "ensurePending now mediaId sourceUrl db =
     (case findByMediaId mediaId db of
        Some a \<Rightarrow>
          (Inr (ma_id a, ma_status a = Pending),
           db\<lparr>db_assets := update_where (\<lambda>a. ma_mediaId a = mediaId) (refresh_url now sourceUrl)
                (db_assets db)\<rparr>)
      | None \<Rightarrow>
          (if mediaId \<notin> post_ids db
           then (Inl (pg_violation ''media_assets_media_id_media_posts_id_fk''), db)
           else let a = new_asset now (db_next db) mediaId sourceUrl
                in (Inr (ma_id a, ma_status a = Pending),
                    db\<lparr>db_assets := db_assets db @ [a], db_next := Suc (db_next db)\<rparr>)))"

definition update_asset :: "uuid \<Rightarrow> (media_asset \<Rightarrow> media_asset) \<Rightarrow> database \<Rightarrow> database" where
  "update_asset mediaId f db =
     db\<lparr>db_assets := update_where (\<lambda>a. ma_mediaId a = mediaId) f (db_assets db)\<rparr>"

definition markDownloading :: "time \<Rightarrow> uuid \<Rightarrow> database \<Rightarrow> database" where
  "markDownloading now mediaId db =
     update_asset mediaId (\<lambda>a. a\<lparr>ma_status := Downloading, ma_downloadStartedAt := Some now,
       ma_attempts := ma_attempts a + 1, ma_updatedAt := now\<rparr>) db"

record stored_info =
  st_sha256 :: jstr
  st_storageKey :: jstr
  st_storageProvider :: string
  st_contentType :: "jstr option"
  st_sizeBytes :: nat

definition markStored :: "time \<Rightarrow> uuid \<Rightarrow> stored_info \<Rightarrow> database \<Rightarrow> database" where
  "markStored now mediaId stored db =
     update_asset mediaId (\<lambda>a. a\<lparr>ma_status := Stored, ma_sha256 := Some (st_sha256 stored),
       ma_storageKey := Some (st_storageKey stored),
       ma_storageProvider := Some (st_storageProvider stored),
       ma_contentType := st_contentType stored, ma_sizeBytes := Some (st_sizeBytes stored),
       ma_storedAt := Some now, ma_lastError := None, ma_updatedAt := now\<rparr>) db"

definition markFailed :: "time \<Rightarrow> uuid \<Rightarrow> jstr \<Rightarrow> database \<Rightarrow> database" where
  "markFailed now mediaId error db =
     update_asset mediaId (\<lambda>a. a\<lparr>ma_status := Asset_Failed,
       ma_lastError := Some (js_slice 2000 error), ma_updatedAt := now\<rparr>) db"

definition markSkipped :: "time \<Rightarrow> uuid \<Rightarrow> jstr \<Rightarrow> database \<Rightarrow> database" where
  "markSkipped now mediaId reason db =
     update_asset mediaId (\<lambda>a. a\<lparr>ma_status := Skipped,
       ma_lastError := Some (js_slice 2000 reason), ma_updatedAt := now\<rparr>) db"

definition findRetryable :: "nat \<Rightarrow> database \<Rightarrow> media_asset list" where
  "findRetryable n db =
     take n (filter (\<lambda>a. ma_status a \<in> {Pending, Asset_Failed, Downloading}) (db_assets db))"

definition findRepostClusters :: "nat \<Rightarrow> database \<Rightarrow> (jstr \<times> nat) list" where
  "findRepostClusters minCount db =
     (let shas = map (\<lambda>a. the (ma_sha256 a)) (filter (\<lambda>a. ma_sha256 a \<noteq> None) (db_assets db))
      in filter (\<lambda>(sha, n). minCount \<le> n) (map (\<lambda>sha. (sha, count_list shas sha)) (dedup shas)))"

lemmas asset_mark_defs = markDownloading_def markStored_def markFailed_def markSkipped_def update_asset_def

section \<open>The constraints are kept\<close>

lemma db_wf_insert_asset:
  assumes "db_wf db" "ma_id a = db_next db" "ma_mediaId a \<in> post_ids db"
    "ma_mediaId a \<notin> ma_mediaId ` set (db_assets db)"
  shows "db_wf (db\<lparr>db_assets := db_assets db @ [a], db_next := Suc (db_next db)\<rparr>)"
    (is "db_wf ?db")
proof -
  have "unique_ok ?db"
    using db_wf_parts(1) [OF assms(1)] assms(4) by (simp add: unique_ok_def resolved_names_def)
  moreover have "fresh_ok ?db"
    using db_wf_parts(3) [OF assms(1)] assms(2) by (simp add: fresh_ok_def less_Suc_eq)
  moreover have "keys_ok ?db"
    using db_wf_parts(2,3) [OF assms(1)] assms(2) by (auto simp: keys_ok_def fresh_ok_def)
  moreover have "refs_ok ?db"
    using db_wf_parts(4) [OF assms(1)] assms(3) by (simp add: refs_ok_def id_defs)
  ultimately show ?thesis
    by (simp add: db_wf_def)
qed

lemma ensurePending_wf:
  assumes "db_wf db"
  shows "db_wf (snd (ensurePending now mediaId url db))"
proof (cases "findByMediaId mediaId db")
  case None
  then have absent: "mediaId \<notin> ma_mediaId ` set (db_assets db)"
    by (auto simp: findByMediaId_def find_row_None_iff)
  show ?thesis
  proof (cases "mediaId \<in> post_ids db")
    case True
    have "db_wf (db\<lparr>db_assets := db_assets db @ [new_asset now (db_next db) mediaId url],
        db_next := Suc (db_next db)\<rparr>)"
      using assms by (rule db_wf_insert_asset) (simp_all add: new_asset_def True absent)
    then show ?thesis
      using None True by (simp add: ensurePending_def Let_def)
  qed (use None assms in \<open>simp add: ensurePending_def\<close>)
next
  case (Some a)
  then show ?thesis
    using assms by (simp add: ensurePending_def db_wf_update_assets refresh_url_def)
qed

lemma asset_marks_wf:
  assumes "db_wf db"
  shows "db_wf (markDownloading now i db)" "db_wf (markStored now i st db)"
    "db_wf (markFailed now i e db)" "db_wf (markSkipped now i e db)"
  using assms by (simp_all add: asset_mark_defs db_wf_update_assets)

section \<open>Life cycle\<close>

lemma findByMediaId_update:
  assumes "\<And>a. ma_mediaId (f a) = ma_mediaId a"
  shows "findByMediaId i (update_asset j f db) =
     (if i = j then map_option f (findByMediaId i db) else findByMediaId i db)"
proof (cases "i = j")
  case True
  then show ?thesis
    using assms by (simp add: findByMediaId_def update_asset_def find_row_update_where)
next
  case False
  then show ?thesis
    using assms by (simp add: findByMediaId_def update_asset_def find_row_update_where_other)
qed

lemma ensurePending_existing:
  assumes "findByMediaId i db = Some a"
  shows "fst (ensurePending now i url db) = Inr (ma_id a, ma_status a = Pending)"
    and "snd (ensurePending now i url db) = update_asset i (refresh_url now url) db"
  using assms by (simp_all add: ensurePending_def update_asset_def)

text \<open>After \<open>ensurePending\<close> there is a row, carrying the URL that was just handed over.\<close>

lemma ensurePending_row:
  assumes "fst (ensurePending now i url db) = Inr (aid, created)"
  obtains a where "findByMediaId i (snd (ensurePending now i url db)) = Some a"
    "ma_id a = aid" "ma_fetchedFromUrl a = url" "created = (ma_status a = Pending)"
proof (cases "findByMediaId i db")
  case None
  then have "findByMediaId i (snd (ensurePending now i url db)) =
      Some (new_asset now (db_next db) i url)"
    using assms by (auto simp: ensurePending_def Let_def findByMediaId_def find_row_append
        find_row_Cons new_asset_def split: if_splits)
  moreover have "aid = db_next db" "created = (ma_status (new_asset now (db_next db) i url) = Pending)"
    using None assms by (auto simp: ensurePending_def Let_def new_asset_def split: if_splits)
  ultimately show ?thesis
    using that by (simp add: new_asset_def)
next
  case (Some a)
  then show ?thesis
    using that [of "refresh_url now url a"] assms
    by (simp add: ensurePending_existing findByMediaId_update refresh_url_def)
qed

text \<open>Everything recorded about a stored copy survives a later sync of the same post.\<close>

lemma ensurePending_keeps:
  assumes "findByMediaId i db = Some a"
  obtains a' where "findByMediaId i (snd (ensurePending now i url db)) = Some a'"
    "ma_status a' = ma_status a" "ma_sha256 a' = ma_sha256 a" "ma_storageKey a' = ma_storageKey a"
    "ma_attempts a' = ma_attempts a" "ma_id a' = ma_id a"
  using assms that [of "refresh_url now url a"]
  by (simp add: ensurePending_existing findByMediaId_update refresh_url_def)

lemma asset_ids_same [simp]:
  "hashtag_ids (snd (ensurePending now i url db)) = hashtag_ids db"
  "run_ids (snd (ensurePending now i url db)) = run_ids db"
  "post_ids (snd (ensurePending now i url db)) = post_ids db"
  by (simp_all add: ensurePending_def id_defs Let_def split: option.split)

lemma sum_count_list_dedup: "(\<Sum>x\<leftarrow>dedup xs. count_list xs x) = length xs"
proof -
  have "(\<Sum>x\<leftarrow>dedup xs. count_list xs x) = (\<Sum>x\<in>set xs. count_list xs x)"
    by (simp add: sum_list_distinct_conv_sum_set)
  then show ?thesis by (simp add: sum_count_set)
qed

text \<open>A cluster lists a digest once, with the number of rows that carry it.\<close>

lemma findRepostClusters_iff:
  "(sha, n) \<in> set (findRepostClusters m db) \<longleftrightarrow>
     m \<le> n \<and> (\<exists>a \<in> set (db_assets db). ma_sha256 a = Some sha)
     \<and> n = length (filter (\<lambda>a. ma_sha256 a = Some sha) (db_assets db))"
proof -
  have *: "count_list (map (\<lambda>a. the (ma_sha256 a)) (filter (\<lambda>a. ma_sha256 a \<noteq> None) t)) sha =
      length (filter (\<lambda>a. ma_sha256 a = Some sha) t)" for t :: "media_asset list"
    by (induction t) auto
  show ?thesis
    using * [of "db_assets db"]
    by (force simp: findRepostClusters_def Let_def)
qed

end
