(* ===== verification/Caption_Parser.thy ===== *)
theory Caption_Parser
  imports Json
begin

text \<open>
  \<open>src/api/services/captionParser.ts\<close>: extraction of hashtags and mentions from a caption. The
  hashtag expression has the \<open>u\<close> flag, so it runs over code points; the mention expression runs
  over code units. The scanning loops, the \<open>seen\<close> set and the value cap are as in the code; the
  lemmas relate the loops to a declarative reading of the two expressions.
\<close>

section \<open>The two expressions\<close>

fun code_points :: "jstr \<Rightarrow> nat list" where
  "code_points [] = []"
| "code_points [c] = [c]"
| "code_points (c # d # r) =
     (if is_high c \<and> is_low d
      then (65536 + (c - 55296) * 1024 + (d - 56320)) # code_points r
      else c # code_points (d # r))"

definition utf16 :: "nat \<Rightarrow> jstr" where
  "utf16 cp =
     (if cp < 65536 then [cp]
      else [55296 + (cp - 65536) div 1024, 56320 + (cp - 65536) mod 1024])"

definition utf16_units :: "nat list \<Rightarrow> jstr" where
  "utf16_units cps = concat (map utf16 cps)"

text \<open>\<open>[\p{L}\p{N}\p{M}_]\<close> and \<open>[A-Za-z0-9._]\<close>\<close>

definition hashtag_char :: "unicode \<Rightarrow> nat \<Rightarrow> bool" where
  "hashtag_char u c \<longleftrightarrow> u_letter u c \<or> u_number u c \<or> u_mark u c \<or> c = 95"

definition mention_char :: "nat \<Rightarrow> bool" where
  "mention_char c \<longleftrightarrow> ascii_letter c \<or> ascii_digit c \<or> c = 46 \<or> c = 95"

text \<open>\<open>caption.matchAll(/#(class+)/g)\<close>: the captured groups, leftmost and greedy.\<close>

function hashtag_matches :: "(nat \<Rightarrow> bool) \<Rightarrow> nat list \<Rightarrow> nat list list" where
  "hashtag_matches w [] = []"
| "hashtag_matches w (c # r) =
     (if c = 35 \<and> takeWhile w r \<noteq> []
      then takeWhile w r # hashtag_matches w (dropWhile w r)
      else hashtag_matches w r)"
  by pat_completeness auto
termination
  by (relation "measure (length \<circ> snd)") (auto simp: less_Suc_eq_le length_dropWhile_le)

text \<open>\<open>caption.matchAll(/@(class{1,30})/g)\<close>\<close>

function mention_matches :: "jstr \<Rightarrow> jstr list" where
  "mention_matches [] = []"
| "mention_matches (c # r) =
     (let t = take 30 (takeWhile mention_char r)
      in if c = 64 \<and> t \<noteq> [] then t # mention_matches (drop (length t) r)
         else mention_matches r)"
  by pat_completeness auto
termination
  by (relation "measure length") (auto simp: less_Suc_eq_le)

declare hashtag_matches.simps(2) [simp del] mention_matches.simps(2) [simp del]

section \<open>The parser\<close>

datatype entity_type = Hashtag_Entity | Mention_Entity

record caption_entity =
  ce_type :: entity_type
  ce_value :: jstr

definition MAX_VALUE_LENGTH :: nat where
  "MAX_VALUE_LENGTH = 255"

definition normalize :: "unicode \<Rightarrow> jstr \<Rightarrow> jstr" where
  "normalize u s = js_slice MAX_VALUE_LENGTH (u_lower u s)"

definition entity_key :: "entity_type \<Rightarrow> jstr \<Rightarrow> jstr" where
  "entity_key t value =
     (case t of Hashtag_Entity \<Rightarrow> js ''hashtag:'' | Mention_Entity \<Rightarrow> js ''mention:'') @ value"

type_synonym parse_state = "jstr set \<times> caption_entity list" \<comment> \<open>\<open>seen\<close>, \<open>entities\<close>\<close>

definition push_entity :: "entity_type \<Rightarrow> jstr \<Rightarrow> parse_state \<Rightarrow> parse_state" where
  "push_entity t value st =
     (case st of (seen, entities) \<Rightarrow>
        if entity_key t value \<in> seen then (seen, entities)
        else (insert (entity_key t value) seen,
              entities @ [\<lparr>ce_type = t, ce_value = value\<rparr>]))"

definition hashtag_step :: "unicode \<Rightarrow> parse_state \<Rightarrow> jstr \<Rightarrow> parse_state" where
  "hashtag_step u st captured =
     (let value = normalize u captured
      in if value = [] \<or> list_all ascii_digit value then st
         else push_entity Hashtag_Entity value st)"

text \<open>\<open>captured.replace(/\.+$/, '')\<close>\<close>

definition strip_dots :: "jstr \<Rightarrow> jstr" where
  "strip_dots s = rev (dropWhile (\<lambda>c. c = 46) (rev s))"

definition mention_step :: "unicode \<Rightarrow> parse_state \<Rightarrow> jstr \<Rightarrow> parse_state" where
  "mention_step u st captured =
     (let value = normalize u (strip_dots captured)
      in if value = [] then st else push_entity Mention_Entity value st)"

definition caption_hashtags_raw :: "unicode \<Rightarrow> jstr \<Rightarrow> jstr list" where
  "caption_hashtags_raw u caption =
     map utf16_units (hashtag_matches (hashtag_char u) (code_points caption))"

definition parseCaptionEntities :: "unicode \<Rightarrow> jstr option \<Rightarrow> caption_entity list" where
  "parseCaptionEntities u caption =
     (case caption of
        None \<Rightarrow> []
      | Some c \<Rightarrow>
          if c = [] then []
          else snd (foldl (mention_step u)
                      (foldl (hashtag_step u) ({}, []) (caption_hashtags_raw u c))
                      (mention_matches c)))"

definition parseCaptionArrays :: "unicode \<Rightarrow> jstr option \<Rightarrow> jstr list \<times> jstr list" where
  "parseCaptionArrays u caption =
     (let entities = parseCaptionEntities u caption
      in (map ce_value (filter (\<lambda>e. ce_type e = Hashtag_Entity) entities),
          map ce_value (filter (\<lambda>e. ce_type e = Mention_Entity) entities)))"

section \<open>What the expressions match\<close>

lemma hashtag_matches_sound:
  assumes "t \<in> set (hashtag_matches w s)"
  shows "\<exists>p q. s = p @ 35 # t @ q \<and> t \<noteq> [] \<and> list_all w t \<and> (q = [] \<or> \<not> w (hd q))"
  using assms
proof (induction w s rule: hashtag_matches.induct)
  case (1 w)
  then show ?case by simp
next
  case (2 w c r)
  show ?case
  proof (cases "c = 35 \<and> takeWhile w r \<noteq> []")
    case True
    have "hashtag_matches w (c # r) = takeWhile w r # hashtag_matches w (dropWhile w r)"
      by (simp only: hashtag_matches.simps(2) if_P [OF True])
    then consider "t = takeWhile w r" | "t \<in> set (hashtag_matches w (dropWhile w r))"
      using 2(3) by fastforce
    then show ?thesis
    proof cases
      case 1
      have "c # r = [] @ 35 # t @ dropWhile w r"
        using True 1 by simp
      moreover have "list_all w t"
        using 1 by (auto simp: list_all_iff dest: set_takeWhileD)
      moreover have "dropWhile w r = [] \<or> \<not> w (hd (dropWhile w r))"
        by (cases "dropWhile w r = []") (simp_all add: hd_dropWhile)
      ultimately show ?thesis using True 1 by blast
    next
      case 2
      then obtain p q where dw: "dropWhile w r = p @ 35 # t @ q"
        and "t \<noteq> []" "list_all w t" "q = [] \<or> \<not> w (hd q)"
        using "2.IH"(1) [OF True] by blast
      then have "c # r = (c # takeWhile w r @ p) @ 35 # t @ q"
        using takeWhile_dropWhile_id [of w r] unfolding dw by simp
      then show ?thesis
        using \<open>t \<noteq> []\<close> \<open>list_all w t\<close> \<open>q = [] \<or> \<not> w (hd q)\<close> by blast
    qed
  next
    case False
    then have "t \<in> set (hashtag_matches w r)"
      using 2(3) by (simp only: hashtag_matches.simps(2) if_False)
    then obtain p q where "r = p @ 35 # t @ q" "t \<noteq> []" "list_all w t" "q = [] \<or> \<not> w (hd q)"
      using "2.IH"(2) [OF False] by blast
    then have "c # r = (c # p) @ 35 # t @ q"
      by simp
    then show ?thesis
      using \<open>t \<noteq> []\<close> \<open>list_all w t\<close> \<open>q = [] \<or> \<not> w (hd q)\<close> by blast
  qed
qed

lemma takeWhile_stop: "list_all w t \<Longrightarrow> q = [] \<or> \<not> w (hd q) \<Longrightarrow> takeWhile w (t @ q) = t"
  by (cases q) (auto simp: list_all_iff takeWhile_append)

text \<open>Every \<open>#\<close> followed by a maximal run of class characters is found.\<close>

lemma hashtag_matches_complete:
  assumes "\<not> w 35" "t \<noteq> []" "list_all w t" "q = [] \<or> \<not> w (hd q)"
  shows "t \<in> set (hashtag_matches w (p @ 35 # t @ q))"
proof (induction "length p" arbitrary: p rule: less_induct)
  case less
  show ?case
  proof (cases p)
    case Nil
    then show ?thesis
      using assms takeWhile_stop [of w t q] by (simp add: hashtag_matches.simps(2))
  next
    case (Cons c p')
    let ?r = "p' @ 35 # t @ q"
    show ?thesis
    proof (cases "c = 35 \<and> takeWhile w ?r \<noteq> []")
      case True
      have "dropWhile w ?r = dropWhile w p' @ 35 # t @ q"
        using assms(1) by (cases "\<forall>x \<in> set p'. w x") (auto simp: dropWhile_append3 dropWhile_append1)
      moreover have "length (dropWhile w p') < length p"
        using Cons length_dropWhile_le [of w p'] by simp
      ultimately have "t \<in> set (hashtag_matches w (dropWhile w ?r))"
        using less by metis
      with True Cons show ?thesis by (simp add: hashtag_matches.simps(2))
    next
      case False
      then have "hashtag_matches w (c # ?r) = hashtag_matches w ?r"
        by (simp only: hashtag_matches.simps(2) if_False)
      with less [of p'] Cons show ?thesis by simp
    qed
  qed
qed

lemma mention_matches_chars:
  "t \<in> set (mention_matches s) \<Longrightarrow> t \<noteq> [] \<and> length t \<le> 30 \<and> list_all mention_char t"
proof (induction s rule: mention_matches.induct)
  case 1
  then show ?case by simp
next
  case (2 c r)
  have "list_all mention_char (take 30 (takeWhile mention_char r))"
    by (auto simp: list_all_iff dest: in_set_takeD set_takeWhileD)
  with 2 show ?case
    by (auto simp: mention_matches.simps(2) Let_def split: if_splits)
qed

section \<open>The loops compute a first-occurrence list\<close>

lemma entity_key_inject: "entity_key t v = entity_key t' v' \<longleftrightarrow> t = t' \<and> v = v'"
  by (cases t; cases t') (auto simp: entity_key_def js_Cons)

lemma foldl_push_entity:
  "foldl (\<lambda>st v. push_entity t v st) (seen, es) vs =
     (seen \<union> entity_key t ` set vs,
      es @ map (\<lambda>v. \<lparr>ce_type = t, ce_value = v\<rparr>)
             (filter (\<lambda>v. entity_key t v \<notin> seen) (dedup vs)))"
proof (induction vs arbitrary: seen es)
  case (Cons v vs)
  show ?case
  proof (cases "entity_key t v \<in> seen")
    case True
    then have "filter (\<lambda>x. entity_key t x \<notin> seen) (filter (\<lambda>x. x \<noteq> v) (dedup vs)) =
        filter (\<lambda>x. entity_key t x \<notin> seen) (dedup vs)"
      by (auto simp: filter_filter intro: filter_cong)
    with True Cons show ?thesis
      by (auto simp: push_entity_def)
  next
    case False
    have "filter (\<lambda>x. entity_key t x \<notin> insert (entity_key t v) seen) (dedup vs) =
        filter (\<lambda>x. entity_key t x \<notin> seen) (filter (\<lambda>x. x \<noteq> v) (dedup vs))"
      by (auto simp: filter_filter entity_key_inject intro: filter_cong)
    with False Cons [of "insert (entity_key t v) seen"] show ?thesis
      by (auto simp: push_entity_def)
  qed
qed simp

definition tag_ok :: "jstr \<Rightarrow> bool" where
  "tag_ok v \<longleftrightarrow> v \<noteq> [] \<and> \<not> list_all ascii_digit v"

lemma foldl_hashtag_step:
  "foldl (hashtag_step u) st ms =
     foldl (\<lambda>st v. push_entity Hashtag_Entity v st) st (filter tag_ok (map (normalize u) ms))"
  by (induction ms arbitrary: st) (auto simp: hashtag_step_def tag_ok_def Let_def)

lemma foldl_mention_step:
  "foldl (mention_step u) st ms =
     foldl (\<lambda>st v. push_entity Mention_Entity v st) st
       (filter (\<lambda>v. v \<noteq> []) (map (normalize u \<circ> strip_dots) ms))"
  by (induction ms arbitrary: st) (auto simp: mention_step_def Let_def)

text \<open>The declarative reading: normalise, reject, keep first occurrences.\<close>

definition spec_hashtags :: "unicode \<Rightarrow> jstr \<Rightarrow> jstr list" where
  "spec_hashtags u c = dedup (filter tag_ok (map (normalize u) (caption_hashtags_raw u c)))"

definition spec_mentions :: "unicode \<Rightarrow> jstr \<Rightarrow> jstr list" where
  "spec_mentions u c =
     dedup (filter (\<lambda>v. v \<noteq> []) (map (normalize u \<circ> strip_dots) (mention_matches c)))"

lemma parseCaptionEntities_spec:
  "parseCaptionEntities u (Some c) =
     map (\<lambda>v. \<lparr>ce_type = Hashtag_Entity, ce_value = v\<rparr>) (spec_hashtags u c) @
     map (\<lambda>v. \<lparr>ce_type = Mention_Entity, ce_value = v\<rparr>) (spec_mentions u c)"
proof (cases "c = []")
  case True
  then show ?thesis
    by (simp add: parseCaptionEntities_def spec_hashtags_def spec_mentions_def caption_hashtags_raw_def)
next
  case False
  have "filter (\<lambda>v. entity_key Mention_Entity v \<notin> entity_key Hashtag_Entity ` X) ys = ys" for X ys
    by (auto simp: entity_key_inject filter_id_conv)
  with False show ?thesis
    by (simp add: parseCaptionEntities_def foldl_hashtag_step foldl_mention_step foldl_push_entity
        spec_hashtags_def spec_mentions_def)
qed

lemma parseCaptionArrays_spec:
  "parseCaptionArrays u (Some c) = (spec_hashtags u c, spec_mentions u c)"
  by (simp add: parseCaptionArrays_def parseCaptionEntities_spec Let_def filter_map o_def)

lemma parseCaptionArrays_None [simp]: "parseCaptionArrays u None = ([], [])"
  by (simp add: parseCaptionArrays_def parseCaptionEntities_def Let_def)

section \<open>What the stored arrays satisfy\<close>

lemma normalize_length: "length (normalize u s) \<le> 255"
  by (simp add: normalize_def js_slice_def MAX_VALUE_LENGTH_def)

lemma spec_hashtags_ok:
  "v \<in> set (spec_hashtags u c) \<Longrightarrow> v \<noteq> [] \<and> \<not> list_all ascii_digit v \<and> length v \<le> 255"
  by (auto simp: spec_hashtags_def tag_ok_def normalize_length)

lemma dropWhile_rev_last: "s \<noteq> [] \<Longrightarrow> \<not> P (last s) \<Longrightarrow> dropWhile P (rev s) = rev s"
  by (cases s rule: rev_cases) auto

lemma strip_dots_last: "strip_dots s \<noteq> [] \<Longrightarrow> last (strip_dots s) \<noteq> 46"
  using hd_dropWhile [of "\<lambda>c. c = 46" "rev s"] by (auto simp: strip_dots_def last_rev)

lemma strip_dots_prefix: "\<exists>ds. s = strip_dots s @ ds"
proof
  have "rev s = takeWhile (\<lambda>c. c = 46) (rev s) @ dropWhile (\<lambda>c. c = 46) (rev s)"
    by simp
  then show "s = strip_dots s @ rev (takeWhile (\<lambda>c. c = 46) (rev s))"
    unfolding strip_dots_def by (metis rev_append rev_rev_ident)
qed

lemma mention_char_ascii: "mention_char c \<Longrightarrow> c < 128"
  by (auto simp: mention_char_def ascii_letter_def ascii_upper_def ascii_digit_def)

definition handle_char :: "nat \<Rightarrow> bool" where
  "handle_char c \<longleftrightarrow> 97 \<le> c \<and> c \<le> 122 \<or> ascii_digit c \<or> c = 46 \<or> c = 95"

lemma mention_char_lower: "mention_char c \<Longrightarrow> handle_char (ascii_lower c)"
  by (auto simp: mention_char_def handle_char_def ascii_lower_def ascii_letter_def ascii_upper_def
      ascii_digit_def)

lemma spec_mentions_ok:
  assumes "unicode_ok u" "v \<in> set (spec_mentions u c)"
  shows "v \<noteq> [] \<and> length v \<le> 30 \<and> list_all handle_char v \<and> last v \<noteq> 46"
proof -
  from assms(2) obtain m where m: "m \<in> set (mention_matches c)"
    and v: "v = normalize u (strip_dots m)" "v \<noteq> []"
    by (auto simp: spec_mentions_def)
  obtain ds where ds: "m = strip_dots m @ ds"
    using strip_dots_prefix by blast
  have mc: "length m \<le> 30" "list_all mention_char m"
    using mention_matches_chars [OF m] by auto
  have sm: "length (strip_dots m) \<le> 30" "list_all mention_char (strip_dots m)"
    using mc ds by (metis le_trans length_append le_add1) (metis ds list_all_append mc(2))
  have low: "u_lower u (strip_dots m) = map ascii_lower (strip_dots m)"
    using assms(1) sm(2) by (intro unicode_ok_lower) (auto simp: list_all_iff mention_char_ascii)
  then have veq: "v = map ascii_lower (strip_dots m)"
    using sm(1) by (simp add: v normalize_def js_slice_def MAX_VALUE_LENGTH_def)
  have "strip_dots m \<noteq> []"
    using v veq by auto
  then have "last v \<noteq> 46"
    using strip_dots_last [of m] unfolding veq
    by (auto simp: last_map ascii_lower_def ascii_upper_def split: if_splits)
  moreover have "length v \<le> 30"
    using sm(1) by (simp add: veq)
  moreover have "list_all handle_char v"
    using sm(2) unfolding veq by (simp add: list_all_iff mention_char_lower)
  ultimately show ?thesis
    using v by blast
qed

end
