(* ===== verification/Media_Repository.thy ===== *)
theory Media_Repository
  imports Media_Asset_Repository Caption_Parser
begin

text \<open>
  \<open>src/api/repositories/MediaRepository.ts\<close>: the upsert of a post and the change-only history.
  \<open>upsertMedia\<close> runs in one transaction, so on an error the database is the one it started from.
\<close>

section \<open>The upsert of a post\<close>

record upsert_input =
  ui_media :: meta_media
  ui_hashtagId :: uuid
  ui_syncRunId :: uuid
  ui_source :: media_source
  ui_rank :: nat

record upsert_result =
  ur_id :: uuid
  ur_isNew :: bool
  ur_contentChanged :: bool
  ur_historyRecorded :: bool
  ur_changedFields :: "tracked_field list"

definition effectiveRank :: "upsert_input \<Rightarrow> nat option" where
  "effectiveRank inp = (case ui_source inp of Top \<Rightarrow> Some (ui_rank inp) | Recent \<Rightarrow> None)"

text \<open>The row \<open>INSERT ... VALUES\<close> would create.\<close>

definition new_post :: "unicode \<Rightarrow> time \<Rightarrow> uuid \<Rightarrow> time \<Rightarrow> upsert_input \<Rightarrow> media_post" where
  "new_post u now i takenAt inp =
     (let m = ui_media inp; tags = parseCaptionArrays u (mm_caption m)
      in \<lparr>mp_id = i, mp_igMediaId = mm_id m, mp_hashtagId = ui_hashtagId inp,
          mp_mediaType = mm_media_type m, mp_caption = mm_caption m, mp_permalink = mm_permalink m,
          mp_sourceMediaUrl = mm_media_url m, mp_captionHashtags = fst tags,
          mp_captionMentions = snd tags, mp_takenAt = takenAt, mp_firstSeenAt = now,
          mp_lastSeenAt = now, mp_contentUpdatedAt = None, mp_likeCount = mm_like_count m,
          mp_commentsCount = mm_comments_count m, mp_metricsUpdatedAt = Some now,
          mp_firstSeenVia = ui_source inp, mp_seenInTop = (ui_source inp = Top),
          mp_seenInRecent = (ui_source inp = Recent), mp_bestTopRank = effectiveRank inp,
          mp_isStale = False, mp_createdAt = now, mp_updatedAt = now\<rparr>)"

text \<open>\<open>LEAST\<close> ignores \<open>NULL\<close>.\<close>

definition sql_least :: "nat option \<Rightarrow> nat option \<Rightarrow> nat option" where
  "sql_least a b =
     (case a of None \<Rightarrow> b | Some x \<Rightarrow> (case b of None \<Rightarrow> Some x | Some y \<Rightarrow> Some (min x y)))"

text \<open>The row \<open>ON CONFLICT DO UPDATE\<close> makes of the existing one.\<close>

definition refresh_post :: "unicode \<Rightarrow> time \<Rightarrow> upsert_input \<Rightarrow> media_post \<Rightarrow> media_post" where
  "refresh_post u now inp r =
     (let m = ui_media inp; tags = parseCaptionArrays u (mm_caption m)
      in r\<lparr>mp_caption := mm_caption m, mp_sourceMediaUrl := mm_media_url m,
           mp_captionHashtags := fst tags, mp_captionMentions := snd tags,
           mp_likeCount := mm_like_count m, mp_commentsCount := mm_comments_count m,
           mp_metricsUpdatedAt := Some now, mp_lastSeenAt := now, mp_updatedAt := now,
           mp_seenInTop := (mp_seenInTop r \<or> ui_source inp = Top),
           mp_seenInRecent := (mp_seenInRecent r \<or> ui_source inp = Recent),
           mp_bestTopRank := (if ui_source inp = Top
              then sql_least (mp_bestTopRank r) (Some (ui_rank inp)) else mp_bestTopRank r),
           mp_isStale := False,
           mp_contentUpdatedAt :=
             (if mp_caption r \<noteq> mm_caption m \<or> mp_permalink r \<noteq> mm_permalink m
                 \<or> mp_mediaType r \<noteq> mm_media_type m
              then Some now else mp_contentUpdatedAt r)\<rparr>)"

definition findByIgMediaId :: "jstr \<Rightarrow> database \<Rightarrow> media_post option" where
  "findByIgMediaId ig db = find_row (\<lambda>m. mp_igMediaId m = ig) (db_mediaPosts db)"

definition findPostById :: "uuid \<Rightarrow> database \<Rightarrow> media_post option" where
  "findPostById i db = find_row (\<lambda>m. mp_id m = i) (db_mediaPosts db)"

text \<open>The statement, with the row it returns.\<close>

definition upsert_post ::
  "unicode \<Rightarrow> time \<Rightarrow> time \<Rightarrow> upsert_input \<Rightarrow> database \<Rightarrow> (js_error + media_post) \<times> database" where
  "upsert_post u now takenAt inp db =
     (if \<not> (int4_opt_ok (mm_like_count (ui_media inp)) \<and> int4_opt_ok (mm_comments_count (ui_media inp))
            \<and> int4_opt_ok (map_option int (effectiveRank inp)))
      then (Inl (pg_violation ''integer out of range''), db)
      else case findByIgMediaId (mm_id (ui_media inp)) db of
        Some r \<Rightarrow>
          (Inr (refresh_post u now inp r),
           db\<lparr>db_mediaPosts := update_where (\<lambda>m. mp_igMediaId m = mm_id (ui_media inp))
                (refresh_post u now inp) (db_mediaPosts db)\<rparr>)
      | None \<Rightarrow>
          (if ui_hashtagId inp \<notin> hashtag_ids db
           then (Inl (pg_violation ''media_posts_hashtag_id_hashtags_id_fk''), db)
           else let r = new_post u now (db_next db) takenAt inp
                in (Inr r, db\<lparr>db_mediaPosts := db_mediaPosts db @ [r], db_next := Suc (db_next db)\<rparr>)))"

section \<open>The history\<close>

record observation =
  ob_likeCount :: "int option"
  ob_commentsCount :: "int option"
  ob_rank :: "nat option"
  ob_caption :: "jstr option"
  ob_permalink :: jstr
  ob_mediaType :: media_type

definition observed :: "upsert_input \<Rightarrow> observation" where
  "observed inp =
     \<lparr>ob_likeCount = mm_like_count (ui_media inp), ob_commentsCount = mm_comments_count (ui_media inp),
       ob_rank = effectiveRank inp, ob_caption = mm_caption (ui_media inp),
       ob_permalink = mm_permalink (ui_media inp), ob_mediaType = mm_media_type (ui_media inp)\<rparr>"

definition recorded :: "post_history \<Rightarrow> observation" where
  "recorded h =
     \<lparr>ob_likeCount = ph_likeCount h, ob_commentsCount = ph_commentsCount h, ob_rank = ph_rank h,
       ob_caption = ph_caption h, ob_permalink = ph_permalink h, ob_mediaType = ph_mediaType h\<rparr>"

definition TRACKED_FIELDS :: "tracked_field list" where
  "TRACKED_FIELDS = [F_likeCount, F_commentsCount, F_rank, F_caption, F_permalink, F_mediaType]"

fun field_differs :: "observation \<Rightarrow> observation \<Rightarrow> tracked_field \<Rightarrow> bool" where
  "field_differs p c F_likeCount = (ob_likeCount p \<noteq> ob_likeCount c)"
| "field_differs p c F_commentsCount = (ob_commentsCount p \<noteq> ob_commentsCount c)"
| "field_differs p c F_rank = (ob_rank p \<noteq> ob_rank c)"
| "field_differs p c F_caption = (ob_caption p \<noteq> ob_caption c)"
| "field_differs p c F_permalink = (ob_permalink p \<noteq> ob_permalink c)"
| "field_differs p c F_mediaType = (ob_mediaType p \<noteq> ob_mediaType c)"

definition changed_fields :: "post_history option \<Rightarrow> observation \<Rightarrow> tracked_field list" where
  "changed_fields previous current =
     (case previous of
        Some p \<Rightarrow> filter (field_differs (recorded p) current) TRACKED_FIELDS
      | None \<Rightarrow> TRACKED_FIELDS)"

definition previous_row :: "uuid \<Rightarrow> database \<Rightarrow> post_history option" where
  "previous_row mediaId db = latest_by ph_capturedAt (filter (\<lambda>h. ph_mediaId h = mediaId) (db_history db))"

definition new_history ::
  "unicode \<Rightarrow> time \<Rightarrow> uuid \<Rightarrow> uuid \<Rightarrow> tracked_field list \<Rightarrow> upsert_input \<Rightarrow> post_history" where
  "new_history u now i mediaId changed inp =
     (let m = ui_media inp; tags = parseCaptionArrays u (mm_caption m)
      in \<lparr>ph_id = i, ph_mediaId = mediaId, ph_hashtagId = ui_hashtagId inp,
          ph_syncRunId = ui_syncRunId inp, ph_igMediaId = mm_id m, ph_mediaType = mm_media_type m,
          ph_caption = mm_caption m, ph_permalink = mm_permalink m, ph_captionHashtags = fst tags,
          ph_captionMentions = snd tags, ph_likeCount = mm_like_count m,
          ph_commentsCount = mm_comments_count m, ph_rank = effectiveRank inp,
          ph_source = ui_source inp, ph_changedFields = changed, ph_capturedAt = now\<rparr>)"

definition insert_history ::
  "unicode \<Rightarrow> time \<Rightarrow> uuid \<Rightarrow> tracked_field list \<Rightarrow> upsert_input \<Rightarrow> database \<Rightarrow>
     (js_error + bool) \<times> database" where
  "insert_history u now mediaId changed inp db =
     (if find_row (\<lambda>h. ph_mediaId h = mediaId \<and> ph_syncRunId h = ui_syncRunId inp) (db_history db) \<noteq> None
      then (Inr False, db)
      else if mediaId \<notin> post_ids db \<or> ui_hashtagId inp \<notin> hashtag_ids db \<or> ui_syncRunId inp \<notin> run_ids db
      then (Inl (pg_violation ''media_post_history_fk''), db)
      else (Inr True, db\<lparr>db_history := db_history db @ [new_history u now (db_next db) mediaId changed inp],
              db_next := Suc (db_next db)\<rparr>))"

definition upsertMedia ::
  "unicode \<Rightarrow> (jstr \<Rightarrow> time option) \<Rightarrow> time \<Rightarrow> upsert_input \<Rightarrow> database \<Rightarrow>
     (js_error + upsert_result) \<times> database" where
  "upsertMedia u date_parse now inp db =
     (case parseMetaTimestamp date_parse (mm_timestamp (ui_media inp)) of
        Inl e \<Rightarrow> (Inl e, db)
      | Inr takenAt \<Rightarrow>
          (case upsert_post u now takenAt inp db of
             (Inl e, _) \<Rightarrow> (Inl e, db)
           | (Inr row, db1) \<Rightarrow>
               (let isNew = (mp_firstSeenAt row = now);
                    contentChanged = (\<not> isNew \<and> mp_contentUpdatedAt row = Some now);
                    changed = changed_fields (previous_row (mp_id row) db1) (observed inp);
                    result = (\<lambda>hist. \<lparr>ur_id = mp_id row, ur_isNew = isNew,
                       ur_contentChanged = contentChanged, ur_historyRecorded = hist,
                       ur_changedFields = changed\<rparr>)
                in if changed = [] then (Inr (result False), db1)
                   else case insert_history u now (mp_id row) changed inp db1 of
                          (Inl e, _) \<Rightarrow> (Inl e, db)
                        | (Inr hist, db2) \<Rightarrow> (Inr (result hist), db2))))"

section \<open>The other operations\<close>

definition stale_before :: "uuid \<Rightarrow> time \<Rightarrow> media_post \<Rightarrow> bool" where
  "stale_before hashtagId threshold m \<longleftrightarrow>
     mp_hashtagId m = hashtagId \<and> mp_lastSeenAt m < threshold \<and> \<not> mp_isStale m"

definition markStaleBefore :: "time \<Rightarrow> uuid \<Rightarrow> time \<Rightarrow> database \<Rightarrow> nat \<times> database" where
  "markStaleBefore now hashtagId threshold db =
     (length (filter (stale_before hashtagId threshold) (db_mediaPosts db)),
      db\<lparr>db_mediaPosts := update_where (stale_before hashtagId threshold)
           (\<lambda>m. m\<lparr>mp_isStale := True, mp_updatedAt := now\<rparr>) (db_mediaPosts db)\<rparr>)"

definition findCoOccurringHashtags :: "uuid \<Rightarrow> nat \<Rightarrow> database \<Rightarrow> (jstr \<times> nat) list" where
  "findCoOccurringHashtags hashtagId n db =
     (let tags = concat (map mp_captionHashtags
            (filter (\<lambda>m. mp_hashtagId m = hashtagId) (db_mediaPosts db)))
      in take n (sort_key (\<lambda>(_, k). - int k) (map (\<lambda>t. (t, count_list tags t)) (dedup tags))))"


section \<open>The constraints are kept\<close>

lemma db_wf_insert_post:
  assumes "db_wf db" "mp_id m = db_next db" "mp_hashtagId m \<in> hashtag_ids db"
    "mp_igMediaId m \<notin> mp_igMediaId ` set (db_mediaPosts db)"
  shows "db_wf (db\<lparr>db_mediaPosts := db_mediaPosts db @ [m], db_next := Suc (db_next db)\<rparr>)"
    (is "db_wf ?db")
proof -
  have "unique_ok ?db"
    using db_wf_parts(1) [OF assms(1)] assms(4) by (simp add: unique_ok_def resolved_names_def)
  moreover have "fresh_ok ?db"
    using db_wf_parts(3) [OF assms(1)] assms(2) by (simp add: fresh_ok_def less_Suc_eq)
  moreover have "keys_ok ?db"
    using db_wf_parts(2,3) [OF assms(1)] assms(2) by (auto simp: keys_ok_def fresh_ok_def)
  moreover have "refs_ok ?db"
    using db_wf_parts(4) [OF assms(1)] assms(3) by (simp add: refs_ok_def id_defs)
  ultimately show ?thesis
    by (simp add: db_wf_def)
qed

lemma db_wf_insert_history:
  assumes "db_wf db" "ph_id h = db_next db" "ph_mediaId h \<in> post_ids db"
    "ph_hashtagId h \<in> hashtag_ids db" "ph_syncRunId h \<in> run_ids db"
    "\<And>g. g \<in> set (db_history db) \<Longrightarrow> ph_mediaId g = ph_mediaId h \<Longrightarrow> ph_syncRunId g \<noteq> ph_syncRunId h"
  shows "db_wf (db\<lparr>db_history := db_history db @ [h], db_next := Suc (db_next db)\<rparr>)"
    (is "db_wf ?db")
proof -
  have "(ph_mediaId h, ph_syncRunId h) \<notin> (\<lambda>h. (ph_mediaId h, ph_syncRunId h)) ` set (db_history db)"
    using assms(6) by (metis (no_types, lifting) imageE prod.inject)
  then have "unique_ok ?db"
    using db_wf_parts(1) [OF assms(1)] by (simp add: unique_ok_def resolved_names_def)
  moreover have "fresh_ok ?db"
    using db_wf_parts(3) [OF assms(1)] assms(2) by (simp add: fresh_ok_def less_Suc_eq)
  moreover have "keys_ok ?db"
    using db_wf_parts(2,3) [OF assms(1)] assms(2) by (auto simp: keys_ok_def fresh_ok_def)
  moreover have "refs_ok ?db"
    using db_wf_parts(4) [OF assms(1)] assms(3,4,5) by (simp add: refs_ok_def id_defs)
  ultimately show ?thesis
    by (simp add: db_wf_def)
qed

lemma refresh_post_keeps [simp]:
  "mp_id (refresh_post u now inp m) = mp_id m"
  "mp_igMediaId (refresh_post u now inp m) = mp_igMediaId m"
  "mp_hashtagId (refresh_post u now inp m) = mp_hashtagId m"
  "mp_takenAt (refresh_post u now inp m) = mp_takenAt m"
  "mp_firstSeenAt (refresh_post u now inp m) = mp_firstSeenAt m"
  "mp_firstSeenVia (refresh_post u now inp m) = mp_firstSeenVia m"
  "mp_createdAt (refresh_post u now inp m) = mp_createdAt m"
  "mp_permalink (refresh_post u now inp m) = mp_permalink m"
  "mp_mediaType (refresh_post u now inp m) = mp_mediaType m"
  by (simp_all add: refresh_post_def Let_def)

lemma new_post_keys [simp]:
  "mp_id (new_post u now i takenAt inp) = i"
  "mp_igMediaId (new_post u now i takenAt inp) = mm_id (ui_media inp)"
  "mp_hashtagId (new_post u now i takenAt inp) = ui_hashtagId inp"
  "mp_firstSeenAt (new_post u now i takenAt inp) = now"
  by (simp_all add: new_post_def Let_def)

lemma new_history_keys [simp]:
  "ph_id (new_history u now i k c inp) = i"
  "ph_mediaId (new_history u now i k c inp) = k"
  "ph_hashtagId (new_history u now i k c inp) = ui_hashtagId inp"
  "ph_syncRunId (new_history u now i k c inp) = ui_syncRunId inp"
  "ph_capturedAt (new_history u now i k c inp) = now"
  "ph_changedFields (new_history u now i k c inp) = c"
  "recorded (new_history u now i k c inp) = observed inp"
  by (simp_all add: new_history_def Let_def recorded_def observed_def)

lemma findByIgMediaId_None:
  "findByIgMediaId ig db = None \<longleftrightarrow> ig \<notin> mp_igMediaId ` set (db_mediaPosts db)"
  by (auto simp: findByIgMediaId_def find_row_None_iff)

lemma findByIgMediaId_Some:
  "findByIgMediaId ig db = Some r \<Longrightarrow> r \<in> set (db_mediaPosts db) \<and> mp_igMediaId r = ig"
  by (auto simp: findByIgMediaId_def dest: find_row_SomeD)

text \<open>The two branches of the statement, as one case rule for the proofs below.\<close>

lemma upsert_post_cases:
  assumes "upsert_post u now takenAt inp db = (Inr row, db1)"
  obtains (refresh) r where "findByIgMediaId (mm_id (ui_media inp)) db = Some r"
      "row = refresh_post u now inp r"
      "db1 = db\<lparr>db_mediaPosts := update_where (\<lambda>m. mp_igMediaId m = mm_id (ui_media inp))
                (refresh_post u now inp) (db_mediaPosts db)\<rparr>"
    | (insert) "findByIgMediaId (mm_id (ui_media inp)) db = None"
      "ui_hashtagId inp \<in> hashtag_ids db"
      "row = new_post u now (db_next db) takenAt inp"
      "db1 = db\<lparr>db_mediaPosts := db_mediaPosts db @ [row], db_next := Suc (db_next db)\<rparr>"
  using assms by (auto simp: upsert_post_def Let_def split: option.splits if_splits)

lemma upsert_post_wf:
  assumes "db_wf db" "upsert_post u now takenAt inp db = (Inr row, db1)"
  shows "db_wf db1"
  using assms(2)
proof (cases rule: upsert_post_cases)
  case (refresh r)
  then show ?thesis using assms(1) by (simp add: db_wf_update_posts)
next
  case insert
  then show ?thesis using assms(1) by (simp add: db_wf_insert_post findByIgMediaId_None)
qed

lemma upsert_post_facts:
  assumes "upsert_post u now takenAt inp db = (Inr row, db1)"
  shows "row \<in> set (db_mediaPosts db1)" "mp_igMediaId row = mm_id (ui_media inp)"
    "hashtag_ids db1 = hashtag_ids db" "run_ids db1 = run_ids db" "post_ids db \<subseteq> post_ids db1"
    "db_history db1 = db_history db" "findByIgMediaId (mm_id (ui_media inp)) db1 = Some row"
    "db_hashtags db1 = db_hashtags db" "db_syncRuns db1 = db_syncRuns db"
    "db_dataPoints db1 = db_dataPoints db" "db_assets db1 = db_assets db"
proof -
  have "row \<in> set (db_mediaPosts db1) \<and> mp_igMediaId row = mm_id (ui_media inp)
      \<and> hashtag_ids db1 = hashtag_ids db \<and> run_ids db1 = run_ids db \<and> post_ids db \<subseteq> post_ids db1
      \<and> db_history db1 = db_history db \<and> findByIgMediaId (mm_id (ui_media inp)) db1 = Some row
      \<and> db_hashtags db1 = db_hashtags db \<and> db_syncRuns db1 = db_syncRuns db
      \<and> db_dataPoints db1 = db_dataPoints db \<and> db_assets db1 = db_assets db"
    using assms
  proof (cases rule: upsert_post_cases)
    case (refresh r)
    have "post_ids db1 = post_ids db"
      by (simp add: refresh(3) post_ids_def image_update_where_same)
    moreover have "row \<in> set (db_mediaPosts db1)"
      using findByIgMediaId_Some [OF refresh(1)] by (auto simp: refresh(2,3) set_update_where)
    ultimately show ?thesis
      using findByIgMediaId_Some [OF refresh(1)] refresh
      by (simp add: hashtag_ids_def run_ids_def findByIgMediaId_def find_row_update_where)
  next
    case insert
    then show ?thesis
      by (auto simp: id_defs findByIgMediaId_def find_row_append find_row_Cons)
  qed
  then show "row \<in> set (db_mediaPosts db1)" "mp_igMediaId row = mm_id (ui_media inp)"
    "hashtag_ids db1 = hashtag_ids db" "run_ids db1 = run_ids db" "post_ids db \<subseteq> post_ids db1"
    "db_history db1 = db_history db" "findByIgMediaId (mm_id (ui_media inp)) db1 = Some row"
    "db_hashtags db1 = db_hashtags db" "db_syncRuns db1 = db_syncRuns db"
    "db_dataPoints db1 = db_dataPoints db" "db_assets db1 = db_assets db"
    by simp_all
qed

text \<open>The outcomes of the transaction.\<close>

lemma upsertMedia_cases:
  obtains (error) e where "upsertMedia u dp now inp db = (Inl e, db)"
    | (no_history) takenAt row db1 res where "upsert_post u now takenAt inp db = (Inr row, db1)"
      "upsertMedia u dp now inp db = (Inr res, db1)" "ur_id res = mp_id row" "\<not> ur_historyRecorded res"
      "ur_isNew res = (mp_firstSeenAt row = now)"
      "ur_contentChanged res = (mp_firstSeenAt row \<noteq> now \<and> mp_contentUpdatedAt row = Some now)"
      "changed_fields (previous_row (mp_id row) db) (observed inp) = []
       \<or> (\<exists>h \<in> set (db_history db). ph_mediaId h = mp_id row \<and> ph_syncRunId h = ui_syncRunId inp)"
    | (history) takenAt row db1 res ch where "upsert_post u now takenAt inp db = (Inr row, db1)"
      "ch = changed_fields (previous_row (mp_id row) db) (observed inp)" "ch \<noteq> []"
      "\<forall>h \<in> set (db_history db). ph_mediaId h = mp_id row \<longrightarrow> ph_syncRunId h \<noteq> ui_syncRunId inp"
      "ui_hashtagId inp \<in> hashtag_ids db" "ui_syncRunId inp \<in> run_ids db"
      "upsertMedia u dp now inp db = (Inr res, db1\<lparr>db_history := db_history db1 @
          [new_history u now (db_next db1) (mp_id row) ch inp], db_next := Suc (db_next db1)\<rparr>)"
      "ur_id res = mp_id row" "ur_historyRecorded res"
      "ur_isNew res = (mp_firstSeenAt row = now)"
      "ur_contentChanged res = (mp_firstSeenAt row \<noteq> now \<and> mp_contentUpdatedAt row = Some now)"
proof (cases "parseMetaTimestamp dp (mm_timestamp (ui_media inp))")
  case (Inl e)
  then show ?thesis using error by (simp add: upsertMedia_def)
next
  case (Inr takenAt)
  show ?thesis
  proof (cases "upsert_post u now takenAt inp db")
    case (Pair r db1)
    show ?thesis
    proof (cases r)
      case (Inl e)
      then show ?thesis using error Pair Inr by (simp add: upsertMedia_def)
    next
      case row: (Inr row)
      note up = Pair [unfolded row]
      have hist: "previous_row (mp_id row) db1 = previous_row (mp_id row) db"
        by (simp add: previous_row_def upsert_post_facts(6) [OF up])
      have known: "mp_id row \<in> post_ids db1"
        using upsert_post_facts(1) [OF up] by (simp add: post_ids_def)
      note f = upsert_post_facts(3,4,6) [OF up] hist known
      show ?thesis
        by (cases "changed_fields (previous_row (mp_id row) db) (observed inp) = []";
            cases "\<exists>h \<in> set (db_history db). ph_mediaId h = mp_id row \<and> ph_syncRunId h = ui_syncRunId inp";
            cases "ui_hashtagId inp \<in> hashtag_ids db \<and> ui_syncRunId inp \<in> run_ids db")
          (use Inr up f error no_history [OF up] history [OF up] in
            \<open>simp_all add: upsertMedia_def Let_def insert_history_def find_row_None_iff\<close>)
    qed
  qed
qed


lemma upsertMedia_wf:
  assumes "db_wf db"
  shows "db_wf (snd (upsertMedia u dp now inp db))"
proof (cases u dp now inp db rule: upsertMedia_cases)
  case (error e)
  then show ?thesis using assms by simp
next
  case (no_history takenAt row db1 res)
  then show ?thesis using assms upsert_post_wf by simp
next
  case (history takenAt row db1 res ch)
  note f = upsert_post_facts [OF history(1)]
  have "mp_id row \<in> post_ids db1"
    using f(1) by (simp add: post_ids_def)
  then have "db_wf (db1\<lparr>db_history := db_history db1 @
      [new_history u now (db_next db1) (mp_id row) ch inp], db_next := Suc (db_next db1)\<rparr>)"
    using upsert_post_wf [OF assms history(1)] history(4-6) f(3,4,6)
    by (intro db_wf_insert_history) simp_all
  then show ?thesis
    by (simp add: history(7))
qed

lemma upsertMedia_keeps:
  "hashtag_ids (snd (upsertMedia u dp now inp db)) = hashtag_ids db"
  "run_ids (snd (upsertMedia u dp now inp db)) = run_ids db"
  "post_ids db \<subseteq> post_ids (snd (upsertMedia u dp now inp db))"
  "db_hashtags (snd (upsertMedia u dp now inp db)) = db_hashtags db"
  "db_syncRuns (snd (upsertMedia u dp now inp db)) = db_syncRuns db"
  "db_dataPoints (snd (upsertMedia u dp now inp db)) = db_dataPoints db"
  "db_assets (snd (upsertMedia u dp now inp db)) = db_assets db"
proof -
  let ?db' = "snd (upsertMedia u dp now inp db)"
  have "hashtag_ids ?db' = hashtag_ids db \<and> run_ids ?db' = run_ids db \<and> post_ids db \<subseteq> post_ids ?db'
      \<and> db_hashtags ?db' = db_hashtags db \<and> db_syncRuns ?db' = db_syncRuns db
      \<and> db_dataPoints ?db' = db_dataPoints db \<and> db_assets ?db' = db_assets db"
  proof (cases u dp now inp db rule: upsertMedia_cases)
    case (error e)
    then show ?thesis by simp
  next
    case (no_history takenAt row db1 res)
    then show ?thesis by (simp add: upsert_post_facts [OF no_history(1)])
  next
    case (history takenAt row db1 res ch)
    then show ?thesis
      using upsert_post_facts [OF history(1)] by (simp add: hashtag_ids_def run_ids_def post_ids_def)
  qed
  then show "hashtag_ids ?db' = hashtag_ids db" "run_ids ?db' = run_ids db"
    "post_ids db \<subseteq> post_ids ?db'" "db_hashtags ?db' = db_hashtags db" "db_syncRuns ?db' = db_syncRuns db"
    "db_dataPoints ?db' = db_dataPoints db" "db_assets ?db' = db_assets db"
    by simp_all
qed

text \<open>What a success says: the row is there, under the identifier that is returned.\<close>

lemma upsertMedia_row:
  assumes "fst (upsertMedia u dp now inp db) = Inr res"
  obtains row db1 takenAt where "upsert_post u now takenAt inp db = (Inr row, db1)"
    "findByIgMediaId (mm_id (ui_media inp)) (snd (upsertMedia u dp now inp db)) = Some row"
    "db_mediaPosts (snd (upsertMedia u dp now inp db)) = db_mediaPosts db1"
    "ur_id res = mp_id row" "ur_isNew res = (mp_firstSeenAt row = now)"
    "ur_contentChanged res = (mp_firstSeenAt row \<noteq> now \<and> mp_contentUpdatedAt row = Some now)"
proof (cases u dp now inp db rule: upsertMedia_cases)
  case (error e)
  then show ?thesis using assms by simp
next
  case (no_history takenAt row db1 res)
  then show ?thesis
    using assms that [OF no_history(1)] upsert_post_facts(7) [OF no_history(1)] by simp
next
  case (history takenAt row db1 res ch)
  then show ?thesis
    using assms that [OF history(1)] upsert_post_facts(7) [OF history(1)]
    by (simp add: findByIgMediaId_def)
qed

end
