(* ===== verification/Media_History.thy ===== *)
theory Media_History
  imports Media_Repository
begin

text \<open>
  What any sequence of upserts does to the posts and their history: identity columns are written
  once, the sticky flags and the best rank only move one way, and the history of a post records
  changes, all of them and nothing else.
\<close>

section \<open>Sequences of upserts\<close>

fun upserts ::
  "unicode \<Rightarrow> (jstr \<Rightarrow> time option) \<Rightarrow> (time \<times> upsert_input) list \<Rightarrow> database \<Rightarrow> database" where
  "upserts u dp [] db = db"
| "upserts u dp ((now, inp) # rest) db = upserts u dp rest (snd (upsertMedia u dp now inp db))"

lemma upserts_append: "upserts u dp (xs @ ys) db = upserts u dp ys (upserts u dp xs db)"
  by (induction xs arbitrary: db) auto

lemma upserts_wf: "db_wf db \<Longrightarrow> db_wf (upserts u dp steps db)"
  by (induction steps arbitrary: db) (auto simp: upsertMedia_wf)

section \<open>The posts\<close>

text \<open>\<open>LEAST\<close>: the rank on the right is at least as good.\<close>

definition rank_improves :: "nat option \<Rightarrow> nat option \<Rightarrow> bool" where
  "rank_improves a b \<longleftrightarrow> (case a of None \<Rightarrow> True | Some x \<Rightarrow> (case b of None \<Rightarrow> False | Some y \<Rightarrow> y \<le> x))"

definition post_evolves :: "media_post \<Rightarrow> media_post \<Rightarrow> bool" where
  "post_evolves m m' \<longleftrightarrow>
     mp_id m' = mp_id m \<and> mp_igMediaId m' = mp_igMediaId m \<and> mp_hashtagId m' = mp_hashtagId m
     \<and> mp_takenAt m' = mp_takenAt m \<and> mp_firstSeenAt m' = mp_firstSeenAt m
     \<and> mp_firstSeenVia m' = mp_firstSeenVia m \<and> mp_createdAt m' = mp_createdAt m
     \<and> (mp_seenInTop m \<longrightarrow> mp_seenInTop m') \<and> (mp_seenInRecent m \<longrightarrow> mp_seenInRecent m')
     \<and> rank_improves (mp_bestTopRank m) (mp_bestTopRank m')"

lemma rank_improves_refl [simp]: "rank_improves r r"
  by (simp add: rank_improves_def split: option.split)

lemma rank_improves_trans: "rank_improves a b \<Longrightarrow> rank_improves b c \<Longrightarrow> rank_improves a c"
  by (auto simp: rank_improves_def split: option.splits)

lemma rank_improves_least: "rank_improves a (sql_least a b)" "rank_improves b (sql_least a b)"
  by (auto simp: rank_improves_def sql_least_def split: option.split)

lemma post_evolves_refl [simp]: "post_evolves m m"
  by (simp add: post_evolves_def)

lemma post_evolves_trans: "post_evolves a b \<Longrightarrow> post_evolves b c \<Longrightarrow> post_evolves a c"
  by (auto simp: post_evolves_def elim: rank_improves_trans)

lemma post_evolves_refresh [simp]: "post_evolves m (refresh_post u now inp m)"
proof -
  have "mp_bestTopRank (refresh_post u now inp m) =
      (if ui_source inp = Top then sql_least (mp_bestTopRank m) (Some (ui_rank inp)) else mp_bestTopRank m)"
    "mp_seenInTop (refresh_post u now inp m) = (mp_seenInTop m \<or> ui_source inp = Top)"
    "mp_seenInRecent (refresh_post u now inp m) = (mp_seenInRecent m \<or> ui_source inp = Recent)"
    by (simp_all add: refresh_post_def Let_def)
  then show ?thesis
    by (simp add: post_evolves_def rank_improves_least)
qed

definition posts_evolve :: "database \<Rightarrow> database \<Rightarrow> bool" where
  "posts_evolve db db' \<longleftrightarrow>
     (\<exists>new. list_all2 post_evolves (db_mediaPosts db @ new) (db_mediaPosts db'))"

lemma list_all2_evolves_refl [simp]: "list_all2 post_evolves t t"
  by (simp add: list.rel_refl)

lemma posts_evolve_refl [simp]: "posts_evolve db db"
  unfolding posts_evolve_def by (rule exI [of _ "[]"]) simp

lemma posts_evolve_trans:
  assumes "posts_evolve a b" "posts_evolve b c"
  shows "posts_evolve a c"
proof -
  from assms obtain n1 n2 where 1: "list_all2 post_evolves (db_mediaPosts a @ n1) (db_mediaPosts b)"
    and 2: "list_all2 post_evolves (db_mediaPosts b @ n2) (db_mediaPosts c)"
    by (auto simp: posts_evolve_def)
  from 1 have "list_all2 post_evolves ((db_mediaPosts a @ n1) @ n2) (db_mediaPosts b @ n2)"
    by (rule list_all2_appendI) simp
  then have "list_all2 post_evolves ((db_mediaPosts a @ n1) @ n2) (db_mediaPosts c)"
    using 2 list_all2_trans post_evolves_trans by blast
  then show ?thesis
    unfolding posts_evolve_def by (metis append.assoc)
qed

lemma posts_evolve_upsert_post:
  assumes "upsert_post u now takenAt inp db = (Inr row, db1)"
  shows "posts_evolve db db1"
  using assms
proof (cases rule: upsert_post_cases)
  case (refresh r)
  have "list_all2 post_evolves t (update_where p (refresh_post u now inp) t)" for p t
    by (simp add: update_where_def list_all2_conv_all_nth)
  then have "list_all2 post_evolves (db_mediaPosts db @ []) (db_mediaPosts db1)"
    by (simp add: refresh(3))
  then show ?thesis
    unfolding posts_evolve_def by blast
next
  case insert
  then have "list_all2 post_evolves (db_mediaPosts db @ [row]) (db_mediaPosts db1)"
    by simp
  then show ?thesis
    unfolding posts_evolve_def by blast
qed

lemma posts_evolve_upsert: "posts_evolve db (snd (upsertMedia u dp now inp db))"
proof (cases u dp now inp db rule: upsertMedia_cases)
  case (error e)
  then show ?thesis by simp
next
  case (no_history takenAt row db1 res)
  then show ?thesis using posts_evolve_upsert_post by simp
next
  case (history takenAt row db1 res ch)
  then show ?thesis
    using posts_evolve_upsert_post [OF history(1)] by (simp add: posts_evolve_def)
qed

lemma posts_evolve_upserts: "posts_evolve db (upserts u dp steps db)"
proof (induction steps arbitrary: db)
  case (Cons s steps)
  then show ?case
    by (cases s) (auto intro: posts_evolve_trans [OF posts_evolve_upsert])
qed simp

lemma posts_evolve_find:
  assumes "posts_evolve db db'" "findByIgMediaId ig db = Some m"
  shows "\<exists>m'. findByIgMediaId ig db' = Some m' \<and> post_evolves m m'"
proof -
  have *: "\<exists>m'. find_row (\<lambda>m. mp_igMediaId m = ig) t' = Some m' \<and> post_evolves m m'"
    if "list_all2 post_evolves (t @ new) t'" "find_row (\<lambda>m. mp_igMediaId m = ig) t = Some m" for t t' new
    using that
  proof (induction t arbitrary: t')
    case (Cons x t)
    then obtain y t'' where "t' = y # t''" "post_evolves x y" "list_all2 post_evolves (t @ new) t''"
      by (auto simp: list_all2_Cons1)
    then show ?case
      using Cons by (auto simp: find_row_Cons post_evolves_def split: if_splits)
  qed simp
  show ?thesis
    using assms * unfolding posts_evolve_def findByIgMediaId_def by blast
qed

section \<open>The history\<close>

definition history_of :: "uuid \<Rightarrow> database \<Rightarrow> post_history list" where
  "history_of i db = filter (\<lambda>h. ph_mediaId h = i) (db_history db)"

text \<open>Consecutive rows of a post differ in what they record.\<close>

definition change_only :: "database \<Rightarrow> bool" where
  "change_only db \<longleftrightarrow> (\<forall>i. distinct_adj (map recorded (history_of i db)))"

text \<open>The clock has not run backwards past the history.\<close>

definition history_until :: "time \<Rightarrow> database \<Rightarrow> bool" where
  "history_until now db \<longleftrightarrow>
     sorted (map ph_capturedAt (db_history db)) \<and> (\<forall>h \<in> set (db_history db). ph_capturedAt h \<le> now)"

lemma latest_by_sorted:
  "sorted (map k t) \<Longrightarrow> t \<noteq> [] \<Longrightarrow> latest_by k t = Some (last t)"
proof (induction t rule: rev_induct)
  case (snoc x t)
  show ?case
  proof (cases "t = []")
    case False
    then have "latest_by k t = Some (last t)" "k (last t) \<le> k x"
      using snoc by (auto simp: sorted_append)
    then show ?thesis by (simp add: latest_by_snoc)
  qed (simp add: latest_by_def)
qed simp

lemma previous_row_last:
  assumes "history_until now db"
  shows "previous_row i db = (if history_of i db = [] then None else Some (last (history_of i db)))"
  using assms latest_by_sorted [of ph_capturedAt "history_of i db"]
  by (auto simp: previous_row_def history_of_def history_until_def sorted_filter)

lemma changed_fields_Nil_iff:
  "changed_fields prev cur = [] \<longleftrightarrow> (\<exists>p. prev = Some p \<and> recorded p = cur)"
  by (cases prev) (auto simp: changed_fields_def TRACKED_FIELDS_def filter_empty_conv)

lemma upsertMedia_history:
  obtains (same) "db_history (snd (upsertMedia u dp now inp db)) = db_history db"
  | (append) n i ch where "ch = changed_fields (previous_row i db) (observed inp)" "ch \<noteq> []"
      "db_history (snd (upsertMedia u dp now inp db)) =
         db_history db @ [new_history u now n i ch inp]"
proof (cases u dp now inp db rule: upsertMedia_cases)
  case (error e)
  then show ?thesis using same by simp
next
  case (no_history takenAt row db1 res)
  then show ?thesis using same upsert_post_facts(6) by simp
next
  case (history takenAt row db1 res ch)
  then show ?thesis
    using append [of ch "mp_id row" "db_next db1"] upsert_post_facts(6) [OF history(1)] by simp
qed

lemma history_until_upsert:
  assumes "history_until t db" "t \<le> now"
  shows "history_until now (snd (upsertMedia u dp now inp db))"
proof (cases u dp now inp db rule: upsertMedia_history)
  case same
  then show ?thesis using assms by (fastforce simp: history_until_def)
next
  case (append n i ch)
  then show ?thesis using assms by (fastforce simp: history_until_def sorted_append)
qed

lemma change_only_upsert:
  assumes "change_only db" "history_until now db"
  shows "change_only (snd (upsertMedia u dp now inp db))"
proof (cases u dp now inp db rule: upsertMedia_history)
  case same
  then show ?thesis using assms by (simp add: change_only_def history_of_def)
next
  case (append n i ch)
  let ?db' = "snd (upsertMedia u dp now inp db)" and ?new = "new_history u now n i ch inp"
  have "distinct_adj (map recorded (history_of j ?db'))" for j
  proof (cases "j = i")
    case True
    have "recorded (last (history_of i db)) \<noteq> observed inp" if "history_of i db \<noteq> []"
      using append(1,2) that previous_row_last [OF assms(2)] by (auto simp: changed_fields_Nil_iff)
    then show ?thesis
      using True assms(1) append(3)
      by (auto simp: change_only_def history_of_def distinct_adj_append_iff last_map)
  next
    case False
    then show ?thesis
      using assms(1) append(3) by (simp add: change_only_def history_of_def)
  qed
  then show ?thesis by (simp add: change_only_def)
qed

text \<open>Steps whose clock readings never decrease.\<close>

fun clocked :: "time \<Rightarrow> (time \<times> 'a) list \<Rightarrow> bool" where
  "clocked t [] = True"
| "clocked t ((now, _) # rest) = (t \<le> now \<and> clocked now rest)"

lemma change_only_upserts:
  assumes "change_only db" "history_until t db" "clocked t steps"
  shows "change_only (upserts u dp steps db)"
  using assms
proof (induction steps arbitrary: db t)
  case (Cons s steps)
  obtain now inp where s: "s = (now, inp)" by fastforce
  have "t \<le> now" "clocked now steps" using Cons.prems(3) by (simp_all add: s)
  moreover have "history_until now db"
    using Cons.prems(2) \<open>t \<le> now\<close> by (fastforce simp: history_until_def)
  ultimately show ?case
    using Cons.prems(1,2) by (auto simp: s intro: Cons.IH change_only_upsert history_until_upsert)
qed simp

text \<open>History is append only.\<close>

lemma history_prefix_upserts: "\<exists>new. db_history (upserts u dp steps db) = db_history db @ new"
proof (induction steps arbitrary: db)
  case (Cons s steps)
  obtain now inp where s: "s = (now, inp)" by fastforce
  obtain n1 where "db_history (snd (upsertMedia u dp now inp db)) = db_history db @ n1"
    by (cases u dp now inp db rule: upsertMedia_history) auto
  moreover obtain n2 where "db_history (upserts u dp steps (snd (upsertMedia u dp now inp db))) =
      db_history (snd (upsertMedia u dp now inp db)) @ n2"
    using Cons by blast
  ultimately show ?case by (simp add: s)
qed simp

lemma empty_history [simp]:
  "db_history db = [] \<Longrightarrow> change_only db" "db_history db = [] \<Longrightarrow> history_until t db"
  by (simp_all add: change_only_def history_of_def history_until_def)

section \<open>Redelivery\<close>

text \<open>
  A second delivery of the same observation in the same run adds neither a post nor a history row,
  whatever the clock says.
\<close>

lemma upsertMedia_twice:
  assumes "fst (upsertMedia u dp now inp db) = Inr res" "db_wf db"
  shows "db_history (snd (upsertMedia u dp now' inp (snd (upsertMedia u dp now inp db)))) =
      db_history (snd (upsertMedia u dp now inp db))"
    and "map mp_id (db_mediaPosts (snd (upsertMedia u dp now' inp (snd (upsertMedia u dp now inp db))))) =
      map mp_id (db_mediaPosts (snd (upsertMedia u dp now inp db)))"
proof -
  let ?db1 = "snd (upsertMedia u dp now inp db)"
  let ?db2 = "snd (upsertMedia u dp now' inp ?db1)"
  obtain row where row: "findByIgMediaId (mm_id (ui_media inp)) ?db1 = Some row"
    "changed_fields (previous_row (mp_id row) ?db1) (observed inp) = []
     \<or> (\<exists>h \<in> set (db_history ?db1). ph_mediaId h = mp_id row \<and> ph_syncRunId h = ui_syncRunId inp)"
  proof (cases u dp now inp db rule: upsertMedia_cases)
    case (no_history takenAt row db1 res)
    then show ?thesis
      using that [of row] upsert_post_facts [OF no_history(1)] by (simp add: previous_row_def)
  next
    case (history takenAt row db1 res ch)
    then show ?thesis
      using that [of row] upsert_post_facts [OF history(1)] by (simp add: findByIgMediaId_def)
  qed (use assms(1) in simp)
  have "db_history ?db2 = db_history ?db1
      \<and> map mp_id (db_mediaPosts ?db2) = map mp_id (db_mediaPosts ?db1)"
  proof (cases u dp now' inp ?db1 rule: upsertMedia_cases)
    case (error e)
    then show ?thesis by simp
  next
    case (no_history takenAt row' db2 res)
    from no_history(1) show ?thesis
      by (cases rule: upsert_post_cases) (simp_all add: no_history(2) row(1) map_update_where_same)
  next
    case (history takenAt row' db2 res ch)
    have "mp_id row' = mp_id row"
      using history(1) row(1) by (auto elim!: upsert_post_cases)
    then show ?thesis
      using history(2,3,4) row(2) by auto
  qed
  then show "db_history ?db2 = db_history ?db1"
    "map mp_id (db_mediaPosts ?db2) = map mp_id (db_mediaPosts ?db1)" by simp_all
qed

text \<open>\<open>isNew\<close> is true exactly for a post that was absent, when no row carries the present instant.\<close>

lemma upsertMedia_isNew:
  assumes "fst (upsertMedia u dp now inp db) = Inr res"
    "\<forall>m \<in> set (db_mediaPosts db). mp_firstSeenAt m \<noteq> now"
  shows "ur_isNew res \<longleftrightarrow> findByIgMediaId (mm_id (ui_media inp)) db = None"
proof -
  obtain row db1 takenAt where up: "upsert_post u now takenAt inp db = (Inr row, db1)"
    and new: "ur_isNew res = (mp_firstSeenAt row = now)"
    using upsertMedia_row [OF assms(1)] by metis
  from up show ?thesis
  proof (cases rule: upsert_post_cases)
    case (refresh r)
    then show ?thesis
      using assms(2) new findByIgMediaId_Some [OF refresh(1)] by auto
  next
    case insert
    then show ?thesis using new by simp
  qed
qed

text \<open>
  The statement compares the permalink and the media type with the stored row but never writes
  them: a post whose permalink differs from the stored one counts as edited on every sync.
\<close>

lemma upsertMedia_permalink_stuck:
  assumes "findByIgMediaId (mm_id (ui_media inp)) db = Some r"
    "mp_permalink r \<noteq> mm_permalink (ui_media inp)" "mp_firstSeenAt r \<noteq> now"
    "fst (upsertMedia u dp now inp db) = Inr res"
  shows "ur_contentChanged res"
    and "\<exists>r'. findByIgMediaId (mm_id (ui_media inp)) (snd (upsertMedia u dp now inp db)) = Some r'
      \<and> mp_permalink r' = mp_permalink r \<and> mp_contentUpdatedAt r' = Some now"
proof -
  obtain row db1 takenAt where up: "upsert_post u now takenAt inp db = (Inr row, db1)"
    and f: "findByIgMediaId (mm_id (ui_media inp)) (snd (upsertMedia u dp now inp db)) = Some row"
    and cc: "ur_contentChanged res = (mp_firstSeenAt row \<noteq> now \<and> mp_contentUpdatedAt row = Some now)"
    using upsertMedia_row [OF assms(4)] by metis
  have "row = refresh_post u now inp r"
    using up assms(1) by (auto elim!: upsert_post_cases)
  then have row: "mp_permalink row = mp_permalink r" "mp_contentUpdatedAt row = Some now"
    "mp_firstSeenAt row = mp_firstSeenAt r"
    using assms(2) by (simp_all add: refresh_post_def Let_def)
  show "ur_contentChanged res"
    using cc row assms(3) by simp
  show "\<exists>r'. findByIgMediaId (mm_id (ui_media inp)) (snd (upsertMedia u dp now inp db)) = Some r'
      \<and> mp_permalink r' = mp_permalink r \<and> mp_contentUpdatedAt r' = Some now"
    using f row by blast
qed

end
