(* ===== verification/Meta_Client.thy ===== *)
theory Meta_Client
  imports Meta_Types Models
begin

text \<open>
  \<open>src/lib/meta/MetaGraphClient.ts\<close>: one request with its retries, and the page walk with its
  page-size negotiation. The network, the timers and \<open>Math.random\<close> are an oracle record indexed by
  a counter in the state; the state carries what the client object carries between calls.
\<close>

section \<open>The world outside\<close>

record meta_url =
  mu_path :: jstr
  mu_params :: "(string \<times> jstr) list"

datatype fetch_result =
    Net_Failure js_error
  | Body_Failure nat usage_headers js_error
  | Response nat usage_headers jstr

record net_env =
  ne_fetch :: "nat \<Rightarrow> meta_url \<Rightarrow> fetch_result"
  ne_jitter :: "nat \<Rightarrow> nat"
  ne_abort :: "nat \<Rightarrow> bool"
  ne_threshold :: rat
  ne_token :: jstr
  ne_igUserId :: jstr
  ne_is_url :: "jstr \<Rightarrow> bool"
  ne_url_text :: "meta_url \<Rightarrow> jstr"
  ne_number_text :: "rat \<Rightarrow> jstr"
  ne_issue_text :: "json \<Rightarrow> jstr"

record net_state =
  ns_tick :: nat
  ns_lastRateLimit :: "rate_limit_usage option"
  ns_learnedPageSize :: "media_source \<Rightarrow> nat option"
  ns_requests :: "meta_url list"
  ns_slept :: "rat list"

definition net_start :: net_state where
  "net_start = \<lparr>ns_tick = 0, ns_lastRateLimit = None, ns_learnedPageSize = (\<lambda>_. None),
     ns_requests = [], ns_slept = []\<rparr>"

text \<open>\<open>sleep(ms, signal)\<close>: an abort that happens while the timer runs rejects.\<close>

definition net_sleep :: "net_env \<Rightarrow> rat \<Rightarrow> net_state \<Rightarrow> (js_error + unit) \<times> net_state" where
  "net_sleep env ms st =
     (if ms \<le> 0 then (Inr (), st)
      else (if ne_abort env (ns_tick st) then Inl (Plain_Error (js ''aborted'')) else Inr (),
            st\<lparr>ns_tick := Suc (ns_tick st), ns_slept := ns_slept st @ [ms]\<rparr>))"

section \<open>URLs\<close>

definition buildUrl :: "net_env \<Rightarrow> jstr \<Rightarrow> (string \<times> jstr) list \<Rightarrow> meta_url" where
  "buildUrl env path params =
     \<lparr>mu_path = path, mu_params = params @ [(''access_token'', ne_token env)]\<rparr>"

definition redactUrl :: "meta_url \<Rightarrow> meta_url" where
  "redactUrl url = url\<lparr>mu_params := map (\<lambda>(k, v). (k, if k = ''access_token'' then js ''[redacted]'' else v))
     (mu_params url)\<rparr>"

text \<open>\<open>Number(url.searchParams.get('limit') ?? 0)\<close> for a decimal numeral.\<close>

definition read_dec :: "jstr \<Rightarrow> nat" where
  "read_dec s = foldl (\<lambda>n c. n * 10 + (c - 48)) 0 s"

definition url_limit :: "meta_url \<Rightarrow> nat" where
  "url_limit url = (case map_of (mu_params url) ''limit'' of None \<Rightarrow> 0 | Some s \<Rightarrow> read_dec s)"

section \<open>Classification of a response\<close>

definition AUTH_ERROR_CODES :: "rat list" where
  "AUTH_ERROR_CODES = [190, 102, 463, 467]"

definition RATE_LIMIT_ERROR_CODES :: "rat list" where
  "RATE_LIMIT_ERROR_CODES = [4, 17, 32, 613, 80004]"

definition RETRYABLE_STATUS :: "nat list" where
  "RETRYABLE_STATUS = [408, 425, 429, 500, 502, 503, 504]"

text \<open>\<open>/reduce the amount of data/i.test(message)\<close>\<close>

fun contains :: "jstr \<Rightarrow> jstr \<Rightarrow> bool" where
  "contains pat [] = (pat = [])"
| "contains pat (c # s) = (take (length pat) (c # s) = pat \<or> contains pat s)"

definition asks_for_less :: "jstr \<Rightarrow> bool" where
  "asks_for_less message = contains (js ''reduce the amount of data'') (map ascii_lower message)"

datatype 'a outcome =
    Done 'a
  | Throw js_error
  | Retry js_error
  | Retry_Throttled js_error

definition num_member :: "string \<Rightarrow> rat option \<Rightarrow> (jstr \<times> json) list" where
  "num_member k v = (case v of None \<Rightarrow> [] | Some x \<Rightarrow> [(js k, JNum x)])"

definition code_details :: "meta_error \<Rightarrow> (jstr \<times> json) list" where
  "code_details e = num_member ''code'' (me_code e) @ num_member ''subcode'' (me_subcode e)"

definition code_text :: "net_env \<Rightarrow> rat option \<Rightarrow> jstr" where
  "code_text env c = (case c of None \<Rightarrow> js ''undefined'' | Some x \<Rightarrow> ne_number_text env x)"

definition has_code :: "rat option \<Rightarrow> rat list \<Rightarrow> bool" where
  "has_code c codes \<longleftrightarrow> (case c of None \<Rightarrow> False | Some x \<Rightarrow> x \<in> set codes)"

definition classify_error :: "net_env \<Rightarrow> meta_url \<Rightarrow> nat \<Rightarrow> meta_error \<Rightarrow> 'a outcome" where
  "classify_error env url status e =
     (if has_code (me_code e) AUTH_ERROR_CODES
      then Throw (metaAuthError (js ''Meta rejected the access token (code '' @ code_text env (me_code e)
             @ js ''): '' @ me_message e
             @ js ''. The token has likely expired or been revoked - refresh META_ACCESS_TOKEN.'')
             (Some (JObj (code_details e))))
      else if has_code (me_code e) RATE_LIMIT_ERROR_CODES \<or> status = 429
      then Retry_Throttled (metaRateLimitError (js ''Meta rate limit hit (code '' @ code_text env (me_code e)
             @ js ''): '' @ me_message e) (Some (JObj (code_details e))))
      else if me_code e = Some 1 \<and> asks_for_less (me_message e)
      then Throw (metaPayloadTooLargeError (me_message e) (url_limit url) (Some (JObj (code_details e))))
      else if status \<in> set RETRYABLE_STATUS
      then Retry (apiError 502 ''META_TRANSIENT_ERROR'' (me_message e) (Some (JObj (code_details e))))
      else Throw (apiError 502 ''META_REQUEST_REJECTED''
             (js ''Meta rejected the request: '' @ me_message e)
             (Some (JObj (code_details e @ [(js ''url'', JStr (ne_url_text env (redactUrl url)))])))))"

definition response_ok :: "nat \<Rightarrow> bool" where
  "response_ok status \<longleftrightarrow> 200 \<le> status \<and> status \<le> 299"

text \<open>\<open>text.length > 0 ? JSON.parse(text) : {}\<close>\<close>

definition response_json :: "jstr \<Rightarrow> json option" where
  "response_json text = (if text \<noteq> [] then json_parse text else Some (JObj []))"

definition classify ::
  "net_env \<Rightarrow> (json \<Rightarrow> 'a option) \<Rightarrow> meta_url \<Rightarrow> nat \<Rightarrow> jstr \<Rightarrow> 'a outcome" where
  "classify env schema url status text =
     (case response_json text of
        None \<Rightarrow> Retry (apiError 502 ''META_INVALID_JSON''
          (js ''Meta returned non-JSON (status '' @ show_int (int status) @ js '')'')
          (Some (JObj [(js ''bodyPreview'', JStr (js_slice 200 text))])))
      | Some body \<Rightarrow>
          (case metaErrorResponseSchema body of
             Some e \<Rightarrow> classify_error env url status e
           | None \<Rightarrow>
               if \<not> response_ok status
               then (let err = apiError 502 ''META_HTTP_ERROR''
                       (js ''Meta returned HTTP '' @ show_int (int status) @ js '' with no error envelope'')
                       (Some (JObj [(js ''status'', JNum (of_nat status)),
                                    (js ''bodyPreview'', JStr (js_slice 200 text))]))
                     in if status \<notin> set RETRYABLE_STATUS then Throw err else Retry err)
               else (case schema body of
                       Some v \<Rightarrow> Done v
                     | None \<Rightarrow> Throw (apiError 502 ''META_SCHEMA_MISMATCH'' (js ''Meta response failed validation'')
                         (Some (JObj [(js ''url'', JStr (ne_url_text env (redactUrl url))),
                                      (js ''issues'', JStr (ne_issue_text env body))]))))))"

section \<open>One request\<close>

definition backoffMs :: "net_env \<Rightarrow> nat \<Rightarrow> net_state \<Rightarrow> rat" where
  "backoffMs env attempt st = of_nat (min (1000 * 2 ^ (attempt - 1)) 15000 + ne_jitter env (ns_tick st))"

text \<open>\<open>fetch\<close>, the reading of the headers and of the body.\<close>

definition fetch_once ::
  "net_env \<Rightarrow> (json \<Rightarrow> 'a option) \<Rightarrow> meta_url \<Rightarrow> net_state \<Rightarrow>
     'a outcome \<times> rate_limit_usage option \<times> net_state" where
  "fetch_once env schema url st =
     (let st1 = st\<lparr>ns_tick := Suc (ns_tick st), ns_requests := ns_requests st @ [url]\<rparr>;
          note_usage = (\<lambda>h. case parseRateLimitHeaders h of
                               None \<Rightarrow> st1 | Some u \<Rightarrow> st1\<lparr>ns_lastRateLimit := Some u\<rparr>)
      in case ne_fetch env (ns_tick st) url of
           Net_Failure e \<Rightarrow> (Retry e, None, st1)
         | Body_Failure status h e \<Rightarrow> (Throw e, parseRateLimitHeaders h, note_usage h)
         | Response status h text \<Rightarrow>
             (classify env schema url status text, parseRateLimitHeaders h, note_usage h))"

definition unavailable :: "nat \<Rightarrow> js_error" where
  "unavailable maxAttempts = apiError 502 ''META_UNAVAILABLE''
     (js ''Meta request failed after '' @ show_int (int maxAttempts) @ js '' attempts'') None"

text \<open>\<open>remaining\<close> attempts are left, \<open>attempt\<close> is the number of the next one.\<close>

fun request_from ::
  "net_env \<Rightarrow> (json \<Rightarrow> 'a option) \<Rightarrow> meta_url \<Rightarrow> nat \<Rightarrow> nat \<Rightarrow> net_state \<Rightarrow>
     (js_error + 'a \<times> rate_limit_usage option) \<times> net_state" where
  "request_from env schema url attempt 0 st = (Inl (unavailable (attempt - 1)), st)"
| "request_from env schema url attempt (Suc remaining) st =
     (case net_sleep env (throttleDelayMs (ns_lastRateLimit st) (ne_threshold env)) st of
        (Inl e, st1) \<Rightarrow> (Inl e, st1)
      | (Inr u, st1) \<Rightarrow>
          (case fetch_once env schema url st1 of
             (Done v, usage, st2) \<Rightarrow> (Inr (v, usage), st2)
           | (Throw e, usage, st2) \<Rightarrow> (Inl e, st2)
           | (Retry e, usage, st2) \<Rightarrow>
               if remaining = 0 then (Inl e, st2)
               else (case net_sleep env (backoffMs env attempt st2) st2 of
                       (Inl e', st3) \<Rightarrow> (Inl e', st3)
                     | (Inr w, st3) \<Rightarrow> request_from env schema url (Suc attempt) remaining st3)
           | (Retry_Throttled e, usage, st2) \<Rightarrow>
               if remaining = 0 then (Inl e, st2)
               else (case net_sleep env (max (backoffMs env attempt st2 * 4) 5000) st2 of
                       (Inl e', st3) \<Rightarrow> (Inl e', st3)
                     | (Inr w, st3) \<Rightarrow> request_from env schema url (Suc attempt) remaining st3)))"

definition MAX_ATTEMPTS :: nat where
  "MAX_ATTEMPTS = 4"

definition request ::
  "net_env \<Rightarrow> (json \<Rightarrow> 'a option) \<Rightarrow> meta_url \<Rightarrow> net_state \<Rightarrow>
     (js_error + 'a \<times> rate_limit_usage option) \<times> net_state" where
  "request env schema url st = request_from env schema url 1 MAX_ATTEMPTS st"

section \<open>Resolving a hashtag\<close>

definition resolveHashtagId :: "net_env \<Rightarrow> jstr \<Rightarrow> net_state \<Rightarrow> (js_error + jstr) \<times> net_state" where
  "resolveHashtagId env name st =
     (case request env metaHashtagSearchResponseSchema
        (buildUrl env (js ''ig_hashtag_search'') [(''user_id'', ne_igUserId env), (''q'', name)]) st of
        (Inl e, st1) \<Rightarrow> (Inl e, st1)
      | (Inr (ids, usage), st1) \<Rightarrow>
          (case ids of
             [] \<Rightarrow> (Inl (apiError 404 ''HASHTAG_NOT_FOUND''
                     (js ''Meta returned no hashtag ID for \"'' @ name @ js ''\"'') None), st1)
           | i # _ \<Rightarrow> (Inr i, st1)))"

section \<open>The page walk\<close>

record media_page =
  mg_items :: "meta_media list"
  mg_pageNumber :: nat
  mg_nextCursor :: "jstr option"
  mg_rateLimit :: "rate_limit_usage option"

record paginate_options =
  po_hashtagId :: jstr
  po_edge :: media_source
  po_maxItems :: nat
  po_pageSize :: nat
  po_startCursor :: "jstr option"

text \<open>The generator suspended at \<open>yield\<close>: its locals, the reading it will pause on, and whether it returns.\<close>

record walk =
  wk_pageSize :: nat
  wk_cursor :: "jstr option"
  wk_pageNumber :: nat
  wk_yielded :: nat
  wk_resume :: "rate_limit_usage option"
  wk_finished :: bool

definition truthy_num :: "nat option \<Rightarrow> bool" where
  "truthy_num n \<longleftrightarrow> (case n of None \<Rightarrow> False | Some k \<Rightarrow> k \<noteq> 0)"

definition walk_start :: "paginate_options \<Rightarrow> net_state \<Rightarrow> walk" where
  "walk_start opts st =
     (let learned = ns_learnedPageSize st (po_edge opts)
      in \<lparr>wk_pageSize = (if truthy_num learned then min (po_pageSize opts) (the learned * 2)
                          else po_pageSize opts),
          wk_cursor = po_startCursor opts, wk_pageNumber = 0, wk_yielded = 0, wk_resume = None,
          wk_finished = False\<rparr>)"

definition edge_name :: "media_source \<Rightarrow> string" where
  "edge_name e = (case e of Top \<Rightarrow> ''top_media'' | Recent \<Rightarrow> ''recent_media'')"

definition truthy_cursor :: "jstr option \<Rightarrow> bool" where
  "truthy_cursor c \<longleftrightarrow> (case c of None \<Rightarrow> False | Some s \<Rightarrow> s \<noteq> [])"

fun comma_join :: "string list \<Rightarrow> string" where
  "comma_join [] = []"
| "comma_join [x] = x"
| "comma_join (x # y # xs) = x @ '','' @ comma_join (y # xs)"

definition page_url :: "net_env \<Rightarrow> paginate_options \<Rightarrow> jstr option \<Rightarrow> nat \<Rightarrow> meta_url" where
  "page_url env opts cursor limit =
     buildUrl env (po_hashtagId opts @ js ''/'' @ js (edge_name (po_edge opts)))
       ([(''user_id'', ne_igUserId env), (''fields'', js (comma_join MEDIA_FIELDS)),
         (''limit'', show_int (int limit))]
        @ (if truthy_cursor cursor then [(''after'', the cursor)] else []))"

text \<open>
  The body of the loop up to the response: asks for \<open>min pageSize (maxItems - yielded)\<close> items, and
  while Meta answers that this is too much, halves and asks again at the same cursor. Returns the
  page size in force with the response.
\<close>

function negotiate ::
  "net_env \<Rightarrow> paginate_options \<Rightarrow> jstr option \<Rightarrow> nat \<Rightarrow> nat \<Rightarrow> net_state \<Rightarrow>
     (js_error + nat \<times> meta_media_response \<times> rate_limit_usage option) \<times> net_state" where
  "negotiate env opts cursor needed pageSize st =
     (let limit = min pageSize needed
      in case request env (metaMediaResponseSchema (ne_is_url env)) (page_url env opts cursor limit) st of
           (Inr (body, usage), st1) \<Rightarrow> (Inr (pageSize, body, usage), st1)
         | (Inl e, st1) \<Rightarrow>
             if isPayloadTooLarge e \<and> limit > 1
             then negotiate env opts cursor needed (max 1 (limit div 2)) st1
             else (Inl e, st1))"
  by pat_completeness auto
termination
  by (relation "measure (\<lambda>(env, opts, cursor, needed, pageSize, st). min pageSize needed)") auto

declare negotiate.simps [simp del]

text \<open>\<open>next\<close> present and a cursor to continue at.\<close>

definition after_cursor :: "meta_media_response \<Rightarrow> jstr option" where
  "after_cursor body = Option.bind (Option.bind (mr_paging body) pg_cursors) cu_after"

definition has_more :: "meta_media_response \<Rightarrow> bool" where
  "has_more body \<longleftrightarrow> truthy_cursor (Option.bind (mr_paging body) pg_next) \<and> truthy_cursor (after_cursor body)"

definition next_page ::
  "net_env \<Rightarrow> paginate_options \<Rightarrow> walk \<Rightarrow> net_state \<Rightarrow>
     (js_error + (media_page \<times> walk) option) \<times> net_state" where
  "next_page env opts wk st =
     (if wk_finished wk then (Inr None, st)
      else case net_sleep env (throttleDelayMs (wk_resume wk) (ne_threshold env)) st of
        (Inl e, st1) \<Rightarrow> (Inl e, st1)
      | (Inr u, st1) \<Rightarrow>
          if wk_yielded wk \<ge> po_maxItems opts then (Inr None, st1)
          else
            (case negotiate env opts (wk_cursor wk) (po_maxItems opts - wk_yielded wk) (wk_pageSize wk) st1 of
               (Inl e, st2) \<Rightarrow> (Inl e, st2)
             | (Inr (pageSize, body, usage), st2) \<Rightarrow>
                 (let st3 = st2\<lparr>ns_learnedPageSize := (ns_learnedPageSize st2)(po_edge opts := Some pageSize)\<rparr>;
                      items = mr_data body;
                      nextCursor = after_cursor body;
                      hasMore = has_more body
                  in (Inr (Some
                        (\<lparr>mg_items = items, mg_pageNumber = Suc (wk_pageNumber wk),
                           mg_nextCursor = (if hasMore then nextCursor else None), mg_rateLimit = usage\<rparr>,
                         \<lparr>wk_pageSize = pageSize, wk_cursor = nextCursor,
                           wk_pageNumber = Suc (wk_pageNumber wk),
                           wk_yielded = wk_yielded wk + length items, wk_resume = usage,
                           wk_finished = (\<not> hasMore \<or> items = [])\<rparr>)), st3))))"

end
