(* ===== verification/Meta_Walk.thy ===== *)
theory Meta_Walk
  imports Meta_Client
begin

text \<open>
  What the Meta client guarantees: how often it asks, what a success means, what is never retried,
  that the access token stays out of errors, and that the page walk ends within its budget.
\<close>

section \<open>Requests\<close>

definition asked :: "net_state \<Rightarrow> net_state \<Rightarrow> meta_url list \<Rightarrow> bool" where
  "asked st st' urls \<longleftrightarrow> ns_requests st' = ns_requests st @ urls"

lemma net_sleep_requests [simp]: "ns_requests (snd (net_sleep env ms st)) = ns_requests st"
  by (simp add: net_sleep_def)

lemma net_sleep_requests' : "net_sleep env ms st = (r, st') \<Longrightarrow> ns_requests st' = ns_requests st"
  by (metis net_sleep_requests snd_conv)

lemma fetch_once_requests:
  "fetch_once env schema url st = (out, usage, st') \<Longrightarrow> ns_requests st' = ns_requests st @ [url]"
  by (auto simp: fetch_once_def Let_def split: fetch_result.splits option.splits)

text \<open>The first attempt of a run of attempts, as one equation with its four ends.\<close>

lemma request_from_cases:
  assumes "request_from env schema url attempt (Suc remaining) st = (r, st')"
  obtains (aborted) e where "r = Inl e" "ns_requests st' = ns_requests st"
  | (ended) out usage st1 st2 where "fetch_once env schema url st1 = (out, usage, st2)"
      "(case out of Done v \<Rightarrow> r = Inr (v, usage) | Throw e \<Rightarrow> r = Inl e | Retry e \<Rightarrow> r = Inl e
        | Retry_Throttled e \<Rightarrow> r = Inl e)"
      "ns_requests st' = ns_requests st @ [url]" "ns_requests st1 = ns_requests st"
  | (slept) out usage st1 st2 e where "fetch_once env schema url st1 = (out, usage, st2)"
      "r = Inl e" "ns_requests st' = ns_requests st @ [url]"
  | (again) st3 where "0 < remaining" "ns_requests st3 = ns_requests st @ [url]"
      "request_from env schema url (Suc attempt) remaining st3 = (r, st')"
proof -
  obtain p st1 where pre: "net_sleep env (throttleDelayMs (ns_lastRateLimit st) (ne_threshold env)) st = (p, st1)"
    by fastforce
  note q1 = net_sleep_requests' [OF pre]
  show ?thesis
  proof (cases p)
    case (Inl e)
    then show ?thesis using assms pre q1 aborted by auto
  next
    case (Inr u)
    obtain out usage st2 where f: "fetch_once env schema url st1 = (out, usage, st2)"
      by (metis prod_cases3)
    note q2 = fetch_once_requests [OF f, unfolded q1]
    have loop: ?thesis
      if retry: "(if remaining = 0 then (Inl e, st2)
          else (case net_sleep env ms st2 of (Inl e', st3) \<Rightarrow> (Inl e', st3)
                | (Inr w, st3) \<Rightarrow> request_from env schema url (Suc attempt) remaining st3)) = (r, st')"
        and out: "out = Retry e \<or> out = Retry_Throttled e" for e ms
    proof (cases "remaining = 0")
      case True
      then show ?thesis using retry out ended [OF f] q1 q2 by auto
    next
      case False
      obtain s st3 where sl: "net_sleep env ms st2 = (s, st3)" by fastforce
      note q3 = net_sleep_requests' [OF sl, unfolded q2]
      show ?thesis
        using retry False sl q3 slept [OF f] again by (cases s) auto
    qed
    show ?thesis
    proof (cases out)
      case (Done v)
      then show ?thesis using assms pre Inr f q1 q2 ended [OF f] by simp
    next
      case (Throw e)
      then show ?thesis using assms pre Inr f q1 q2 ended [OF f] by simp
    next
      case (Retry e)
      then show ?thesis using assms pre Inr f loop [of e] by simp
    next
      case (Retry_Throttled e)
      then show ?thesis using assms pre Inr f loop [of e] by simp
    qed
  qed
qed

lemma request_from_asks:
  "request_from env schema url attempt remaining st = (r, st') \<Longrightarrow>
     \<exists>n \<le> remaining. ns_requests st' = ns_requests st @ replicate n url"
proof (induction remaining arbitrary: attempt st)
  case 0
  then show ?case by simp
next
  case (Suc remaining)
  from Suc.prems show ?case
  proof (cases rule: request_from_cases)
    case (aborted e)
    then show ?thesis by (intro exI [of _ 0]) simp
  next
    case (ended out usage st1 st2)
    then show ?thesis by (intro exI [of _ 1]) simp
  next
    case (slept out usage st1 st2 e)
    then show ?thesis by (intro exI [of _ 1]) simp
  next
    case (again st3)
    from Suc.IH [OF again(3)] obtain n where "n \<le> remaining"
      "ns_requests st' = ns_requests st3 @ replicate n url" by blast
    then show ?thesis using again(2) by (intro exI [of _ "Suc n"]) simp
  qed
qed

lemma request_asks:
  "request env schema url st = (r, st') \<Longrightarrow>
     \<exists>n \<le> MAX_ATTEMPTS. ns_requests st' = ns_requests st @ replicate n url"
  unfolding request_def by (rule request_from_asks)

text \<open>A success is a 2xx response, free of an error envelope, whose body passed the schema.\<close>

definition genuine :: "net_env \<Rightarrow> (json \<Rightarrow> 'a option) \<Rightarrow> meta_url \<Rightarrow> 'a \<Rightarrow> bool" where
  "genuine env schema url v \<longleftrightarrow>
     (\<exists>t status h text body. ne_fetch env t url = Response status h text \<and> response_ok status
        \<and> response_json text = Some body
        \<and> metaErrorResponseSchema body = None \<and> schema body = Some v)"

lemma classify_Done:
  "classify env schema url status text = Done v \<Longrightarrow>
     response_ok status \<and> (\<exists>body. response_json text = Some body
       \<and> metaErrorResponseSchema body = None \<and> schema body = Some v)"
  by (auto simp: classify_def classify_error_def Let_def split: option.splits if_splits)

lemma fetch_once_Done:
  "fetch_once env schema url st = (Done v, usage, st') \<Longrightarrow> genuine env schema url v"
proof -
  assume "fetch_once env schema url st = (Done v, usage, st')"
  then obtain status h tx where "ne_fetch env (ns_tick st) url = Response status h tx"
    "classify env schema url status tx = Done v"
    by (auto simp: fetch_once_def Let_def split: fetch_result.splits)
  from this(1) classify_Done [OF this(2)] show ?thesis
    unfolding genuine_def by blast
qed

lemma request_from_genuine:
  "request_from env schema url attempt remaining st = (Inr (v, usage), st') \<Longrightarrow> genuine env schema url v"
proof (induction remaining arbitrary: attempt st)
  case (Suc remaining)
  from Suc.prems show ?case
  proof (cases rule: request_from_cases)
    case (ended out usage' st1 st2)
    then show ?thesis
      by (cases out) (auto dest: fetch_once_Done)
  next
    case (again st3)
    then show ?thesis using Suc.IH by blast
  qed auto
qed simp

lemma request_genuine:
  "request env schema url st = (Inr (v, usage), st') \<Longrightarrow> genuine env schema url v"
  unfolding request_def by (rule request_from_genuine)

section \<open>What is not retried\<close>

lemma request_no_retry:
  assumes "throttleDelayMs (ns_lastRateLimit st) (ne_threshold env) \<le> 0"
    "fetch_once env schema url st = (Throw e, usage, st')"
  shows "request env schema url st = (Inl e, st')"
proof -
  have m: "MAX_ATTEMPTS = Suc 3" by (simp add: MAX_ATTEMPTS_def)
  show ?thesis
    unfolding request_def m request_from.simps using assms by (simp add: net_sleep_def)
qed

lemma classify_auth:
  assumes "response_json text = Some body" "metaErrorResponseSchema body = Some me"
    "has_code (me_code me) AUTH_ERROR_CODES"
  shows "\<exists>e. classify env schema url status text = Throw e \<and> isMetaAuthError e"
  using assms by (simp add: classify_def classify_error_def metaAuthError_def)

lemma classify_too_large:
  assumes "response_json text = Some body" "metaErrorResponseSchema body = Some me"
    "me_code me = Some 1" "asks_for_less (me_message me)" "status \<noteq> 429"
  shows "\<exists>e. classify env schema url status text = Throw e \<and> isPayloadTooLarge e"
  using assms by (simp add: classify_def classify_error_def metaPayloadTooLargeError_def has_code_def
      AUTH_ERROR_CODES_def RATE_LIMIT_ERROR_CODES_def)

section \<open>The token\<close>

text \<open>Every outcome, with the messages and details of its error, is the same for any two tokens.\<close>

lemma redact_buildUrl:
  "redactUrl (buildUrl (env\<lparr>ne_token := t\<rparr>) path ps) = redactUrl (buildUrl env path ps)"
  by (simp add: redactUrl_def buildUrl_def)

lemma url_limit_token:
  "url_limit (buildUrl (env\<lparr>ne_token := t\<rparr>) path ps) = url_limit (buildUrl env path ps)"
  by (simp add: url_limit_def buildUrl_def map_add_def split: option.split)

lemma classify_token:
  "classify (env\<lparr>ne_token := t\<rparr>) schema (buildUrl (env\<lparr>ne_token := t\<rparr>) path ps) status text =
     classify env schema (buildUrl env path ps) status text"
  by (simp add: classify_def classify_error_def redact_buildUrl url_limit_token code_text_def Let_def
      split: option.split)

section \<open>Negotiation\<close>

lemma read_dec_dec: "read_dec (dec_digits n) = n"
proof (induction n rule: dec_digits.induct)
  case (1 n)
  show ?case
  proof (cases "n < 10")
    case True
    then show ?thesis by (simp add: dec_digits.simps [of n] read_dec_def)
  next
    case False
    then have "read_dec (dec_digits n) = read_dec (dec_digits (n div 10)) * 10 + n mod 10"
      by (simp add: dec_digits.simps [of n] read_dec_def)
    then show ?thesis using 1 False by simp
  qed
qed

lemma url_limit_page [simp]: "url_limit (page_url env opts cursor limit) = limit"
  by (simp add: url_limit_def page_url_def buildUrl_def show_int_def read_dec_dec)

lemma negotiate_unfold:
  assumes "request env (metaMediaResponseSchema (ne_is_url env))
      (page_url env opts cursor (min pageSize needed)) st = (r, st1)"
  shows "negotiate env opts cursor needed pageSize st =
     (case r of Inr (body, usage) \<Rightarrow> (Inr (pageSize, body, usage), st1)
      | Inl e \<Rightarrow> if isPayloadTooLarge e \<and> min pageSize needed > 1
                 then negotiate env opts cursor needed (max 1 (min pageSize needed div 2)) st1
                 else (Inl e, st1))"
  using assms by (subst negotiate.simps) (auto simp: Let_def split: sum.split)

text \<open>Every request of the negotiation is at the same cursor, for at most what is still needed.\<close>

lemma negotiate_requests:
  "negotiate env opts cursor needed pageSize st = (r, st') \<Longrightarrow> 1 \<le> pageSize \<Longrightarrow> 1 \<le> needed \<Longrightarrow>
     \<exists>urls. ns_requests st' = ns_requests st @ urls
       \<and> (\<forall>u \<in> set urls. \<exists>l. u = page_url env opts cursor l \<and> 1 \<le> l \<and> l \<le> min pageSize needed)"
proof (induction env opts cursor needed pageSize st arbitrary: r st' rule: negotiate.induct)
  case (1 env opts cursor needed pageSize st)
  let ?l = "min pageSize needed"
  obtain q st1 where q: "request env (metaMediaResponseSchema (ne_is_url env))
      (page_url env opts cursor ?l) st = (q, st1)" by fastforce
  obtain n where n: "ns_requests st1 = ns_requests st @ replicate n (page_url env opts cursor ?l)"
    using request_asks [OF q] by blast
  have here: "\<forall>u \<in> set (replicate n (page_url env opts cursor ?l)).
      \<exists>l. u = page_url env opts cursor l \<and> 1 \<le> l \<and> l \<le> ?l"
    using "1.prems"(2,3) by auto
  show ?case
  proof (cases "\<exists>e. q = Inl e \<and> isPayloadTooLarge e \<and> ?l > 1")
    case True
    then obtain e where e: "q = Inl e" "isPayloadTooLarge e" "?l > 1" by blast
    have rest: "negotiate env opts cursor needed (max 1 (?l div 2)) st1 = (r, st')"
      using "1.prems"(1) e by (simp add: negotiate_unfold [OF q])
    obtain urls where urls: "ns_requests st' = ns_requests st1 @ urls"
      "\<forall>u \<in> set urls. \<exists>l. u = page_url env opts cursor l \<and> 1 \<le> l \<and> l \<le> min (max 1 (?l div 2)) needed"
      using "1.IH" [OF refl q [symmetric] e(1) conjI [OF e(2,3)] rest] "1.prems"(3) by auto
    have "min (max 1 (?l div 2)) needed \<le> ?l" using e(3) by auto
    then have "\<forall>u \<in> set urls. \<exists>l. u = page_url env opts cursor l \<and> 1 \<le> l \<and> l \<le> ?l"
      using urls(2) by (meson order_trans)
    then show ?thesis
      using n here urls(1) by (intro exI [of _ "replicate n (page_url env opts cursor ?l) @ urls"])
        (simp only: append_assoc set_append, blast)
  next
    case False
    then have "st' = st1"
      using "1.prems"(1) by (auto simp: negotiate_unfold [OF q] split: sum.splits if_splits)
    then show ?thesis using n here by blast
  qed
qed

text \<open>The budget: four attempts for each halving.\<close>

lemma negotiate_budget:
  "negotiate env opts cursor needed pageSize st = (r, st') \<Longrightarrow> min pageSize needed < 2 ^ k \<Longrightarrow> 1 \<le> k \<Longrightarrow>
     length (ns_requests st') \<le> length (ns_requests st) + MAX_ATTEMPTS * k"
proof (induction env opts cursor needed pageSize st arbitrary: r st' k rule: negotiate.induct)
  case (1 env opts cursor needed pageSize st)
  let ?l = "min pageSize needed"
  obtain q st1 where q: "request env (metaMediaResponseSchema (ne_is_url env))
      (page_url env opts cursor ?l) st = (q, st1)" by fastforce
  have n: "length (ns_requests st1) \<le> length (ns_requests st) + MAX_ATTEMPTS"
    using request_asks [OF q] by auto
  show ?case
  proof (cases "\<exists>e. q = Inl e \<and> isPayloadTooLarge e \<and> ?l > 1")
    case True
    then obtain e where e: "q = Inl e" "isPayloadTooLarge e" "?l > 1" by blast
    obtain k' where k: "k = Suc k'" using "1.prems"(3) by (cases k) auto
    have k': "1 \<le> k'" using "1.prems"(2) e(3) k by (cases k') auto
    have "min (max 1 (?l div 2)) needed < 2 ^ k'"
      using "1.prems"(2) e(3) k by auto
    moreover have "negotiate env opts cursor needed (max 1 (?l div 2)) st1 = (r, st')"
      using "1.prems"(1) e by (simp add: negotiate_unfold [OF q])
    ultimately have "length (ns_requests st') \<le> length (ns_requests st1) + MAX_ATTEMPTS * k'"
      using "1.IH" [OF refl q [symmetric] e(1) conjI [OF e(2,3)]] k' by blast
    then show ?thesis using n k by simp
  next
    case False
    then have "st' = st1"
      using "1.prems"(1) by (auto simp: negotiate_unfold [OF q] split: sum.splits if_splits)
    then show ?thesis using n "1.prems"(3) by (cases k) auto
  qed
qed

lemma negotiate_genuine:
  "negotiate env opts cursor needed pageSize st = (Inr (ps, body, usage), st') \<Longrightarrow>
     genuine env (metaMediaResponseSchema (ne_is_url env)) (page_url env opts cursor (min ps needed)) body
     \<and> (1 \<le> pageSize \<longrightarrow> 1 \<le> ps) \<and> ps \<le> max 1 pageSize"
proof (induction env opts cursor needed pageSize st arbitrary: rule: negotiate.induct)
  case (1 env opts cursor needed pageSize st)
  let ?l = "min pageSize needed"
  obtain q st1 where q: "request env (metaMediaResponseSchema (ne_is_url env))
      (page_url env opts cursor ?l) st = (q, st1)" by fastforce
  show ?case
  proof (cases "\<exists>e. q = Inl e \<and> isPayloadTooLarge e \<and> ?l > 1")
    case True
    then obtain e where e: "q = Inl e" "isPayloadTooLarge e" "?l > 1" by blast
    have rest: "negotiate env opts cursor needed (max 1 (?l div 2)) st1 = (Inr (ps, body, usage), st')"
      using "1.prems" e by (simp add: negotiate_unfold [OF q])
    have "max 1 (max 1 (?l div 2)) \<le> max 1 pageSize" by auto
    moreover have "genuine env (metaMediaResponseSchema (ne_is_url env))
        (page_url env opts cursor (min ps needed)) body \<and> 1 \<le> ps \<and> ps \<le> max 1 (max 1 (?l div 2))"
      using "1.IH" [OF refl q [symmetric] e(1) conjI [OF e(2,3)] rest] by simp
    ultimately show ?thesis by (meson order_trans)
  next
    case False
    then have "q = Inr (body, usage) \<and> ps = pageSize"
      using "1.prems" by (auto simp: negotiate_unfold [OF q] split: sum.splits if_splits)
    then show ?thesis using request_genuine q by auto
  qed
qed

text \<open>
  Negotiation succeeds: when Meta answers every size up to \<open>c\<close> and rejects every larger one as too
  large, some accepted size is found.
\<close>

definition accepts_up_to :: "net_env \<Rightarrow> paginate_options \<Rightarrow> nat \<Rightarrow> bool" where
  "accepts_up_to env opts c \<longleftrightarrow>
     (\<forall>cursor l st. (l \<le> c \<longrightarrow> (\<exists>b. fst (request env (metaMediaResponseSchema (ne_is_url env))
          (page_url env opts cursor l) st) = Inr b))
        \<and> (c < l \<longrightarrow> (\<exists>e. isPayloadTooLarge e \<and> fst (request env (metaMediaResponseSchema (ne_is_url env))
          (page_url env opts cursor l) st) = Inl e)))"

lemma negotiate_succeeds:
  "accepts_up_to env opts c \<Longrightarrow> 1 \<le> c \<Longrightarrow>
     \<exists>ps body usage. fst (negotiate env opts cursor needed pageSize st) = Inr (ps, body, usage) \<and> min ps needed \<le> c"
proof (induction env opts cursor needed pageSize st rule: negotiate.induct)
  case (1 env opts cursor needed pageSize st)
  let ?l = "min pageSize needed"
  obtain q st1 where q: "request env (metaMediaResponseSchema (ne_is_url env))
      (page_url env opts cursor ?l) st = (q, st1)" by fastforce
  show ?case
  proof (cases "?l \<le> c")
    case True
    then obtain b where "q = Inr b"
      using "1.prems"(1) q unfolding accepts_up_to_def by (metis fst_conv)
    then show ?thesis using True by (cases b) (simp add: negotiate_unfold [OF q])
  next
    case False
    then obtain e where e: "isPayloadTooLarge e" "q = Inl e"
      using "1.prems"(1) q unfolding accepts_up_to_def by (metis fst_conv not_le)
    have l: "1 < ?l" using False "1.prems"(2) by linarith
    have "negotiate env opts cursor needed pageSize st =
        negotiate env opts cursor needed (max 1 (?l div 2)) st1"
      using e l by (simp add: negotiate_unfold [OF q])
    then show ?thesis
      using "1.IH" [OF refl q [symmetric] e(2) conjI [OF e(1) l] "1.prems"] by simp
  qed
qed


section \<open>The walk\<close>

text \<open>What the walk relies on: Meta does not send more items than it was asked for.\<close>

definition honours_limit :: "net_env \<Rightarrow> bool" where
  "honours_limit env \<longleftrightarrow>
     (\<forall>url body. genuine env (metaMediaResponseSchema (ne_is_url env)) url body
        \<longrightarrow> length (mr_data body) \<le> url_limit url)"

definition walk_ok :: "paginate_options \<Rightarrow> walk \<Rightarrow> bool" where
  "walk_ok opts wk \<longleftrightarrow> 1 \<le> wk_pageSize wk \<and> wk_yielded wk \<le> po_maxItems opts"

lemma walk_start_ok: "1 \<le> po_pageSize opts \<Longrightarrow> walk_ok opts (walk_start opts st)"
  by (auto simp: walk_ok_def walk_start_def Let_def truthy_num_def split: option.splits)

lemma next_page_Some:
  assumes "next_page env opts wk st = (Inr (Some (pg, wk')), st')"
  obtains ps body usage st1 st2 where "\<not> wk_finished wk" "wk_yielded wk < po_maxItems opts"
    "negotiate env opts (wk_cursor wk) (po_maxItems opts - wk_yielded wk) (wk_pageSize wk) st1 =
       (Inr (ps, body, usage), st2)"
    "mg_items pg = mr_data body" "mg_pageNumber pg = Suc (wk_pageNumber wk)"
    "wk_pageSize wk' = ps" "wk_yielded wk' = wk_yielded wk + length (mg_items pg)"
    "wk_pageNumber wk' = mg_pageNumber pg" "wk_finished wk' \<longleftrightarrow> mg_nextCursor pg = None \<or> mg_items pg = []"
    "mg_nextCursor pg \<noteq> None \<longrightarrow> wk_cursor wk' = mg_nextCursor pg \<and> truthy_cursor (wk_cursor wk')"
    "wk_resume wk' = mg_rateLimit pg"
proof -
  obtain r st1 where sl: "net_sleep env (throttleDelayMs (wk_resume wk) (ne_threshold env)) st = (r, st1)"
    by fastforce
  have nf: "\<not> wk_finished wk" using assms by (auto simp: next_page_def split: if_splits)
  then obtain u where u: "r = Inr u"
    using assms sl by (cases r) (auto simp: next_page_def)
  have y: "wk_yielded wk < po_maxItems opts"
    using assms nf sl u by (auto simp: next_page_def split: if_splits)
  obtain q st2 where q: "negotiate env opts (wk_cursor wk) (po_maxItems opts - wk_yielded wk)
      (wk_pageSize wk) st1 = (q, st2)" by fastforce
  show ?thesis
  proof (cases q)
    case (Inl e)
    then show ?thesis using assms nf sl u y q by (simp add: next_page_def)
  next
    case (Inr b)
    obtain ps body usage where b: "b = (ps, body, usage)" by (metis prod_cases3)
    let ?c = "after_cursor body" and ?m = "has_more body"
    have pg: "pg = \<lparr>mg_items = mr_data body, mg_pageNumber = Suc (wk_pageNumber wk),
        mg_nextCursor = (if ?m then ?c else None), mg_rateLimit = usage\<rparr>"
      and wk': "wk' = \<lparr>wk_pageSize = ps, wk_cursor = ?c, wk_pageNumber = Suc (wk_pageNumber wk),
        wk_yielded = wk_yielded wk + length (mr_data body), wk_resume = usage,
        wk_finished = (\<not> ?m \<or> mr_data body = [])\<rparr>"
      using assms nf sl u y q Inr b by (auto simp: next_page_def Let_def)
    have c: "?m \<Longrightarrow> ?c \<noteq> None \<and> truthy_cursor ?c"
      by (cases ?c) (simp_all add: has_more_def truthy_cursor_def)
    show ?thesis
      by (rule that [OF nf y q [unfolded Inr b]]) (use c in \<open>auto simp: pg wk'\<close>)
  qed
qed

lemma next_page_ok:
  assumes "next_page env opts wk st = (Inr (Some (pg, wk')), st')" "walk_ok opts wk" "honours_limit env"
  shows "walk_ok opts wk'" "length (mg_items pg) \<le> po_maxItems opts - wk_yielded wk"
proof -
  from assms(1) obtain ps body usage st1 st2 where y: "wk_yielded wk < po_maxItems opts"
    and n: "negotiate env opts (wk_cursor wk) (po_maxItems opts - wk_yielded wk) (wk_pageSize wk) st1 =
       (Inr (ps, body, usage), st2)"
    and p: "mg_items pg = mr_data body" "wk_pageSize wk' = ps"
      "wk_yielded wk' = wk_yielded wk + length (mg_items pg)"
    by (rule next_page_Some) blast
  note g = negotiate_genuine [OF n]
  have "length (mr_data body) \<le> url_limit (page_url env opts (wk_cursor wk)
      (min ps (po_maxItems opts - wk_yielded wk)))"
    using g assms(3) unfolding honours_limit_def by blast
  then have l: "length (mg_items pg) \<le> po_maxItems opts - wk_yielded wk" using p(1) by simp
  then show "length (mg_items pg) \<le> po_maxItems opts - wk_yielded wk" .
  show "walk_ok opts wk'"
    using g l p(2,3) y assms(2) by (simp add: walk_ok_def)
qed

text \<open>
  The consumer that reads to the end: \<open>None\<close> when the fuel does not suffice, otherwise the pages
  and the error that stopped the walk, if any.
\<close>

fun walk_pages ::
  "nat \<Rightarrow> net_env \<Rightarrow> paginate_options \<Rightarrow> walk \<Rightarrow> net_state \<Rightarrow>
     (media_page list \<times> js_error option \<times> net_state) option" where
  "walk_pages 0 env opts wk st = None"
| "walk_pages (Suc fuel) env opts wk st =
     (case next_page env opts wk st of
        (Inl e, st1) \<Rightarrow> Some ([], Some e, st1)
      | (Inr None, st1) \<Rightarrow> Some ([], None, st1)
      | (Inr (Some (pg, wk1)), st1) \<Rightarrow>
          (case walk_pages fuel env opts wk1 st1 of
             None \<Rightarrow> None
           | Some (pgs, err, st2) \<Rightarrow> Some (pg # pgs, err, st2)))"

lemma walk_finished_ends:
  "wk_finished wk \<Longrightarrow> walk_pages (Suc fuel) env opts wk st = Some ([], None, st)"
  by (simp add: next_page_def)

lemma walk_pages_ends:
  "po_maxItems opts - wk_yielded wk \<le> fuel \<Longrightarrow> \<exists>r. walk_pages (Suc (Suc fuel)) env opts wk st = Some r"
proof (induction fuel arbitrary: wk st)
  case 0
  obtain r st1 where r: "next_page env opts wk st = (r, st1)" by fastforce
  show ?case
  proof (cases "\<exists>pg wk'. r = Inr (Some (pg, wk'))")
    case True
    then obtain pg wk' where "r = Inr (Some (pg, wk'))" by blast
    then show ?thesis
      using r 0 by (auto elim: next_page_Some)
  next
    case False
    then show ?thesis using r by (auto split: sum.split option.split)
  qed
next
  case (Suc fuel)
  obtain r st1 where r: "next_page env opts wk st = (r, st1)" by fastforce
  show ?case
  proof (cases "\<exists>pg wk'. r = Inr (Some (pg, wk'))")
    case True
    then obtain pg wk' where p: "r = Inr (Some (pg, wk'))" by blast
    have next_done: "\<exists>x. walk_pages (Suc (Suc fuel)) env opts wk' st1 = Some x"
    proof (cases "wk_finished wk'")
      case True
      then show ?thesis using walk_finished_ends by blast
    next
      case False
      from r p have "wk_yielded wk' = wk_yielded wk + length (mg_items pg) \<and> mg_items pg \<noteq> []"
        using False by (auto elim: next_page_Some)
      then have "po_maxItems opts - wk_yielded wk' \<le> fuel"
        using Suc.prems by (cases "mg_items pg") auto
      then show ?thesis by (rule Suc.IH)
    qed
    have "walk_pages (Suc (Suc (Suc fuel))) env opts wk st =
        (case walk_pages (Suc (Suc fuel)) env opts wk' st1 of
           None \<Rightarrow> None | Some (pgs, err, st2) \<Rightarrow> Some (pg # pgs, err, st2))"
      by (subst walk_pages.simps(2)) (simp add: r p del: walk_pages.simps)
    then show ?thesis using next_done by auto
  next
    case False
    then show ?thesis using r by (auto split: sum.split option.split)
  qed
qed

text \<open>Pages are numbered from one, continue at the cursor of the page before, and never exceed the cap.\<close>

lemma walk_pages_sound:
  assumes "walk_pages fuel env opts wk st = Some (pgs, err, st')" "walk_ok opts wk" "honours_limit env"
  shows "(\<Sum>pg\<leftarrow>pgs. length (mg_items pg)) \<le> po_maxItems opts - wk_yielded wk"
    and "map mg_pageNumber pgs = [Suc (wk_pageNumber wk)..<Suc (wk_pageNumber wk) + length pgs]"
    and "\<forall>pg \<in> set (butlast pgs). mg_items pg \<noteq> [] \<and> mg_nextCursor pg \<noteq> None"
proof -
  have "(\<Sum>pg\<leftarrow>pgs. length (mg_items pg)) \<le> po_maxItems opts - wk_yielded wk
      \<and> map mg_pageNumber pgs = [Suc (wk_pageNumber wk)..<Suc (wk_pageNumber wk) + length pgs]
      \<and> (\<forall>pg \<in> set (butlast pgs). mg_items pg \<noteq> [] \<and> mg_nextCursor pg \<noteq> None)
      \<and> (wk_finished wk \<longrightarrow> pgs = [])"
    using assms(1,2)
  proof (induction fuel arbitrary: wk st pgs)
    case (Suc fuel)
    obtain r st1 where r: "next_page env opts wk st = (r, st1)" by fastforce
    show ?case
    proof (cases "\<exists>pg wk'. r = Inr (Some (pg, wk'))")
      case True
      then obtain pg wk' where p: "r = Inr (Some (pg, wk'))" by blast
      note np = r [unfolded p]
      obtain pgs' where w: "walk_pages fuel env opts wk' st1 = Some (pgs', err, st')" "pgs = pg # pgs'"
        using Suc.prems(1) r p by (auto split: option.splits prod.splits)
      note ok = next_page_ok [OF np Suc.prems(2) assms(3)]
      note IH = Suc.IH [OF w(1) ok(1)]
      have n: "\<not> wk_finished wk" "mg_pageNumber pg = Suc (wk_pageNumber wk)"
        "wk_yielded wk' = wk_yielded wk + length (mg_items pg)"
        "wk_pageNumber wk' = mg_pageNumber pg" "wk_finished wk' \<longleftrightarrow> mg_nextCursor pg = None \<or> mg_items pg = []"
        using np by (auto elim: next_page_Some)
      show ?thesis
        using IH ok(2) n w(2) by (auto simp: upt_conv_Cons simp del: upt_Suc)
    next
      case False
      then have "pgs = []" using Suc.prems(1) r by (auto split: sum.splits option.splits)
      then show ?thesis by simp
    qed
  qed simp
  then show "(\<Sum>pg\<leftarrow>pgs. length (mg_items pg)) \<le> po_maxItems opts - wk_yielded wk"
    "map mg_pageNumber pgs = [Suc (wk_pageNumber wk)..<Suc (wk_pageNumber wk) + length pgs]"
    "\<forall>pg \<in> set (butlast pgs). mg_items pg \<noteq> [] \<and> mg_nextCursor pg \<noteq> None"
    by simp_all
qed

end
