(* ===== verification/Sync_Service.thy ===== *)
theory Sync_Service
  imports Media_History Meta_Walk Jobs
begin

text \<open>
  \<open>src/api/services/HashtagSyncService.ts\<close> and \<open>src/database/advisoryLock.ts\<close>: one sync run, with a
  fault allowed at every statement and every enqueue: the call may be rejected with or without
  having taken effect, and the process may die before or after it.
\<close>

section \<open>Calls that can fail\<close>

datatype fate = Threw js_error | Crashed

datatype fault = Reject js_error | Lose js_error | Crash_Before | Crash_After

record ('q, 'h) sync_env =
  se_net :: net_env
  se_unicode :: unicode
  se_date_parse :: "jstr \<Rightarrow> time option"
  se_now :: "nat \<Rightarrow> time"
  se_fault :: "nat \<Rightarrow> fault option"
  se_enqueue :: "time \<Rightarrow> job \<Rightarrow> 'q \<Rightarrow> (js_error + 'h) \<times> 'q"
  se_lock_hash :: "jstr \<Rightarrow> int"
  se_maxMediaPerRun :: int
  se_pageSize :: nat

record 'q sync_world =
  sw_db :: database
  sw_queue :: 'q
  sw_net :: net_state
  sw_locks :: "int list"
  sw_calls :: nat

text \<open>What a fault makes of a call whose undisturbed result is \<open>r\<close>, from \<open>w\<close> to \<open>w1\<close>.\<close>

definition with_fault :: "fault option \<Rightarrow> (js_error + 'a) \<times> 'w \<Rightarrow> 'w \<Rightarrow> (fate + 'a) \<times> 'w" where
  "with_fault fl r w =
     (case fl of
        None \<Rightarrow> ((case fst r of Inl e \<Rightarrow> Inl (Threw e) | Inr a \<Rightarrow> Inr a), snd r)
      | Some (Reject e) \<Rightarrow> (Inl (Threw e), w)
      | Some (Lose e) \<Rightarrow> (Inl (Threw e), snd r)
      | Some Crash_Before \<Rightarrow> (Inl Crashed, w)
      | Some Crash_After \<Rightarrow> (Inl Crashed, snd r))"

definition db_call ::
  "('q, 'h) sync_env \<Rightarrow> (time \<Rightarrow> database \<Rightarrow> (js_error + 'a) \<times> database) \<Rightarrow> 'q sync_world \<Rightarrow>
     (fate + 'a) \<times> 'q sync_world" where
  "db_call env f w =
     (case with_fault (se_fault env (sw_calls w)) (f (se_now env (sw_calls w)) (sw_db w)) (sw_db w) of
        (r, db) \<Rightarrow> (r, w\<lparr>sw_db := db, sw_calls := Suc (sw_calls w)\<rparr>))"

definition queue_call :: "('q, 'h) sync_env \<Rightarrow> job \<Rightarrow> 'q sync_world \<Rightarrow> (fate + 'h) \<times> 'q sync_world" where
  "queue_call env job w =
     (case with_fault (se_fault env (sw_calls w))
        (se_enqueue env (se_now env (sw_calls w)) job (sw_queue w)) (sw_queue w) of
        (r, q) \<Rightarrow> (r, w\<lparr>sw_queue := q, sw_calls := Suc (sw_calls w)\<rparr>))"

text \<open>Statements that only read, and updates that can not violate a constraint.\<close>

definition reading :: "(database \<Rightarrow> 'a) \<Rightarrow> time \<Rightarrow> database \<Rightarrow> (js_error + 'a) \<times> database" where
  "reading f now db = (Inr (f db), db)"

definition updating :: "(time \<Rightarrow> database \<Rightarrow> database) \<Rightarrow> time \<Rightarrow> database \<Rightarrow> (js_error + unit) \<times> database" where
  "updating f now db = (Inr (), f now db)"

definition then_do :: "('e + 'a) \<times> 'w \<Rightarrow> ('a \<Rightarrow> 'w \<Rightarrow> ('e + 'b) \<times> 'w) \<Rightarrow> ('e + 'b) \<times> 'w" where
  "then_do m k = (case m of (Inl e, w) \<Rightarrow> (Inl e, w) | (Inr a, w) \<Rightarrow> k a w)"

section \<open>The advisory lock\<close>

definition syncLockKey :: "uuid \<Rightarrow> media_source \<Rightarrow> jstr" where
  "syncLockKey hashtagId kind = js ''sync:'' @ js (kind_name kind) @ js '':'' @ uuid_show hashtagId"

text \<open>
  \<open>pg_try_advisory_lock\<close> and \<open>pg_advisory_unlock\<close> are two more calls. A session that dies releases
  its locks; an unlock that is rejected leaves the lock with the pooled connection.
\<close>

definition withAdvisoryLock ::
  "('q, 'h) sync_env \<Rightarrow> jstr \<Rightarrow> ('q sync_world \<Rightarrow> (fate + 'a) \<times> 'q sync_world) \<Rightarrow> 'q sync_world \<Rightarrow>
     (fate + 'a option) \<times> 'q sync_world" where
  "withAdvisoryLock env key fn w =
     (let k = se_lock_hash env key; n = sw_calls w; w1 = w\<lparr>sw_calls := Suc n\<rparr>
      in case se_fault env n of
           Some (Reject e) \<Rightarrow> (Inl (Threw e), w1)
         | Some (Lose e) \<Rightarrow> (Inl (Threw e), if k \<in> set (sw_locks w) then w1 else w1\<lparr>sw_locks := k # sw_locks w\<rparr>)
         | Some _ \<Rightarrow> (Inl Crashed, w1)
         | None \<Rightarrow>
             if k \<in> set (sw_locks w) then (Inr None, w1)
             else
               (case fn (w1\<lparr>sw_locks := k # sw_locks w\<rparr>) of
                  (Inl Crashed, w2) \<Rightarrow> (Inl Crashed, w2\<lparr>sw_locks := remove1 k (sw_locks w2)\<rparr>)
                | (r, w2) \<Rightarrow>
                    (let released = w2\<lparr>sw_locks := remove1 k (sw_locks w2), sw_calls := Suc (sw_calls w2)\<rparr>;
                         done = (case r of Inl f \<Rightarrow> Inl f | Inr a \<Rightarrow> Inr (Some a))
                     in case se_fault env (sw_calls w2) of
                          Some (Reject e) \<Rightarrow> (done, w2\<lparr>sw_calls := Suc (sw_calls w2)\<rparr>)
                        | Some Crash_Before \<Rightarrow> (Inl Crashed, released)
                        | Some Crash_After \<Rightarrow> (Inl Crashed, released)
                        | _ \<Rightarrow> (done, released))))"

section \<open>One page\<close>

record sync_options =
  sy_hashtagId :: uuid
  sy_kind :: media_source
  sy_messageId :: "jstr option"
  sy_attempt :: "nat option"

record sync_outcome =
  so_skipped :: bool
  so_syncRunId :: "uuid option"
  so_itemsSeen :: nat
  so_itemsNew :: nat
  so_assetJobsEnqueued :: nat

definition JOB_TYPE_FOR_KIND :: "media_source \<Rightarrow> sync_run_type" where
  "JOB_TYPE_FOR_KIND kind =
     (case kind of Top \<Rightarrow> SYNC_TOP_HASHTAG_MEDIA | Recent \<Rightarrow> SYNC_RECENT_HASHTAG_MEDIA)"

record page_counts =
  pc_new :: nat
  pc_updated :: nat
  pc_history :: nat
  pc_assetJobs :: nat

definition no_counts :: page_counts where
  "no_counts = \<lparr>pc_new = 0, pc_updated = 0, pc_history = 0, pc_assetJobs = 0\<rparr>"

definition count_result :: "upsert_result \<Rightarrow> page_counts \<Rightarrow> page_counts" where
  "count_result r c =
     c\<lparr>pc_new := pc_new c + (if ur_isNew r then 1 else 0),
       pc_updated := pc_updated c + (if ur_contentChanged r then 1 else 0),
       pc_history := pc_history c + (if ur_historyRecorded r then 1 else 0)\<rparr>"

definition upsert_input_of :: "sync_options \<Rightarrow> uuid \<Rightarrow> nat \<Rightarrow> meta_media \<Rightarrow> upsert_input" where
  "upsert_input_of opts runId rank item =
     \<lparr>ui_media = item, ui_hashtagId = sy_hashtagId opts, ui_syncRunId = runId,
       ui_source = sy_kind opts, ui_rank = rank\<rparr>"

text \<open>The loop over \<open>page.items.entries()\<close>; \<open>rank\<close> is \<open>itemsSeen + index + 1\<close> of the next item.\<close>

primrec sync_items ::
  "('q, 'h) sync_env \<Rightarrow> sync_options \<Rightarrow> uuid \<Rightarrow> nat \<Rightarrow> meta_media list \<Rightarrow> page_counts \<Rightarrow>
     'q sync_world \<Rightarrow> (fate + page_counts) \<times> 'q sync_world" where
  "sync_items env opts runId rank [] counts w = (Inr counts, w)"
| "sync_items env opts runId rank (item # rest) counts w =
     then_do (db_call env (\<lambda>now. upsertMedia (se_unicode env) (se_date_parse env) now
                (upsert_input_of opts runId rank item)) w)
       (\<lambda>result w1.
          then_do (db_call env (\<lambda>now. ensurePending now (ur_id result) (mm_media_url item)) w1)
            (\<lambda>(assetId, created) w2.
               if created \<and> truthy_url (mm_media_url item)
               then then_do (queue_call env (Download_Job (ur_id result)) w2)
                      (\<lambda>messageId w3. sync_items env opts runId (Suc rank) rest
                         ((count_result result counts)\<lparr>pc_assetJobs := pc_assetJobs counts + 1\<rparr>) w3)
               else sync_items env opts runId (Suc rank) rest (count_result result counts) w2))"

record sync_locals =
  sl_itemsSeen :: nat
  sl_itemsNew :: nat
  sl_assetJobsEnqueued :: nat
  sl_hitItemCap :: bool

definition page_input_of :: "sync_options \<Rightarrow> uuid \<Rightarrow> nat \<Rightarrow> media_page \<Rightarrow> page_input" where
  "page_input_of opts runId seen page =
     \<lparr>pi_syncRunId = runId, pi_hashtagId = sy_hashtagId opts, pi_source = sy_kind opts,
       pi_pageNumber = mg_pageNumber page, pi_offset = seen, pi_items = mg_items page\<rparr>"

definition page_delta_of :: "media_page \<Rightarrow> page_counts \<Rightarrow> page_delta" where
  "page_delta_of page c =
     \<lparr>pd_itemsSeen = length (mg_items page), pd_itemsNew = pc_new c, pd_itemsUpdated = pc_updated c,
       pd_metricsRecorded = pc_history c, pd_assetJobsEnqueued = pc_assetJobs c,
       pd_lastCursor = mg_nextCursor page, pd_rateLimit = mg_rateLimit page\<rparr>"

text \<open>
  The body of the \<open>for await\<close> loop up to the cap test: raw payloads, curated rows and asset jobs,
  and last the cursor. The locals advance before the statement that records them is awaited.
\<close>

definition sync_page ::
  "('q, 'h) sync_env \<Rightarrow> sync_options \<Rightarrow> uuid \<Rightarrow> media_page \<Rightarrow> sync_locals \<Rightarrow> 'q sync_world \<Rightarrow>
     (fate + unit) \<times> sync_locals \<times> 'q sync_world" where
  "sync_page env opts runId page loc w =
     (case db_call env (\<lambda>now. recordPage now (page_input_of opts runId (sl_itemsSeen loc) page)) w of
        (Inl f, w1) \<Rightarrow> (Inl f, loc, w1)
      | (Inr u, w1) \<Rightarrow>
          (case sync_items env opts runId (sl_itemsSeen loc + 1) (mg_items page) no_counts w1 of
             (Inl f, w2) \<Rightarrow> (Inl f, loc, w2)
           | (Inr c, w2) \<Rightarrow>
               (let loc1 = loc\<lparr>sl_itemsSeen := sl_itemsSeen loc + length (mg_items page),
                               sl_itemsNew := sl_itemsNew loc + pc_new c,
                               sl_assetJobsEnqueued := sl_assetJobsEnqueued loc + pc_assetJobs c\<rparr>
                in case db_call env (updating (\<lambda>now. recordPageProgress runId (page_delta_of page c))) w2 of
                     (Inl f, w3) \<Rightarrow> (Inl f, loc1, w3)
                   | (Inr u, w3) \<Rightarrow> (Inr (), loc1, w3))))"

section \<open>The loop\<close>

function sync_loop ::
  "('q, 'h) sync_env \<Rightarrow> sync_options \<Rightarrow> uuid \<Rightarrow> paginate_options \<Rightarrow> int \<Rightarrow> walk \<Rightarrow> sync_locals \<Rightarrow>
     'q sync_world \<Rightarrow> (fate + unit) \<times> sync_locals \<times> 'q sync_world" where
  "sync_loop env opts runId po maxItems wk loc w =
     (case next_page (se_net env) po wk (sw_net w) of
        (Inl e, n1) \<Rightarrow> (Inl (Threw e), loc, w\<lparr>sw_net := n1\<rparr>)
      | (Inr None, n1) \<Rightarrow> (Inr (), loc, w\<lparr>sw_net := n1\<rparr>)
      | (Inr (Some (page, wk1)), n1) \<Rightarrow>
          (case sync_page env opts runId page loc (w\<lparr>sw_net := n1\<rparr>) of
             (Inl f, loc1, w1) \<Rightarrow> (Inl f, loc1, w1)
           | (Inr u, loc1, w1) \<Rightarrow>
               if int (sl_itemsSeen loc1) \<ge> maxItems then (Inr (), loc1\<lparr>sl_hitItemCap := True\<rparr>, w1)
               else sync_loop env opts runId po maxItems wk1 loc1 w1))"
  by pat_completeness auto

definition walk_measure :: "paginate_options \<Rightarrow> walk \<Rightarrow> nat" where
  "walk_measure po wk = (if wk_finished wk then 0 else Suc (po_maxItems po - wk_yielded wk))"

lemma next_page_measure:
  assumes "next_page env po wk st = (Inr (Some (pg, wk')), st')"
  shows "walk_measure po wk' < walk_measure po wk"
  using assms
proof (rule next_page_Some)
  assume "\<not> wk_finished wk" "wk_yielded wk < po_maxItems po"
    "wk_yielded wk' = wk_yielded wk + length (mg_items pg)"
    "wk_finished wk' \<longleftrightarrow> mg_nextCursor pg = None \<or> mg_items pg = []"
  then show ?thesis
    by (cases "mg_items pg") (auto simp: walk_measure_def)
qed

termination sync_loop
  by (relation "measure (\<lambda>(env, opts, runId, po, maxItems, wk, loc, w). walk_measure po wk)")
    (auto intro!: next_page_measure [OF sym])

declare sync_loop.simps [simp del]

section \<open>The run\<close>

definition paginate_options_of ::
  "('q, 'h) sync_env \<Rightarrow> sync_options \<Rightarrow> jstr \<Rightarrow> int \<Rightarrow> sync_run \<Rightarrow> paginate_options" where
  "paginate_options_of env opts igHashtagId maxItems run =
     \<lparr>po_hashtagId = igHashtagId, po_edge = sy_kind opts,
       po_maxItems = nat (maxItems - int (sr_itemsSeen run)), po_pageSize = se_pageSize env,
       po_startCursor = (if truthy_cursor (sr_lastCursor run) then sr_lastCursor run else None)\<rparr>"

definition start_locals :: "sync_run \<Rightarrow> sync_locals" where
  "start_locals run = \<lparr>sl_itemsSeen = sr_itemsSeen run, sl_itemsNew = 0, sl_assetJobsEnqueued = 0,
     sl_hitItemCap = False\<rparr>"

text \<open>The \<open>try\<close> block after the loop, and the \<open>catch\<close> block.\<close>

definition sync_succeed ::
  "('q, 'h) sync_env \<Rightarrow> sync_options \<Rightarrow> uuid \<Rightarrow> sync_locals \<Rightarrow> 'q sync_world \<Rightarrow>
     (fate + sync_outcome) \<times> 'q sync_world" where
  "sync_succeed env opts runId loc w =
     then_do (db_call env (updating (\<lambda>now. finishRun now runId
        \<lparr>ro_status = Succeeded, ro_error = None, ro_hitItemCap = sl_hitItemCap loc\<rparr>)) w)
       (\<lambda>u w1. then_do (db_call env (updating (\<lambda>now. markSyncSucceeded now (sy_hashtagId opts) (sy_kind opts))) w1)
          (\<lambda>u w2. (Inr \<lparr>so_skipped = False, so_syncRunId = Some runId, so_itemsSeen = sl_itemsSeen loc,
             so_itemsNew = sl_itemsNew loc, so_assetJobsEnqueued = sl_assetJobsEnqueued loc\<rparr>, w2)))"

definition fail_status :: "sync_run \<Rightarrow> sync_locals \<Rightarrow> sync_run_status" where
  "fail_status run loc = (if sl_itemsSeen loc > sr_itemsSeen run then Partial else Failed)"

definition sync_fail ::
  "('q, 'h) sync_env \<Rightarrow> sync_options \<Rightarrow> sync_run \<Rightarrow> sync_locals \<Rightarrow> js_error \<Rightarrow> 'q sync_world \<Rightarrow>
     (fate + sync_outcome) \<times> 'q sync_world" where
  "sync_fail env opts run loc err w =
     then_do (db_call env (updating (\<lambda>now. finishRun now (sr_id run)
        \<lparr>ro_status = fail_status run loc, ro_error = Some (error_message err),
          ro_hitItemCap = sl_hitItemCap loc\<rparr>)) w)
       (\<lambda>u w1. then_do (db_call env (updating (\<lambda>now. markSyncFailed now (sy_hashtagId opts) (error_message err))) w1)
          (\<lambda>u w2. (Inl (Threw err), w2)))"

definition sync_with_run ::
  "('q, 'h) sync_env \<Rightarrow> sync_options \<Rightarrow> jstr \<Rightarrow> int \<Rightarrow> sync_run \<Rightarrow> 'q sync_world \<Rightarrow>
     (fate + sync_outcome) \<times> 'q sync_world" where
  "sync_with_run env opts igHashtagId maxItems run w =
     (let po = paginate_options_of env opts igHashtagId maxItems run
      in case sync_loop env opts (sr_id run) po maxItems (walk_start po (sw_net w)) (start_locals run) w of
           (Inl Crashed, loc, w1) \<Rightarrow> (Inl Crashed, w1)
         | (Inl (Threw err), loc, w1) \<Rightarrow> sync_fail env opts run loc err w1
         | (Inr u, loc, w1) \<Rightarrow>
             (case sync_succeed env opts (sr_id run) loc w1 of
                (Inl (Threw err), w2) \<Rightarrow> sync_fail env opts run loc err w2
              | r \<Rightarrow> r))"

text \<open>Resolving Meta's identifier, once.\<close>

definition resolve_step ::
  "('q, 'h) sync_env \<Rightarrow> hashtag \<Rightarrow> 'q sync_world \<Rightarrow> (fate + jstr) \<times> 'q sync_world" where
  "resolve_step env h w =
     (if truthy_url (ht_igHashtagId h) then (Inr (the (ht_igHashtagId h)), w)
      else case resolveHashtagId (se_net env) (ht_name h) (sw_net w) of
             (Inl e, n1) \<Rightarrow> (Inl (Threw e), w\<lparr>sw_net := n1\<rparr>)
           | (Inr ig, n1) \<Rightarrow>
               then_do (db_call env (\<lambda>now. setIgHashtagId now (ht_id h) ig) (w\<lparr>sw_net := n1\<rparr>))
                 (\<lambda>u w1. (Inr ig, w1)))"

definition obtain_run ::
  "('q, 'h) sync_env \<Rightarrow> sync_options \<Rightarrow> 'q sync_world \<Rightarrow> (fate + sync_run) \<times> 'q sync_world" where
  "obtain_run env opts w =
     then_do (db_call env (reading (findResumableRun (JOB_TYPE_FOR_KIND (sy_kind opts)) (sy_hashtagId opts))) w)
       (\<lambda>resumable w1.
          case resumable of
            Some run \<Rightarrow> (Inr run, w1)
          | None \<Rightarrow> db_call env (\<lambda>now. startRun now
              \<lparr>si_type = JOB_TYPE_FOR_KIND (sy_kind opts), si_hashtagId = sy_hashtagId opts,
                si_messageId = sy_messageId opts, si_attempt = sy_attempt opts\<rparr>) w1)"

definition not_found_error :: "uuid \<Rightarrow> js_error" where
  "not_found_error i = Plain_Error (js ''hashtag '' @ uuid_show i @ js '' not found'')"

definition runSync ::
  "('q, 'h) sync_env \<Rightarrow> sync_options \<Rightarrow> 'q sync_world \<Rightarrow> (fate + sync_outcome) \<times> 'q sync_world" where
  "runSync env opts w =
     then_do (db_call env (reading (findHashtagById (sy_hashtagId opts))) w)
       (\<lambda>found w1.
          case found of
            None \<Rightarrow> (Inl (Threw (not_found_error (sy_hashtagId opts))), w1)
          | Some h \<Rightarrow>
              then_do (resolve_step env h w1)
                (\<lambda>ig w2.
                   then_do (obtain_run env opts w2)
                     (\<lambda>run w3.
                        sync_with_run env opts ig
                          (case ht_maxMediaPerSync h of None \<Rightarrow> se_maxMediaPerRun env | Some m \<Rightarrow> m) run w3)))"

definition sync ::
  "('q, 'h) sync_env \<Rightarrow> sync_options \<Rightarrow> 'q sync_world \<Rightarrow> (fate + sync_outcome) \<times> 'q sync_world" where
  "sync env opts w =
     then_do (withAdvisoryLock env (syncLockKey (sy_hashtagId opts) (sy_kind opts)) (runSync env opts) w)
       (\<lambda>locked w1.
          case locked of
            None \<Rightarrow> (Inr \<lparr>so_skipped = True, so_syncRunId = None, so_itemsSeen = 0, so_itemsNew = 0,
                       so_assetJobsEnqueued = 0\<rparr>, w1)
          | Some outcome \<Rightarrow> (Inr outcome, w1))"

end
