(* ===== verification/Sync_Invariants.thy ===== *)
theory Sync_Invariants
  imports Sync_Service
begin

text \<open>
  What a sync keeps whatever fails in it. A property of the database that every statement of the
  service keeps is kept by the whole run, at every point where the process can die: that is proved
  once, for any such property, and then used for the constraints, the identity of posts, the
  history and the raw layer.
\<close>

section \<open>Calls\<close>

lemma with_fault_state: "snd (with_fault fl r w) = w \<or> snd (with_fault fl r w) = snd r"
  by (simp add: with_fault_def split: option.split fault.split)

lemma db_call_inv:
  assumes "db_call env f w = (r, w')" "P (sw_db w)" "\<And>now. P (snd (f now (sw_db w)))"
  shows "P (sw_db w')"
  using assms with_fault_state [of "se_fault env (sw_calls w)" "f (se_now env (sw_calls w)) (sw_db w)" "sw_db w"]
  by (auto simp: db_call_def split: prod.splits)

lemma db_call_Inr:
  assumes "db_call env f w = (Inr a, w')"
  shows "\<exists>now. f now (sw_db w) = (Inr a, sw_db w')" "sw_queue w' = sw_queue w" "sw_locks w' = sw_locks w"
    "sw_net w' = sw_net w"
  using assms by (auto simp: db_call_def with_fault_def split: option.splits fault.splits sum.splits prod.splits
      intro!: exI [of _ "se_now env (sw_calls w)"] prod_eqI)

lemma db_call_frame:
  "db_call env f w = (r, w') \<Longrightarrow>
     sw_queue w' = sw_queue w \<and> sw_locks w' = sw_locks w \<and> sw_net w' = sw_net w"
  by (auto simp: db_call_def split: prod.splits)

lemma queue_call_frame:
  "queue_call env j w = (r, w') \<Longrightarrow>
     sw_db w' = sw_db w \<and> sw_locks w' = sw_locks w \<and> sw_net w' = sw_net w"
  by (auto simp: queue_call_def split: prod.splits)

lemma then_do_split:
  assumes "then_do m k = (r, w')"
  obtains (stop) f where "m = (Inl f, w')" "r = Inl f"
    | (go) a w1 where "m = (Inr a, w1)" "k a w1 = (r, w')"
proof (cases m)
  case (Pair x w1)
  show ?thesis
  proof (cases x)
    case (Inl f)
    then show ?thesis using assms Pair stop by (simp add: then_do_def)
  next
    case (Inr a)
    then show ?thesis using assms Pair go by (simp add: then_do_def)
  qed
qed

section \<open>Invariants of every statement\<close>

locale item_invariant =
  fixes P :: "database \<Rightarrow> bool"
  assumes inv_upsert: "P db \<Longrightarrow> P (snd (upsertMedia u dp now inp db))"
    and inv_asset: "P db \<Longrightarrow> P (snd (ensurePending now i url db))"
begin

lemma call:
  "db_call env f w = (r, w') \<Longrightarrow> P (sw_db w) \<Longrightarrow> (\<And>now. P (snd (f now (sw_db w)))) \<Longrightarrow> P (sw_db w')"
  by (rule db_call_inv [where P = P])

lemma call_updating:
  "db_call env (updating f) w = (r, w') \<Longrightarrow> P (sw_db w) \<Longrightarrow> (\<And>now. P (f now (sw_db w))) \<Longrightarrow> P (sw_db w')"
  using call [of env "updating f" w r w'] by (auto simp: updating_def)

lemma call_reading: "db_call env (reading f) w = (r, w') \<Longrightarrow> P (sw_db w) \<Longrightarrow> P (sw_db w')"
  using call [of env "reading f" w r w'] by (auto simp: reading_def)

lemma items:
  "sync_items env opts runId rank items counts w = (r, w') \<Longrightarrow> P (sw_db w) \<Longrightarrow> P (sw_db w')"
proof (induction items arbitrary: rank counts w)
  case (Cons item rest)
  note IH = Cons.IH
  note Pw = Cons.prems(2)
  from Cons.prems(1) show ?case
    unfolding sync_items.simps
  proof (cases rule: then_do_split)
    case (stop f)
    then show ?thesis using call [OF stop(1) Pw] inv_upsert [OF Pw] by blast
  next
    case (go result w1)
    have P1: "P (sw_db w1)" using call [OF go(1) Pw] inv_upsert [OF Pw] by blast
    from go(2) show ?thesis
    proof (cases rule: then_do_split)
      case (stop f)
      then show ?thesis using call [OF stop(1) P1] inv_asset [OF P1] by blast
    next
      case (go a w2)
      have P2: "P (sw_db w2)" using call [OF go(1) P1] inv_asset [OF P1] by blast
      obtain aid created where a: "a = (aid, created)" by fastforce
      show ?thesis
      proof (cases "created \<and> truthy_url (mm_media_url item)")
        case True
        then have "then_do (queue_call env (Download_Job (ur_id result)) w2)
            (\<lambda>m w3. sync_items env opts runId (Suc rank) rest
               ((count_result result counts)\<lparr>pc_assetJobs := pc_assetJobs counts + 1\<rparr>) w3) = (r, w')"
          using go(2) a by simp
        then show ?thesis
        proof (cases rule: then_do_split)
          case (stop f)
          then show ?thesis using queue_call_frame P2 by metis
        next
          case (go m w3)
          then show ?thesis using queue_call_frame P2 IH by metis
        qed
      next
        case False
        then have "sync_items env opts runId (Suc rank) rest (count_result result counts) w2 = (r, w')"
          using go(2) a by auto
        then show ?thesis using P2 IH by blast
      qed
    qed
  qed
qed simp

end

text \<open>The statements of the rest of the run.\<close>

locale sync_invariant = item_invariant P for P :: "database \<Rightarrow> bool" +
  assumes inv_page: "P db \<Longrightarrow> P (snd (recordPage now pinp db))"
    and inv_progress: "P db \<Longrightarrow> P (recordPageProgress rid d db)"
    and inv_start: "P db \<Longrightarrow> P (snd (startRun now sinp db))"
    and inv_finish: "P db \<Longrightarrow> P (finishRun now rid out db)"
    and inv_set_ig: "P db \<Longrightarrow> P (snd (setIgHashtagId now i ig db))"
    and inv_succeeded: "P db \<Longrightarrow> P (markSyncSucceeded now i kind db)"
    and inv_failed: "P db \<Longrightarrow> P (markSyncFailed now i msg db)"
begin

lemma page:
  assumes "sync_page env opts runId page loc w = (r, loc', w')" "P (sw_db w)"
  shows "P (sw_db w')"
proof -
  obtain r1 w1 where 1: "db_call env (\<lambda>now. recordPage now (page_input_of opts runId (sl_itemsSeen loc) page)) w = (r1, w1)"
    by fastforce
  have P1: "P (sw_db w1)" using call [OF 1 assms(2)] inv_page [OF assms(2)] by blast
  obtain r2 w2 where 2: "sync_items env opts runId (sl_itemsSeen loc + 1) (mg_items page) no_counts w1 = (r2, w2)"
    by fastforce
  have P2: "P (sw_db w2)" using items [OF 2] P1 by blast
  have P3: "P (sw_db w3)"
    if "db_call env (updating (\<lambda>now. recordPageProgress runId d)) w2 = (r3, w3)" for r3 w3 d
    using call_updating [OF that P2] inv_progress [OF P2] by blast
  show ?thesis
  proof (cases r1)
    case (Inl f)
    then show ?thesis using assms(1) 1 P1 by (simp add: sync_page_def)
  next
    case (Inr u)
    show ?thesis
    proof (cases r2)
      case (Inl f)
      then show ?thesis using assms(1) 1 2 Inr P2 by (simp add: sync_page_def)
    next
      case (Inr c)
      obtain r3 w3 where 3: "db_call env (updating (\<lambda>now. recordPageProgress runId (page_delta_of page c))) w2 = (r3, w3)"
        by fastforce
      have "w' = w3"
        using assms(1) 1 2 3 Inr \<open>r1 = Inr u\<close>
        by (cases r3) (simp_all add: sync_page_def Let_def)
      then show ?thesis using P3 [OF 3] by simp
    qed
  qed
qed

lemma loop:
  "sync_loop env opts runId po maxItems wk loc w = (r, loc', w') \<Longrightarrow> P (sw_db w) \<Longrightarrow> P (sw_db w')"
proof (induction env opts runId po maxItems wk loc w arbitrary: r loc' w' rule: sync_loop.induct)
  case (1 env opts runId po maxItems wk loc w)
  obtain q n1 where q: "next_page (se_net env) po wk (sw_net w) = (q, n1)" by fastforce
  show ?case
  proof (cases "\<exists>page wk1. q = Inr (Some (page, wk1))")
    case False
    then have "sw_db w' = sw_db w"
      using "1.prems"(1) q by (auto simp: sync_loop.simps [of env opts] split: sum.splits option.splits)
    then show ?thesis using "1.prems"(2) by simp
  next
    case True
    then obtain page wk1 where p: "q = Inr (Some (page, wk1))" by blast
    obtain s loc1 w1 where s: "sync_page env opts runId page loc (w\<lparr>sw_net := n1\<rparr>) = (s, loc1, w1)"
      by (metis prod_cases3)
    have P1: "P (sw_db w1)" using page [OF s] "1.prems"(2) by simp
    show ?thesis
    proof (cases "(\<exists>u. s = Inr u) \<and> \<not> maxItems \<le> int (sl_itemsSeen loc1)")
      case True
      then obtain u where u: "s = Inr u" "\<not> maxItems \<le> int (sl_itemsSeen loc1)" by blast
      then have "sync_loop env opts runId po maxItems wk1 loc1 w1 = (r, loc', w')"
        using "1.prems"(1) q p s by (simp add: sync_loop.simps [of env opts runId po maxItems wk loc w])
      then show ?thesis
        using "1.IH" q p s u P1 by metis
    next
      case False
      then have "w' = w1"
        using "1.prems"(1) q p s
        by (auto simp: sync_loop.simps [of env opts runId po maxItems wk loc w] split: sum.splits if_splits)
      then show ?thesis using P1 by simp
    qed
  qed
qed

lemma succeed:
  assumes "sync_succeed env opts runId loc w = (r, w')" "P (sw_db w)"
  shows "P (sw_db w')"
proof -
  from assms(1) show ?thesis
    unfolding sync_succeed_def
  proof (cases rule: then_do_split)
    case (stop f)
    then show ?thesis using call_updating [OF stop(1) assms(2)] inv_finish [OF assms(2)] by blast
  next
    case (go a w1)
    have P1: "P (sw_db w1)"
      using call_updating [OF go(1) assms(2)] inv_finish [OF assms(2)] by blast
    from go(2) show ?thesis
    proof (cases rule: then_do_split)
      case (stop f)
      then show ?thesis using call_updating [OF stop(1) P1] inv_succeeded [OF P1] by blast
    next
      case (go a w2)
      then show ?thesis using call_updating [OF go(1) P1] inv_succeeded [OF P1] by blast
    qed
  qed
qed

lemma fail:
  assumes "sync_fail env opts run loc err w = (r, w')" "P (sw_db w)"
  shows "P (sw_db w')"
proof -
  from assms(1) show ?thesis
    unfolding sync_fail_def
  proof (cases rule: then_do_split)
    case (stop f)
    then show ?thesis using call_updating [OF stop(1) assms(2)] inv_finish [OF assms(2)] by blast
  next
    case (go a w1)
    have P1: "P (sw_db w1)"
      using call_updating [OF go(1) assms(2)] inv_finish [OF assms(2)] by blast
    from go(2) show ?thesis
    proof (cases rule: then_do_split)
      case (stop f)
      then show ?thesis using call_updating [OF stop(1) P1] inv_failed [OF P1] by blast
    next
      case (go a w2)
      then show ?thesis using call_updating [OF go(1) P1] inv_failed [OF P1] by blast
    qed
  qed
qed

lemma with_run:
  assumes "sync_with_run env opts ig maxItems run w = (r, w')" "P (sw_db w)"
  shows "P (sw_db w')"
proof -
  let ?po = "paginate_options_of env opts ig maxItems run"
  obtain q loc w1 where q: "sync_loop env opts (sr_id run) ?po maxItems (walk_start ?po (sw_net w))
      (start_locals run) w = (q, loc, w1)" by (metis prod_cases3)
  have P1: "P (sw_db w1)" using loop [OF q] assms(2) by simp
  obtain s w2 where s: "sync_succeed env opts (sr_id run) loc w1 = (s, w2)" by fastforce
  have P2: "P (sw_db w2)" using succeed [OF s] P1 by simp
  show ?thesis
    using assms(1) q s P1 P2 fail
    by (auto simp: sync_with_run_def Let_def split: sum.splits fate.splits)
qed

lemma run_sync:
  assumes "runSync env opts w = (r, w')" "P (sw_db w)"
  shows "P (sw_db w')"
proof -
  note rd = call_reading
  have resolve: "P (sw_db w2)" if "resolve_step env h w1 = (x, w2)" "P (sw_db w1)" for h w1 x w2
  proof (cases "truthy_url (ht_igHashtagId h)")
    case True
    then show ?thesis using that by (simp add: resolve_step_def)
  next
    case False
    obtain q n1 where q: "resolveHashtagId (se_net env) (ht_name h) (sw_net w1) = (q, n1)" by fastforce
    show ?thesis
    proof (cases q)
      case (Inl e)
      then show ?thesis using that q False by (auto simp: resolve_step_def)
    next
      case (Inr ig)
      obtain y w3 where y: "db_call env (\<lambda>now. setIgHashtagId now (ht_id h) ig) (w1\<lparr>sw_net := n1\<rparr>) = (y, w3)"
        by fastforce
      have "P (sw_db w3)" using call [OF y] that(2) inv_set_ig by simp
      then show ?thesis using that(1) q False Inr y by (cases y) (simp_all add: resolve_step_def then_do_def)
    qed
  qed
  have obtains_run: "P (sw_db w2)" if "obtain_run env opts w1 = (x, w2)" "P (sw_db w1)" for w1 x w2
    using that(1) unfolding obtain_run_def
  proof (cases rule: then_do_split)
    case (stop f)
    then show ?thesis using rd that(2) by blast
  next
    case (go a w3)
    then have P3: "P (sw_db w3)" using rd that(2) by blast
    show ?thesis
    proof (cases a)
      case None
      then show ?thesis using go(2) call [OF _ P3] inv_start [OF P3] by (simp, blast)
    next
      case (Some run)
      then show ?thesis using go(2) P3 by simp
    qed
  qed
  from assms(1) show ?thesis
    unfolding runSync_def
  proof (cases rule: then_do_split)
    case (stop f)
    then show ?thesis using rd assms(2) by blast
  next
    case (go found w1)
    then have P1: "P (sw_db w1)" using rd assms(2) by blast
    show ?thesis
    proof (cases found)
      case None
      then show ?thesis using go P1 by simp
    next
      case (Some h)
      then have "then_do (resolve_step env h w1) (\<lambda>ig w2. then_do (obtain_run env opts w2)
          (\<lambda>run w3. sync_with_run env opts ig
             (case ht_maxMediaPerSync h of None \<Rightarrow> se_maxMediaPerRun env | Some m \<Rightarrow> m) run w3)) = (r, w')"
        using go(2) by simp
      then show ?thesis
      proof (cases rule: then_do_split)
        case (stop f)
        then show ?thesis using resolve P1 by blast
      next
        case (go ig w2)
        then have P2: "P (sw_db w2)" using resolve P1 by blast
        from go(2) show ?thesis
        proof (cases rule: then_do_split)
          case (stop f)
          then show ?thesis using obtains_run P2 by blast
        next
          case (go run w3)
          then show ?thesis using obtains_run P2 with_run by blast
        qed
      qed
    qed
  qed
qed

lemma with_lock:
  assumes "withAdvisoryLock env key fn w = (r, w')" "P (sw_db w)"
    "\<And>v x v'. fn v = (x, v') \<Longrightarrow> P (sw_db v) \<Longrightarrow> P (sw_db v')"
  shows "P (sw_db w')"
proof -
  let ?k = "se_lock_hash env key"
  let ?v = "w\<lparr>sw_calls := Suc (sw_calls w), sw_locks := ?k # sw_locks w\<rparr>"
  obtain x w2 where x: "fn ?v = (x, w2)" by fastforce
  have "P (sw_db w2)" using assms(3) [OF x] assms(2) by simp
  then show ?thesis
    using assms(1,2) x
    by (auto simp: withAdvisoryLock_def Let_def split: option.splits fault.splits if_splits sum.splits fate.splits)
qed

theorem sync_keeps:
  assumes "sync env opts w = (r, w')" "P (sw_db w)"
  shows "P (sw_db w')"
proof -
  from assms(1) show ?thesis
    unfolding sync_def
  proof (cases rule: then_do_split)
    case (stop f)
    then show ?thesis using with_lock assms(2) run_sync by blast
  next
    case (go locked w1)
    then have "P (sw_db w1)" using with_lock assms(2) run_sync by blast
    then show ?thesis using go(2) by (auto split: option.splits)
  qed
qed

end

end
