(* ===== verification/Sync_Progress.thy ===== *)
theory Sync_Progress
  imports Sync_Invariants
begin

text \<open>
  The instances of the invariant, and what the order of the statements in the page loop is for:
  the recorded progress of a run never gets ahead of what is persisted.
\<close>

section \<open>Instances\<close>

interpretation sync_wf: sync_invariant db_wf
  by unfold_locales
    (simp_all add: upsertMedia_wf ensurePending_wf recordPage_wf recordPageProgress_wf startRun_wf
      finishRun_wf setIgHashtagId_wf markSyncSucceeded_wf markSyncFailed_wf)

text \<open>Which tables a statement leaves alone.\<close>

lemma tables_asset [simp]:
  "db_mediaPosts (snd (ensurePending now i url db)) = db_mediaPosts db"
  "db_history (snd (ensurePending now i url db)) = db_history db"
  "db_dataPoints (snd (ensurePending now i url db)) = db_dataPoints db"
  "db_syncRuns (snd (ensurePending now i url db)) = db_syncRuns db"
  by (simp_all add: ensurePending_def Let_def split: option.split)

lemma tables_page [simp]:
  "db_mediaPosts (snd (recordPage now pinp db)) = db_mediaPosts db"
  "db_history (snd (recordPage now pinp db)) = db_history db"
  "db_assets (snd (recordPage now pinp db)) = db_assets db"
  "db_syncRuns (snd (recordPage now pinp db)) = db_syncRuns db"
  by (simp_all add: recordPage_def)

lemma tables_run [simp]:
  "db_mediaPosts (recordPageProgress rid d db) = db_mediaPosts db"
  "db_history (recordPageProgress rid d db) = db_history db"
  "db_dataPoints (recordPageProgress rid d db) = db_dataPoints db"
  "db_assets (recordPageProgress rid d db) = db_assets db"
  "db_mediaPosts (finishRun now rid out db) = db_mediaPosts db"
  "db_history (finishRun now rid out db) = db_history db"
  "db_dataPoints (finishRun now rid out db) = db_dataPoints db"
  "db_assets (finishRun now rid out db) = db_assets db"
  "db_mediaPosts (snd (startRun now sinp db)) = db_mediaPosts db"
  "db_history (snd (startRun now sinp db)) = db_history db"
  "db_dataPoints (snd (startRun now sinp db)) = db_dataPoints db"
  "db_assets (snd (startRun now sinp db)) = db_assets db"
  by (simp_all add: recordPageProgress_def finishRun_def startRun_def Let_def)

lemma tables_hashtag [simp]:
  "db_mediaPosts (snd (setIgHashtagId now i ig db)) = db_mediaPosts db"
  "db_history (snd (setIgHashtagId now i ig db)) = db_history db"
  "db_dataPoints (snd (setIgHashtagId now i ig db)) = db_dataPoints db"
  "db_assets (snd (setIgHashtagId now i ig db)) = db_assets db"
  "db_syncRuns (snd (setIgHashtagId now i ig db)) = db_syncRuns db"
  "db_mediaPosts (markSyncSucceeded now i kind db) = db_mediaPosts db"
  "db_history (markSyncSucceeded now i kind db) = db_history db"
  "db_dataPoints (markSyncSucceeded now i kind db) = db_dataPoints db"
  "db_assets (markSyncSucceeded now i kind db) = db_assets db"
  "db_syncRuns (markSyncSucceeded now i kind db) = db_syncRuns db"
  "db_mediaPosts (markSyncFailed now i msg db) = db_mediaPosts db"
  "db_history (markSyncFailed now i msg db) = db_history db"
  "db_dataPoints (markSyncFailed now i msg db) = db_dataPoints db"
  "db_assets (markSyncFailed now i msg db) = db_assets db"
  "db_syncRuns (markSyncFailed now i msg db) = db_syncRuns db"
  by (simp_all add: setIgHashtagId_def markSyncSucceeded_def markSyncFailed_def)

lemmas tables_upsert [simp] = upsertMedia_keeps(5-7)

interpretation sync_posts: sync_invariant "posts_evolve db0" for db0
proof (unfold_locales, goal_cases)
  case (1 db u dp now inp)
  then show ?case by (rule posts_evolve_trans [OF _ posts_evolve_upsert])
qed (simp_all add: posts_evolve_def)

interpretation sync_history: sync_invariant "\<lambda>db. \<exists>new. db_history db = db_history db0 @ new" for db0
proof (unfold_locales, goal_cases)
  case (1 db u dp now inp)
  then show ?case
    by (cases u dp now inp db rule: upsertMedia_history) auto
qed simp_all

lemma recordPage_prefix: "\<exists>new. db_dataPoints (snd (recordPage now pinp db)) = db_dataPoints db @ new"
  by (simp add: recordPage_def)

interpretation sync_raw: sync_invariant "\<lambda>db. \<exists>new. db_dataPoints db = db_dataPoints db0 @ new" for db0
proof (unfold_locales, goal_cases)
  case (3 db now pinp)
  then show ?case using recordPage_prefix [of now pinp db] by auto
qed simp_all

interpretation items_runs: item_invariant "\<lambda>db. db_syncRuns db = rs" for rs
  by unfold_locales simp_all

section \<open>Persistence only grows\<close>

definition has_asset :: "database \<Rightarrow> uuid \<Rightarrow> bool" where
  "has_asset db i \<longleftrightarrow> i \<in> ma_mediaId ` set (db_assets db)"

text \<open>A post with that identifier, and its asset row.\<close>

definition persisted :: "database \<Rightarrow> jstr \<Rightarrow> bool" where
  "persisted db ig \<longleftrightarrow> (\<exists>m \<in> set (db_mediaPosts db). mp_igMediaId m = ig \<and> has_asset db (mp_id m))"

definition grows :: "database \<Rightarrow> database \<Rightarrow> bool" where
  "grows a b \<longleftrightarrow> set (db_dataPoints a) \<subseteq> set (db_dataPoints b)
     \<and> (\<lambda>m. (mp_id m, mp_igMediaId m)) ` set (db_mediaPosts a)
         \<subseteq> (\<lambda>m. (mp_id m, mp_igMediaId m)) ` set (db_mediaPosts b)
     \<and> ma_mediaId ` set (db_assets a) \<subseteq> ma_mediaId ` set (db_assets b)"

lemma grows_refl [simp]: "grows a a"
  by (simp add: grows_def)

lemma grows_trans: "grows a b \<Longrightarrow> grows b c \<Longrightarrow> grows a c"
  unfolding grows_def by (meson order_trans)

lemma grows_same:
  "db_dataPoints b = db_dataPoints a \<Longrightarrow> db_mediaPosts b = db_mediaPosts a \<Longrightarrow>
     db_assets b = db_assets a \<Longrightarrow> grows a b"
  by (simp add: grows_def)

lemma persisted_grows: "grows a b \<Longrightarrow> persisted a ig \<Longrightarrow> persisted b ig"
proof -
  assume g: "grows a b" and "persisted a ig"
  then obtain m where m: "m \<in> set (db_mediaPosts a)" "mp_igMediaId m = ig" "has_asset a (mp_id m)"
    by (auto simp: persisted_def)
  then have "(mp_id m, mp_igMediaId m) \<in> (\<lambda>m. (mp_id m, mp_igMediaId m)) ` set (db_mediaPosts b)"
    using g by (auto simp: grows_def)
  then obtain m' where "m' \<in> set (db_mediaPosts b)" "mp_id m' = mp_id m" "mp_igMediaId m' = ig"
    using m(2) by auto
  moreover have "has_asset b (mp_id m)" using g m(3) by (auto simp: grows_def has_asset_def)
  ultimately show ?thesis unfolding persisted_def by metis
qed

lemma posts_evolve_keys:
  assumes "posts_evolve a b"
  shows "(\<lambda>m. (mp_id m, mp_igMediaId m)) ` set (db_mediaPosts a)
         \<subseteq> (\<lambda>m. (mp_id m, mp_igMediaId m)) ` set (db_mediaPosts b)"
proof -
  let ?k = "\<lambda>m. (mp_id m, mp_igMediaId m)"
  obtain new where "list_all2 post_evolves (db_mediaPosts a @ new) (db_mediaPosts b)"
    using assms by (auto simp: posts_evolve_def)
  then have "map ?k (db_mediaPosts a @ new) = map ?k (db_mediaPosts b)"
    by (induction rule: list_all2_induct) (simp_all add: post_evolves_def)
  then show ?thesis by (metis Un_upper1 list.set_map set_append map_append)
qed

lemma grows_upsert: "grows db (snd (upsertMedia u dp now inp db))"
  unfolding grows_def using posts_evolve_keys [OF posts_evolve_upsert] by simp

lemma grows_asset: "grows db (snd (ensurePending now i url db))"
proof -
  have "ma_mediaId ` set (update_where p (refresh_url now url) t) = ma_mediaId ` set t" for p t
    by (rule image_update_where_same) (simp add: refresh_url_def)
  then have "ma_mediaId ` set (db_assets db) \<subseteq> ma_mediaId ` set (db_assets (snd (ensurePending now i url db)))"
    by (auto simp: ensurePending_def Let_def split: option.split)
  then show ?thesis by (simp add: grows_def)
qed

lemma grows_page: "grows db (snd (recordPage now pinp db))"
  using recordPage_prefix [of now pinp db] by (auto simp: grows_def)

interpretation sync_grows: sync_invariant "grows db0" for db0
  by unfold_locales
    (erule grows_trans, rule grows_upsert grows_asset grows_page grows_same; simp)+

section \<open>Progress\<close>

definition covered :: "database \<Rightarrow> uuid \<Rightarrow> nat \<Rightarrow> bool" where
  "covered db rid k \<longleftrightarrow>
     (\<exists>d \<in> set (db_dataPoints db). dp_syncRunId d = rid \<and> dp_positionOverall d = k
        \<and> persisted db (dp_igMediaId d))"

text \<open>Every item a run counts as seen has its raw row, its post and its asset row.\<close>

definition progress_ok :: "database \<Rightarrow> bool" where
  "progress_ok db \<longleftrightarrow> (\<forall>r \<in> set (db_syncRuns db). \<forall>k < sr_itemsSeen r. covered db (sr_id r) k)"

definition run_at :: "database \<Rightarrow> uuid \<Rightarrow> nat \<Rightarrow> bool" where
  "run_at db rid n \<longleftrightarrow> (\<exists>r \<in> set (db_syncRuns db). sr_id r = rid \<and> sr_itemsSeen r = n)"

lemma covered_grows: "grows a b \<Longrightarrow> covered a rid k \<Longrightarrow> covered b rid k"
  unfolding covered_def using persisted_grows by (meson grows_def subsetD)

lemma progress_grows:
  assumes "progress_ok a" "grows a b"
    "\<And>r'. r' \<in> set (db_syncRuns b) \<Longrightarrow> sr_itemsSeen r' = 0 \<or>
       (\<exists>r \<in> set (db_syncRuns a). sr_id r = sr_id r' \<and> sr_itemsSeen r = sr_itemsSeen r')"
  shows "progress_ok b"
  unfolding progress_ok_def
proof (intro ballI allI impI)
  fix r' k
  assume r': "r' \<in> set (db_syncRuns b)" "k < sr_itemsSeen r'"
  then obtain r where "r \<in> set (db_syncRuns a)" "sr_id r = sr_id r'" "k < sr_itemsSeen r"
    using assms(3) [OF r'(1)] by auto
  then have "covered a (sr_id r') k" using assms(1) by (auto simp: progress_ok_def)
  then show "covered b (sr_id r') k" by (rule covered_grows [OF assms(2)])
qed

lemma progress_same_runs:
  "progress_ok a \<Longrightarrow> grows a b \<Longrightarrow> db_syncRuns b = db_syncRuns a \<Longrightarrow> progress_ok b"
  by (rule progress_grows) auto

lemma run_at_same: "db_syncRuns b = db_syncRuns a \<Longrightarrow> run_at b rid n = run_at a rid n"
  by (simp add: run_at_def)

lemma db_call_Inr':
  assumes "db_call env f w = (Inr a, w')"
  obtains now where "fst (f now (sw_db w)) = Inr a" "sw_db w' = snd (f now (sw_db w))"
  using db_call_Inr(1) [OF assms] that by (metis fst_conv snd_conv)

text \<open>A page whose items all went through is persisted.\<close>

lemma sync_items_persists:
  "sync_items env opts runId rank items counts w = (Inr c, w') \<Longrightarrow>
     \<forall>item \<in> set items. persisted (sw_db w') (mm_id item)"
proof (induction items arbitrary: rank counts w)
  case (Cons item rest)
  note IH = Cons.IH
  from Cons.prems show ?case
    unfolding sync_items.simps
  proof (cases rule: then_do_split)
    case (go result w1)
    note up = go(1)
    from go(2) show ?thesis
    proof (cases rule: then_do_split)
      case (go a w2)
      note asset = go(1)
      obtain aid created where a: "a = (aid, created)" by fastforce
      obtain w3 n cs where rest: "sync_items env opts runId n rest cs w3 = (Inr c, w')" "sw_db w3 = sw_db w2"
      proof (cases "created \<and> truthy_url (mm_media_url item)")
        case True
        then have "then_do (queue_call env (Download_Job (ur_id result)) w2)
            (\<lambda>m w3. sync_items env opts runId (Suc rank) rest
               ((count_result result counts)\<lparr>pc_assetJobs := pc_assetJobs counts + 1\<rparr>) w3) = (Inr c, w')"
          using go(2) a by simp
        then show ?thesis
        proof (cases rule: then_do_split)
          case (go m w3)
          then show ?thesis using that queue_call_frame [OF go(1)] by blast
        qed simp
      next
        case False
        then show ?thesis using that go(2) a by auto
      qed
      obtain now1 where n1: "fst (upsertMedia (se_unicode env) (se_date_parse env) now1
          (upsert_input_of opts runId rank item) (sw_db w)) = Inr result"
        "sw_db w1 = snd (upsertMedia (se_unicode env) (se_date_parse env) now1
          (upsert_input_of opts runId rank item) (sw_db w))"
        using db_call_Inr' [OF up] by blast
      obtain row where row: "row \<in> set (db_mediaPosts (sw_db w1))" "mp_igMediaId row = mm_id item"
        "mp_id row = ur_id result"
        using upsertMedia_row [OF n1(1)] findByIgMediaId_Some unfolding n1(2)
        by (metis upsert_input_of_def upsert_input.select_convs(1))
      obtain now2 where n2: "fst (ensurePending now2 (ur_id result) (mm_media_url item) (sw_db w1)) = Inr a"
        "sw_db w2 = snd (ensurePending now2 (ur_id result) (mm_media_url item) (sw_db w1))"
        using db_call_Inr' [OF asset] by blast
      obtain as where "findByMediaId (ur_id result) (sw_db w2) = Some as"
        using ensurePending_row n1 n2 a by metis
      then have "has_asset (sw_db w2) (ur_id result)"
        by (auto simp: findByMediaId_def has_asset_def dest!: find_row_SomeD intro: rev_image_eqI)
      moreover have "row \<in> set (db_mediaPosts (sw_db w2))"
        using row(1) by (simp add: n2(2))
      ultimately have "persisted (sw_db w2) (mm_id item)"
        using row by (auto simp: persisted_def)
      moreover have "grows (sw_db w2) (sw_db w')"
        using sync_grows.items [OF rest(1), of "sw_db w2"] rest(2) by simp
      ultimately have "persisted (sw_db w') (mm_id item)" by (rule persisted_grows [rotated])
      then show ?thesis using IH [OF rest(1)] by simp
    qed simp
  qed simp
qed simp

end
