(* ===== verification/Storage_Port.thy ===== *)
theory Storage_Port
  imports Models
begin

text \<open>
  \<open>src/ports/Storage.ts\<close>: content-addressed keys, extensions, and the contract of an object store
  as a locale over the locations keys denote.
\<close>

type_synonym bytes = "nat list"

section \<open>Keys\<close>

definition starts_with :: "jstr \<Rightarrow> jstr \<Rightarrow> bool" where
  "starts_with p s \<longleftrightarrow> take (length p) s = p"

definition contentAddressedKey :: "jstr \<Rightarrow> jstr \<Rightarrow> jstr" where
  "contentAddressedKey sha256 extension =
     (let a = take 2 sha256; b = take 2 (drop 2 sha256);
          ext = (if starts_with (js ''.'') extension then extension else js ''.'' @ extension)
      in js ''media/'' @ a @ js ''/'' @ b @ js ''/'' @ sha256 @ ext)"

definition extension_map :: "(jstr \<times> jstr) list" where
  "extension_map =
     map (\<lambda>(t, e). (js t, js e))
      [(''image/jpeg'', ''.jpg''), (''image/jpg'', ''.jpg''), (''image/png'', ''.png''),
       (''image/webp'', ''.webp''), (''image/heic'', ''.heic''), (''image/gif'', ''.gif''),
       (''video/mp4'', ''.mp4''), (''video/quicktime'', ''.mov''), (''video/webm'', ''.webm'')]"

text \<open>
  \<open>contentType.split(';')[0]?.trim().toLowerCase()\<close>, looked up in the map. (A header that is the
  name of a property of \<open>Object.prototype\<close>, which no media type is, is outside the model.)
\<close>

definition extensionForContentType :: "unicode \<Rightarrow> jstr option \<Rightarrow> jstr" where
  "extensionForContentType u contentType =
     (case contentType of
        None \<Rightarrow> js ''.bin''
      | Some t \<Rightarrow>
          if t = [] then js ''.bin''
          else let normalized = u_lower u (js_trim (takeWhile (\<lambda>c. c \<noteq> 59) t))
               in (case map_of extension_map normalized of None \<Rightarrow> js ''.bin'' | Some e \<Rightarrow> e))"

definition known_extensions :: "jstr set" where
  "known_extensions = js ` {''.jpg'', ''.png'', ''.webp'', ''.heic'', ''.gif'', ''.mp4'', ''.mov'', ''.webm'', ''.bin''}"

lemma extension_known: "extensionForContentType u ct \<in> known_extensions"
  by (auto simp: extensionForContentType_def known_extensions_def extension_map_def Let_def
      split: option.split if_splits)

text \<open>A SHA-256 digest in hexadecimal.\<close>

definition hex_char :: "nat \<Rightarrow> bool" where
  "hex_char c \<longleftrightarrow> 48 \<le> c \<and> c \<le> 57 \<or> 97 \<le> c \<and> c \<le> 102"

definition is_digest :: "jstr \<Rightarrow> bool" where
  "is_digest s \<longleftrightarrow> length s = 64 \<and> (\<forall>c \<in> set s. hex_char c)"

definition good_key :: "jstr \<Rightarrow> bool" where
  "good_key k \<longleftrightarrow> (\<exists>s e. is_digest s \<and> e \<in> known_extensions \<and> k = contentAddressedKey s e)"

lemma known_extension_shape:
  "e \<in> known_extensions \<Longrightarrow> starts_with (js ''.'') e \<and> e \<noteq> [] \<and> 47 \<notin> set e \<and> last e \<noteq> 108"
  by (auto simp: known_extensions_def starts_with_def js_def)

lemma contentAddressedKey_known:
  "e \<in> known_extensions \<Longrightarrow> contentAddressedKey s e =
     js ''media/'' @ take 2 s @ js ''/'' @ take 2 (drop 2 s) @ js ''/'' @ s @ e"
  by (simp add: contentAddressedKey_def known_extension_shape)

text \<open>The digest can be read off a key.\<close>

definition key_digest :: "jstr \<Rightarrow> jstr" where
  "key_digest k = take 64 (drop 12 k)"

lemma key_digest_key:
  "is_digest s \<Longrightarrow> e \<in> known_extensions \<Longrightarrow> key_digest (contentAddressedKey s e) = s"
  by (simp add: contentAddressedKey_known key_digest_def is_digest_def)

lemma contentAddressedKey_inject:
  assumes "is_digest s" "is_digest s'" "e \<in> known_extensions" "e' \<in> known_extensions"
    "contentAddressedKey s e = contentAddressedKey s' e'"
  shows "s = s' \<and> e = e'"
proof -
  have "s = s'" using assms key_digest_key by metis
  then show ?thesis using assms(3-5) by (simp add: contentAddressedKey_known)
qed

section \<open>The contract of an object store\<close>

record stored_object =
  so_key :: jstr
  so_provider :: string
  so_sizeBytes :: nat
  so_contentType :: "jstr option"

locale object_store =
  fixes exists_at :: "jstr \<Rightarrow> 's \<Rightarrow> js_error + bool"
    and put_at :: "jstr \<Rightarrow> bytes \<Rightarrow> jstr option \<Rightarrow> 's \<Rightarrow> (js_error + stored_object) \<times> 's"
    and content :: "'s \<Rightarrow> jstr \<Rightarrow> bytes option"
    and provider :: string
  assumes exists_content: "good_key k \<Longrightarrow> exists_at k s = Inr b \<Longrightarrow> b = (content s k \<noteq> None)"
    and put_content: "good_key k \<Longrightarrow> good_key k' \<Longrightarrow> fst (put_at k body ct s) = Inr ob \<Longrightarrow>
      content (snd (put_at k body ct s)) k' = (if k' = k then Some body else content s k')"
    and put_object: "good_key k \<Longrightarrow> fst (put_at k body ct s) = Inr ob \<Longrightarrow>
      so_key ob = k \<and> so_provider ob = provider \<and> so_sizeBytes ob = length body"
    and put_failed: "good_key k \<Longrightarrow> good_key k' \<Longrightarrow> fst (put_at k body ct s) = Inl e \<Longrightarrow>
      content (snd (put_at k body ct s)) k' = content s k'
      \<or> k' = k \<and> content (snd (put_at k body ct s)) k' = Some body"
begin

text \<open>Content addressing as an invariant: what lies under a key hashes to it.\<close>

definition addressed :: "(bytes \<Rightarrow> jstr) \<Rightarrow> 's \<Rightarrow> bool" where
  "addressed sha s \<longleftrightarrow> (\<forall>k b. good_key k \<longrightarrow> content s k = Some b \<longrightarrow> sha b = key_digest k)"

lemma addressed_put:
  assumes "addressed sha s" "is_digest (sha body)" "e \<in> known_extensions"
  shows "addressed sha (snd (put_at (contentAddressedKey (sha body) e) body ct s))"
proof -
  let ?k = "contentAddressedKey (sha body) e"
  have good: "good_key ?k"
    using assms(2,3) by (auto simp: good_key_def)
  show ?thesis
  proof (cases "fst (put_at ?k body ct s)")
    case (Inl er)
    then show ?thesis
      using assms put_failed [OF good _ Inl] key_digest_key by (fastforce simp: addressed_def)
  next
    case (Inr ob)
    then show ?thesis
      using assms put_content [OF good _ Inr] key_digest_key by (simp add: addressed_def)
  qed
qed

end

end
