(* ===== verification/Asset_Service.thy ===== *)
theory Asset_Service
  imports Sync_Service Storage_Port
begin

text \<open>
  \<open>src/api/services/MediaAssetService.ts\<close>: the download of one media file, with a fault allowed
  at every statement, every storage call and the temporary directory, and the process dying anywhere.
  The storage driver and the CDN are arguments; the driver's contract is the locale
  \<open>object_store\<close>.
\<close>

section \<open>The environment\<close>

datatype abort_signal = Caller_Signal | Timeout_Signal nat

record cdn_response =
  cd_status :: nat
  cd_body :: "(js_error + bytes) option" \<comment> \<open>no body, a stream that breaks, or the bytes\<close>
  cd_contentType :: "jstr option"

record 's asset_env =
  ac_fault :: "nat \<Rightarrow> fault option"
  ac_now :: "nat \<Rightarrow> time"
  ac_fetch :: "nat \<Rightarrow> abort_signal \<Rightarrow> jstr \<Rightarrow> js_error + cdn_response"
  ac_write :: "bytes \<Rightarrow> bytes" \<comment> \<open>what a write leaves in the temporary file\<close>
  ac_sha256 :: "bytes \<Rightarrow> jstr"
  ac_unicode :: unicode
  ac_exists :: "jstr \<Rightarrow> 's \<Rightarrow> js_error + bool"
  ac_put :: "jstr \<Rightarrow> bytes \<Rightarrow> jstr option \<Rightarrow> 's \<Rightarrow> (js_error + stored_object) \<times> 's"
  ac_provider :: string
  ac_timeoutMs :: nat

record 's asset_world =
  aw_db :: database
  aw_store :: 's
  aw_workDirs :: nat
  aw_calls :: nat

definition asset_db ::
  "'s asset_env \<Rightarrow> (time \<Rightarrow> database \<Rightarrow> (js_error + 'a) \<times> database) \<Rightarrow> 's asset_world \<Rightarrow>
     (fate + 'a) \<times> 's asset_world" where
  "asset_db env f w =
     (case with_fault (ac_fault env (aw_calls w)) (f (ac_now env (aw_calls w)) (aw_db w)) (aw_db w) of
        (r, db) \<Rightarrow> (r, w\<lparr>aw_db := db, aw_calls := Suc (aw_calls w)\<rparr>))"

definition asset_store ::
  "'s asset_env \<Rightarrow> ('s \<Rightarrow> (js_error + 'a) \<times> 's) \<Rightarrow> 's asset_world \<Rightarrow> (fate + 'a) \<times> 's asset_world" where
  "asset_store env f w =
     (case with_fault (ac_fault env (aw_calls w)) (f (aw_store w)) (aw_store w) of
        (r, s) \<Rightarrow> (r, w\<lparr>aw_store := s, aw_calls := Suc (aw_calls w)\<rparr>))"

text \<open>\<open>mkdtemp\<close>: a directory may be left behind by a call that is reported as failed.\<close>

definition asset_mkdtemp :: "'s asset_env \<Rightarrow> 's asset_world \<Rightarrow> (fate + unit) \<times> 's asset_world" where
  "asset_mkdtemp env w =
     (case with_fault (ac_fault env (aw_calls w)) (Inr (), Suc (aw_workDirs w)) (aw_workDirs w) of
        (r, n) \<Rightarrow> (r, w\<lparr>aw_workDirs := n, aw_calls := Suc (aw_calls w)\<rparr>))"

text \<open>The request, the body's stream into the temporary file and the \<open>stat\<close> of it.\<close>

definition asset_fetch ::
  "'s asset_env \<Rightarrow> abort_signal \<Rightarrow> jstr \<Rightarrow> 's asset_world \<Rightarrow> (fate + cdn_response) \<times> 's asset_world" where
  "asset_fetch env signal url w =
     (case with_fault (ac_fault env (aw_calls w)) (ac_fetch env (aw_calls w) signal url, ()) () of
        (r, u) \<Rightarrow> (r, w\<lparr>aw_calls := Suc (aw_calls w)\<rparr>))"

section \<open>Download\<close>

datatype download_status = Dl_Stored | Dl_Deduplicated | Dl_Skipped

record download_result =
  dr_status :: download_status
  dr_sha256 :: "jstr option"
  dr_storageKey :: "jstr option"
  dr_sizeBytes :: "nat option"

definition skipped_result :: download_result where
  "skipped_result = \<lparr>dr_status = Dl_Skipped, dr_sha256 = None, dr_storageKey = None, dr_sizeBytes = None\<rparr>"

definition http_ok :: "nat \<Rightarrow> bool" where
  "http_ok status \<longleftrightarrow> 200 \<le> status \<and> status \<le> 299"

definition cdn_error :: "uuid \<Rightarrow> nat \<Rightarrow> js_error" where
  "cdn_error mediaId status =
     Plain_Error (js ''CDN returned HTTP '' @ dec_digits status @ js '' for media '' @ uuid_show mediaId @
       js '' (a signed media_url that has expired is the usual cause)'')"

definition no_body_error :: "uuid \<Rightarrow> js_error" where
  "no_body_error mediaId = Plain_Error (js ''CDN response for media '' @ uuid_show mediaId @ js '' had no body'')"

definition size_mismatch :: "uuid \<Rightarrow> nat \<Rightarrow> nat \<Rightarrow> js_error" where
  "size_mismatch mediaId counted wrote =
     Plain_Error (js ''size mismatch for media '' @ uuid_show mediaId @ js '': counted '' @ dec_digits counted @
       js '', wrote '' @ dec_digits wrote)"

text \<open>
  Once the bytes are in the temporary file: the object exists already, or it is uploaded. The content
  length handed to the driver is the length of the bytes handed to it.
\<close>

definition record_duplicate ::
  "'s asset_env \<Rightarrow> uuid \<Rightarrow> stored_info \<Rightarrow> 's asset_world \<Rightarrow> (fate + download_result) \<times> 's asset_world" where
  "record_duplicate env mediaId st w =
     then_do (asset_db env (updating (\<lambda>now. markStored now mediaId st)) w)
       (\<lambda>u w1. (Inr \<lparr>dr_status = Dl_Deduplicated, dr_sha256 = Some (st_sha256 st),
           dr_storageKey = Some (st_storageKey st), dr_sizeBytes = Some (st_sizeBytes st)\<rparr>, w1))"

definition stored_info_of :: "jstr \<Rightarrow> stored_object \<Rightarrow> stored_info" where
  "stored_info_of sha stored =
     \<lparr>st_sha256 = sha, st_storageKey = so_key stored, st_storageProvider = so_provider stored,
       st_contentType = so_contentType stored, st_sizeBytes = so_sizeBytes stored\<rparr>"

definition upload_new ::
  "'s asset_env \<Rightarrow> uuid \<Rightarrow> jstr \<Rightarrow> jstr \<Rightarrow> bytes \<Rightarrow> jstr option \<Rightarrow> 's asset_world \<Rightarrow>
     (fate + download_result) \<times> 's asset_world" where
  "upload_new env mediaId sha key onDisk contentType w =
     then_do (asset_store env (ac_put env key onDisk contentType) w)
       (\<lambda>stored w1. then_do (asset_db env (updating (\<lambda>now. markStored now mediaId (stored_info_of sha stored))) w1)
          (\<lambda>u w2. (Inr \<lparr>dr_status = Dl_Stored, dr_sha256 = Some sha, dr_storageKey = Some (so_key stored),
              dr_sizeBytes = Some (so_sizeBytes stored)\<rparr>, w2)))"

definition store_bytes ::
  "'s asset_env \<Rightarrow> uuid \<Rightarrow> jstr option \<Rightarrow> bytes \<Rightarrow> 's asset_world \<Rightarrow>
     (fate + download_result) \<times> 's asset_world" where
  "store_bytes env mediaId contentType body w =
     (let sha = ac_sha256 env body;
          key = contentAddressedKey sha (extensionForContentType (ac_unicode env) contentType);
          onDisk = ac_write env body
      in if length onDisk \<noteq> length body
         then (Inl (Threw (size_mismatch mediaId (length body) (length onDisk))), w)
         else then_do (asset_store env (\<lambda>s. (ac_exists env key s, s)) w) (\<lambda>present w1.
           if present
           then record_duplicate env mediaId
                  \<lparr>st_sha256 = sha, st_storageKey = key, st_storageProvider = ac_provider env,
                    st_contentType = contentType, st_sizeBytes = length onDisk\<rparr> w1
           else upload_new env mediaId sha key onDisk
                  (if truthy_url contentType then contentType else None) w1))"

text \<open>The body of the \<open>try\<close>.\<close>

definition download_try ::
  "'s asset_env \<Rightarrow> uuid \<Rightarrow> jstr \<Rightarrow> abort_signal option \<Rightarrow> 's asset_world \<Rightarrow>
     (fate + download_result) \<times> 's asset_world" where
  "download_try env mediaId sourceUrl signal w =
     then_do (asset_fetch env (case signal of Some s \<Rightarrow> s | None \<Rightarrow> Timeout_Signal (ac_timeoutMs env)) sourceUrl w)
       (\<lambda>response w1.
          if \<not> http_ok (cd_status response) then (Inl (Threw (cdn_error mediaId (cd_status response))), w1)
          else (case cd_body response of
                  None \<Rightarrow> (Inl (Threw (no_body_error mediaId)), w1)
                | Some (Inl e) \<Rightarrow> (Inl (Threw e), w1)
                | Some (Inr body) \<Rightarrow> store_bytes env mediaId (cd_contentType response) body w1))"

text \<open>
  The \<open>catch\<close> records the failure and rethrows; the \<open>finally\<close> removes the directory, and an error of
  the removal is swallowed. Neither runs when the process died.
\<close>

definition download_catch ::
  "'s asset_env \<Rightarrow> uuid \<Rightarrow> (fate + download_result) \<times> 's asset_world \<Rightarrow>
     (fate + download_result) \<times> 's asset_world" where
  "download_catch env mediaId m =
     (case m of
        (Inl (Threw e), w) \<Rightarrow>
          then_do (asset_db env (updating (\<lambda>now. markFailed now mediaId (error_message e))) w)
            (\<lambda>u w1. (Inl (Threw e), w1))
      | _ \<Rightarrow> m)"

definition download_finally ::
  "'s asset_env \<Rightarrow> (fate + 'a) \<times> 's asset_world \<Rightarrow> (fate + 'a) \<times> 's asset_world" where
  "download_finally env m =
     (case m of
        (Inl Crashed, w) \<Rightarrow> m
      | (r, w) \<Rightarrow>
          (case with_fault (ac_fault env (aw_calls w)) (Inr (), aw_workDirs w - 1) (aw_workDirs w) of
             (Inl Crashed, n) \<Rightarrow> (Inl Crashed, w\<lparr>aw_workDirs := n, aw_calls := Suc (aw_calls w)\<rparr>)
           | (_, n) \<Rightarrow> (r, w\<lparr>aw_workDirs := n, aw_calls := Suc (aw_calls w)\<rparr>)))"

definition sourceUrl_of :: "media_post \<Rightarrow> media_asset option \<Rightarrow> jstr option" where
  "sourceUrl_of media asset =
     (case asset of
        Some a \<Rightarrow> (case ma_fetchedFromUrl a of Some u \<Rightarrow> Some u | None \<Rightarrow> mp_sourceMediaUrl media)
      | None \<Rightarrow> mp_sourceMediaUrl media)"

definition download ::
  "'s asset_env \<Rightarrow> uuid \<Rightarrow> abort_signal option \<Rightarrow> 's asset_world \<Rightarrow>
     (fate + download_result) \<times> 's asset_world" where
  "download env mediaId signal w =
     then_do (asset_db env (reading (findPostById mediaId)) w) (\<lambda>found w1.
       case found of
         None \<Rightarrow> (Inl (Threw (Unprocessable_Job_Error
                    (js ''media '' @ uuid_show mediaId @ js '' no longer exists''))), w1)
       | Some media \<Rightarrow>
           then_do (asset_db env (reading (findByMediaId mediaId)) w1) (\<lambda>asset w2.
             if (case asset of Some a \<Rightarrow> ma_status a = Stored | None \<Rightarrow> False) then (Inr skipped_result, w2)
             else if \<not> truthy_url (sourceUrl_of media asset)
             then then_do (asset_db env (updating (\<lambda>now. markSkipped now mediaId
                    (js ''no media_url provided by Meta''))) w2) (\<lambda>u w3. (Inr skipped_result, w3))
             else then_do (asset_db env (updating (\<lambda>now. markDownloading now mediaId)) w2) (\<lambda>u w3.
               then_do (asset_mkdtemp env w3) (\<lambda>u w4.
                 download_finally env (download_catch env mediaId
                   (download_try env mediaId (the (sourceUrl_of media asset)) signal w4))))))"

end
