(* ===== verification/Disk_Storage.thy ===== *)
theory Disk_Storage
  imports Storage_Port
begin

text \<open>
  \<open>src/adapters/local/LocalDiskStorage.ts\<close> over the POSIX \<open>path\<close> functions of Node: the traversal
  check, the write to a temporary file and the rename. A file system is a map from canonical
  absolute paths (lists of segments) to contents.
\<close>

section \<open>Paths\<close>

fun split_slash :: "jstr \<Rightarrow> jstr list" where
  "split_slash [] = [[]]"
| "split_slash (c # s) =
     (if c = 47 then [] # split_slash s
      else (case split_slash s of [] \<Rightarrow> [[c]] | h # t \<Rightarrow> (c # h) # t))"

fun join_slash :: "jstr list \<Rightarrow> jstr" where
  "join_slash [] = []"
| "join_slash [x] = x"
| "join_slash (x # y # xs) = x @ 47 # join_slash (y # xs)"

definition dot :: jstr where "dot = [46]"
definition dotdot :: jstr where "dotdot = [46, 46]"

text \<open>The segment loop of \<open>normalizeString\<close>, on a stack of segments (first segment first).\<close>

fun norm_segs :: "bool \<Rightarrow> jstr list \<Rightarrow> jstr list \<Rightarrow> jstr list" where
  "norm_segs up stack [] = stack"
| "norm_segs up stack (x # xs) =
     (if x = [] \<or> x = dot then norm_segs up stack xs
      else if x = dotdot
      then if stack \<noteq> [] \<and> last stack \<noteq> dotdot then norm_segs up (butlast stack) xs
           else if up then norm_segs up (stack @ [dotdot]) xs
           else norm_segs up stack xs
      else norm_segs up (stack @ [x]) xs)"

definition is_absolute :: "jstr \<Rightarrow> bool" where
  "is_absolute p \<longleftrightarrow> p \<noteq> [] \<and> hd p = 47"

text \<open>\<open>path.posix.normalize\<close>\<close>

definition posix_normalize :: "jstr \<Rightarrow> jstr" where
  "posix_normalize p =
     (if p = [] then dot
      else let a = is_absolute p; trailing = (last p = 47);
               body = join_slash (norm_segs (\<not> a) [] (split_slash p))
           in if body = [] then (if a then [47] else if trailing then [46, 47] else dot)
              else (if a then [47] else []) @ body @ (if trailing then [47] else []))"

definition unsafe_key :: "jstr \<Rightarrow> js_error" where
  "unsafe_key key = Plain_Error (js ''unsafe storage key: '' @ key)"

text \<open>\<open>resolve\<close>; the join under an absolute dir can not climb above the file system's root.\<close>

definition disk_resolve :: "jstr list \<Rightarrow> jstr \<Rightarrow> js_error + jstr list" where
  "disk_resolve dir key =
     (let normalized = posix_normalize key
      in if starts_with dotdot normalized \<or> is_absolute normalized then Inl (unsafe_key key)
         else Inr (norm_segs False dir (split_slash normalized)))"

section \<open>Files\<close>

type_synonym file_system = "jstr list \<Rightarrow> bytes option"

text \<open>\<open>stat(...).isFile()\<close>; every error means false.\<close>

definition disk_exists :: "jstr list \<Rightarrow> jstr \<Rightarrow> file_system \<Rightarrow> js_error + bool" where
  "disk_exists dir key fs =
     (case disk_resolve dir key of Inl e \<Rightarrow> Inr False | Inr p \<Rightarrow> Inr (fs p \<noteq> None))"

definition temp_path :: "nat \<Rightarrow> jstr list \<Rightarrow> jstr list" where
  "temp_path pid p = butlast p @ [last p @ js ''.'' @ dec_digits pid @ js ''.partial'']"

text \<open>
  The moments of \<open>putStream\<close> another process (or a restart after a crash) can see: nothing yet, a
  growing temporary file, the renamed file.
\<close>

definition put_moments :: "nat \<Rightarrow> jstr list \<Rightarrow> bytes \<Rightarrow> file_system \<Rightarrow> file_system list" where
  "put_moments pid target body fs =
     fs # map (\<lambda>n. fs(temp_path pid target \<mapsto> take n body)) [0..<Suc (length body)]
     @ [(fs(temp_path pid target := None))(target \<mapsto> body)]"

text \<open>
  \<open>interrupted\<close> is the error of a stream or a rename that fails, if one does; then the temporary
  file is unlinked and the error rethrown.
\<close>

definition disk_put ::
  "nat \<Rightarrow> js_error option \<Rightarrow> jstr list \<Rightarrow> jstr \<Rightarrow> bytes \<Rightarrow> jstr option \<Rightarrow> file_system \<Rightarrow>
     (js_error + stored_object) \<times> file_system" where
  "disk_put pid interrupted dir key body contentType fs =
     (case disk_resolve dir key of
        Inl e \<Rightarrow> (Inl e, fs)
      | Inr target \<Rightarrow>
          (case interrupted of
             Some e \<Rightarrow> (Inl e, fs(temp_path pid target := None))
           | None \<Rightarrow>
               (let fs1 = (fs(temp_path pid target := None))(target \<mapsto> body)
                in (Inr \<lparr>so_key = key, so_provider = ''local'', so_sizeBytes = length (the (fs1 target)),
                      so_contentType = contentType\<rparr>, fs1))))"

definition disk_get :: "jstr list \<Rightarrow> jstr \<Rightarrow> file_system \<Rightarrow> js_error + bytes option" where
  "disk_get dir key fs = (case disk_resolve dir key of Inl e \<Rightarrow> Inl e | Inr p \<Rightarrow> Inr (fs p))"

definition disk_getLocator :: "jstr list \<Rightarrow> jstr \<Rightarrow> js_error + jstr list" where
  "disk_getLocator dir key = disk_resolve dir key"

section \<open>Containment\<close>

lemma split_slash_nonempty [simp]: "split_slash s \<noteq> []"
  by (induction s) (auto split: list.split)

lemma split_slash_segments: "x \<in> set (split_slash s) \<Longrightarrow> 47 \<notin> set x"
proof (induction s arbitrary: x)
  case (Cons c s)
  then show ?case by (cases "split_slash s") (auto split: if_splits)
qed simp

lemma split_join:
  "xs \<noteq> [] \<Longrightarrow> (\<And>x. x \<in> set xs \<Longrightarrow> 47 \<notin> set x) \<Longrightarrow> split_slash (join_slash xs) = xs"
proof (induction xs rule: join_slash.induct)
  case (2 x)
  have "47 \<notin> set x \<Longrightarrow> split_slash x = [x]" by (induction x) auto
  then show ?case using 2 by simp
next
  case (3 x y xs)
  have "47 \<notin> set x \<Longrightarrow> split_slash (x @ 47 # s) = x # split_slash s" for s
    by (induction x) auto
  then show ?case using 3 by simp
qed simp

text \<open>What normalisation leaves: leading \<open>..\<close> segments, then none.\<close>

definition climbs :: "jstr list \<Rightarrow> bool" where
  "climbs xs \<longleftrightarrow> (\<exists>n ys. xs = replicate n dotdot @ ys \<and> dotdot \<notin> set ys)"

lemma climbs_Nil [simp]: "climbs []"
  unfolding climbs_def by (rule exI [of _ 0]) simp

lemma climbs_snoc: "climbs xs \<Longrightarrow> x \<noteq> dotdot \<Longrightarrow> climbs (xs @ [x])"
  unfolding climbs_def by (metis Un_iff append.assoc empty_iff empty_set set_ConsD set_append)

lemma climbs_all: "climbs xs \<Longrightarrow> xs = [] \<or> last xs = dotdot \<Longrightarrow> climbs (xs @ [dotdot])"
proof -
  assume "climbs xs" "xs = [] \<or> last xs = dotdot"
  then obtain n ys where "xs = replicate n dotdot @ ys" "dotdot \<notin> set ys"
    and "xs = [] \<or> last xs = dotdot" by (auto simp: climbs_def)
  then have "ys = []" by (cases ys rule: rev_cases) auto
  then have "xs @ [dotdot] = replicate (Suc n) dotdot @ []"
    using \<open>xs = replicate n dotdot @ ys\<close> by (simp add: replicate_append_same)
  then show ?thesis unfolding climbs_def by (metis empty_iff empty_set)
qed

lemma climbs_butlast: "climbs xs \<Longrightarrow> climbs (butlast xs)"
proof -
  assume "climbs xs"
  then obtain n ys where xs: "xs = replicate n dotdot @ ys" "dotdot \<notin> set ys"
    by (auto simp: climbs_def)
  show ?thesis
  proof (cases "ys = []")
    case True
    then have "butlast xs = replicate (n - 1) dotdot @ []"
      using xs by (simp add: butlast_conv_take)
    then show ?thesis unfolding climbs_def by (metis empty_iff empty_set)
  next
    case False
    then have "butlast xs = replicate n dotdot @ butlast ys" using xs by (simp add: butlast_append)
    moreover have "dotdot \<notin> set (butlast ys)" using xs by (meson in_set_butlastD)
    ultimately show ?thesis unfolding climbs_def by blast
  qed
qed

text \<open>One induction for both facts: what every push and pop keeps, the loop keeps.\<close>

lemma norm_segs_invariant:
  assumes "P stack"
    and "\<And>st x. P st \<Longrightarrow> x \<in> set xs \<Longrightarrow> x \<noteq> [] \<Longrightarrow> x \<noteq> dot \<Longrightarrow> x \<noteq> dotdot \<Longrightarrow> P (st @ [x])"
    and "\<And>st. P st \<Longrightarrow> P (butlast st)"
    and "\<And>st. P st \<Longrightarrow> st = [] \<or> last st = dotdot \<Longrightarrow> up \<Longrightarrow> P (st @ [dotdot])"
  shows "P (norm_segs up stack xs)"
  using assms(1,2)
proof (induction xs arbitrary: stack)
  case (Cons x xs)
  have IH: "P st \<Longrightarrow> P (norm_segs up st xs)" for st
    using Cons.IH [of st] Cons.prems(2) by simp
  consider "x = [] \<or> x = dot" | "x = dotdot" "stack \<noteq> []" "last stack \<noteq> dotdot" "x \<noteq> []" "x \<noteq> dot"
    | "x = dotdot" "stack = [] \<or> last stack = dotdot" "x \<noteq> []" "x \<noteq> dot"
    | "x \<noteq> []" "x \<noteq> dot" "x \<noteq> dotdot"
    by blast
  then show ?case
  proof cases
    case 2
    then show ?thesis using IH assms(3) [OF Cons.prems(1)] by simp
  next
    case 3
    then show ?thesis
      using IH [of stack] IH [of "stack @ [dotdot]"] assms(4) [OF Cons.prems(1) 3(2)] Cons.prems(1)
      by (cases up) auto
  next
    case 4
    then show ?thesis using IH Cons.prems by simp
  qed (use IH Cons.prems in simp)
qed simp

lemma climbs_norm: "climbs stack \<Longrightarrow> climbs (norm_segs True stack xs)"
  by (rule norm_segs_invariant [of climbs]) (simp_all add: climbs_snoc climbs_all climbs_butlast)

definition clean_seg :: "jstr \<Rightarrow> bool" where
  "clean_seg x \<longleftrightarrow> x \<noteq> [] \<and> x \<noteq> dot \<and> 47 \<notin> set x"

lemma clean_dotdot [simp]: "clean_seg dotdot"
  by (simp add: clean_seg_def dot_def dotdot_def)

lemma norm_segs_clean:
  assumes "\<forall>x \<in> set stack. clean_seg x" "\<forall>x \<in> set xs. 47 \<notin> set x"
  shows "\<forall>x \<in> set (norm_segs up stack xs). clean_seg x"
proof (rule norm_segs_invariant [of "\<lambda>st. \<forall>x \<in> set st. clean_seg x"])
  fix st x
  assume "\<forall>x \<in> set st. clean_seg x" "x \<in> set xs" "x \<noteq> []" "x \<noteq> dot"
  then show "\<forall>x \<in> set (st @ [x]). clean_seg x"
    using assms(2) by (simp add: clean_seg_def)
qed (use assms(1) in \<open>auto dest: in_set_butlastD\<close>)

lemma norm_segs_no_dotdot:
  "dotdot \<notin> set xs \<Longrightarrow> norm_segs up stack xs = stack @ filter (\<lambda>x. x \<noteq> [] \<and> x \<noteq> dot) xs"
  by (induction xs arbitrary: stack) auto

lemma join_slash_starts:
  "join_slash (dotdot # xs) \<noteq> [] \<and> starts_with dotdot (join_slash (dotdot # xs) @ t)"
  by (cases xs) (simp_all add: starts_with_def dotdot_def)

lemma starts_with_slash: "starts_with dotdot (dotdot @ s)"
  by (simp add: starts_with_def)

text \<open>The shape of a normalised key that passes the check.\<close>

lemma posix_normalize_safe:
  assumes "\<not> starts_with dotdot (posix_normalize key)" "\<not> is_absolute (posix_normalize key)"
  shows "dotdot \<notin> set (split_slash (posix_normalize key))"
proof (cases "key = [] \<or> norm_segs (\<not> is_absolute key) [] (split_slash key) = []")
  case True
  then have "posix_normalize key \<in> {dot, [47], [46, 47]}"
    by (auto simp: posix_normalize_def Let_def)
  then show ?thesis
    using assms(2) by (auto simp: dot_def dotdot_def is_absolute_def)
next
  case False
  let ?segs = "norm_segs (\<not> is_absolute key) [] (split_slash key)"
  have "\<forall>x \<in> set ?segs. clean_seg x"
    by (rule norm_segs_clean) (auto dest: split_slash_segments)
  then have clean: "\<forall>x \<in> set ?segs. x \<noteq> [] \<and> x \<noteq> dot \<and> 47 \<notin> set x"
    by (simp add: clean_seg_def)
  obtain y ys where seg: "?segs = y # ys" using False by (cases ?segs) auto
  then have "y \<noteq> []" using clean by auto
  then have ne: "join_slash ?segs \<noteq> []" by (cases ys) (auto simp: seg)
  have rel: "\<not> is_absolute key"
  proof
    assume "is_absolute key"
    then show False
      using assms(2) ne False by (auto simp: posix_normalize_def Let_def is_absolute_def)
  qed
  let ?t = "if last key = 47 then [47] else []"
  have eq: "posix_normalize key = join_slash ?segs @ ?t"
    using False ne rel by (simp add: posix_normalize_def Let_def)
  have "climbs ?segs" using rel climbs_norm [of "[]"] by simp
  moreover have "y \<noteq> dotdot"
    using assms(1) join_slash_starts [of ys ?t] unfolding eq seg by auto
  ultimately have "dotdot \<notin> set ?segs"
    unfolding climbs_def seg by (metis append_Nil list.inject list.sel(1) replicate_Suc
        append_Cons old.nat.exhaust replicate_0)
  moreover have "split_slash (posix_normalize key) = ?segs @ (if last key = 47 then [[]] else [])"
  proof -
    have "split_slash (join_slash (?segs @ [[]])) = ?segs @ [[]]"
      using clean by (intro split_join) auto
    moreover have "xs \<noteq> [] \<Longrightarrow> join_slash (xs @ [[]]) = join_slash xs @ [47]" for xs
      by (induction xs rule: join_slash.induct) auto
    moreover have "split_slash (join_slash ?segs) = ?segs"
      using clean seg by (intro split_join) auto
    ultimately have "split_slash (join_slash ?segs @ [47]) = ?segs @ [[]]" "split_slash (join_slash ?segs) = ?segs"
      using seg by (metis list.distinct(1))+
    then show ?thesis
      unfolding eq by simp
  qed
  ultimately show ?thesis by (auto simp: dotdot_def)
qed

lemma disk_resolve_contained:
  assumes "disk_resolve dir key = Inr p"
  shows "\<exists>q. p = dir @ q \<and> dotdot \<notin> set q \<and> [] \<notin> set q \<and> (\<forall>x \<in> set q. 47 \<notin> set x)"
proof -
  let ?n = "posix_normalize key"
  have safe: "dotdot \<notin> set (split_slash ?n)"
    using assms by (intro posix_normalize_safe) (auto simp: disk_resolve_def Let_def split: if_splits)
  have "p = norm_segs False dir (split_slash ?n)"
    using assms by (auto simp: disk_resolve_def Let_def split: if_splits)
  then have p: "p = dir @ filter (\<lambda>x. x \<noteq> [] \<and> x \<noteq> dot) (split_slash ?n)"
    by (simp add: norm_segs_no_dotdot [OF safe])
  then show ?thesis
    using safe split_slash_segments by (intro exI [of _ "filter (\<lambda>x. x \<noteq> [] \<and> x \<noteq> dot) (split_slash ?n)"]) auto
qed


section \<open>Content-addressed keys on disk\<close>

definition key_segments :: "jstr \<Rightarrow> jstr \<Rightarrow> jstr list" where
  "key_segments s e = [js ''media'', take 2 s, take 2 (drop 2 s), s @ e]"

lemma hex_seg_clean:
  assumes "\<forall>c \<in> set x. hex_char c" "x \<noteq> []"
  shows "clean_seg x" "x \<noteq> dotdot" "47 \<notin> set x"
  using assms by (auto simp: clean_seg_def dot_def dotdot_def hex_char_def)

lemma key_segments_clean:
  assumes "is_digest s" "e \<in> known_extensions" "x \<in> set (key_segments s e)"
  shows "clean_seg x \<and> x \<noteq> dotdot \<and> 47 \<notin> set x"
proof -
  have hs: "\<forall>c \<in> set s. hex_char c" and len: "length s = 64"
    using assms(1) by (simp_all add: is_digest_def)
  have a: "\<forall>c \<in> set (take 2 s). hex_char c" "take 2 s \<noteq> []"
    using hs len in_set_takeD [of _ 2 s] by auto
  have b: "\<forall>c \<in> set (take 2 (drop 2 s)). hex_char c" "take 2 (drop 2 s) \<noteq> []"
    using hs len in_set_takeD [of _ 2 "drop 2 s"] in_set_dropD [of _ 2 s] by auto
  have s: "\<forall>c \<in> set s. c \<noteq> 47" "2 < length (s @ e)"
    using hs len by (auto simp: hex_char_def)
  have fname: "clean_seg (s @ e) \<and> s @ e \<noteq> dotdot \<and> 47 \<notin> set (s @ e)"
  proof -
    have "length (s @ e) \<noteq> length dot" "length (s @ e) \<noteq> length dotdot"
      using s(2) by (simp_all add: dot_def dotdot_def)
    then have "s @ e \<noteq> dot" "s @ e \<noteq> dotdot" by metis+
    moreover have "47 \<notin> set (s @ e)" "s @ e \<noteq> []"
      using s known_extension_shape [OF assms(2)] by auto
    ultimately show ?thesis by (simp add: clean_seg_def)
  qed
  have media: "clean_seg (js ''media'') \<and> js ''media'' \<noteq> dotdot \<and> 47 \<notin> set (js ''media'')"
    by (simp add: clean_seg_def js_def dot_def dotdot_def)
  show ?thesis
    using assms(3) fname media hex_seg_clean [OF a] hex_seg_clean [OF b]
    by (auto simp: key_segments_def)
qed

lemma contentAddressedKey_segments:
  "e \<in> known_extensions \<Longrightarrow> contentAddressedKey s e = join_slash (key_segments s e)"
  by (simp add: contentAddressedKey_known key_segments_def js_def)

lemma filter_all: "(\<And>x. x \<in> set xs \<Longrightarrow> P x) \<Longrightarrow> filter P xs = xs"
  by (simp add: filter_id_conv)

lemma disk_resolve_key:
  assumes "is_digest s" "e \<in> known_extensions"
  shows "disk_resolve dir (contentAddressedKey s e) = Inr (dir @ key_segments s e)"
proof -
  let ?k = "contentAddressedKey s e" and ?segs = "key_segments s e"
  note clean = key_segments_clean [OF assms]
  have sp: "split_slash ?k = ?segs"
    unfolding contentAddressedKey_segments [OF assms(2)]
    by (rule split_join) (use clean in \<open>auto simp: key_segments_def\<close>)
  have noup: "dotdot \<notin> set ?segs" using clean by blast
  have keep: "filter (\<lambda>x. x \<noteq> [] \<and> x \<noteq> dot) ?segs = ?segs"
    by (rule filter_all) (use clean in \<open>auto simp: clean_seg_def\<close>)
  have k: "?k = 109 # js ''edia/'' @ take 2 s @ js ''/'' @ take 2 (drop 2 s) @ js ''/'' @ s @ e"
    using assms(2) by (simp add: contentAddressedKey_known js_def)
  have "last ?k = last e"
    using known_extension_shape [OF assms(2)] by (simp add: contentAddressedKey_known assms(2))
  then have l: "last ?k \<noteq> 47"
    using known_extension_shape [OF assms(2)] by (metis last_in_set)
  have abs: "\<not> is_absolute ?k" by (simp add: k is_absolute_def)
  have norm: "posix_normalize ?k = ?k"
  proof -
    have "norm_segs True [] ?segs = ?segs"
      using norm_segs_no_dotdot [OF noup, of True "[]"] keep by simp
    then show ?thesis
      using abs l by (simp add: posix_normalize_def Let_def sp k [symmetric]
          contentAddressedKey_segments [OF assms(2), symmetric])
        (simp add: k)
  qed
  have "\<not> starts_with dotdot ?k" by (simp add: k starts_with_def dotdot_def)
  then show ?thesis
    unfolding disk_resolve_def norm Let_def sp using abs norm_segs_no_dotdot [OF noup] keep by simp
qed

definition disk_content :: "jstr list \<Rightarrow> file_system \<Rightarrow> jstr \<Rightarrow> bytes option" where
  "disk_content dir fs key = (case disk_resolve dir key of Inl e \<Rightarrow> None | Inr p \<Rightarrow> fs p)"

lemma good_key_path:
  assumes "good_key k"
  obtains s e where "is_digest s" "e \<in> known_extensions" "k = contentAddressedKey s e"
    "disk_resolve dir k = Inr (dir @ key_segments s e)"
  using assms disk_resolve_key unfolding good_key_def by metis

lemma temp_path_other:
  assumes "e' \<in> known_extensions"
  shows "temp_path pid p \<noteq> dir @ key_segments s e'"
proof
  assume "temp_path pid p = dir @ key_segments s e'"
  then have "last (last (temp_path pid p)) = last (last (dir @ key_segments s e'))" by simp
  moreover have "last (last (temp_path pid p)) = 108"
    by (simp add: temp_path_def js_def)
  moreover have "last (last (dir @ key_segments s e')) = last e'"
    using known_extension_shape [OF assms] by (simp add: key_segments_def)
  ultimately show False
    using known_extension_shape [OF assms] by simp
qed

lemma key_segments_inject:
  "e \<in> known_extensions \<Longrightarrow> e' \<in> known_extensions \<Longrightarrow> dir @ key_segments s e = dir @ key_segments s' e' \<Longrightarrow>
     contentAddressedKey s e = contentAddressedKey s' e'"
  by (simp add: contentAddressedKey_segments)

lemma disk_put_content:
  assumes "good_key k" "good_key k'" "fst (disk_put pid f dir k body ct fs) = Inr ob"
  shows "disk_content dir (snd (disk_put pid f dir k body ct fs)) k' =
      (if k' = k then Some body else disk_content dir fs k')"
proof -
  obtain s e where k: "is_digest s" "e \<in> known_extensions" "k = contentAddressedKey s e"
    "disk_resolve dir k = Inr (dir @ key_segments s e)" using assms(1) by (rule good_key_path)
  obtain s' e' where k': "is_digest s'" "e' \<in> known_extensions" "k' = contentAddressedKey s' e'"
    "disk_resolve dir k' = Inr (dir @ key_segments s' e')" using assms(2) by (rule good_key_path)
  have f: "f = None" using assms(3) k(4) by (cases f) (simp_all add: disk_put_def)
  have "dir @ key_segments s' e' = dir @ key_segments s e \<longleftrightarrow> k' = k"
    using k(1-3) k'(1-3) key_segments_inject [OF k'(2) k(2)] contentAddressedKey_inject by blast
  then show ?thesis
    using temp_path_other [OF k'(2), of pid "dir @ key_segments s e" dir s'] k(4) k'(4) f
    by (simp add: disk_put_def disk_content_def Let_def)
qed

lemma disk_put_failed:
  assumes "good_key k" "good_key k'" "fst (disk_put pid f dir k body ct fs) = Inl er"
  shows "disk_content dir (snd (disk_put pid f dir k body ct fs)) k' = disk_content dir fs k'"
proof -
  obtain s e where k: "disk_resolve dir k = Inr (dir @ key_segments s e)"
    using assms(1) good_key_path by blast
  obtain s' e' where k': "e' \<in> known_extensions" "disk_resolve dir k' = Inr (dir @ key_segments s' e')"
    using assms(2) good_key_path by blast
  show ?thesis
    using assms(3) k k'(2) temp_path_other [OF k'(1), of pid "dir @ key_segments s e" dir s']
    by (auto simp: disk_put_def disk_content_def Let_def split: option.split)
qed

interpretation disk: object_store "disk_exists dir" "disk_put pid f dir" "disk_content dir" "''local''"
  for dir pid f
proof (unfold_locales, goal_cases)
  case (1 k s b)
  then show ?case
    by (auto simp: disk_exists_def disk_content_def elim!: good_key_path [of k dir])
next
  case (2 k k' body ct s ob)
  then show ?case by (rule disk_put_content)
next
  case (3 k body ct s ob)
  then show ?case
    by (auto simp: disk_put_def Let_def elim!: good_key_path [of k dir] split: option.splits)
next
  case (4 k k' body ct s e)
  then show ?case by (intro disjI1 disk_put_failed)
qed

text \<open>No reader ever sees a truncated object: at every moment the target is as before or complete.\<close>

lemma put_moments_atomic:
  assumes "p \<noteq> []" "g \<in> set (put_moments pid p body fs)"
  shows "g p = fs p \<or> g p = Some body"
proof -
  have "last (temp_path pid p) \<noteq> last p"
    by (simp add: temp_path_def js_def)
  then have "temp_path pid p \<noteq> p" by metis
  then show ?thesis using assms(2) by (auto simp: put_moments_def)
qed

lemma put_moments_last:
  "disk_resolve dir k = Inr p \<Longrightarrow>
     snd (disk_put pid None dir k body ct fs) = last (put_moments pid p body fs)"
  by (simp add: disk_put_def put_moments_def Let_def)

end
