(* ===== verification/Asset_Correct.thy ===== *)
theory Asset_Correct
  imports Asset_Service Disk_Storage Sync_Invariants
begin

text \<open>
  What a download keeps whatever fails in it, and what each of its outcomes leaves in the database
  and in the store.
\<close>

section \<open>Calls\<close>

lemma asset_db_inv:
  assumes "asset_db env f w = (r, w')" "Q (aw_db w) (aw_store w)"
    "\<And>now. Q (snd (f now (aw_db w))) (aw_store w)"
  shows "Q (aw_db w') (aw_store w')"
  using assms with_fault_state [of "ac_fault env (aw_calls w)" "f (ac_now env (aw_calls w)) (aw_db w)" "aw_db w"]
  by (auto simp: asset_db_def split: prod.splits)

lemma asset_db_Inr:
  assumes "asset_db env f w = (Inr a, w')"
  shows "\<exists>now. f now (aw_db w) = (Inr a, aw_db w')" "aw_store w' = aw_store w" "aw_workDirs w' = aw_workDirs w"
  using assms by (auto simp: asset_db_def with_fault_def split: option.splits fault.splits sum.splits prod.splits
      intro!: exI [of _ "ac_now env (aw_calls w)"] prod_eqI)

lemma asset_db_frame:
  "asset_db env f w = (r, w') \<Longrightarrow> aw_store w' = aw_store w \<and> aw_workDirs w' = aw_workDirs w"
  by (auto simp: asset_db_def split: prod.splits)

lemma asset_db_reading:
  assumes "asset_db env (reading f) w = (r, w')"
  shows "aw_db w' = aw_db w" "aw_store w' = aw_store w" "r = Inr a \<Longrightarrow> a = f (aw_db w)"
proof -
  show "aw_db w' = aw_db w"
    by (rule asset_db_inv [OF assms, where Q = "\<lambda>d s. d = aw_db w"]) (simp_all add: reading_def)
  show "aw_store w' = aw_store w" using asset_db_frame [OF assms] by simp
  show "a = f (aw_db w)" if "r = Inr a"
    using asset_db_Inr(1) [of env "reading f" w a w'] assms that by (auto simp: reading_def)
qed

lemma asset_db_updating:
  assumes "asset_db env (updating f) w = (Inr u, w')"
  obtains now where "aw_db w' = f now (aw_db w)" "aw_store w' = aw_store w"
  using asset_db_Inr [OF assms] that unfolding updating_def by (metis snd_conv)

lemma asset_store_inv:
  assumes "asset_store env f w = (r, w')" "Q (aw_db w) (aw_store w)" "Q (aw_db w) (snd (f (aw_store w)))"
  shows "Q (aw_db w') (aw_store w')"
  using assms with_fault_state [of "ac_fault env (aw_calls w)" "f (aw_store w)" "aw_store w"]
  by (auto simp: asset_store_def split: prod.splits)

lemma asset_store_Inr:
  assumes "asset_store env f w = (Inr a, w')"
  shows "f (aw_store w) = (Inr a, aw_store w')" "aw_db w' = aw_db w" "aw_workDirs w' = aw_workDirs w"
  using assms by (auto simp: asset_store_def with_fault_def split: option.splits fault.splits sum.splits prod.splits
      intro!: prod_eqI)

lemma asset_store_frame:
  "asset_store env f w = (r, w') \<Longrightarrow> aw_db w' = aw_db w \<and> aw_workDirs w' = aw_workDirs w"
  by (auto simp: asset_store_def split: prod.splits)

lemma asset_fetch_frame:
  "asset_fetch env sg url w = (r, w') \<Longrightarrow> aw_db w' = aw_db w \<and> aw_store w' = aw_store w \<and> aw_workDirs w' = aw_workDirs w"
  by (auto simp: asset_fetch_def split: prod.splits)

lemma asset_mkdtemp_frame:
  "asset_mkdtemp env w = (r, w') \<Longrightarrow> aw_db w' = aw_db w \<and> aw_store w' = aw_store w"
  by (auto simp: asset_mkdtemp_def split: prod.splits)

lemma asset_mkdtemp_Inr:
  "asset_mkdtemp env w = (Inr u, w') \<Longrightarrow> aw_workDirs w' = Suc (aw_workDirs w)"
  by (auto simp: asset_mkdtemp_def with_fault_def split: option.splits fault.splits)

lemma download_finally_frame:
  "download_finally env m = (r, w') \<Longrightarrow>
     aw_db w' = aw_db (snd m) \<and> aw_store w' = aw_store (snd m) \<and> (r = fst m \<or> r = Inl Crashed)"
  by (auto simp: download_finally_def split: prod.splits sum.splits fate.splits)

section \<open>Invariants\<close>

text \<open>The key a file's bytes are stored under.\<close>

abbreviation asset_key :: "'s asset_env \<Rightarrow> bytes \<Rightarrow> jstr option \<Rightarrow> jstr" where
  "asset_key env body ct \<equiv>
     contentAddressedKey (ac_sha256 env body) (extensionForContentType (ac_unicode env) ct)"

locale asset_invariant =
  fixes env :: "'s asset_env" and Q :: "database \<Rightarrow> 's \<Rightarrow> bool"
  assumes inv_skipped: "Q db s \<Longrightarrow> Q (markSkipped now i msg db) s"
    and inv_downloading: "Q db s \<Longrightarrow> Q (markDownloading now i db) s"
    and inv_failed: "Q db s \<Longrightarrow> Q (markFailed now i msg db) s"
    and inv_put: "Q db s \<Longrightarrow> length (ac_write env body) = length body \<Longrightarrow>
      Q db (snd (ac_put env (asset_key env body ct) (ac_write env body) ct' s))"
    and inv_dedup: "Q db s \<Longrightarrow> ac_exists env (asset_key env body ct) s = Inr True \<Longrightarrow>
      st_sha256 st = ac_sha256 env body \<Longrightarrow> st_storageKey st = asset_key env body ct \<Longrightarrow>
      Q (markStored now i st db) s"
    and inv_stored: "Q db s \<Longrightarrow> length (ac_write env body) = length body \<Longrightarrow>
      ac_put env (asset_key env body ct) (ac_write env body) ct' s = (Inr ob, s') \<Longrightarrow>
      st_sha256 st = ac_sha256 env body \<Longrightarrow> st_storageKey st = so_key ob \<Longrightarrow>
      Q (markStored now i st db) s'"
begin

lemma mark_step:
  assumes "then_do (asset_db env (updating f) w) (\<lambda>u w1. (x, w1)) = (r, w')"
    "Q (aw_db w) (aw_store w)" "\<And>now. Q (f now (aw_db w)) (aw_store w)"
  shows "Q (aw_db w') (aw_store w')"
proof -
  obtain y w1 where y: "asset_db env (updating f) w = (y, w1)" by fastforce
  have "w' = w1" using assms(1) y by (cases y) (simp_all add: then_do_def)
  then show ?thesis using asset_db_inv [OF y, of Q] assms(2,3) by (simp add: updating_def)
qed

lemma upload_step:
  assumes "upload_new env i (ac_sha256 env body) (asset_key env body ct) (ac_write env body) ct' w = (r, w')"
    "Q (aw_db w) (aw_store w)" "length (ac_write env body) = length body"
  shows "Q (aw_db w') (aw_store w')"
  using assms(1) unfolding upload_new_def
proof (cases rule: then_do_split)
  case (stop f)
  then show ?thesis using asset_store_inv [OF stop(1), of Q] inv_put assms(2,3) by simp
next
  case (go ob w1)
  note put = asset_store_Inr [OF go(1)]
  have Q1: "Q (aw_db w1) (aw_store w1)"
    using asset_store_inv [OF go(1), of Q] inv_put assms(2,3) by simp
  have Q2: "Q (markStored now i (stored_info_of (ac_sha256 env body) ob) (aw_db w1)) (aw_store w1)" for now
    using inv_stored [OF assms(2,3) put(1)] put(2) by (simp add: stored_info_of_def)
  show ?thesis using mark_step [OF go(2) Q1 Q2] .
qed

lemma store_step:
  assumes "store_bytes env i ct body w = (r, w')" "Q (aw_db w) (aw_store w)"
  shows "Q (aw_db w') (aw_store w')"
proof (cases "length (ac_write env body) = length body")
  case False
  then show ?thesis using assms by (simp add: store_bytes_def Let_def)
next
  case len: True
  obtain x w1 where x: "asset_store env (\<lambda>s. (ac_exists env (asset_key env body ct) s, s)) w = (x, w1)"
    by fastforce
  have Q1: "Q (aw_db w1) (aw_store w1)"
    using asset_store_inv [OF x, of Q] assms(2) by simp
  show ?thesis
  proof (cases x)
    case (Inl f)
    then show ?thesis using assms(1) x Q1 len by (simp add: store_bytes_def then_do_def)
  next
    case (Inr present)
    note ex = asset_store_Inr [OF x [unfolded Inr]]
    show ?thesis
    proof (cases present)
      case True
      let ?st = "\<lparr>st_sha256 = ac_sha256 env body, st_storageKey = asset_key env body ct,
          st_storageProvider = ac_provider env, st_contentType = ct, st_sizeBytes = length body\<rparr>"
      have "Q (markStored now i ?st (aw_db w1)) (aw_store w1)" for now
        using inv_dedup [OF Q1, of body ct ?st] ex True by auto
      moreover have "record_duplicate env i ?st w1 = (r, w')"
        using assms(1) x Inr True len by (simp add: store_bytes_def then_do_def Let_def)
      ultimately show ?thesis
        using mark_step Q1 unfolding record_duplicate_def by blast
    next
      case False
      have "upload_new env i (ac_sha256 env body) (asset_key env body ct) (ac_write env body)
          (if truthy_url ct then ct else None) w1 = (r, w')"
        using assms(1) x Inr False len by (simp add: store_bytes_def then_do_def Let_def)
      then show ?thesis using upload_step Q1 len by blast
    qed
  qed
qed

lemma try_step:
  assumes "download_try env i url sg w = (r, w')" "Q (aw_db w) (aw_store w)"
  shows "Q (aw_db w') (aw_store w')"
  using assms(1) unfolding download_try_def
proof (cases rule: then_do_split)
  case (stop f)
  then show ?thesis using asset_fetch_frame [OF stop(1)] assms(2) by simp
next
  case (go resp w1)
  then have "Q (aw_db w1) (aw_store w1)" using asset_fetch_frame [OF go(1)] assms(2) by simp
  then show ?thesis
    using go(2) store_step [of i "cd_contentType resp" _ w1 r w']
    by (auto split: if_splits option.splits sum.splits)
qed

lemma catch_step:
  assumes "download_catch env i m = (r, w')" "Q (aw_db (snd m)) (aw_store (snd m))"
  shows "Q (aw_db w') (aw_store w')"
proof -
  obtain x w where m: "m = (x, w)" by fastforce
  show ?thesis
  proof (cases "\<exists>e. x = Inl (Threw e)")
    case True
    then obtain e where x: "x = Inl (Threw e)" ..
    have "then_do (asset_db env (updating (\<lambda>now. markFailed now i (error_message e))) w)
        (\<lambda>u w1. (Inl (Threw e), w1)) = (r, w')"
      using assms(1) m x by (simp add: download_catch_def)
    moreover have "Q (aw_db w) (aw_store w)" using assms(2) m by simp
    ultimately show ?thesis using mark_step inv_failed by blast
  next
    case False
    then show ?thesis
      using assms m by (auto simp: download_catch_def split: sum.splits fate.splits)
  qed
qed

theorem download_keeps:
  assumes "download env i sg w = (r, w')" "Q (aw_db w) (aw_store w)"
  shows "Q (aw_db w') (aw_store w')"
proof -
  have rd: "Q (aw_db w2) (aw_store w2)"
    if "asset_db env (reading f) w1 = (x, w2)" "Q (aw_db w1) (aw_store w1)" for f w1 x w2
    using asset_db_inv [OF that(1), of Q] that(2) by (simp add: reading_def)
  from assms(1) show ?thesis
    unfolding download_def
  proof (cases rule: then_do_split)
    case (stop f)
    then show ?thesis using rd assms(2) by blast
  next
    case (go found w1)
    note Q1 = rd [OF go(1) assms(2)]
    show ?thesis
    proof (cases found)
      case None
      then show ?thesis using go Q1 by simp
    next
      case (Some media)
      from go(2) show ?thesis unfolding Some option.case
      proof (cases rule: then_do_split)
        case (stop f)
        then show ?thesis using rd Q1 by blast
      next
        case (go asset w2)
        note Q2 = rd [OF go(1) Q1]
        consider (present) "w' = w2"
          | (skip) "then_do (asset_db env (updating (\<lambda>now. markSkipped now i
                    (js ''no media_url provided by Meta''))) w2) (\<lambda>u w3. (Inr skipped_result, w3)) = (r, w')"
          | (fetch) "then_do (asset_db env (updating (\<lambda>now. markDownloading now i)) w2) (\<lambda>u w3.
               then_do (asset_mkdtemp env w3) (\<lambda>u w4.
                 download_finally env (download_catch env i
                   (download_try env i (the (sourceUrl_of media asset)) sg w4)))) = (r, w')"
          using go(2) by (auto split: if_splits)
        then show ?thesis
        proof cases
          case present
          then show ?thesis using Q2 by simp
        next
          case skip
          then show ?thesis using mark_step Q2 inv_skipped by blast
        next
          case fetch
          then show ?thesis
          proof (cases rule: then_do_split)
            case (stop f)
            then show ?thesis using asset_db_inv [OF stop(1), of Q] Q2 inv_downloading by (simp add: updating_def)
          next
            case (go u w3)
            have Q3: "Q (aw_db w3) (aw_store w3)"
              using asset_db_inv [OF go(1), of Q] Q2 inv_downloading by (simp add: updating_def)
            from go(2) show ?thesis
            proof (cases rule: then_do_split)
              case (stop f)
              then show ?thesis using asset_mkdtemp_frame [OF stop(1)] Q3 by simp
            next
              case (go u w4)
              obtain x w5 where x: "download_try env i (the (sourceUrl_of media asset)) sg w4 = (x, w5)"
                by fastforce
              obtain y w6 where y: "download_catch env i (x, w5) = (y, w6)" by fastforce
              have "Q (aw_db w5) (aw_store w5)"
                using try_step [OF x] asset_mkdtemp_frame [OF go(1)] Q3 by simp
              then have "Q (aw_db w6) (aw_store w6)" using catch_step [OF y] by simp
              then show ?thesis
                using download_finally_frame [of env "(y, w6)" r w'] go(2) x y by simp
            qed
          qed
        qed
      qed
    qed
  qed
qed

end

section \<open>The constraints\<close>

interpretation asset_wf: asset_invariant env "\<lambda>db s. db_wf db" for env
  by unfold_locales (simp_all add: asset_marks_wf)

section \<open>No row claims bytes the store does not hold\<close>

context object_store begin

definition backed_row :: "'s \<Rightarrow> media_asset \<Rightarrow> bool" where
  "backed_row s a \<longleftrightarrow> (ma_status a = Stored \<longrightarrow>
     (\<exists>k. ma_storageKey a = Some k \<and> good_key k \<and> ma_sha256 a = Some (key_digest k) \<and> content s k \<noteq> None))"

definition backed :: "database \<Rightarrow> 's \<Rightarrow> bool" where
  "backed db s \<longleftrightarrow> (\<forall>a \<in> set (db_assets db). backed_row s a)"

lemma backed_mark:
  assumes "backed db s" "\<And>a. a \<in> set (db_assets db) \<Longrightarrow> ma_mediaId a = i \<Longrightarrow> backed_row s (f a)"
  shows "backed (update_asset i f db) s"
proof -
  have "backed_row s a" if mem: "a \<in> set (db_assets (update_asset i f db))" for a
  proof -
    have "a \<in> (\<lambda>r. if ma_mediaId r = i then f r else r) ` set (db_assets db)"
      using mem by (simp add: update_asset_def update_where_def)
    then obtain r where "r \<in> set (db_assets db)" "a = (if ma_mediaId r = i then f r else r)" by blast
    then show ?thesis using assms unfolding backed_def by (cases "ma_mediaId r = i") simp_all
  qed
  then show ?thesis unfolding backed_def by blast
qed

lemma backed_store:
  assumes "backed db s" "\<And>k. good_key k \<Longrightarrow> content s k \<noteq> None \<Longrightarrow> content s' k \<noteq> None"
  shows "backed db s'"
  using assms unfolding backed_def backed_row_def by blast

lemma put_monotone:
  assumes "good_key k" "good_key k'" "content s k' \<noteq> None"
  shows "content (snd (put_at k body ct s)) k' \<noteq> None"
  using assms put_content [of k k' body ct s] put_failed [of k k' body ct s]
  by (cases "fst (put_at k body ct s)") auto

lemma backed_marked:
  assumes "backed db s" "st_storageKey st = contentAddressedKey (st_sha256 st) e" "is_digest (st_sha256 st)"
    "e \<in> known_extensions" "content s (st_storageKey st) \<noteq> None"
  shows "backed (markStored now i st db) s"
  unfolding markStored_def
  by (rule backed_mark) (use assms key_digest_key in \<open>auto simp: backed_row_def good_key_def\<close>)

text \<open>
  With a digest function and a file system that may cut a write short but does not corrupt it, the
  two invariants hold together, through every fault.
\<close>

lemma download_backed:
  assumes "ac_exists env = exists_at" "ac_put env = put_at"
    and digest: "\<And>b. is_digest (ac_sha256 env b)"
    and disk: "\<And>b. length (ac_write env b) = length b \<Longrightarrow> ac_write env b = b"
  shows "asset_invariant env (\<lambda>db s. addressed (ac_sha256 env) s \<and> backed db s)"
proof unfold_locales
  fix db s now i msg
  assume "addressed (ac_sha256 env) s \<and> backed db s"
  then show "addressed (ac_sha256 env) s \<and> backed (markSkipped now i msg db) s"
    and "addressed (ac_sha256 env) s \<and> backed (markDownloading now i db) s"
    and "addressed (ac_sha256 env) s \<and> backed (markFailed now i msg db) s"
    by (auto simp: markSkipped_def markDownloading_def markFailed_def backed_row_def intro!: backed_mark)
next
  fix db s body ct ct'
  assume Q: "addressed (ac_sha256 env) s \<and> backed db s" and "length (ac_write env body) = length body"
  then have w: "ac_write env body = body" using disk by blast
  have good: "good_key (asset_key env body ct)"
    using digest extension_known unfolding good_key_def by blast
  show "addressed (ac_sha256 env) (snd (ac_put env (asset_key env body ct) (ac_write env body) ct' s))
      \<and> backed db (snd (ac_put env (asset_key env body ct) (ac_write env body) ct' s))"
    unfolding w assms(2)
    using Q addressed_put [of "ac_sha256 env" s body, OF _ digest extension_known] backed_store
      put_monotone [OF good] by blast
next
  fix db s body ct now i and st :: stored_info
  assume Q: "addressed (ac_sha256 env) s \<and> backed db s" and ex: "ac_exists env (asset_key env body ct) s = Inr True"
    and st: "st_sha256 st = ac_sha256 env body" "st_storageKey st = asset_key env body ct"
  have good: "good_key (asset_key env body ct)"
    using digest extension_known unfolding good_key_def by blast
  have "content s (st_storageKey st) \<noteq> None"
    using exists_content [OF good] ex st assms(1) by simp
  then show "addressed (ac_sha256 env) s \<and> backed (markStored now i st db) s"
    using Q st backed_marked [OF _ _ _ extension_known] digest by metis
next
  fix db s body ct ct' now i ob s' and st :: stored_info
  assume Q: "addressed (ac_sha256 env) s \<and> backed db s" and "length (ac_write env body) = length body"
    and put: "ac_put env (asset_key env body ct) (ac_write env body) ct' s = (Inr ob, s')"
    and st: "st_sha256 st = ac_sha256 env body" "st_storageKey st = so_key ob"
  then have w: "ac_write env body = body" using disk by blast
  have good: "good_key (asset_key env body ct)"
    using digest extension_known unfolding good_key_def by blast
  have p: "put_at (asset_key env body ct) body ct' s = (Inr ob, s')" using put w assms(2) by simp
  have k: "st_storageKey st = asset_key env body ct" using put_object [OF good] p st by (metis fst_conv)
  have "content s' (st_storageKey st) \<noteq> None"
    using put_content [OF good good, of body ct' s ob] p k by simp
  moreover have "addressed (ac_sha256 env) s'"
    using addressed_put [of "ac_sha256 env" s body "extensionForContentType (ac_unicode env) ct" ct']
      Q p digest extension_known by simp
  moreover have "backed db s'"
    using backed_store [of db s s'] Q put_monotone [OF good, of _ s body ct'] p by simp
  ultimately show "addressed (ac_sha256 env) s' \<and> backed (markStored now i st db) s'"
    using k st backed_marked [OF _ _ _ extension_known] digest by metis
qed

end

section \<open>Outcomes\<close>

text \<open>Calls that go through.\<close>

lemma asset_db_ok:
  assumes "ac_fault env (aw_calls w) = None"
  shows "asset_db env (reading f) w = (Inr (f (aw_db w)), w\<lparr>aw_calls := Suc (aw_calls w)\<rparr>)"
    "asset_db env (updating g) w =
       (Inr (), w\<lparr>aw_db := g (ac_now env (aw_calls w)) (aw_db w), aw_calls := Suc (aw_calls w)\<rparr>)"
  using assms by (simp_all add: asset_db_def with_fault_def reading_def updating_def)

lemma download_missing:
  assumes "ac_fault env (aw_calls w) = None" "findPostById i (aw_db w) = None"
  shows "download env i sg w =
    (Inl (Threw (Unprocessable_Job_Error (js ''media '' @ uuid_show i @ js '' no longer exists''))),
     w\<lparr>aw_calls := Suc (aw_calls w)\<rparr>)"
  using assms by (simp add: download_def asset_db_ok then_do_def)

lemma download_present:
  assumes "ac_fault env (aw_calls w) = None" "ac_fault env (Suc (aw_calls w)) = None"
    "findPostById i (aw_db w) = Some media" "findByMediaId i (aw_db w) = Some a" "ma_status a = Stored"
  shows "download env i sg w = (Inr skipped_result, w\<lparr>aw_calls := Suc (Suc (aw_calls w))\<rparr>)"
  using assms by (simp add: download_def asset_db_ok then_do_def)

text \<open>Without faults of its own statements, what the \<open>try\<close> block leaves depends on its result only.\<close>

definition try_left :: "uuid \<Rightarrow> fate + download_result \<Rightarrow> database \<Rightarrow> database \<Rightarrow> bool" where
  "try_left i x db db' \<longleftrightarrow>
     (case x of
        Inl (Threw e) \<Rightarrow> db' = db
      | Inl Crashed \<Rightarrow> False
      | Inr res \<Rightarrow> dr_status res \<noteq> Dl_Skipped \<and> (\<exists>now st. db' = markStored now i st db \<and> dr_sha256 res = Some (st_sha256 st)
          \<and> dr_storageKey res = Some (st_storageKey st) \<and> dr_sizeBytes res = Some (st_sizeBytes st)))"

lemma try_left_threw: "try_left i (Inl (Threw e)) db db' = (db' = db)"
  by (simp add: try_left_def)

lemma asset_store_ok:
  assumes "ac_fault env (aw_calls w) = None"
  shows "asset_store env f w =
    ((case fst (f (aw_store w)) of Inl e \<Rightarrow> Inl (Threw e) | Inr a \<Rightarrow> Inr a),
     w\<lparr>aw_store := snd (f (aw_store w)), aw_calls := Suc (aw_calls w)\<rparr>)"
  using assms by (simp add: asset_store_def with_fault_def)

lemma record_duplicate_left:
  assumes "\<And>n. ac_fault env n = None"
  shows "try_left i (fst (record_duplicate env i st w)) (aw_db w) (aw_db (snd (record_duplicate env i st w)))"
    "aw_workDirs (snd (record_duplicate env i st w)) = aw_workDirs w"
  using assms by (auto simp: record_duplicate_def asset_db_ok then_do_def try_left_def)

lemma upload_new_left:
  assumes "\<And>n. ac_fault env n = None"
  shows "try_left i (fst (upload_new env i sha k b ct w)) (aw_db w) (aw_db (snd (upload_new env i sha k b ct w)))
    \<and> aw_workDirs (snd (upload_new env i sha k b ct w)) = aw_workDirs w"
proof (cases "fst (ac_put env k b ct (aw_store w))")
  case (Inl e)
  then show ?thesis using assms by (simp add: upload_new_def asset_store_ok then_do_def try_left_def)
next
  case (Inr ob)
  let ?st = "stored_info_of sha ob"
  have "st_sha256 ?st = sha" "st_storageKey ?st = so_key ob" "st_sizeBytes ?st = so_sizeBytes ob"
    by (simp_all add: stored_info_of_def)
  then show ?thesis using Inr assms
    by (simp add: upload_new_def asset_store_ok asset_db_ok then_do_def try_left_def) metis
qed

lemma store_bytes_left:
  assumes "\<And>n. ac_fault env n = None"
  shows "try_left i (fst (store_bytes env i ct body w)) (aw_db w) (aw_db (snd (store_bytes env i ct body w)))
    \<and> aw_workDirs (snd (store_bytes env i ct body w)) = aw_workDirs w"
proof (cases "length (ac_write env body) = length body")
  case False
  then show ?thesis by (simp add: store_bytes_def Let_def try_left_def)
next
  case True
  let ?w1 = "w\<lparr>aw_calls := Suc (aw_calls w)\<rparr>"
  show ?thesis
  proof (cases "ac_exists env (asset_key env body ct) (aw_store w)")
    case (Inl e)
    then show ?thesis using assms True
      by (simp add: store_bytes_def Let_def asset_store_ok then_do_def try_left_def)
  next
    case (Inr b)
    show ?thesis
      using record_duplicate_left [of env i _ ?w1] upload_new_left [of env i _ _ _ _ ?w1] assms True Inr
      by (cases b) (simp_all add: store_bytes_def Let_def asset_store_ok then_do_def)
  qed
qed

lemma download_try_left:
  assumes "\<And>n. ac_fault env n = None"
  shows "try_left i (fst (download_try env i url sg w)) (aw_db w) (aw_db (snd (download_try env i url sg w)))
    \<and> aw_workDirs (snd (download_try env i url sg w)) = aw_workDirs w"
proof -
  let ?w1 = "w\<lparr>aw_calls := Suc (aw_calls w)\<rparr>"
  show ?thesis
    using assms store_bytes_left [of env i _ _ ?w1]
    by (auto simp: download_try_def asset_fetch_def with_fault_def then_do_def try_left_threw
        split: sum.split option.split)
qed

text \<open>
  A download that got as far as fetching: the attempt is counted, the directory is gone again, and
  the row and the result agree: stored with the digest and the key that are returned, or failed with
  the message of the error that is thrown.
\<close>

definition download_recorded :: "fate + download_result \<Rightarrow> media_asset \<Rightarrow> bool" where
  "download_recorded r a \<longleftrightarrow>
     (case r of
        Inl (Threw e) \<Rightarrow> ma_status a = Asset_Failed \<and> ma_lastError a = Some (js_slice 2000 (error_message e))
      | Inl Crashed \<Rightarrow> False
      | Inr res \<Rightarrow> ma_status a = Stored \<and> ma_sha256 a = dr_sha256 res \<and> ma_storageKey a = dr_storageKey res
          \<and> ma_sizeBytes a = dr_sizeBytes res \<and> ma_lastError a = None)"

lemma download_outcome:
  assumes "\<And>n. ac_fault env n = None" "findPostById i (aw_db w) = Some media"
    "findByMediaId i (aw_db w) = Some a" "ma_status a \<noteq> Stored" "truthy_url (sourceUrl_of media (Some a))"
    "download env i sg w = (r, w')"
  obtains a' where "findByMediaId i (aw_db w') = Some a'" "ma_attempts a' = Suc (ma_attempts a)"
    "aw_workDirs w' = aw_workDirs w" "download_recorded r a'"
proof -
  define w4 where "w4 = w\<lparr>aw_db := markDownloading (ac_now env (Suc (Suc (aw_calls w)))) i (aw_db w),
      aw_workDirs := Suc (aw_workDirs w), aw_calls := Suc (Suc (Suc (Suc (aw_calls w))))\<rparr>"
  obtain x w5 where x: "download_try env i (the (sourceUrl_of media (Some a))) sg w4 = (x, w5)" by fastforce
  have left: "try_left i x (aw_db w4) (aw_db w5)" "aw_workDirs w5 = Suc (aw_workDirs w)"
    using download_try_left [OF assms(1), where i = i and w = w4 and sg = sg
        and url = "the (sourceUrl_of media (Some a))"] x by (simp_all add: w4_def)
  obtain b where b: "findByMediaId i (aw_db w4) = Some b" "ma_attempts b = Suc (ma_attempts a)"
    using assms(3) by (simp add: w4_def markDownloading_def findByMediaId_update)
  have run: "download env i sg w = download_finally env (download_catch env i (x, w5))"
    using assms(1-5) x
    by (simp add: download_def asset_db_ok then_do_def asset_mkdtemp_def with_fault_def w4_def)
  show thesis
  proof (cases x)
    case (Inl f)
    then obtain e where e: "x = Inl (Threw e)" "aw_db w5 = aw_db w4"
      using left(1) by (cases f) (simp_all add: try_left_def)
    have "r = x" "aw_workDirs w' = aw_workDirs w"
      "\<exists>now. aw_db w' = markFailed now i (error_message e) (aw_db w4)"
      using run assms(1,6) e left(2)
      by (auto simp: download_catch_def asset_db_ok then_do_def download_finally_def with_fault_def)
    then show thesis
      using that b e(1) by (auto simp: markFailed_def findByMediaId_update download_recorded_def)
  next
    case (Inr res)
    have "r = x" "aw_workDirs w' = aw_workDirs w" "aw_db w' = aw_db w5"
      using run assms(1,6) Inr left(2)
      by (auto simp: download_catch_def download_finally_def with_fault_def)
    then show thesis
      using that b Inr left(1)
      by (auto simp: try_left_def markStored_def findByMediaId_update download_recorded_def)
  qed
qed

end
