(* ===== verification/Consumers.thy ===== *)
theory Consumers
  imports Job_Runner Sync_Progress Asset_Correct
begin

text \<open>
  \<open>src/api/consumers/index.ts\<close>: the handler of each job type, over the world the sync service and the
  asset service share.
\<close>

section \<open>The world of the worker\<close>

record ('q, 'h, 's) app_env =
  ap_sync :: "('q, 'h) sync_env"
  ap_asset :: "'s asset_env"
  ap_enqueueBatch :: "time \<Rightarrow> job list \<Rightarrow> 'q \<Rightarrow> (js_error + 'h list) \<times> 'q"
  ap_showId :: "'h \<Rightarrow> jstr"

record ('q, 's) app_world =
  pw_sync :: "'q sync_world"
  pw_store :: 's
  pw_workDirs :: nat

definition on_sync ::
  "('q sync_world \<Rightarrow> (fate + 'a) \<times> 'q sync_world) \<Rightarrow> ('q, 's) app_world \<Rightarrow> (fate + 'a) \<times> ('q, 's) app_world" where
  "on_sync f w = (case f (pw_sync w) of (r, v) \<Rightarrow> (r, w\<lparr>pw_sync := v\<rparr>))"

text \<open>The asset service sees the same database, and its calls are counted in the same sequence.\<close>

definition on_asset ::
  "('s asset_world \<Rightarrow> (fate + 'a) \<times> 's asset_world) \<Rightarrow> ('q, 's) app_world \<Rightarrow> (fate + 'a) \<times> ('q, 's) app_world" where
  "on_asset f w =
     (case f \<lparr>aw_db = sw_db (pw_sync w), aw_store = pw_store w, aw_workDirs = pw_workDirs w,
             aw_calls = sw_calls (pw_sync w)\<rparr> of
        (r, v) \<Rightarrow> (r, w\<lparr>pw_sync := (pw_sync w)\<lparr>sw_db := aw_db v, sw_calls := aw_calls v\<rparr>,
                       pw_store := aw_store v, pw_workDirs := aw_workDirs v\<rparr>))"

definition batch_call ::
  "('q, 'h, 's) app_env \<Rightarrow> job list \<Rightarrow> 'q sync_world \<Rightarrow> (fate + 'h list) \<times> 'q sync_world" where
  "batch_call env jobs w =
     (case with_fault (se_fault (ap_sync env) (sw_calls w))
        (ap_enqueueBatch env (se_now (ap_sync env) (sw_calls w)) jobs (sw_queue w)) (sw_queue w) of
        (r, q) \<Rightarrow> (r, w\<lparr>sw_queue := q, sw_calls := Suc (sw_calls w)\<rparr>))"

section \<open>Handlers\<close>

type_synonym ('q, 'h, 's) consumer =
  "job \<Rightarrow> 'h job_context \<Rightarrow> ('q, 's) app_world \<Rightarrow> (fate + unit) \<times> ('q, 's) app_world"

definition sync_job_for :: "media_source \<Rightarrow> hashtag \<Rightarrow> job" where
  "sync_job_for kind h = (case kind of Top \<Rightarrow> Sync_Top_Job (ht_id h) | Recent \<Rightarrow> Sync_Recent_Job (ht_id h))"

definition dispatchDueSyncs :: "('q, 'h, 's) app_env \<Rightarrow> ('q, 'h, 's) consumer" where
  "dispatchDueSyncs env job ctx w =
     (case job of
        Dispatch_Job kind \<Rightarrow>
          on_sync (\<lambda>v. then_do (db_call (ap_sync env) (\<lambda>now. reading (findDueForSync kind now) now) v)
            (\<lambda>due v1. if due = [] then (Inr (), v1)
                      else then_do (batch_call env (map (sync_job_for kind) due) v1) (\<lambda>ids v2. (Inr (), v2)))) w
      | _ \<Rightarrow> (Inr (), w))"

text \<open>The body of the sync handler, once the job's kind and hashtag are known.\<close>

definition sync_hashtag ::
  "('q, 'h, 's) app_env \<Rightarrow> media_source \<Rightarrow> uuid \<Rightarrow> 'h job_context \<Rightarrow> 'q sync_world \<Rightarrow>
     (fate + unit) \<times> 'q sync_world" where
  "sync_hashtag env kind hashtagId ctx v =
     then_do (db_call (ap_sync env) (reading (findHashtagById hashtagId)) v) (\<lambda>found v1.
       case found of
         None \<Rightarrow> (Inl (Threw (Unprocessable_Job_Error
                    (js ''hashtag '' @ uuid_show hashtagId @ js '' no longer exists''))), v1)
       | Some h \<Rightarrow>
           then_do (sync (ap_sync env)
             \<lparr>sy_hashtagId = hashtagId, sy_kind = kind, sy_messageId = Some (ap_showId env (jc_messageId ctx)),
               sy_attempt = Some (jc_attempt ctx)\<rparr> v1) (\<lambda>outcome v2. (Inr (), v2)))"

definition syncMedia :: "('q, 'h, 's) app_env \<Rightarrow> ('q, 'h, 's) consumer" where
  "syncMedia env job ctx w =
     (case job of
        Sync_Top_Job hashtagId \<Rightarrow> on_sync (sync_hashtag env Top hashtagId ctx) w
      | Sync_Recent_Job hashtagId \<Rightarrow> on_sync (sync_hashtag env Recent hashtagId ctx) w
      | _ \<Rightarrow> (Inr (), w))"

definition downloadAsset :: "('q, 'h, 's) app_env \<Rightarrow> ('q, 'h, 's) consumer" where
  "downloadAsset env job ctx w =
     (case job of
        Download_Job mediaId \<Rightarrow>
          on_asset (\<lambda>v. then_do (download (ap_asset env) mediaId (Some Caller_Signal) v) (\<lambda>res v1. (Inr (), v1))) w
      | _ \<Rightarrow> (Inr (), w))"

definition buildHandlers :: "('q, 'h, 's) app_env \<Rightarrow> job_type \<Rightarrow> ('q, 'h, 's) consumer option" where
  "buildHandlers env t =
     (case t of
        Dispatch_Due_Syncs \<Rightarrow> Some (dispatchDueSyncs env)
      | Sync_Top \<Rightarrow> Some (syncMedia env)
      | Sync_Recent \<Rightarrow> Some (syncMedia env)
      | Download_Asset \<Rightarrow> Some (downloadAsset env))"

section \<open>Dispatch\<close>

lemma dispatch_fans_out:
  assumes "se_fault (ap_sync env) (sw_calls (pw_sync w)) = None"
    "se_fault (ap_sync env) (Suc (sw_calls (pw_sync w))) = None"
    "ap_enqueueBatch env (se_now (ap_sync env) (Suc (sw_calls (pw_sync w))))
       (map (sync_job_for kind) (findDueForSync kind (se_now (ap_sync env) (sw_calls (pw_sync w))) (sw_db (pw_sync w))))
       (sw_queue (pw_sync w)) = (Inr ids, q')"
    "findDueForSync kind (se_now (ap_sync env) (sw_calls (pw_sync w))) (sw_db (pw_sync w)) \<noteq> []"
  shows "dispatchDueSyncs env (Dispatch_Job kind) ctx w =
    (Inr (), w\<lparr>pw_sync := (pw_sync w)\<lparr>sw_queue := q', sw_calls := Suc (Suc (sw_calls (pw_sync w)))\<rparr>\<rparr>)"
  using assms by (simp add: dispatchDueSyncs_def on_sync_def db_call_def with_fault_def reading_def
      then_do_def batch_call_def)

lemma dispatch_nothing_due:
  assumes "se_fault (ap_sync env) (sw_calls (pw_sync w)) = None"
    "findDueForSync kind (se_now (ap_sync env) (sw_calls (pw_sync w))) (sw_db (pw_sync w)) = []"
  shows "dispatchDueSyncs env (Dispatch_Job kind) ctx w =
    (Inr (), w\<lparr>pw_sync := (pw_sync w)\<lparr>sw_calls := Suc (sw_calls (pw_sync w))\<rparr>\<rparr>)"
  using assms by (simp add: dispatchDueSyncs_def on_sync_def db_call_def with_fault_def reading_def then_do_def)

lemma mem_enqueueBatch_open:
  "\<not> mq_closed q \<Longrightarrow>
     (\<exists>ids. fst (mem_enqueueBatch now d jobs q) = Inr ids \<and> length ids = length jobs)
     \<and> mem_stock (snd (mem_enqueueBatch now d jobs q)) = mem_stock q + mset jobs
     \<and> mem_held (snd (mem_enqueueBatch now d jobs q)) = mem_held q"
proof (induction jobs arbitrary: q)
  case (Cons j jobs)
  obtain i q1 where e: "mem_enqueue now d j q = (Inr i, q1)"
    using Cons.prems by (simp add: mem_enqueue_def)
  have "\<not> mq_closed q1" "mem_stock q1 = add_mset j (mem_stock q)" "mem_held q1 = mem_held q"
    using Cons.prems e mem_enqueue_view(1) [of now d j q i] mem_enqueue_view(2) [of now d j q]
    by (auto simp: mem_enqueue_def)
  then show ?case
    using Cons.IH [of q1] e by (auto split: prod.split sum.split)
qed simp

text \<open>Dispatching over the in-memory driver: one more sync job for each due hashtag, and nothing else.\<close>

lemma dispatch_stock:
  fixes w :: "(mem_queue, 's) app_world" and kind :: media_source
  assumes "se_fault (ap_sync env) (sw_calls (pw_sync w)) = None"
    "se_fault (ap_sync env) (Suc (sw_calls (pw_sync w))) = None"
    "ap_enqueueBatch env = (\<lambda>now. mem_enqueueBatch now 0)" "\<not> mq_closed (sw_queue (pw_sync w))"
  defines "due \<equiv> findDueForSync kind (se_now (ap_sync env) (sw_calls (pw_sync w))) (sw_db (pw_sync w))"
  shows "fst (dispatchDueSyncs env (Dispatch_Job kind) ctx w) = Inr ()"
    and "mem_stock (sw_queue (pw_sync (snd (dispatchDueSyncs env (Dispatch_Job kind) ctx w)))) =
      mem_stock (sw_queue (pw_sync w)) + mset (map (sync_job_for kind) due)"
    and "sw_db (pw_sync (snd (dispatchDueSyncs env (Dispatch_Job kind) ctx w))) = sw_db (pw_sync w)"
proof -
  let ?now = "se_now (ap_sync env) (Suc (sw_calls (pw_sync w)))" and ?q = "sw_queue (pw_sync w)"
  let ?d = "dispatchDueSyncs env (Dispatch_Job kind) ctx w"
  obtain ids q' where b: "mem_enqueueBatch ?now 0 (map (sync_job_for kind) due) ?q = (Inr ids, q')"
    "mem_stock q' = mem_stock ?q + mset (map (sync_job_for kind) due)"
    using mem_enqueueBatch_open [OF assms(4), of ?now 0 "map (sync_job_for kind) due"]
    by (metis prod.collapse)
  have "fst ?d = Inr () \<and> mem_stock (sw_queue (pw_sync (snd ?d))) = mem_stock ?q + mset (map (sync_job_for kind) due)
      \<and> sw_db (pw_sync (snd ?d)) = sw_db (pw_sync w)"
  proof (cases "due = []")
    case True
    then show ?thesis using assms(1) unfolding due_def by (simp add: dispatch_nothing_due)
  next
    case False
    then show ?thesis
      using dispatch_fans_out [OF assms(1,2), of kind ids q' ctx] b assms(3) unfolding due_def by simp
  qed
  then show "fst ?d = Inr ()" "mem_stock (sw_queue (pw_sync (snd ?d))) = mem_stock ?q + mset (map (sync_job_for kind) due)"
    "sw_db (pw_sync (snd ?d)) = sw_db (pw_sync w)" by simp_all
qed

section \<open>Sync and download\<close>

lemma syncMedia_missing:
  assumes "se_fault (ap_sync env) (sw_calls (pw_sync w)) = None" "findHashtagById i (sw_db (pw_sync w)) = None"
    "job = Sync_Top_Job i \<or> job = Sync_Recent_Job i"
  obtains w' where "syncMedia env job ctx w = (Inl (Threw (Unprocessable_Job_Error
      (js ''hashtag '' @ uuid_show i @ js '' no longer exists''))), w')"
    "sw_db (pw_sync w') = sw_db (pw_sync w)" "sw_queue (pw_sync w') = sw_queue (pw_sync w)"
  using assms that by (auto simp: syncMedia_def sync_hashtag_def on_sync_def db_call_def with_fault_def reading_def
      then_do_def)

section \<open>What every handler keeps\<close>

text \<open>
  One handler after another, each in an environment of its own: each run may fail or die anywhere.
\<close>

inductive consumer_step ::
  "(('q, 'h, 's) app_env \<Rightarrow> bool) \<Rightarrow> ('q, 's) app_world \<Rightarrow> ('q, 's) app_world \<Rightarrow> bool" for allowed where
  handled: "allowed env \<Longrightarrow> buildHandlers env (type_of_job job) = Some h \<Longrightarrow> h job ctx w = (r, w') \<Longrightarrow>
    consumer_step allowed w w'"

inductive_simps consumer_step_iff: "consumer_step allowed w w'"

locale consumer_invariant = sync_invariant P for P +
  assumes inv_mark_skipped: "P db \<Longrightarrow> P (markSkipped now i msg db)"
    and inv_mark_downloading: "P db \<Longrightarrow> P (markDownloading now i db)"
    and inv_mark_failed: "P db \<Longrightarrow> P (markFailed now i msg db)"
    and inv_mark_stored: "P db \<Longrightarrow> P (markStored now i st db)"
begin

lemma on_asset_keeps:
  assumes "downloadAsset env job ctx w = (r, w')" "P (sw_db (pw_sync w))"
  shows "P (sw_db (pw_sync w'))"
proof (cases job)
  case (Download_Job mediaId)
  have inv: "asset_invariant (ap_asset env) (\<lambda>db s. P db)"
    by unfold_locales (simp_all add: inv_mark_skipped inv_mark_downloading inv_mark_failed inv_mark_stored)
  let ?v = "\<lparr>aw_db = sw_db (pw_sync w), aw_store = pw_store w, aw_workDirs = pw_workDirs w,
      aw_calls = sw_calls (pw_sync w)\<rparr>"
  obtain x v where x: "download (ap_asset env) mediaId (Some Caller_Signal) ?v = (x, v)" by fastforce
  have "P (aw_db v)" using asset_invariant.download_keeps [OF inv x] assms(2) by simp
  then show ?thesis
    using assms(1) x Download_Job by (cases x) (auto simp: downloadAsset_def on_asset_def then_do_def)
qed (use assms in \<open>simp_all add: downloadAsset_def\<close>)

lemma sync_hashtag_keeps:
  assumes "sync_hashtag env kind i ctx v = (r, v')" "P (sw_db v)"
  shows "P (sw_db v')"
  using assms(1) unfolding sync_hashtag_def
proof (cases rule: then_do_split)
  case (stop f)
  then show ?thesis using db_call_inv [OF stop(1), of P] assms(2) by (simp add: reading_def)
next
  case (go found v1)
  have P1: "P (sw_db v1)" using db_call_inv [OF go(1), of P] assms(2) by (simp add: reading_def)
  show ?thesis
  proof (cases found)
    case None
    then show ?thesis using go(2) P1 by simp
  next
    case (Some h)
    from go(2) show ?thesis unfolding Some option.case
    proof (cases rule: then_do_split)
      case (stop f)
      then show ?thesis using sync_keeps P1 by blast
    next
      case (go out v2)
      then show ?thesis using sync_keeps P1 by simp
    qed
  qed
qed

lemma on_sync_keeps:
  assumes "syncMedia env job ctx w = (r, w')" "P (sw_db (pw_sync w))"
  shows "P (sw_db (pw_sync w'))"
proof -
  have *: "P (sw_db (pw_sync w'))" if "on_sync (sync_hashtag env kind i ctx) w = (r, w')" for kind i
  proof -
    obtain x v where x: "sync_hashtag env kind i ctx (pw_sync w) = (x, v)" by fastforce
    then have "w' = w\<lparr>pw_sync := v\<rparr>" using that by (simp add: on_sync_def)
    then show ?thesis using sync_hashtag_keeps [OF x assms(2)] by simp
  qed
  show ?thesis using assms * by (cases job) (simp_all add: syncMedia_def)
qed

lemma on_dispatch_keeps:
  assumes "dispatchDueSyncs env job ctx w = (r, w')" "P (sw_db (pw_sync w))"
  shows "P (sw_db (pw_sync w'))"
proof -
  have *: "sw_db v' = sw_db (pw_sync w)"
    if "then_do (db_call (ap_sync env) (\<lambda>now. reading (findDueForSync kind now) now) (pw_sync w))
            (\<lambda>due v1. if due = [] then (Inr (), v1)
                      else then_do (batch_call env (map (sync_job_for kind) due) v1) (\<lambda>ids v2. (Inr (), v2))) = (r, v')"
    for kind v'
    using that
  proof (cases rule: then_do_split)
    case (stop f)
    then show ?thesis
      using db_call_inv [OF stop(1), of "\<lambda>db. db = sw_db (pw_sync w)"] by (simp add: reading_def)
  next
    case (go due v1)
    have "sw_db v1 = sw_db (pw_sync w)"
      using db_call_inv [OF go(1), of "\<lambda>db. db = sw_db (pw_sync w)"] by (simp add: reading_def)
    then show ?thesis using go(2)
      by (auto simp: then_do_def batch_call_def split: if_splits prod.splits sum.splits)
  qed
  show ?thesis
    using assms * by (cases job) (auto simp: dispatchDueSyncs_def on_sync_def split: prod.splits)
qed

lemma handler_keeps:
  assumes "consumer_step allowed w w'" "P (sw_db (pw_sync w))"
  shows "P (sw_db (pw_sync w'))"
proof -
  obtain env job h ctx r where "allowed env" and h: "buildHandlers env (type_of_job job) = Some h" "h job ctx w = (r, w')"
    using assms(1) unfolding consumer_step_iff by blast
  show ?thesis
  proof (cases job)
    case (Dispatch_Job k)
    then have "dispatchDueSyncs env job ctx w = (r, w')" using h by (simp add: buildHandlers_def)
    then show ?thesis using on_dispatch_keeps assms(2) by blast
  next
    case (Sync_Top_Job i)
    then have "syncMedia env job ctx w = (r, w')" using h by (simp add: buildHandlers_def)
    then show ?thesis using on_sync_keeps assms(2) by blast
  next
    case (Sync_Recent_Job i)
    then have "syncMedia env job ctx w = (r, w')" using h by (simp add: buildHandlers_def)
    then show ?thesis using on_sync_keeps assms(2) by blast
  next
    case (Download_Job i)
    then have "downloadAsset env job ctx w = (r, w')" using h by (simp add: buildHandlers_def)
    then show ?thesis using on_asset_keeps assms(2) by blast
  qed
qed

theorem handlers_keep:
  "(consumer_step allowed)\<^sup>*\<^sup>* w w' \<Longrightarrow> P (sw_db (pw_sync w)) \<Longrightarrow> P (sw_db (pw_sync w'))"
proof (induction rule: rtranclp_induct)
  case (step w1 w2)
  then show ?case using handler_keeps by blast
qed

end

lemma mark_tables [simp]:
  "db_mediaPosts (markSkipped now i msg db) = db_mediaPosts db" "db_history (markSkipped now i msg db) = db_history db"
  "db_dataPoints (markSkipped now i msg db) = db_dataPoints db"
  "db_mediaPosts (markDownloading now i db) = db_mediaPosts db" "db_history (markDownloading now i db) = db_history db"
  "db_dataPoints (markDownloading now i db) = db_dataPoints db"
  "db_mediaPosts (markFailed now i msg db) = db_mediaPosts db" "db_history (markFailed now i msg db) = db_history db"
  "db_dataPoints (markFailed now i msg db) = db_dataPoints db"
  "db_mediaPosts (markStored now i st db) = db_mediaPosts db" "db_history (markStored now i st db) = db_history db"
  "db_dataPoints (markStored now i st db) = db_dataPoints db"
  by (simp_all add: asset_mark_defs)

interpretation consumer_wf: consumer_invariant db_wf
  by unfold_locales (simp_all add: asset_marks_wf)

interpretation consumer_posts: consumer_invariant "posts_evolve db0" for db0
  by unfold_locales (simp_all add: posts_evolve_def)

interpretation consumer_history: consumer_invariant "\<lambda>db. \<exists>new. db_history db = db_history db0 @ new" for db0
  by unfold_locales simp_all

interpretation consumer_raw: consumer_invariant "\<lambda>db. \<exists>new. db_dataPoints db = db_dataPoints db0 @ new" for db0
  by unfold_locales simp_all

end
