(* ===== verification/Sync_Correct.thy ===== *)
theory Sync_Correct
  imports Sync_Progress
begin

text \<open>
  The whole run: progress stays behind persistence whatever fails, the outcome is recorded, and
  the advisory lock is released.
\<close>

section \<open>One page\<close>

lemma items_keep:
  assumes "sync_items env opts runId rank items counts w = (r, w')"
  shows "db_syncRuns (sw_db w') = db_syncRuns (sw_db w)" "grows (sw_db w) (sw_db w')"
    "db_wf (sw_db w) \<Longrightarrow> db_wf (sw_db w')"
  using items_runs.items [OF assms, of "db_syncRuns (sw_db w)"] sync_grows.items [OF assms, of "sw_db w"]
    sync_wf.items [OF assms] by simp_all

lemma call_cases:
  assumes "db_call env f w = (r, w')"
  shows "sw_db w' = sw_db w \<or> (\<exists>now. sw_db w' = snd (f now (sw_db w)))"
  using assms with_fault_state [of "se_fault env (sw_calls w)" "f (se_now env (sw_calls w)) (sw_db w)" "sw_db w"]
  by (auto simp: db_call_def split: prod.splits)

lemma recordPage_positions:
  assumes "fst (recordPage now pinp db) = Inr ()" "k < length (pi_items pinp)"
  shows "\<exists>d \<in> set (db_dataPoints (snd (recordPage now pinp db))). dp_syncRunId d = pi_syncRunId pinp
      \<and> dp_positionOverall d = pi_offset pinp + k \<and> dp_igMediaId d = mm_id (pi_items pinp ! k)"
proof -
  let ?d = "data_point_of now (db_next db) pinp k (pi_items pinp ! k)"
  have "?d = page_rows now (db_next db) pinp ! k"
    by (simp add: page_rows_nth assms(2))
  then have "?d \<in> set (page_rows now (db_next db) pinp)"
    using assms(2) by (metis length_page_rows nth_mem)
  then have "?d \<in> set (db_dataPoints (snd (recordPage now pinp db)))"
    by (simp add: recordPage_rows [OF assms(1)])
  then show ?thesis
    by (rule rev_bexI) (simp add: data_point_of_def)
qed

lemma progress_advance:
  assumes "progress_ok db" "db_wf db" "run_at db rid n"
    "\<And>k. k < pd_itemsSeen d \<Longrightarrow> covered db rid (n + k)"
  shows "progress_ok (recordPageProgress rid d db)" "run_at (recordPageProgress rid d db) rid (n + pd_itemsSeen d)"
proof -
  let ?db = "recordPageProgress rid d db"
  have cov: "covered ?db i k = covered db i k" for i k
    by (simp add: covered_def persisted_def has_asset_def)
  obtain r where r: "r \<in> set (db_syncRuns db)" "sr_id r = rid" "sr_itemsSeen r = n"
    using assms(3) by (auto simp: run_at_def)
  have uniq: "s = r" if "s \<in> set (db_syncRuns db)" "sr_id s = rid" for s
  proof -
    have "distinct (map sr_id (db_syncRuns db))"
      using db_wf_parts(2) [OF assms(2)] by (simp add: keys_ok_def)
    then show ?thesis using that r by (metis distinct_map inj_onD)
  qed
  have old: "covered db (sr_id s) k" if "s \<in> set (db_syncRuns db)" "k < sr_itemsSeen s" for s k
    using assms(1) that by (simp add: progress_ok_def)
  have new: "covered db rid k" if "k < n + pd_itemsSeen d" for k
  proof (cases "k < n")
    case True
    then show ?thesis using old [OF r(1)] r by simp
  next
    case False
    then have "covered db rid (n + (k - n))" using that by (intro assms(4)) simp
    then show ?thesis using False by simp
  qed
  show "progress_ok ?db"
    unfolding progress_ok_def cov
  proof (intro ballI allI impI)
    fix s' k
    assume s': "s' \<in> set (db_syncRuns ?db)" "k < sr_itemsSeen s'"
    obtain s where s: "s \<in> set (db_syncRuns db)" "s' = (if sr_id s = rid then add_progress d s else s)"
      using s'(1) by (auto simp: recordPageProgress_def update_where_def)
    show "covered db (sr_id s') k"
    proof (cases "sr_id s = rid")
      case True
      then have "sr_id s' = rid" "sr_itemsSeen s' = n + pd_itemsSeen d"
        using s uniq [OF s(1)] r by (simp_all add: add_progress_def)
      then show ?thesis using new s'(2) by simp
    next
      case False
      then show ?thesis using s s'(2) old by simp
    qed
  qed
  have "add_progress d r \<in> set (db_syncRuns ?db)"
    using r by (auto simp: recordPageProgress_def update_where_def image_iff intro!: bexI [of _ r])
  then show "run_at ?db rid (n + pd_itemsSeen d)"
    unfolding run_at_def by (rule rev_bexI) (simp add: add_progress_def r)
qed

lemma page_progress:
  assumes "sync_page env opts runId page loc w = (r, loc', w')"
    "progress_ok (sw_db w)" "db_wf (sw_db w)" "run_at (sw_db w) runId (sl_itemsSeen loc)"
  shows "progress_ok (sw_db w') \<and> db_wf (sw_db w')
      \<and> (r = Inr () \<longrightarrow> run_at (sw_db w') runId (sl_itemsSeen loc'))"
proof -
  let ?in = "page_input_of opts runId (sl_itemsSeen loc) page"
  have wf: "db_wf (sw_db w')" using sync_wf.page [OF assms(1,3)] .
  obtain r1 w1 where 1: "db_call env (\<lambda>now. recordPage now ?in) w = (r1, w1)" by fastforce
  have k1: "db_syncRuns (sw_db w1) = db_syncRuns (sw_db w)" "grows (sw_db w) (sw_db w1)" "db_wf (sw_db w1)"
    using call_cases [OF 1] grows_page recordPage_wf assms(3) by fastforce+
  have p1: "progress_ok (sw_db w1)" by (rule progress_same_runs [OF assms(2) k1(2,1)])
  show ?thesis
  proof (cases r1)
    case (Inl f)
    then show ?thesis using assms(1) 1 p1 wf by (auto simp: sync_page_def)
  next
    case (Inr u)
    obtain r2 w2 where 2: "sync_items env opts runId (sl_itemsSeen loc + 1) (mg_items page) no_counts w1 = (r2, w2)"
      by fastforce
    note k2 = items_keep [OF 2]
    have p2: "progress_ok (sw_db w2)" by (rule progress_same_runs [OF p1 k2(2,1)])
    show ?thesis
    proof (cases r2)
      case (Inl f)
      then show ?thesis using assms(1) 1 2 Inr p2 wf by (auto simp: sync_page_def)
    next
      case (Inr c)
      let ?d = "page_delta_of page c"
      obtain r3 w3 where 3: "db_call env (updating (\<lambda>now. recordPageProgress runId ?d)) w2 = (r3, w3)"
        by fastforce
      have ends: "w' = w3" "sl_itemsSeen loc' = sl_itemsSeen loc + length (mg_items page)"
        "r = Inr () \<longrightarrow> r3 = Inr ()"
        using assms(1) 1 2 3 Inr \<open>r1 = Inr u\<close> by (cases r3; auto simp: sync_page_def Let_def)+
      obtain now where n: "fst (recordPage now ?in (sw_db w)) = Inr ()" "sw_db w1 = snd (recordPage now ?in (sw_db w))"
        using db_call_Inr' [OF 1 [unfolded \<open>r1 = Inr u\<close>]] by (metis old.unit.exhaust)
      have cov: "covered (sw_db w2) runId (sl_itemsSeen loc + k)" if "k < pd_itemsSeen ?d" for k
      proof -
        have k: "k < length (mg_items page)" using that by (simp add: page_delta_of_def)
        obtain d where d: "d \<in> set (db_dataPoints (sw_db w1))" "dp_syncRunId d = runId"
          "dp_positionOverall d = sl_itemsSeen loc + k" "dp_igMediaId d = mm_id (mg_items page ! k)"
          using recordPage_positions [OF n(1), of k] k unfolding n(2) by (auto simp: page_input_of_def)
        have "d \<in> set (db_dataPoints (sw_db w2))" using d(1) k2(2) by (auto simp: grows_def)
        moreover have "persisted (sw_db w2) (mm_id (mg_items page ! k))"
          using sync_items_persists [OF 2 [unfolded Inr]] k by simp
        ultimately show ?thesis using d unfolding covered_def by metis
      qed
      have at2: "run_at (sw_db w2) runId (sl_itemsSeen loc)"
        using assms(4) run_at_same k1(1) k2(1) by metis
      note adv = progress_advance [where d = "page_delta_of page c", OF p2 k2(3) [OF k1(3)] at2 cov]
      have "sw_db w3 = sw_db w2 \<or> sw_db w3 = recordPageProgress runId ?d (sw_db w2)"
        using call_cases [OF 3] by (auto simp: updating_def)
      then have "progress_ok (sw_db w3)" using p2 adv(1) by auto
      moreover have "run_at (sw_db w3) runId (sl_itemsSeen loc')" if "r = Inr ()"
      proof -
        have "sw_db w3 = recordPageProgress runId ?d (sw_db w2)"
          using db_call_Inr' [OF 3 [unfolded ends(3) [rule_format, OF that]]] by (auto simp: updating_def)
        then show ?thesis using adv(2) ends(2) by (simp add: page_delta_of_def)
      qed
      ultimately show ?thesis using wf ends(1) by simp
    qed
  qed
qed

section \<open>The loop and the run\<close>

lemma loop_progress:
  "sync_loop env opts runId po maxItems wk loc w = (r, loc', w') \<Longrightarrow>
     progress_ok (sw_db w) \<Longrightarrow> db_wf (sw_db w) \<Longrightarrow> run_at (sw_db w) runId (sl_itemsSeen loc) \<Longrightarrow>
     progress_ok (sw_db w') \<and> db_wf (sw_db w')
     \<and> (r = Inr () \<longrightarrow> run_at (sw_db w') runId (sl_itemsSeen loc'))"
proof (induction env opts runId po maxItems wk loc w arbitrary: r loc' w' rule: sync_loop.induct)
  case (1 env opts runId po maxItems wk loc w)
  obtain q n1 where q: "next_page (se_net env) po wk (sw_net w) = (q, n1)" by fastforce
  show ?case
  proof (cases "\<exists>page wk1. q = Inr (Some (page, wk1))")
    case False
    then have "sw_db w' = sw_db w" "loc' = loc"
      using "1.prems"(1) q by (auto simp: sync_loop.simps [of env opts] split: sum.splits option.splits)
    then show ?thesis using "1.prems" by simp
  next
    case True
    then obtain page wk1 where p: "q = Inr (Some (page, wk1))" by blast
    obtain s loc1 w1 where s: "sync_page env opts runId page loc (w\<lparr>sw_net := n1\<rparr>) = (s, loc1, w1)"
      by (metis prod_cases3)
    have P1: "progress_ok (sw_db w1) \<and> db_wf (sw_db w1) \<and> (s = Inr () \<longrightarrow> run_at (sw_db w1) runId (sl_itemsSeen loc1))"
      using page_progress [OF s] "1.prems"(2-4) by simp
    show ?thesis
    proof (cases "s = Inr () \<and> \<not> maxItems \<le> int (sl_itemsSeen loc1)")
      case True
      then have "sync_loop env opts runId po maxItems wk1 loc1 w1 = (r, loc', w')"
        using "1.prems"(1) q p s by (simp add: sync_loop.simps [of env opts runId po maxItems wk loc w])
      then show ?thesis
        using "1.IH" q p s True P1 by metis
    next
      case False
      then have "w' = w1" "sl_itemsSeen loc' = sl_itemsSeen loc1" "r = Inr () \<longrightarrow> s = Inr ()"
        using "1.prems"(1) q p s
        by (auto simp: sync_loop.simps [of env opts runId po maxItems wk loc w] split: sum.splits if_splits)
      then show ?thesis using P1 by simp
    qed
  qed
qed

lemma finishRun_runs:
  "r' \<in> set (db_syncRuns (finishRun now rid out db)) \<Longrightarrow>
     \<exists>r \<in> set (db_syncRuns db). sr_id r = sr_id r' \<and> sr_itemsSeen r = sr_itemsSeen r'"
proof -
  assume "r' \<in> set (db_syncRuns (finishRun now rid out db))"
  then obtain r where "r \<in> set (db_syncRuns db)" "r' = (if sr_id r = rid then finish now out r else r)"
    by (auto simp: finishRun_def update_where_def)
  then show ?thesis by (intro bexI [of _ r]) (simp_all add: finish_def)
qed

lemma progress_finish: "progress_ok db \<Longrightarrow> progress_ok (finishRun now rid out db)"
  by (rule progress_grows [of db]) (auto intro: grows_same dest: finishRun_runs)

lemma progress_mark:
  "progress_ok db \<Longrightarrow> progress_ok (markSyncSucceeded now i kind db)"
  "progress_ok db \<Longrightarrow> progress_ok (markSyncFailed now i msg db)"
  "progress_ok db \<Longrightarrow> progress_ok (snd (setIgHashtagId now i ig db))"
  by (rule progress_same_runs [of db]; simp add: grows_same)+

lemma progress_start: "progress_ok db \<Longrightarrow> progress_ok (snd (startRun now sinp db))"
  by (rule progress_grows [of db]) (auto intro: grows_same simp: startRun_def Let_def new_run_def split: if_splits)

lemma call_progress:
  assumes "db_call env f w = (r, w')" "progress_ok (sw_db w)" "\<And>now. progress_ok (snd (f now (sw_db w)))"
  shows "progress_ok (sw_db w')"
  using call_cases [OF assms(1)] assms(2,3) by auto

lemma two_calls_progress:
  assumes "then_do (db_call env (updating f) w) (\<lambda>u w1. then_do (db_call env (updating g) w1) (\<lambda>u w2. (k, w2))) = (r, w')"
    "progress_ok (sw_db w)" "\<And>now db. progress_ok db \<Longrightarrow> progress_ok (f now db)"
    "\<And>now db. progress_ok db \<Longrightarrow> progress_ok (g now db)"
  shows "progress_ok (sw_db w')"
proof -
  have c: "progress_ok (sw_db v')"
    if "db_call env (updating h) v = (x, v')" "progress_ok (sw_db v)" "\<And>now db. progress_ok db \<Longrightarrow> progress_ok (h now db)"
    for h v x v'
    using call_cases [OF that(1)] that(2,3) by (auto simp: updating_def)
  from assms(1) show ?thesis
  proof (cases rule: then_do_split)
    case (stop x)
    then show ?thesis using c assms(2,3) by blast
  next
    case (go a w1)
    then have P1: "progress_ok (sw_db w1)" using c assms(2,3) by blast
    from go(2) show ?thesis
    proof (cases rule: then_do_split)
      case (stop x)
      then show ?thesis using c P1 assms(4) by blast
    next
      case (go a w2)
      then show ?thesis using c P1 assms(4) by blast
    qed
  qed
qed

lemma succeed_progress:
  "sync_succeed env opts rid loc w = (r, w') \<Longrightarrow> progress_ok (sw_db w) \<Longrightarrow> progress_ok (sw_db w')"
  unfolding sync_succeed_def
  by (erule two_calls_progress) (simp_all add: progress_finish progress_mark)

lemma fail_progress:
  "sync_fail env opts run loc err w = (r, w') \<Longrightarrow> progress_ok (sw_db w) \<Longrightarrow> progress_ok (sw_db w')"
  unfolding sync_fail_def
  by (erule two_calls_progress) (simp_all add: progress_finish progress_mark)

lemma with_run_progress:
  assumes "sync_with_run env opts ig maxItems run w = (r, w')" "progress_ok (sw_db w)" "db_wf (sw_db w)"
    "run_at (sw_db w) (sr_id run) (sr_itemsSeen run)"
  shows "progress_ok (sw_db w')"
proof -
  let ?po = "paginate_options_of env opts ig maxItems run"
  obtain q loc w1 where q: "sync_loop env opts (sr_id run) ?po maxItems (walk_start ?po (sw_net w))
      (start_locals run) w = (q, loc, w1)" by (metis prod_cases3)
  have P1: "progress_ok (sw_db w1)" using loop_progress [OF q assms(2,3)] assms(4) by (simp add: start_locals_def)
  obtain s w2 where s: "sync_succeed env opts (sr_id run) loc w1 = (s, w2)" by fastforce
  have P2: "progress_ok (sw_db w2)" using succeed_progress [OF s P1] .
  consider "q = Inl Crashed" | e where "q = Inl (Threw e)" | u where "q = Inr u"
    by (metis fate.exhaust sum.exhaust)
  then show ?thesis
  proof cases
    case 1
    then show ?thesis using assms(1) q P1 by (simp add: sync_with_run_def Let_def)
  next
    case 2
    then show ?thesis using assms(1) q P1 fail_progress by (simp add: sync_with_run_def Let_def)
  next
    case 3
    consider e where "s = Inl (Threw e)" | "\<not> (\<exists>e. s = Inl (Threw e))" by blast
    then show ?thesis
    proof cases
      case 1
      then show ?thesis using assms(1) q s P2 3 fail_progress by (simp add: sync_with_run_def Let_def)
    next
      case 2
      then have "w' = w2"
        using assms(1) q s 3 by (auto simp: sync_with_run_def Let_def split: sum.splits fate.splits)
      then show ?thesis using P2 by simp
    qed
  qed
qed


lemma obtain_run_progress:
  assumes "obtain_run env opts w = (r, w')" "progress_ok (sw_db w)" "db_wf (sw_db w)"
  shows "progress_ok (sw_db w') \<and> db_wf (sw_db w')
      \<and> (\<forall>run. r = Inr run \<longrightarrow> run_at (sw_db w') (sr_id run) (sr_itemsSeen run))"
  using assms(1) unfolding obtain_run_def
proof (cases rule: then_do_split)
  case (stop f)
  then have "sw_db w' = sw_db w" using call_cases [OF stop(1)] by (simp add: reading_def)
  then show ?thesis using stop assms(2,3) by simp
next
  case (go resumable w1)
  have db1: "sw_db w1 = sw_db w"
    and found: "resumable = findResumableRun (JOB_TYPE_FOR_KIND (sy_kind opts)) (sy_hashtagId opts) (sw_db w)"
    using db_call_Inr' [OF go(1)] by (auto simp: reading_def)
  show ?thesis
  proof (cases resumable)
    case (Some run)
    then have "run \<in> set (db_syncRuns (sw_db w))" using found findResumableRun_running by metis
    then show ?thesis using go(2) Some assms(2,3) db1 by (auto simp: run_at_def)
  next
    case None
    let ?si = "\<lparr>si_type = JOB_TYPE_FOR_KIND (sy_kind opts), si_hashtagId = sy_hashtagId opts,
                si_messageId = sy_messageId opts, si_attempt = sy_attempt opts\<rparr>"
    have c: "db_call env (\<lambda>now. startRun now ?si) w1 = (r, w')" using go(2) None by simp
    have "progress_ok (sw_db w')" "db_wf (sw_db w')"
      using call_cases [OF c] assms(2,3) db1 progress_start startRun_wf by auto
    moreover have "run_at (sw_db w') (sr_id run) (sr_itemsSeen run)" if "r = Inr run" for run
    proof -
      have c': "db_call env (\<lambda>now. startRun now ?si) w1 = (Inr run, w')" using c that by simp
      obtain now where "fst (startRun now ?si (sw_db w1)) = Inr run" "sw_db w' = snd (startRun now ?si (sw_db w1))"
        using db_call_Inr' [OF c'] by (metis fst_conv snd_conv)
      then show ?thesis using startRun_ok(1) unfolding run_at_def by metis
    qed
    ultimately show ?thesis by blast
  qed
qed

lemma resolve_progress:
  assumes "resolve_step env h w = (r, w')" "progress_ok (sw_db w)" "db_wf (sw_db w)"
  shows "progress_ok (sw_db w') \<and> db_wf (sw_db w')"
proof (cases "truthy_url (ht_igHashtagId h)")
  case True
  then show ?thesis using assms by (simp add: resolve_step_def)
next
  case False
  obtain q n1 where q: "resolveHashtagId (se_net env) (ht_name h) (sw_net w) = (q, n1)" by fastforce
  show ?thesis
  proof (cases q)
    case (Inl e)
    then show ?thesis using assms q False by (auto simp: resolve_step_def)
  next
    case (Inr ig)
    obtain y w3 where y: "db_call env (\<lambda>now. setIgHashtagId now (ht_id h) ig) (w\<lparr>sw_net := n1\<rparr>) = (y, w3)"
      by fastforce
    have "progress_ok (sw_db w3) \<and> db_wf (sw_db w3)"
      using call_cases [OF y] assms(2,3) progress_mark(3) setIgHashtagId_wf by auto
    then show ?thesis
      using assms(1) q False Inr y by (cases y) (simp_all add: resolve_step_def then_do_def)
  qed
qed

lemma runSync_progress:
  assumes "runSync env opts w = (r, w')" "progress_ok (sw_db w)" "db_wf (sw_db w)"
  shows "progress_ok (sw_db w')"
proof -
  have rd: "sw_db w2 = sw_db w1" if "db_call env (reading f) w1 = (x, w2)" for f w1 x w2
    using call_cases [OF that] by (simp add: reading_def)
  from assms(1) show ?thesis
    unfolding runSync_def
  proof (cases rule: then_do_split)
    case (stop f)
    then show ?thesis using rd assms(2) by metis
  next
    case (go found w1)
    note d1 = rd [OF go(1)]
    show ?thesis
    proof (cases found)
      case None
      then show ?thesis using go d1 assms(2) by simp
    next
      case (Some h)
      then have "then_do (resolve_step env h w1) (\<lambda>ig w2. then_do (obtain_run env opts w2)
          (\<lambda>run w3. sync_with_run env opts ig
             (case ht_maxMediaPerSync h of None \<Rightarrow> se_maxMediaPerRun env | Some m \<Rightarrow> m) run w3)) = (r, w')"
        using go(2) by simp
      then show ?thesis
      proof (cases rule: then_do_split)
        case (stop f)
        then show ?thesis using resolve_progress assms(2,3) d1 by metis
      next
        case (go ig w2)
        have P2: "progress_ok (sw_db w2) \<and> db_wf (sw_db w2)"
          using resolve_progress [OF go(1)] assms(2,3) d1 by simp
        from go(2) show ?thesis
        proof (cases rule: then_do_split)
          case (stop f)
          then show ?thesis using obtain_run_progress P2 by blast
        next
          case (go run w3)
          then show ?thesis using obtain_run_progress [OF go(1)] P2 with_run_progress by blast
        qed
      qed
    qed
  qed
qed

text \<open>What holds of the work under the lock holds of the whole.\<close>

lemma with_lock_db:
  assumes "withAdvisoryLock env key fn w = (r, w')"
  shows "sw_db w' = sw_db w \<or> (\<exists>v x v'. sw_db v = sw_db w \<and> fn v = (x, v') \<and> sw_db w' = sw_db v')"
proof -
  let ?k = "se_lock_hash env key"
  let ?v = "w\<lparr>sw_calls := Suc (sw_calls w), sw_locks := ?k # sw_locks w\<rparr>"
  obtain x w2 where x: "fn ?v = (x, w2)" by fastforce
  have "sw_db w' = sw_db w \<or> sw_db w' = sw_db w2"
    using assms x
    by (auto simp: withAdvisoryLock_def Let_def split: option.splits fault.splits if_splits sum.splits fate.splits)
  moreover have "sw_db ?v = sw_db w" by simp
  ultimately show ?thesis using x by blast
qed


lemma sync_progress:
  assumes "sync env opts w = (r, w')" "progress_ok (sw_db w)" "db_wf (sw_db w)"
  shows "progress_ok (sw_db w')"
proof -
  let ?key = "syncLockKey (sy_hashtagId opts) (sy_kind opts)"
  obtain q w1 where q: "withAdvisoryLock env ?key (runSync env opts) w = (q, w1)" by fastforce
  have "sw_db w' = sw_db w1"
    using assms(1) q by (auto simp: sync_def then_do_def split: sum.splits option.splits)
  then show ?thesis
    using with_lock_db [OF q] runSync_progress assms(2,3) by metis
qed

section \<open>The lock\<close>

text \<open>Whether the lock is free again, and that the work runs only under it.\<close>

lemma lock_busy:
  assumes "se_lock_hash env key \<in> set (sw_locks w)" "se_fault env (sw_calls w) = None"
  shows "withAdvisoryLock env key fn w = (Inr None, w\<lparr>sw_calls := Suc (sw_calls w)\<rparr>)"
  using assms by (simp add: withAdvisoryLock_def Let_def)

lemma lock_released:
  assumes "withAdvisoryLock env key fn w = (r, w')" "\<And>v x v'. fn v = (x, v') \<Longrightarrow> sw_locks v' = sw_locks v"
    "\<And>n e. se_fault env n \<noteq> Some (Reject e)" "\<And>n e. se_fault env n \<noteq> Some (Lose e)"
  shows "sw_locks w' = sw_locks w"
proof -
  let ?k = "se_lock_hash env key"
  let ?v = "w\<lparr>sw_calls := Suc (sw_calls w), sw_locks := ?k # sw_locks w\<rparr>"
  obtain x w2 where x: "fn ?v = (x, w2)" by fastforce
  have "sw_locks w2 = ?k # sw_locks w" using assms(2) [OF x] by simp
  then show ?thesis
    using assms(1,3,4) x
    by (auto simp: withAdvisoryLock_def Let_def split: option.splits fault.splits if_splits sum.splits fate.splits)
qed

text \<open>The unlock runs on the error path too: a thrown error comes out with the lock released.\<close>

lemma lock_released_on_error:
  assumes "se_lock_hash env key \<notin> set (sw_locks w)" "se_fault env (sw_calls w) = None"
    "fn (w\<lparr>sw_calls := Suc (sw_calls w), sw_locks := se_lock_hash env key # sw_locks w\<rparr>) = (Inl (Threw e), w2)"
    "sw_locks w2 = se_lock_hash env key # sw_locks w" "se_fault env (sw_calls w2) = None"
  shows "withAdvisoryLock env key fn w =
      (Inl (Threw e), w2\<lparr>sw_locks := sw_locks w, sw_calls := Suc (sw_calls w2)\<rparr>)"
  using assms by (simp add: withAdvisoryLock_def Let_def)

section \<open>The recorded outcome\<close>

text \<open>A run that is reported as finished is recorded as succeeded, one that threw as partial or failed.\<close>

definition run_recorded :: "database \<Rightarrow> uuid \<Rightarrow> sync_run_status \<Rightarrow> bool" where
  "run_recorded db rid status \<longleftrightarrow>
     (\<forall>r \<in> set (db_syncRuns db). sr_id r = rid \<longrightarrow> sr_status r = status \<and> sr_finishedAt r \<noteq> None)"

lemma run_recorded_finish: "run_recorded (finishRun now rid out db) rid (ro_status out)"
proof -
  have "sr_status r = ro_status out \<and> sr_finishedAt r \<noteq> None"
    if mem: "r \<in> set (db_syncRuns (finishRun now rid out db))" "sr_id r = rid" for r
  proof -
    have "r \<in> (\<lambda>q. if sr_id q = rid then finish now out q else q) ` set (db_syncRuns db)"
      using mem(1) by (simp add: finishRun_def update_where_def)
    then obtain q where "r = (if sr_id q = rid then finish now out q else q)" by blast
    then show ?thesis using mem(2) by (cases "sr_id q = rid") (simp_all add: finish_def)
  qed
  then show ?thesis by (simp only: run_recorded_def) blast
qed

lemma run_recorded_mark [simp]:
  "run_recorded (markSyncSucceeded now i kind db) rid st = run_recorded db rid st"
  "run_recorded (markSyncFailed now i msg db) rid st = run_recorded db rid st"
proof -
  have "db_syncRuns (markSyncSucceeded now i kind db) = db_syncRuns db"
    "db_syncRuns (markSyncFailed now i msg db) = db_syncRuns db"
    by (simp_all add: markSyncSucceeded_def markSyncFailed_def)
  then show "run_recorded (markSyncSucceeded now i kind db) rid st = run_recorded db rid st"
    "run_recorded (markSyncFailed now i msg db) rid st = run_recorded db rid st"
    by (simp_all only: run_recorded_def)
qed

lemma succeed_recorded:
  assumes "sync_succeed env opts rid loc w = (Inr out, w')"
  shows "run_recorded (sw_db w') rid Succeeded" "so_syncRunId out = Some rid"
    "so_itemsSeen out = sl_itemsSeen loc"
proof -
  from assms have "run_recorded (sw_db w') rid Succeeded \<and> so_syncRunId out = Some rid
      \<and> so_itemsSeen out = sl_itemsSeen loc"
    unfolding sync_succeed_def
  proof (cases rule: then_do_split)
    case (go u w1)
    let ?out = "\<lparr>ro_status = Succeeded, ro_error = None, ro_hitItemCap = sl_hitItemCap loc\<rparr>"
    obtain now where "sw_db w1 = finishRun now rid ?out (sw_db w)"
      using db_call_Inr' [OF go(1)] unfolding updating_def by (metis snd_conv)
    then have 1: "run_recorded (sw_db w1) rid Succeeded"
      using run_recorded_finish [of now rid ?out "sw_db w"] by simp
    from go(2) show ?thesis
    proof (cases rule: then_do_split)
      case (go u w2)
      obtain now where "sw_db w2 = markSyncSucceeded now (sy_hashtagId opts) (sy_kind opts) (sw_db w1)"
        using db_call_Inr' [OF go(1)] unfolding updating_def by (metis snd_conv)
      then have "run_recorded (sw_db w2) rid Succeeded" using 1 by simp
      moreover have "w' = w2" using go(2) by simp
      moreover have "out = \<lparr>so_skipped = False, so_syncRunId = Some rid, so_itemsSeen = sl_itemsSeen loc,
          so_itemsNew = sl_itemsNew loc, so_assetJobsEnqueued = sl_assetJobsEnqueued loc\<rparr>"
        using go(2) by simp
      ultimately show ?thesis by simp
    qed simp
  qed simp
  then show "run_recorded (sw_db w') rid Succeeded" "so_syncRunId out = Some rid"
    "so_itemsSeen out = sl_itemsSeen loc" by simp_all
qed

text \<open>The error path: when both statements go through, the status is recorded and the error rethrown.\<close>

lemma fail_recorded:
  assumes "sync_fail env opts run loc err w = (r, w')"
    "se_fault env (sw_calls w) = None" "se_fault env (Suc (sw_calls w)) = None"
  shows "r = Inl (Threw err)" "run_recorded (sw_db w') (sr_id run) (fail_status run loc)"
proof -
  let ?out = "\<lparr>ro_status = fail_status run loc, ro_error = Some (error_message err),
    ro_hitItemCap = sl_hitItemCap loc\<rparr>"
  have "r = Inl (Threw err)
      \<and> sw_db w' = markSyncFailed (se_now env (Suc (sw_calls w))) (sy_hashtagId opts) (error_message err)
          (finishRun (se_now env (sw_calls w)) (sr_id run) ?out (sw_db w))"
    using assms by (auto simp: sync_fail_def db_call_def with_fault_def updating_def then_do_def)
  then show "r = Inl (Threw err)" "run_recorded (sw_db w') (sr_id run) (fail_status run loc)"
    using run_recorded_finish [of _ "sr_id run" ?out] by simp_all
qed

text \<open>
  After the error path the run is not found again: the next delivery starts a new one, although
  the cursor and the progress of the old one are still recorded.
\<close>

lemma fail_not_resumable:
  assumes "sync_fail env opts run loc err w = (r, w')"
    "se_fault env (sw_calls w) = None" "se_fault env (Suc (sw_calls w)) = None"
    "findResumableRun ty hid (sw_db w') = Some run'"
  shows "sr_id run' \<noteq> sr_id run"
proof
  assume same: "sr_id run' = sr_id run"
  have "run' \<in> set (db_syncRuns (sw_db w'))" "sr_status run' = Running"
    using findResumableRun_running [OF assms(4)] by (simp_all add: resumable_def)
  then have "fail_status run loc = Running"
    using fail_recorded(2) [OF assms(1-3)] same by (auto simp: run_recorded_def)
  then show False by (simp add: fail_status_def split: if_splits)
qed

section \<open>What a reported result means\<close>

text \<open>
  A sync that ran and returned: its run is recorded as succeeded, and of each of the items it reports
  as seen there are a raw row, a post and an asset row.
\<close>

definition result_recorded :: "database \<Rightarrow> sync_outcome \<Rightarrow> bool" where
  "result_recorded db out \<longleftrightarrow>
     (\<exists>rid. so_syncRunId out = Some rid \<and> run_recorded db rid Succeeded \<and> run_at db rid (so_itemsSeen out)
       \<and> (\<forall>k < so_itemsSeen out. covered db rid k))"

lemma succeed_result:
  assumes "sync_succeed env opts rid loc w = (Inr out, w')" "progress_ok (sw_db w)" "run_at (sw_db w) rid (sl_itemsSeen loc)"
  shows "result_recorded (sw_db w') out"
proof -
  note rec = succeed_recorded [OF assms(1)]
  have P: "progress_ok (sw_db w')" using succeed_progress [OF assms(1,2)] .
  have fin: "run_at (finishRun now i o1 db) rid n" if at: "run_at db rid n" for now i o1 db n
  proof -
    obtain r where "r \<in> set (db_syncRuns db)" "sr_id r = rid" "sr_itemsSeen r = n"
      using at by (auto simp: run_at_def)
    then show ?thesis
      unfolding run_at_def finishRun_def update_where_def
      by (intro bexI [of _ "if sr_id r = i then finish now o1 r else r"]) (auto simp: finish_def)
  qed
  have mark: "run_at (markSyncSucceeded now i kind db) rid n" if "run_at db rid n" for now i kind db n
    using that run_at_same [of "markSyncSucceeded now i kind db" db] by (simp add: markSyncSucceeded_def)
  have "run_at (sw_db w') rid (sl_itemsSeen loc)"
    using assms(1) unfolding sync_succeed_def
  proof (cases rule: then_do_split)
    case (go u w1)
    obtain now where "sw_db w1 = finishRun now rid \<lparr>ro_status = Succeeded, ro_error = None,
        ro_hitItemCap = sl_hitItemCap loc\<rparr> (sw_db w)"
      using db_call_Inr' [OF go(1)] unfolding updating_def by (metis snd_conv)
    then have A: "run_at (sw_db w1) rid (sl_itemsSeen loc)" using fin assms(3) by simp
    from go(2) show ?thesis
    proof (cases rule: then_do_split)
      case (go u w2)
      obtain now where "sw_db w2 = markSyncSucceeded now (sy_hashtagId opts) (sy_kind opts) (sw_db w1)"
        using db_call_Inr' [OF go(1)] unfolding updating_def by (metis snd_conv)
      moreover have "w' = w2" using go(2) by simp
      ultimately show ?thesis using mark A by simp
    qed simp
  qed simp
  moreover have "covered (sw_db w') rid k" if k: "k < sl_itemsSeen loc" for k
  proof -
    obtain r where "r \<in> set (db_syncRuns (sw_db w'))" "sr_id r = rid" "sr_itemsSeen r = sl_itemsSeen loc"
      using \<open>run_at (sw_db w') rid (sl_itemsSeen loc)\<close> by (auto simp: run_at_def)
    then show ?thesis using P k unfolding progress_ok_def by metis
  qed
  ultimately show ?thesis using rec unfolding result_recorded_def by auto
qed

lemma sync_fail_Inr: "sync_fail env opts run loc err w \<noteq> (Inr out, w')"
  by (auto simp: sync_fail_def then_do_def split: sum.splits prod.splits)

lemma with_run_result:
  assumes "sync_with_run env opts ig maxItems run w = (Inr out, w')" "progress_ok (sw_db w)" "db_wf (sw_db w)"
    "run_at (sw_db w) (sr_id run) (sr_itemsSeen run)"
  shows "result_recorded (sw_db w') out"
proof -
  let ?po = "paginate_options_of env opts ig maxItems run"
  obtain q loc w1 where q: "sync_loop env opts (sr_id run) ?po maxItems (walk_start ?po (sw_net w))
      (start_locals run) w = (q, loc, w1)" by (metis prod_cases3)
  have L: "progress_ok (sw_db w1)" "q = Inr () \<Longrightarrow> run_at (sw_db w1) (sr_id run) (sl_itemsSeen loc)"
    using loop_progress [OF q assms(2,3)] assms(4) by (simp_all add: start_locals_def)
  have "q = Inr ()"
    using assms(1) q by (cases q) (auto simp: sync_with_run_def Let_def sync_fail_Inr split: fate.splits)
  moreover from this have "sync_succeed env opts (sr_id run) loc w1 = (Inr out, w')"
    using assms(1) q
    by (auto simp: sync_with_run_def Let_def sync_fail_Inr split: prod.splits sum.splits fate.splits)
  ultimately show ?thesis using succeed_result L by blast
qed

lemma runSync_result:
  assumes "runSync env opts w = (Inr out, w')" "progress_ok (sw_db w)" "db_wf (sw_db w)"
  shows "result_recorded (sw_db w') out"
proof -
  have rd: "sw_db w2 = sw_db w1" if "db_call env (reading f) w1 = (x, w2)" for f w1 x w2
    using call_cases [OF that] by (simp add: reading_def)
  from assms(1) show ?thesis
    unfolding runSync_def
  proof (cases rule: then_do_split)
    case (go found w1)
    note d1 = rd [OF go(1)]
    obtain h where h: "found = Some h" using go(2) by (cases found) auto
    from go(2) show ?thesis unfolding h option.case
    proof (cases rule: then_do_split)
      case (go ig w2)
      have P2: "progress_ok (sw_db w2) \<and> db_wf (sw_db w2)"
        using resolve_progress [OF go(1)] assms(2,3) d1 by simp
      from go(2) show ?thesis
      proof (cases rule: then_do_split)
        case (go run w3)
        then show ?thesis using obtain_run_progress [OF go(1)] P2 with_run_result by blast
      qed simp
    qed simp
  qed simp
qed

lemma with_lock_Some:
  assumes "withAdvisoryLock env key fn w = (Inr (Some a), w')"
  shows "\<exists>v v'. sw_db v = sw_db w \<and> fn v = (Inr a, v') \<and> sw_db w' = sw_db v'"
proof -
  let ?k = "se_lock_hash env key"
  let ?v = "w\<lparr>sw_calls := Suc (sw_calls w), sw_locks := ?k # sw_locks w\<rparr>"
  obtain x w2 where x: "fn ?v = (x, w2)" by fastforce
  have "x = Inr a \<and> sw_db w' = sw_db w2"
    using assms x
    by (auto simp: withAdvisoryLock_def Let_def split: option.splits fault.splits if_splits sum.splits fate.splits)
  moreover have "sw_db ?v = sw_db w" by simp
  ultimately show ?thesis using x by blast
qed

lemma sync_result:
  assumes "sync env opts w = (Inr out, w')" "\<not> so_skipped out" "progress_ok (sw_db w)" "db_wf (sw_db w)"
  shows "result_recorded (sw_db w') out"
proof -
  let ?key = "syncLockKey (sy_hashtagId opts) (sy_kind opts)"
  from assms(1) show ?thesis
    unfolding sync_def
  proof (cases rule: then_do_split)
    case (go locked w1)
    have l: "locked = Some out" "w1 = w'" using go(2) assms(2) by (auto split: option.splits)
    show ?thesis
      using with_lock_Some [OF go(1) [unfolded l]] runSync_result assms(3,4) by metis
  qed simp
qed

end
