(* ===== verification/Demo.thy ===== *)
theory Demo
  imports Consumers Sync_Correct
begin

text \<open>
  A small concrete deployment, on which properties with hypotheses are instantiated: one resolved
  hashtag, a Graph API that serves one page of two posts, the in-memory queue.
\<close>

definition demo_body :: jstr where
  "demo_body = js ''{\"data\":[{\"id\":\"1\",\"media_type\":\"IMAGE\",\"permalink\":\"p1\",\"timestamp\":\"t\",\"media_url\":\"u1\"},{\"id\":\"2\",\"media_type\":\"VIDEO\",\"permalink\":\"p2\",\"timestamp\":\"t\"}]}''"

definition demo_net :: net_env where
  "demo_net = \<lparr>ne_fetch = (\<lambda>n u. Response 200 \<lparr>x_app_usage = None, x_business_use_case_usage = None\<rparr> demo_body),
     ne_jitter = (\<lambda>_. 0), ne_abort = (\<lambda>_. False), ne_threshold = 80, ne_token = js ''token'',
     ne_igUserId = js ''17'', ne_is_url = (\<lambda>_. True), ne_url_text = mu_path, ne_number_text = (\<lambda>_. []),
     ne_issue_text = (\<lambda>_. [])\<rparr>"

definition demo_env :: "(nat \<Rightarrow> fault option) \<Rightarrow> (mem_queue, uuid) sync_env" where
  "demo_env faults = \<lparr>se_net = demo_net, se_unicode = ascii_unicode, se_date_parse = (\<lambda>_. Some 5), se_now = (\<lambda>n. 100 + int n),
     se_fault = faults, se_enqueue = (\<lambda>now. mem_enqueue now 0), se_lock_hash = (\<lambda>s. sum_list (map int s)),
     se_maxMediaPerRun = 500, se_pageSize = 25\<rparr>"

definition demo_hashtag :: hashtag where
  "demo_hashtag = new_hashtag 0 0 (js ''matcha'') \<lparr>ti_name = [], ti_trackFrom = None, ti_trackUntil = None, ti_notes = None\<rparr>
     \<lparr>ht_igHashtagId := Some (js ''99'')\<rparr>"

definition demo_db :: database where
  "demo_db = empty_db\<lparr>db_hashtags := [demo_hashtag], db_next := 1\<rparr>"

definition demo_world :: "mem_queue sync_world" where
  "demo_world = \<lparr>sw_db = demo_db, sw_queue = mem_empty, sw_net = net_start, sw_locks = [], sw_calls = 0\<rparr>"

definition demo_options :: sync_options where
  "demo_options = \<lparr>sy_hashtagId = 0, sy_kind = Top, sy_messageId = None, sy_attempt = None\<rparr>"

lemma demo_db_wf: "db_wf demo_db"
  by (simp add: demo_db_def empty_db_def wf_defs id_defs resolved_names_def demo_hashtag_def new_hashtag_def)

lemma demo_progress: "progress_ok demo_db"
  by (simp add: progress_ok_def demo_db_def empty_db_def)

lemma demo_world_ok: "db_wf (sw_db demo_world)" "progress_ok (sw_db demo_world)"
  using demo_db_wf demo_progress by (simp_all add: demo_world_def)

lemma demo_run: "fst (sync (demo_env (\<lambda>_. None)) demo_options demo_world) =
   Inr \<lparr>so_skipped = False, so_syncRunId = Some 1, so_itemsSeen = 2, so_itemsNew = 2, so_assetJobsEnqueued = 1\<rparr>"
  by code_simp

definition demo_syncRun :: sync_run where
  "demo_syncRun = new_run 0 1 \<lparr>si_type = SYNC_TOP_HASHTAG_MEDIA, si_hashtagId = 0, si_messageId = None, si_attempt = None\<rparr>"

section \<open>A download\<close>

definition demo_sha :: "bytes \<Rightarrow> jstr" where
  "demo_sha b = replicate 64 (48 + sum_list b mod 10)"

lemma demo_sha_digest: "is_digest (demo_sha b)"
proof -
  have "sum_list b mod 10 < 10" by simp
  then have "sum_list b mod 10 \<le> 9" by linarith
  then show ?thesis by (simp add: is_digest_def demo_sha_def hex_char_def)
qed

definition demo_media :: meta_media where
  "demo_media = \<lparr>mm_id = js ''1'', mm_media_type = IMAGE, mm_timestamp = js ''t'', mm_permalink = js ''p'',
     mm_media_url = Some (js ''u''), mm_caption = None, mm_like_count = None, mm_comments_count = None\<rparr>"

definition demo_post :: media_post where
  "demo_post = new_post ascii_unicode 0 2 0 \<lparr>ui_media = demo_media, ui_hashtagId = 0, ui_syncRunId = 1, ui_source = Top, ui_rank = 1\<rparr>"

definition demo_asset :: media_asset where
  "demo_asset = new_asset 0 3 2 (Some (js ''u''))"

definition demo_asset_db :: database where
  "demo_asset_db = demo_db\<lparr>db_mediaPosts := [demo_post], db_assets := [demo_asset], db_next := 4\<rparr>"

definition demo_asset_env :: "file_system asset_env" where
  "demo_asset_env = \<lparr>ac_fault = (\<lambda>_. None), ac_now = (\<lambda>n. 100 + int n),
     ac_fetch = (\<lambda>_ _ _. Inr \<lparr>cd_status = 200, cd_body = Some (Inr [7, 8, 9]), cd_contentType = None\<rparr>),
     ac_write = (\<lambda>b. b), ac_sha256 = demo_sha, ac_unicode = ascii_unicode,
     ac_exists = disk_exists [js ''storage''], ac_put = disk_put 1 None [js ''storage''], ac_provider = ''local'',
     ac_timeoutMs = 60000\<rparr>"

definition demo_asset_world :: "file_system asset_world" where
  "demo_asset_world = \<lparr>aw_db = demo_asset_db, aw_store = (\<lambda>_. None), aw_workDirs = 0, aw_calls = 0\<rparr>"

lemma disk_content_empty: "disk_content dir (\<lambda>_. None) k = None"
  by (simp add: disk_content_def split: sum.split)

lemma demo_pending: "ma_status demo_asset = Pending"
  by (simp add: demo_asset_def new_asset_def truthy_url_def js_def)

lemma demo_asset_ok:
  "disk.addressed [js ''storage''] (ac_sha256 demo_asset_env) (aw_store demo_asset_world)"
  "disk.backed [js ''storage''] (aw_db demo_asset_world) (aw_store demo_asset_world)"
proof -
  have s: "aw_store demo_asset_world = (\<lambda>_. None)" "db_assets (aw_db demo_asset_world) = [demo_asset]"
    by (simp_all add: demo_asset_world_def demo_asset_db_def)
  show "disk.addressed [js ''storage''] (ac_sha256 demo_asset_env) (aw_store demo_asset_world)"
    unfolding disk.addressed_def s disk_content_empty by simp
  show "disk.backed [js ''storage''] (aw_db demo_asset_world) (aw_store demo_asset_world)"
    unfolding disk.backed_def disk.backed_row_def s using demo_pending by simp
qed

lemma demo_missing: "findPostById 77 (aw_db demo_asset_world) = None" "aw_calls demo_asset_world = 0"
  by (simp_all add: demo_asset_world_def demo_asset_db_def findPostById_def find_row_def demo_post_def)

lemma demo_asset_facts:
  "ac_fault demo_asset_env n = None" "findPostById 2 (aw_db demo_asset_world) = Some demo_post"
  "findByMediaId 2 (aw_db demo_asset_world) = Some demo_asset" "ma_status demo_asset \<noteq> Stored"
  "truthy_url (sourceUrl_of demo_post (Some demo_asset))" "ma_attempts demo_asset = 0"
  by (simp_all add: demo_asset_env_def demo_asset_world_def demo_asset_db_def findPostById_def findByMediaId_def
      find_row_def demo_post_def demo_asset_def new_asset_def truthy_url_def sourceUrl_of_def js_def)

lemma demo_env_simps:
  "ac_fault demo_asset_env n = None" "ac_write demo_asset_env b = b" "ac_sha256 demo_asset_env = demo_sha"
  "ac_exists demo_asset_env = disk_exists [js ''storage'']" "ac_put demo_asset_env = disk_put 1 None [js ''storage'']"
  "ac_fetch demo_asset_env n sg url = Inr \<lparr>cd_status = 200, cd_body = Some (Inr [7, 8, 9]), cd_contentType = None\<rparr>"
  "aw_store demo_asset_world = (\<lambda>_. None)"
  by (simp_all add: demo_asset_env_def demo_asset_world_def)

lemma demo_download:
  "fst (download demo_asset_env 2 None demo_asset_world) =
     Inr \<lparr>dr_status = Dl_Stored, dr_sha256 = Some (demo_sha [7, 8, 9]),
       dr_storageKey = Some (contentAddressedKey (demo_sha [7, 8, 9]) (js ''.bin'')), dr_sizeBytes = Some 3\<rparr>"
proof -
  have "js ''.bin'' \<in> known_extensions" by (simp add: known_extensions_def)
  then have k: "disk_resolve [js ''storage''] (contentAddressedKey (demo_sha b) (js ''.bin'')) =
      Inr ([js ''storage''] @ key_segments (demo_sha b) (js ''.bin''))" for b
    using disk_resolve_key [OF demo_sha_digest] by blast
  show ?thesis
    using demo_asset_facts(2-5)
    by (simp add: download_def asset_db_ok then_do_def asset_mkdtemp_def with_fault_def download_try_def
        asset_fetch_def http_ok_def store_bytes_def Let_def asset_store_ok disk_exists_def k upload_new_def
        disk_put_def download_catch_def download_finally_def demo_env_simps demo_missing
        extensionForContentType_def)
qed

section \<open>The worker\<close>

definition demo_app :: "(nat \<Rightarrow> fault option) \<Rightarrow> (mem_queue, uuid, file_system) app_env" where
  "demo_app faults = \<lparr>ap_sync = demo_env faults, ap_asset = demo_asset_env,
     ap_enqueueBatch = (\<lambda>now. mem_enqueueBatch now 0), ap_showId = uuid_show\<rparr>"

definition demo_app_world :: "(mem_queue, file_system) app_world" where
  "demo_app_world = \<lparr>pw_sync = demo_world, pw_store = (\<lambda>_. None), pw_workDirs = 0\<rparr>"

end
