(* ===== verification/Pipeline_Properties.thy ===== *)
theory Pipeline_Properties
  imports Consumers Sync_Correct Demo
begin

text \<open>
  The properties of the sync service, the asset service and the job handlers: what survives every
  failure, and what a reported result means.
\<close>

section \<open>Sync\<close>

text \<open>
  C1. Whatever fails during a sync, and wherever the process dies, every item a sync run counts as
  seen has its raw payload row, its post and its asset row: the recorded progress never runs ahead
  of what is persisted.
\<close>

theorem sync_progress_behind_persistence:
  assumes "db_wf (sw_db w)" "progress_ok (sw_db w)"
  shows "progress_ok (sw_db (snd (sync env opts w)))"
  using assms sync_progress prod.collapse by metis

theorem sync_progress_behind_persistence_witness:
  "db_wf demo_db \<and> progress_ok demo_db
   \<and> progress_ok (sw_db (snd (sync (demo_env (\<lambda>n. if n = 9 then Some Crash_After else None)) demo_options demo_world)))"
  using sync_progress_behind_persistence [of demo_world] demo_world_ok demo_db_wf demo_progress by blast

text \<open>
  C2. A sync that ran and returned reports its run; that run is recorded as succeeded, with as many
  items as are reported, and each of them has its raw row, its post and its asset row.
\<close>

theorem sync_result_recorded:
  assumes "db_wf (sw_db w)" "progress_ok (sw_db w)" "fst (sync env opts w) = Inr out" "\<not> so_skipped out"
  shows "result_recorded (sw_db (snd (sync env opts w))) out"
  using assms sync_result prod.collapse by metis

theorem sync_result_recorded_witness:
  "result_recorded (sw_db (snd (sync (demo_env (\<lambda>_. None)) demo_options demo_world)))
     \<lparr>so_skipped = False, so_syncRunId = Some 1, so_itemsSeen = 2, so_itemsNew = 2, so_assetJobsEnqueued = 1\<rparr>"
  using sync_result_recorded [of demo_world "demo_env (\<lambda>_. None)" demo_options] demo_run demo_world_ok by simp

text \<open>
  Two syncs of the same hashtag and kind never run together: when the lock is held, the second
  one reports that it was skipped and touches neither the database nor the queue nor the network.
\<close>

theorem sync_skips_when_locked:
  assumes "se_lock_hash env (syncLockKey (sy_hashtagId opts) (sy_kind opts)) \<in> set (sw_locks w)"
    "se_fault env (sw_calls w) = None"
  shows "sync env opts w =
    (Inr \<lparr>so_skipped = True, so_syncRunId = None, so_itemsSeen = 0, so_itemsNew = 0, so_assetJobsEnqueued = 0\<rparr>,
     w\<lparr>sw_calls := Suc (sw_calls w)\<rparr>)"
  using lock_busy [OF assms, of "runSync env opts"] by (simp add: sync_def then_do_def)

theorem sync_skips_when_locked_witness:
  "fst (sync (demo_env (\<lambda>_. None)) demo_options
     (demo_world\<lparr>sw_locks := [se_lock_hash (demo_env (\<lambda>_. None)) (syncLockKey 0 Top)]\<rparr>)) =
   Inr \<lparr>so_skipped = True, so_syncRunId = None, so_itemsSeen = 0, so_itemsNew = 0, so_assetJobsEnqueued = 0\<rparr>"
  by (subst sync_skips_when_locked) (simp_all add: demo_options_def demo_env_def)

text \<open>
  When the work under the lock throws, the error comes out unchanged and the lock is released.
\<close>

theorem lock_released_when_work_throws:
  assumes "se_lock_hash env key \<notin> set (sw_locks w)" "se_fault env (sw_calls w) = None"
    "fn (w\<lparr>sw_calls := Suc (sw_calls w), sw_locks := se_lock_hash env key # sw_locks w\<rparr>) = (Inl (Threw e), w2)"
    "sw_locks w2 = se_lock_hash env key # sw_locks w" "se_fault env (sw_calls w2) = None"
  shows "fst (withAdvisoryLock env key fn w) = Inl (Threw e)
    \<and> sw_locks (snd (withAdvisoryLock env key fn w)) = sw_locks w"
  using lock_released_on_error [of env key w fn e w2] assms by simp

theorem lock_released_when_work_throws_witness:
  "sw_locks (snd (withAdvisoryLock (demo_env (\<lambda>_. None)) (js ''k'')
     (\<lambda>w. (Inl (Threw (Plain_Error [])) :: fate + unit, w)) demo_world)) = []"
proof -
  let ?env = "demo_env (\<lambda>_. None)" and ?fn = "\<lambda>w. (Inl (Threw (Plain_Error [])) :: fate + unit, w :: mem_queue sync_world)"
  have "sw_locks (snd (withAdvisoryLock ?env (js ''k'') ?fn demo_world)) = sw_locks demo_world"
    using lock_released_when_work_throws [of ?env "js ''k''" demo_world ?fn "Plain_Error []"]
    by (simp add: demo_world_def demo_env_def)
  then show ?thesis by (simp add: demo_world_def)
qed

text \<open>
  When the loop throws and the two bookkeeping statements go through, the error is rethrown, the
  run is recorded as partial (some page landed) or failed, and no later delivery finds it as
  resumable: the next one starts a new run, although the comment on the branch calls it resumable.
\<close>

theorem failed_run_recorded_and_abandoned:
  assumes "se_fault env (sw_calls w) = None" "se_fault env (Suc (sw_calls w)) = None"
  shows "fst (sync_fail env opts run loc err w) = Inl (Threw err)
    \<and> run_recorded (sw_db (snd (sync_fail env opts run loc err w))) (sr_id run)
      (if sl_itemsSeen loc > sr_itemsSeen run then Partial else Failed)
    \<and> (\<forall>ty hid run'. findResumableRun ty hid (sw_db (snd (sync_fail env opts run loc err w))) = Some run' \<longrightarrow>
      sr_id run' \<noteq> sr_id run)"
  using fail_recorded [OF prod.collapse [symmetric] assms]
    fail_not_resumable [OF prod.collapse [symmetric] assms] unfolding fail_status_def by blast

theorem failed_run_recorded_and_abandoned_witness:
  "run_recorded (sw_db (snd (sync_fail (demo_env (\<lambda>_. None)) demo_options demo_syncRun
     \<lparr>sl_itemsSeen = 25, sl_itemsNew = 25, sl_assetJobsEnqueued = 25, sl_hitItemCap = False\<rparr>
     (Plain_Error []) demo_world))) (sr_id demo_syncRun) Partial"
proof -
  let ?loc = "\<lparr>sl_itemsSeen = 25, sl_itemsNew = 25, sl_assetJobsEnqueued = 25, sl_hitItemCap = False\<rparr>"
  have "sl_itemsSeen ?loc > sr_itemsSeen demo_syncRun" by (simp add: demo_syncRun_def new_run_def)
  then show ?thesis
    using failed_run_recorded_and_abandoned [of "demo_env (\<lambda>_. None)" demo_world demo_options demo_syncRun ?loc]
    by (simp add: demo_env_def)
qed

section \<open>The job handlers together\<close>

text \<open>
  However many jobs are handled, in whatever order and with whatever failures, every constraint
  of the database holds, no post loses its identity, its first sighting or its best rank, and the
  history and the raw payloads only grow.
\<close>

theorem handlers_keep_the_data:
  assumes "(consumer_step allowed)\<^sup>*\<^sup>* w w'" "db_wf (sw_db (pw_sync w))"
  shows "db_wf (sw_db (pw_sync w'))
    \<and> posts_evolve (sw_db (pw_sync w)) (sw_db (pw_sync w'))
    \<and> (\<exists>new. db_history (sw_db (pw_sync w')) = db_history (sw_db (pw_sync w)) @ new)
    \<and> (\<exists>new. db_dataPoints (sw_db (pw_sync w')) = db_dataPoints (sw_db (pw_sync w)) @ new)"
  using consumer_wf.handlers_keep [OF assms] consumer_posts.handlers_keep [OF assms(1) posts_evolve_refl]
    consumer_history.handlers_keep [OF assms(1), of "sw_db (pw_sync w)"]
    consumer_raw.handlers_keep [OF assms(1), of "sw_db (pw_sync w)"] by simp

theorem handlers_keep_the_data_witness:
  "\<exists>w'. (consumer_step (\<lambda>env. env = demo_app (\<lambda>_. None)))\<^sup>*\<^sup>* demo_app_world w' \<and> db_wf (sw_db (pw_sync w'))"
proof -
  let ?env = "demo_app (\<lambda>_. None)"
  let ?ctx = "\<lparr>jc_messageId = 0, jc_attempt = 1\<rparr> :: uuid job_context"
  obtain r w' where "syncMedia ?env (Sync_Top_Job 0) ?ctx demo_app_world = (r, w')" by fastforce
  then have "consumer_step (\<lambda>env. env = ?env) demo_app_world w'"
    by (intro consumer_step.handled [where env = ?env and job = "Sync_Top_Job 0" and h = "syncMedia ?env"
        and ctx = ?ctx and r = r]) (simp_all add: buildHandlers_def)
  then have *: "(consumer_step (\<lambda>env. env = ?env))\<^sup>*\<^sup>* demo_app_world w'" by blast
  have "db_wf (sw_db (pw_sync demo_app_world))" by (simp add: demo_app_world_def demo_world_def demo_db_wf)
  then have "db_wf (sw_db (pw_sync w'))" using handlers_keep_the_data [OF *] by blast
  then show ?thesis using * by blast
qed

text \<open>
  Dispatching over the in-memory queue puts exactly one sync job per due hashtag in stock, of the
  dispatched kind, and changes no row.
\<close>

theorem dispatch_enqueues_one_job_per_due_hashtag:
  fixes w :: "(mem_queue, 's) app_world"
  assumes "se_fault (ap_sync env) (sw_calls (pw_sync w)) = None"
    "se_fault (ap_sync env) (Suc (sw_calls (pw_sync w))) = None"
    "ap_enqueueBatch env = (\<lambda>now. mem_enqueueBatch now 0)" "\<not> mq_closed (sw_queue (pw_sync w))"
  shows "mem_stock (sw_queue (pw_sync (snd (dispatchDueSyncs env (Dispatch_Job kind) ctx w)))) =
      mem_stock (sw_queue (pw_sync w)) + mset (map (sync_job_for kind)
        (findDueForSync kind (se_now (ap_sync env) (sw_calls (pw_sync w))) (sw_db (pw_sync w))))
    \<and> sw_db (pw_sync (snd (dispatchDueSyncs env (Dispatch_Job kind) ctx w))) = sw_db (pw_sync w)"
  using dispatch_stock [OF assms, of kind ctx] by simp_all

theorem dispatch_enqueues_one_job_per_due_hashtag_witness:
  "mem_stock (sw_queue (pw_sync (snd (dispatchDueSyncs (demo_app (\<lambda>_. None)) (Dispatch_Job Top)
     \<lparr>jc_messageId = 0, jc_attempt = 1\<rparr> demo_app_world)))) = {#Sync_Top_Job 0#}"
  using dispatch_enqueues_one_job_per_due_hashtag [of "demo_app (\<lambda>_. None)" demo_app_world Top]
    by (simp add: demo_app_def demo_env_def demo_app_world_def demo_world_def mem_empty_def mem_stock_def
      demo_db_def demo_hashtag_def new_hashtag_def empty_db_def findDueForSync_def is_due_def kindEnabled_def
      sync_job_for_def)

section \<open>Assets\<close>



text \<open>
  A download that got as far as fetching counts the attempt, removes its temporary directory, and
  leaves a row that agrees with its result: stored with the returned digest, key and size, or failed
  with the message of the error that is rethrown.
\<close>

theorem download_row_agrees_with_result:
  assumes "\<And>n. ac_fault env n = None" "findPostById i (aw_db w) = Some media"
    "findByMediaId i (aw_db w) = Some a" "ma_status a \<noteq> Stored" "truthy_url (sourceUrl_of media (Some a))"
  shows "\<exists>a'. findByMediaId i (aw_db (snd (download env i sg w))) = Some a'
    \<and> ma_attempts a' = Suc (ma_attempts a) \<and> aw_workDirs (snd (download env i sg w)) = aw_workDirs w
    \<and> download_recorded (fst (download env i sg w)) a'"
  using download_outcome [OF assms prod.collapse [symmetric]] by metis

theorem download_row_agrees_with_result_witness:
  "\<exists>a'. findByMediaId 2 (aw_db (snd (download demo_asset_env 2 None demo_asset_world))) = Some a'
    \<and> ma_attempts a' = 1 \<and> download_recorded (fst (download demo_asset_env 2 None demo_asset_world)) a'"
  using download_row_agrees_with_result [of demo_asset_env 2 demo_asset_world demo_post demo_asset None]
    demo_asset_facts by auto

text \<open>
  A redelivered download of an asset that is stored already does nothing, and a download whose
  post is gone is unprocessable, so the runner drops it instead of retrying.
\<close>

theorem download_short_circuits:
  assumes "ac_fault env (aw_calls w) = None" "ac_fault env (Suc (aw_calls w)) = None"
  shows "(case findPostById i (aw_db w) of
      None \<Rightarrow> \<exists>e. download env i sg w = (Inl (Threw e), w\<lparr>aw_calls := Suc (aw_calls w)\<rparr>) \<and> is_permanent e
    | Some media \<Rightarrow> (\<exists>a. findByMediaId i (aw_db w) = Some a \<and> ma_status a = Stored) \<longrightarrow>
        download env i sg w = (Inr skipped_result, w\<lparr>aw_calls := Suc (Suc (aw_calls w))\<rparr>))"
  using download_present [OF assms] download_missing [OF assms(1)] by (auto simp: is_permanent_def split: option.split)

theorem download_short_circuits_witness:
  "\<exists>e. download demo_asset_env 77 None demo_asset_world = (Inl (Threw e), demo_asset_world\<lparr>aw_calls := 1\<rparr>) \<and> is_permanent e"
  using download_short_circuits [of demo_asset_env demo_asset_world 77 None] demo_missing demo_asset_facts(1)
  by simp

end
