(* ===== verification/Sqs_Queue.thy ===== *)
theory Sqs_Queue
  imports Queue_Port
begin

text \<open>
  \<open>src/adapters/aws/SqsQueue.ts\<close>: the SQS driver. The AWS client is a record of functions on an
  arbitrary state \<open>'w\<close>; a rejected promise is \<open>Inl\<close>.
\<close>

record sqs_entry =
  se_Id :: nat
  se_MessageBody :: jstr
  se_DelaySeconds :: "nat option"

record raw_message =
  rw_MessageId :: "jstr option"
  rw_Body :: "jstr option"
  rw_ReceiptHandle :: "jstr option"
  rw_ApproximateReceiveCount :: "nat option"

record 'w sqs_client =
  sc_sendMessage :: "jstr \<Rightarrow> nat option \<Rightarrow> 'w \<Rightarrow> (js_error + jstr option) \<times> 'w"
  sc_sendMessageBatch :: "sqs_entry list \<Rightarrow> 'w \<Rightarrow> (js_error + jstr option list \<times> nat list) \<times> 'w"
  sc_receiveMessage :: "nat \<Rightarrow> nat \<Rightarrow> 'w \<Rightarrow> (js_error + raw_message list) \<times> 'w"
  sc_deleteMessage :: "jstr \<Rightarrow> 'w \<Rightarrow> (js_error + unit) \<times> 'w"
  sc_changeMessageVisibility :: "jstr \<Rightarrow> nat \<Rightarrow> 'w \<Rightarrow> (js_error + unit) \<times> 'w"

definition SQS_BATCH_LIMIT :: nat where
  "SQS_BATCH_LIMIT = 10"

text \<open>\<open>options?.delaySeconds ? { DelaySeconds } : {}\<close>: zero counts as absent.\<close>

definition delay_option :: "nat option \<Rightarrow> nat option" where
  "delay_option d = (case d of None \<Rightarrow> None | Some n \<Rightarrow> if n = 0 then None else Some n)"

definition or_empty :: "jstr option \<Rightarrow> jstr" where
  "or_empty s = (case s of None \<Rightarrow> [] | Some t \<Rightarrow> t)"

definition sqs_enqueue ::
  "'w sqs_client \<Rightarrow> job \<Rightarrow> nat option \<Rightarrow> 'w \<Rightarrow> (js_error + jstr) \<times> 'w" where
  "sqs_enqueue c job d w =
     (case sc_sendMessage c (stringify_job job) (delay_option d) w of
        (Inl e, w1) \<Rightarrow> (Inl e, w1)
      | (Inr i, w1) \<Rightarrow> (Inr (or_empty i), w1))"

definition batch_entries :: "nat option \<Rightarrow> nat \<Rightarrow> job list \<Rightarrow> sqs_entry list" where
  "batch_entries d offset chunk =
     map (\<lambda>(i, job). \<lparr>se_Id = offset + i, se_MessageBody = stringify_job job,
            se_DelaySeconds = delay_option d\<rparr>) (enumerate 0 chunk)"

definition batch_error :: "nat \<Rightarrow> nat \<Rightarrow> js_error" where
  "batch_error failed size_of_chunk =
     Plain_Error (js ''failed to enqueue '' @ show_int (int failed) @ js '' of ''
       @ show_int (int size_of_chunk) @ js '' messages'')"

text \<open>The loop over offsets, with the identifiers collected so far.\<close>

function sqs_batch_from ::
  "'w sqs_client \<Rightarrow> nat option \<Rightarrow> job list \<Rightarrow> nat \<Rightarrow> jstr list \<Rightarrow> 'w \<Rightarrow> (js_error + jstr list) \<times> 'w" where
  "sqs_batch_from c d jobs offset ids w =
     (if offset \<ge> length jobs then (Inr ids, w)
      else
        let chunk = take SQS_BATCH_LIMIT (drop offset jobs)
        in (case sc_sendMessageBatch c (batch_entries d offset chunk) w of
              (Inl e, w1) \<Rightarrow> (Inl e, w1)
            | (Inr (ok, failed), w1) \<Rightarrow>
                if failed \<noteq> [] then (Inl (batch_error (length failed) (length chunk)), w1)
                else sqs_batch_from c d jobs (offset + SQS_BATCH_LIMIT) (ids @ map or_empty ok) w1))"
  by pat_completeness auto
termination
  by (relation "measure (\<lambda>(c, d, jobs, offset, ids, w). length jobs - offset)")
    (auto simp: SQS_BATCH_LIMIT_def)

declare sqs_batch_from.simps [simp del]

definition sqs_enqueueBatch ::
  "'w sqs_client \<Rightarrow> job list \<Rightarrow> nat option \<Rightarrow> 'w \<Rightarrow> (js_error + jstr list) \<times> 'w" where
  "sqs_enqueueBatch c jobs d w = sqs_batch_from c d jobs 0 [] w"

definition truthy_str :: "jstr option \<Rightarrow> bool" where
  "truthy_str s \<longleftrightarrow> (case s of None \<Rightarrow> False | Some t \<Rightarrow> t \<noteq> [])"

fun parse_raw :: "raw_message list \<Rightarrow> jstr queue_message list" where
  "parse_raw [] = []"
| "parse_raw (raw # rest) =
     (if \<not> truthy_str (rw_Body raw) \<or> \<not> truthy_str (rw_ReceiptHandle raw) then parse_raw rest
      else case parseBody (the (rw_Body raw)) of
             None \<Rightarrow> parse_raw rest
           | Some job \<Rightarrow>
               \<lparr>qm_id = or_empty (rw_MessageId raw), qm_job = job,
                 qm_receiptHandle = the (rw_ReceiptHandle raw),
                 qm_receivedCount = (case rw_ApproximateReceiveCount raw of None \<Rightarrow> 1 | Some n \<Rightarrow> n)\<rparr>
               # parse_raw rest)"

definition sqs_receive ::
  "'w sqs_client \<Rightarrow> nat \<Rightarrow> nat option \<Rightarrow> nat option \<Rightarrow> 'w \<Rightarrow> (js_error + jstr queue_message list) \<times> 'w" where
  "sqs_receive c defaultWait maxMessages waitTime w =
     (case sc_receiveMessage c (min (case maxMessages of None \<Rightarrow> 1 | Some n \<Rightarrow> n) 10)
             (case waitTime of None \<Rightarrow> defaultWait | Some n \<Rightarrow> n) w of
        (Inl e, w1) \<Rightarrow> (Inl e, w1)
      | (Inr raws, w1) \<Rightarrow> (Inr (parse_raw raws), w1))"

definition sqs_ack :: "'w sqs_client \<Rightarrow> jstr queue_message \<Rightarrow> 'w \<Rightarrow> (js_error + unit) \<times> 'w" where
  "sqs_ack c m w = sc_deleteMessage c (qm_receiptHandle m) w"

definition sqs_nack :: "'w sqs_client \<Rightarrow> jstr queue_message \<Rightarrow> 'w \<Rightarrow> (js_error + unit) \<times> 'w" where
  "sqs_nack c m w = sc_changeMessageVisibility c (qm_receiptHandle m) 0 w"

definition sqs_extendVisibility ::
  "'w sqs_client \<Rightarrow> jstr queue_message \<Rightarrow> nat \<Rightarrow> 'w \<Rightarrow> (js_error + unit) \<times> 'w" where
  "sqs_extendVisibility c m seconds w =
     sc_changeMessageVisibility c (qm_receiptHandle m) (min seconds 43200) w"

section \<open>Batching\<close>

text \<open>The requests of a batch, with the entries each carries.\<close>

function chunks_from :: "job list \<Rightarrow> nat \<Rightarrow> (nat \<times> job list) list" where
  "chunks_from jobs offset =
     (if offset \<ge> length jobs then []
      else (offset, take SQS_BATCH_LIMIT (drop offset jobs)) # chunks_from jobs (offset + SQS_BATCH_LIMIT))"
  by pat_completeness auto
termination
  by (relation "measure (\<lambda>(jobs, offset). length jobs - offset)") (auto simp: SQS_BATCH_LIMIT_def)

declare chunks_from.simps [simp del]

definition requests_of :: "nat option \<Rightarrow> job list \<Rightarrow> sqs_entry list list" where
  "requests_of d jobs = map (\<lambda>(off, chunk). batch_entries d off chunk) (chunks_from jobs 0)"

text \<open>A client that accepts everything and logs the requests: the specification to compare with.\<close>

definition accepting :: "(sqs_entry list \<Rightarrow> jstr option list) \<Rightarrow> sqs_entry list list sqs_client" where
  "accepting name =
     \<lparr>sc_sendMessage = (\<lambda>b d w. (Inr None, w)),
       sc_sendMessageBatch = (\<lambda>es w. (Inr (name es, []), w @ [es])),
       sc_receiveMessage = (\<lambda>n t w. (Inr [], w)), sc_deleteMessage = (\<lambda>h w. (Inr (), w)),
       sc_changeMessageVisibility = (\<lambda>h v w. (Inr (), w))\<rparr>"

lemma batch_entries_simps:
  "length (batch_entries d off chunk) = length chunk"
  "map se_MessageBody (batch_entries d off chunk) = map stringify_job chunk"
  "map se_Id (batch_entries d off chunk) = [off..<off + length chunk]"
  by (auto simp: batch_entries_def intro!: nth_equalityI)
    (simp_all add: nth_enumerate_eq)

lemma chunks_from_sizes:
  "(off, chunk) \<in> set (chunks_from jobs n) \<Longrightarrow> chunk \<noteq> [] \<and> length chunk \<le> SQS_BATCH_LIMIT"
proof (induction jobs n rule: chunks_from.induct)
  case (1 jobs n)
  show ?case
  proof (cases "n \<ge> length jobs")
    case True
    then show ?thesis using "1.prems" by (simp add: chunks_from.simps [of jobs n])
  next
    case False
    then have "chunks_from jobs n = (n, take SQS_BATCH_LIMIT (drop n jobs)) #
        chunks_from jobs (n + SQS_BATCH_LIMIT)"
      by (simp add: chunks_from.simps [of jobs n])
    then show ?thesis
      using "1.prems" "1.IH" [OF False] False by (auto simp: SQS_BATCH_LIMIT_def)
  qed
qed

lemma chunks_from_concat: "concat (map snd (chunks_from jobs n)) = drop n jobs"
proof (induction jobs n rule: chunks_from.induct)
  case (1 jobs n)
  show ?case
  proof (cases "n \<ge> length jobs")
    case False
    have "take SQS_BATCH_LIMIT (drop n jobs) @ drop (n + SQS_BATCH_LIMIT) jobs = drop n jobs"
      by (metis append_take_drop_id drop_drop add.commute)
    then show ?thesis
      using 1 [OF False] False by (simp add: chunks_from.simps [of jobs n])
  qed (simp add: chunks_from.simps [of jobs n])
qed

lemma concat_requests:
  "concat (map (map se_MessageBody) (requests_of d jobs)) = map stringify_job jobs"
proof -
  have "map (map se_MessageBody) (requests_of d jobs) = map (map stringify_job) (map snd (chunks_from jobs 0))"
    by (auto simp: requests_of_def batch_entries_simps)
  then show ?thesis
    by (metis map_concat chunks_from_concat drop0)
qed

lemma chunks_from_ids:
  "concat (map (\<lambda>(off, chunk). [off..<off + length chunk]) (chunks_from jobs n)) = [n..<length jobs]"
proof (induction jobs n rule: chunks_from.induct)
  case (1 jobs n)
  show ?case
  proof (cases "n \<ge> length jobs")
    case False
    let ?k = "min (length jobs - n) SQS_BATCH_LIMIT"
    have "concat (map (\<lambda>(off, chunk). [off..<off + length chunk]) (chunks_from jobs n)) =
        [n..<n + ?k] @ [n + SQS_BATCH_LIMIT..<length jobs]"
      using 1 [OF False] False by (simp add: chunks_from.simps [of jobs n])
    also have "\<dots> = [n..<length jobs]"
    proof (cases "length jobs - n \<le> SQS_BATCH_LIMIT")
      case True
      then show ?thesis using False by simp
    next
      case big: False
      then have "[n..<length jobs] = [n..<n + SQS_BATCH_LIMIT] @ [n + SQS_BATCH_LIMIT..<length jobs]"
        using upt_add_eq_append [of n "n + SQS_BATCH_LIMIT" "length jobs - (n + SQS_BATCH_LIMIT)"] by simp
      then show ?thesis using big by (simp add: min_def)
    qed
    finally show ?thesis .
  qed (simp add: chunks_from.simps [of jobs n])
qed

lemma concat_request_ids: "concat (map (map se_Id) (requests_of d jobs)) = [0..<length jobs]"
proof -
  have "map (map se_Id) (requests_of d jobs) =
      map (\<lambda>(off, chunk). [off..<off + length chunk]) (chunks_from jobs 0)"
    by (auto simp: requests_of_def batch_entries_simps)
  then show ?thesis by (simp add: chunks_from_ids)
qed

text \<open>Whatever the client does: on success every request was sent, in order, and accepted in full.\<close>

fun send_all :: "'w sqs_client \<Rightarrow> sqs_entry list list \<Rightarrow> jstr list \<Rightarrow> 'w \<Rightarrow> (js_error + jstr list) \<times> 'w" where
  "send_all c [] ids w = (Inr ids, w)"
| "send_all c (es # rest) ids w =
     (case sc_sendMessageBatch c es w of
        (Inl e, w1) \<Rightarrow> (Inl e, w1)
      | (Inr (ok, failed), w1) \<Rightarrow>
          if failed \<noteq> [] then (Inl (batch_error (length failed) (length es)), w1)
          else send_all c rest (ids @ map or_empty ok) w1)"

lemma sqs_batch_from_send_all:
  "sqs_batch_from c d jobs n ids w =
     send_all c (map (\<lambda>(off, chunk). batch_entries d off chunk) (chunks_from jobs n)) ids w"
proof (induction c d jobs n ids w rule: sqs_batch_from.induct)
  case (1 c d jobs n ids w)
  show ?case
  proof (cases "n \<ge> length jobs")
    case True
    then show ?thesis
      by (simp add: sqs_batch_from.simps [of c d jobs n] chunks_from.simps [of jobs n])
  next
    case False
    show ?thesis
      using 1 [OF False refl] False
      by (auto simp: sqs_batch_from.simps [of c d jobs n] chunks_from.simps [of jobs n] Let_def
          batch_entries_simps split: sum.split prod.split)
  qed
qed

lemma sqs_enqueueBatch_requests:
  "sqs_enqueueBatch c jobs d w = send_all c (requests_of d jobs) [] w"
  by (simp add: sqs_enqueueBatch_def requests_of_def sqs_batch_from_send_all)

section \<open>Receiving\<close>

lemma parse_raw_append [simp]: "parse_raw (xs @ ys) = parse_raw xs @ parse_raw ys"
  by (induction xs) (auto split: option.split)

lemma parse_raw_bad_body:
  "parseBody body = None \<Longrightarrow>
     parse_raw (xs @ \<lparr>rw_MessageId = i, rw_Body = Some body, rw_ReceiptHandle = h,
       rw_ApproximateReceiveCount = n\<rparr> # ys) = parse_raw (xs @ ys)"
  by simp

definition raw_of :: "(jstr \<times> jstr) \<times> job \<Rightarrow> raw_message" where
  "raw_of p = (case p of ((i, h), j) \<Rightarrow>
     \<lparr>rw_MessageId = Some i, rw_Body = Some (stringify_job j), rw_ReceiptHandle = Some h,
       rw_ApproximateReceiveCount = Some 1\<rparr>)"

lemma stringify_job_nonempty [simp]: "stringify_job j \<noteq> []"
  by (simp add: stringify_job_def stringify_object_def)

lemma parse_raw_of:
  "(\<And>p. p \<in> set ps \<Longrightarrow> snd (fst p) \<noteq> [] \<and> job_ids_ok (snd p)) \<Longrightarrow>
     map qm_job (parse_raw (map raw_of ps)) = map snd ps"
proof (induction ps)
  case (Cons p ps)
  obtain i h j where p: "p = ((i, h), j)" by (metis prod.collapse)
  then have "h \<noteq> []" "job_ids_ok j" using Cons.prems [of p] by auto
  then show ?case
    using Cons by (simp add: p raw_of_def truthy_str_def parseBody_stringify)
qed simp


end
