(* ===== verification/Queue_Properties.thy ===== *)
theory Queue_Properties
  imports Job_Runner Sqs_Queue
begin


section \<open>The in-memory queue\<close>








text \<open>
  A received message that is neither acknowledged nor returned stays in flight for ever: no later
  poll delivers it again, however long after its visibility timeout, although the port promises
  that forgetting to acknowledge means redelivery.
\<close>

theorem unacknowledged_message_never_redelivered:
  assumes "mem_reachable c q" "in_flight_id q h i" "(mem_step_leaving c h)\<^sup>*\<^sup>* q q'"
  shows "in_flight_id q' h i \<and> (\<forall>now k. i \<notin> qm_id ` set (fst (mem_poll c now k q')))"
  using in_flight_not_delivered [OF mem_steps_leaving_reachable [OF assms(3,1)]
      mem_steps_leaving_in_flight [OF assms(3,2)]] mem_steps_leaving_in_flight [OF assms(3,2)] by blast

theorem unacknowledged_message_never_redelivered_witness:
  "0 \<notin> qm_id ` set (fst (mem_poll mem_default 1000000000 10
     (snd (mem_poll mem_default 0 10 (snd (mem_enqueue 0 0 (Download_Job 5) mem_empty))))))"
proof -
  let ?q1 = "snd (mem_enqueue 0 0 (Download_Job 5) mem_empty)"
  let ?q = "snd (mem_poll mem_default 0 10 ?q1)"
  have "mem_reachable mem_default ?q"
    using mem_step.enqueue mem_step.poll by (meson rtranclp.rtrancl_into_rtrancl rtranclp.rtrancl_refl)
  moreover have "in_flight_id ?q 2 0" by code_simp
  ultimately show ?thesis using unacknowledged_message_never_redelivered [of mem_default ?q 2 0 ?q] by blast
qed

section \<open>The SQS driver\<close>

text \<open>
  Enqueueing a batch is sending, one after the other and up to the first failure, requests of at
  most ten entries; their bodies in order are the jobs in order, and their entry identifiers are the
  indices of the jobs.
\<close>

theorem sqs_batch_requests:
  "sqs_enqueueBatch c jobs d w = send_all c (requests_of d jobs) [] w
   \<and> (\<forall>es \<in> set (requests_of d jobs). es \<noteq> [] \<and> length es \<le> 10)
   \<and> concat (map (map se_MessageBody) (requests_of d jobs)) = map stringify_job jobs
   \<and> concat (map (map se_Id) (requests_of d jobs)) = [0..<length jobs]"
proof -
  have "es \<noteq> [] \<and> length es \<le> 10" if "es \<in> set (requests_of d jobs)" for es
    using that chunks_from_sizes [of _ _ jobs 0] batch_entries_simps(1)
    by (auto simp: requests_of_def SQS_BATCH_LIMIT_def) (metis length_0_conv)+
  then show ?thesis
    by (simp add: sqs_enqueueBatch_requests concat_requests concat_request_ids)
qed

theorem sqs_batch_requests_witness:
  "snd (sqs_enqueueBatch (accepting (\<lambda>_. [])) (replicate 23 (Dispatch_Job Top)) None []) =
     requests_of None (replicate 23 (Dispatch_Job Top))"
proof -
  have "snd (send_all (accepting name) rs ids w) = w @ rs" for name rs ids w
    by (induction rs arbitrary: ids w) (simp_all add: accepting_def)
  then show ?thesis
    using sqs_batch_requests [of "accepting (\<lambda>_. [])" "replicate 23 (Dispatch_Job Top)" None "[]"] by simp
qed

text \<open>
  Receiving: jobs that were sent come back as they were, in order; a body that is not a job is
  left out without disturbing its neighbours.
\<close>

theorem sqs_receive_decodes:
  assumes "\<And>p. p \<in> set (ps @ qs) \<Longrightarrow> snd (fst p) \<noteq> [] \<and> job_ids_ok (snd p)" "parseBody body = None"
  shows "map qm_job (parse_raw (map raw_of ps @ \<lparr>rw_MessageId = i, rw_Body = Some body,
      rw_ReceiptHandle = h, rw_ApproximateReceiveCount = n\<rparr> # map raw_of qs)) = map snd ps @ map snd qs"
proof -
  have "map qm_job (parse_raw (map raw_of (ps @ qs))) = map snd (ps @ qs)"
    using parse_raw_of [of "ps @ qs"] assms(1) by blast
  then show ?thesis
    unfolding parse_raw_bad_body [OF assms(2)] map_append [of raw_of, symmetric] by simp
qed

theorem sqs_receive_decodes_witness:
  "map qm_job (parse_raw [raw_of ((js ''m1'', js ''h1''), Download_Job 5), \<lparr>rw_MessageId = None, rw_Body = Some (js ''{''),
     rw_ReceiptHandle = None, rw_ApproximateReceiveCount = None\<rparr>, raw_of ((js ''m2'', js ''h2''), Dispatch_Job Recent)]) =
   [Download_Job 5, Dispatch_Job Recent]"
proof -
  let ?ps = "[((js ''m1'', js ''h1''), Download_Job 5)]" and ?qs = "[((js ''m2'', js ''h2''), Dispatch_Job Recent)]"
  have bad: "parseBody (js ''{'') = None" by code_simp
  have ok: "snd (fst p) \<noteq> [] \<and> job_ids_ok (snd p)" if "p \<in> set (?ps @ ?qs)" for p
    using that by (auto simp: js_def uuid_limit_def)
  show ?thesis
    using sqs_receive_decodes [of ?ps ?qs "js ''{''" None None None, OF ok bad]
    by (simp del: parse_raw.simps)
qed

section \<open>The runner\<close>

text \<open>
  Over the in-memory queue, whatever the handlers do, \<open>process\<close> resolves and the message is
  settled: its handle is not live any more.
\<close>

theorem process_settles_every_message:
  "fst (process mem_ack_w (mem_nack_w now) handlers m p) = Inr ()
   \<and> mem_held (fst (snd (process mem_ack_w (mem_nack_w now) handlers m p))) (qm_receiptHandle m) = None"
  using mem_world.process_settles [where m = m and s = p and handlers = handlers] by (simp add: mem_ack_w_def mem_nack_w_def)

text \<open>
  C12. A handler that throws a retryable error puts exactly its job back in stock; one that throws an
  unprocessable error, or succeeds, does not.
\<close>

theorem process_outcome_of_a_job:
  assumes "handlers (type_of_job (qm_job m)) = Some h" "h (qm_job m) (context_of m) p = (r, p1)"
    "mem_held (fst p1) (qm_receiptHandle m) = Some j"
  shows "mem_stock (fst (snd (process mem_ack_w (mem_nack_w now) handlers m p))) =
    (case r of Inl e \<Rightarrow> if is_permanent e then mem_stock (fst p1) else add_mset j (mem_stock (fst p1))
     | Inr u \<Rightarrow> mem_stock (fst p1))"
proof (cases r)
  case (Inl e)
  then show ?thesis
    using mem_world.process_failure [of handlers m h p e p1] assms(1,2)
      mem_world.process_retry_stock(1) [of handlers m h p e p1 j] assms(3)
    by (auto simp: mem_ack_w_def mem_nack_w_def mem_stock_ack)
next
  case (Inr u)
  then show ?thesis
    using mem_world.process_success [of handlers m h p p1] assms(1,2)
    by (simp add: mem_ack_w_def mem_stock_ack)
qed

theorem process_outcome_of_a_job_witness:
  "mem_stock (fst (snd (process mem_ack_w (mem_nack_w 0) (\<lambda>_. Some (\<lambda>j c p. (Inl (Plain_Error []), p)))
     (hd (fst (mem_poll mem_default 0 1 (snd (mem_enqueue 0 0 (Download_Job 5) mem_empty)))))
     (snd (mem_poll mem_default 0 1 (snd (mem_enqueue 0 0 (Download_Job 5) mem_empty))), ())))) = {#Download_Job 5#}"
proof -
  let ?p = "mem_poll mem_default 0 1 (snd (mem_enqueue 0 0 (Download_Job 5) mem_empty))"
  let ?h = "\<lambda>j c p. (Inl (Plain_Error []) :: js_error + unit, p :: mem_queue \<times> unit)"
  have "mem_held (snd ?p) (qm_receiptHandle (hd (fst ?p))) = Some (Download_Job 5)" by code_simp
  moreover have "mem_stock (snd ?p) = {#}" by code_simp
  ultimately show ?thesis
    using process_outcome_of_a_job [of "\<lambda>_. Some ?h" "hd (fst ?p)" ?h "(snd ?p, ())" "Inl (Plain_Error [])" "(snd ?p, ())"
        "Download_Job 5" 0]
    by (simp add: is_permanent_def)
qed

text \<open>
  C14. In every reachable state of the poll loop no more than the configured number of jobs is
  running, a receive never asks for more than the free slots or ten, and the loop has stopped only
  when nothing runs any more.
\<close>

theorem runner_respects_concurrency:
  assumes "(runner_step n)\<^sup>*\<^sup>* runner_start r"
  shows "length (rn_active r) \<le> n
    \<and> (\<forall>k. rn_phase r = Receiving k \<longrightarrow> 1 \<le> k \<and> k \<le> 10 \<and> length (rn_active r) + k \<le> n)
    \<and> (rn_phase r = Stopped \<longrightarrow> rn_active r = [] \<and> \<not> rn_running r)"
  using runner_reachable_ok [OF assms] by (auto simp: runner_ok_def)

theorem runner_respects_concurrency_witness:
  "length (rn_active (runner_start\<lparr>rn_phase := Receiving 4\<rparr> :: nat runner)) \<le> 4"
proof -
  have "runner_step 4 (runner_start :: nat runner) (runner_start\<lparr>rn_phase := Receiving (min (4 - length (rn_active (runner_start :: nat runner))) 10)\<rparr>)"
    by (rule runner_step.poll) (simp_all add: runner_start_def)
  then have "(runner_step 4)\<^sup>*\<^sup>* runner_start (runner_start\<lparr>rn_phase := Receiving 4\<rparr> :: nat runner)"
    by (simp add: runner_start_def r_into_rtranclp)
  then show ?thesis using runner_respects_concurrency by blast
qed

text \<open>
  C15. After \<open>stop\<close>, once no receive is pending, no new job is taken on, and a draining loop can always
  run to its end.
\<close>

theorem runner_drains:
  assumes "(runner_step n)\<^sup>*\<^sup>* r r'" "closing r"
  shows "mset (rn_active r') \<subseteq># mset (rn_active r)
    \<and> (rn_phase r' = Draining \<longrightarrow> (\<exists>r''. (runner_step n)\<^sup>*\<^sup>* r' r'' \<and> rn_phase r'' = Stopped))"
  using closing_steps [OF assms] draining_can_stop by blast

theorem runner_drains_witness:
  "\<exists>r''. (runner_step 4)\<^sup>*\<^sup>* (runner_start\<lparr>rn_running := False, rn_phase := Draining, rn_active := [7]\<rparr> :: nat runner) r''
     \<and> rn_phase r'' = Stopped"
  using runner_drains [of 4 "runner_start\<lparr>rn_running := False, rn_phase := Draining, rn_active := [7]\<rparr>" "runner_start\<lparr>rn_running := False, rn_phase := Draining, rn_active := [7]\<rparr>"]
  by (simp add: closing_def)

text \<open>
  The worker's signal handler does not wait for the runner: for every job there is a run in which
  the process exits with that job still active, although the comment says it finishes first.
\<close>

theorem worker_can_exit_with_active_job:
  "\<exists>w. (worker_step (Suc n))\<^sup>*\<^sup>* worker_start w \<and> ws_pc w = Exited \<and> rn_active (ws_runner w) = [m]"
  using worker_exits_with_active_job [of "Suc n" m] by blast

text \<open>
  The heartbeat is sent before the message becomes visible again exactly when the timeout exceeds
  thirty seconds, and a missed beat is never made up for in time: the second one is due at the
  earliest when the timeout ends.
\<close>

theorem heartbeat_margin:
  "(heartbeat_ms t < t * 1000 \<longleftrightarrow> 30 < t) \<and> t * 1000 \<le> 2 * heartbeat_ms t"
  using heartbeat_before_expiry [of t] heartbeat_too_late [of t] heartbeat_second_beat [of t]
  by (meson not_le)

end
