(* ===== verification/Meta_Properties.thy ===== *)
theory Meta_Properties
  imports Meta_Walk
begin

text \<open>
  The properties of the Graph API client: attempts, classification, page-size negotiation, the page
  walk and the throttle.
\<close>

section \<open>A stub of the Graph API\<close>

text \<open>
  It serves two items or none, never more than were asked for, and rejects a page of more than six as
  too large.
\<close>

definition no_usage :: usage_headers where
  "no_usage = \<lparr>x_app_usage = None, x_business_use_case_usage = None\<rparr>"

definition stub_items :: jstr where
  "stub_items = js ''{\"data\":[{\"id\":\"1\",\"media_type\":\"IMAGE\",\"permalink\":\"p1\",\"timestamp\":\"t\"},{\"id\":\"2\",\"media_type\":\"VIDEO\",\"permalink\":\"p2\",\"timestamp\":\"t\"}]}''"

definition stub_empty :: jstr where
  "stub_empty = js ''{\"data\":[]}''"

definition stub_too_large :: jstr where
  "stub_too_large = js ''{\"error\":{\"message\":\"Please reduce the amount of data\",\"code\":1}}''"

definition stub_expired :: jstr where
  "stub_expired = js ''{\"error\":{\"message\":\"Session has expired\",\"code\":190}}''"

definition stub_env :: "(meta_url \<Rightarrow> fetch_result) \<Rightarrow> net_env" where
  "stub_env serve = \<lparr>ne_fetch = (\<lambda>n. serve), ne_jitter = (\<lambda>_. 0), ne_abort = (\<lambda>_. False), ne_threshold = 80,
     ne_token = js ''token'', ne_igUserId = js ''17'', ne_is_url = (\<lambda>_. True), ne_url_text = mu_path,
     ne_number_text = (\<lambda>_. []), ne_issue_text = (\<lambda>_. [])\<rparr>"

definition stub_serve :: "meta_url \<Rightarrow> fetch_result" where
  "stub_serve url =
     (if 6 < url_limit url then Response 500 no_usage stub_too_large
      else if 2 \<le> url_limit url then Response 200 no_usage stub_items
      else Response 200 no_usage stub_empty)"

definition stub_options :: paginate_options where
  "stub_options = \<lparr>po_hashtagId = js ''99'', po_edge = Top, po_maxItems = 500, po_pageSize = 25, po_startCursor = None\<rparr>"

lemma stub_parses:
  "response_json stub_items \<noteq> None" "response_json stub_empty \<noteq> None" "response_json stub_too_large \<noteq> None"
  "metaErrorResponseSchema (the (response_json stub_items)) = None"
  "metaErrorResponseSchema (the (response_json stub_empty)) = None"
  "map_option (length \<circ> mr_data) (metaMediaResponseSchema (\<lambda>_. True) (the (response_json stub_items))) = Some 2"
  "map_option (length \<circ> mr_data) (metaMediaResponseSchema (\<lambda>_. True) (the (response_json stub_empty))) = Some 0"
  by code_simp+

lemma stub_error:
  "map_option me_code (metaErrorResponseSchema (the (response_json stub_too_large))) = Some (Some 1)"
  "map_option (asks_for_less \<circ> me_message) (metaErrorResponseSchema (the (response_json stub_too_large))) = Some True"
  "response_json stub_expired \<noteq> None"
  "map_option me_code (metaErrorResponseSchema (the (response_json stub_expired))) = Some (Some 190)"
  by code_simp+

lemma stub_sleep: "fst (net_sleep (stub_env serve) ms st) = Inr ()"
  by (simp add: net_sleep_def stub_env_def)

lemma stub_request:
  assumes "serve url = Response status no_usage tx" "classify (stub_env serve) schema url status tx = out"
    "(\<exists>v. out = Done v) \<or> (\<exists>e. out = Throw e)"
  shows "fst (request (stub_env serve) schema url st) =
    (case out of Done v \<Rightarrow> Inr (v, parseRateLimitHeaders no_usage) | Throw e \<Rightarrow> Inl e | _ \<Rightarrow> Inl (unavailable 0))"
proof -
  obtain st1 where s: "net_sleep (stub_env serve) (throttleDelayMs (ns_lastRateLimit st) (ne_threshold (stub_env serve))) st = (Inr (), st1)"
    using stub_sleep by (metis prod.collapse)
  have "ne_fetch (stub_env serve) n url = Response status no_usage tx" for n
    using assms(1) by (simp add: stub_env_def)
  then obtain st2 where "fetch_once (stub_env serve) schema url st1 = (out, parseRateLimitHeaders no_usage, st2)"
    using assms(2) by (simp add: fetch_once_def Let_def)
  then show ?thesis
    using s assms(3) by (auto simp: request_def MAX_ATTEMPTS_def numeral_eq_Suc)
qed

lemma stub_accepts: "accepts_up_to (stub_env stub_serve) stub_options 6"
proof -
  let ?env = "stub_env stub_serve" and ?schema = "metaMediaResponseSchema (\<lambda>_. True)"
  have ok: "\<exists>v. classify ?env ?schema url 200 tx = Done v" if "tx \<in> {stub_items, stub_empty}" for url tx
    using that stub_parses
    by (auto simp: classify_def response_ok_def split: option.split)
  have bad: "\<exists>e. classify ?env ?schema url 500 stub_too_large = Throw e \<and> isPayloadTooLarge e" for url
  proof -
    obtain body me where b: "response_json stub_too_large = Some body" "metaErrorResponseSchema body = Some me"
      "me_code me = Some 1" "asks_for_less (me_message me)"
      using stub_parses(3) stub_error(1,2) by auto
    show ?thesis by (rule classify_too_large [OF b]) simp
  qed
  have is_url: "ne_is_url ?env = (\<lambda>_. True)" by (simp add: stub_env_def)
  show ?thesis
    unfolding accepts_up_to_def is_url
  proof (intro allI conjI impI)
    fix cursor l st
    let ?url = "page_url ?env stub_options cursor l"
    show "\<exists>b. fst (request ?env ?schema ?url st) = Inr b" if le: "l \<le> 6"
    proof -
      obtain tx where t: "tx \<in> {stub_items, stub_empty}" "stub_serve ?url = Response 200 no_usage tx"
        using le that by (cases "2 \<le> l") (auto simp: stub_serve_def)
      obtain v where v: "classify ?env ?schema ?url 200 tx = Done v" using ok t(1) by blast
      show ?thesis using stub_request [of stub_serve ?url 200 tx ?schema "Done v" st] t(2) v by simp
    qed
    show "\<exists>e. isPayloadTooLarge e \<and> fst (request ?env ?schema ?url st) = Inl e" if gt: "6 < l"
    proof -
      have t: "stub_serve ?url = Response 500 no_usage stub_too_large"
        using gt by (simp add: stub_serve_def)
      obtain e where e: "classify ?env ?schema ?url 500 stub_too_large = Throw e" "isPayloadTooLarge e" using bad by blast
      show ?thesis using stub_request [of stub_serve ?url 500 stub_too_large ?schema "Throw e" st] t e by simp
    qed
  qed
qed

lemma stub_honours: "honours_limit (stub_env stub_serve)"
  unfolding honours_limit_def
proof (intro allI impI)
  fix url body
  assume "genuine (stub_env stub_serve) (metaMediaResponseSchema (ne_is_url (stub_env stub_serve))) url body"
  then obtain status h tx j where g: "stub_serve url = Response status h tx" "response_ok status"
    "response_json tx = Some j" "metaMediaResponseSchema (\<lambda>_. True) j = Some body"
    by (auto simp: genuine_def stub_env_def)
  then have "tx = stub_items \<and> 2 \<le> url_limit url \<or> tx = stub_empty"
    by (auto simp: stub_serve_def response_ok_def split: if_splits)
  then show "length (mr_data body) \<le> url_limit url"
    using g(3,4) stub_parses(6,7) by auto
qed

section \<open>Requests\<close>

text \<open>
  C19. One logical request asks Meta at most four times, always for the same URL, and what it returns
  was sent by Meta in a successful response without an error envelope and passed the schema.
\<close>

theorem request_bounded_and_genuine:
  "(\<exists>n \<le> 4. ns_requests (snd (request env schema url st)) = ns_requests st @ replicate n url)
   \<and> (case fst (request env schema url st) of Inr (v, usage) \<Rightarrow> genuine env schema url v | Inl e \<Rightarrow> True)"
  using request_asks [OF prod.collapse [symmetric], of env schema url st]
    request_genuine [of env schema url st]
  by (auto simp: MAX_ATTEMPTS_def split: sum.split) (metis prod.collapse)

text \<open>
  C20. An expired or revoked token is reported at once: one request, no retry, and an error of the
  class the sync service escalates.
\<close>

theorem expired_token_not_retried:
  assumes "throttleDelayMs (ns_lastRateLimit st) (ne_threshold env) \<le> 0"
    "ne_fetch env (ns_tick st) url = Response status h tx" "response_json tx = Some body"
    "metaErrorResponseSchema body = Some me" "has_code (me_code me) AUTH_ERROR_CODES"
  shows "\<exists>e. fst (request env schema url st) = Inl e \<and> isMetaAuthError e
    \<and> ns_requests (snd (request env schema url st)) = ns_requests st @ [url]"
proof -
  obtain e where e: "classify env schema url status tx = Throw e" "isMetaAuthError e"
    using classify_auth [OF assms(3-5), of env schema url status] by blast
  obtain usage st' where f: "fetch_once env schema url st = (Throw e, usage, st')"
    using assms(2) e(1) by (simp add: fetch_once_def Let_def)
  show ?thesis
    using request_no_retry [OF assms(1) f] fetch_once_requests [OF f] e(2) by simp
qed

theorem expired_token_not_retried_witness:
  "\<exists>e. fst (request (stub_env (\<lambda>u. Response 400 no_usage stub_expired)) (metaMediaResponseSchema (\<lambda>_. True))
       \<lparr>mu_path = js ''me'', mu_params = []\<rparr> net_start) = Inl e \<and> isMetaAuthError e"
proof -
  let ?env = "stub_env (\<lambda>u. Response 400 no_usage stub_expired)"
  obtain body me where b: "response_json stub_expired = Some body" "metaErrorResponseSchema body = Some me"
    "me_code me = Some 190"
    using stub_error(3,4) by (cases "response_json stub_expired") auto
  have f: "ne_fetch ?env (ns_tick net_start) u = Response 400 no_usage stub_expired" for u
    by (simp add: stub_env_def)
  have z: "throttleDelayMs (ns_lastRateLimit net_start) (ne_threshold ?env) \<le> 0"
    by (simp add: net_start_def)
  have "has_code (me_code me) AUTH_ERROR_CODES" using b(3) by (simp add: has_code_def AUTH_ERROR_CODES_def)
  from expired_token_not_retried [OF z f b(1,2) this, of "metaMediaResponseSchema (\<lambda>_. True)"]
  show ?thesis by blast
qed

text \<open>
  C40. Nothing that comes out of a response depends on the access token: two clients that differ in
  their token only classify every response alike, error messages and details included.
\<close>

theorem errors_do_not_reveal_the_token:
  "classify (env\<lparr>ne_token := t\<rparr>) schema (buildUrl (env\<lparr>ne_token := t\<rparr>) path ps) status tx =
   classify (env\<lparr>ne_token := t'\<rparr>) schema (buildUrl (env\<lparr>ne_token := t'\<rparr>) path ps) status tx"
  by (simp add: classify_token)

section \<open>Pages\<close>

text \<open>
  C21. When Meta accepts pages of up to \<open>c \<ge> 1\<close> items, whatever \<open>c\<close> is, the negotiation ends with an
  accepted page, at a cost of at most four requests per halving.
\<close>

theorem negotiation_finds_an_accepted_size:
  assumes "accepts_up_to env opts c" "1 \<le> c" "min pageSize needed < 2 ^ k" "1 \<le> k"
  shows "(\<exists>ps body usage. fst (negotiate env opts cursor needed pageSize st) = Inr (ps, body, usage) \<and> min ps needed \<le> c)
    \<and> length (ns_requests (snd (negotiate env opts cursor needed pageSize st))) \<le> length (ns_requests st) + 4 * k"
  using negotiate_succeeds [OF assms(1,2)] negotiate_budget [OF prod.collapse [symmetric] assms(3,4)]
  by (simp add: MAX_ATTEMPTS_def)

theorem negotiation_finds_an_accepted_size_witness:
  "\<exists>ps body usage. fst (negotiate (stub_env stub_serve) stub_options None 500 25 net_start) = Inr (ps, body, usage)
     \<and> min ps 500 \<le> 6"
  using negotiation_finds_an_accepted_size [OF stub_accepts, of 25 500 5] by simp

text \<open>
  C22. A page walk over an edge that does not send more than it is asked for ends, yields at most
  \<open>maxItems\<close> items, numbers its pages from one, and goes on after a page only when that page had
  items and a cursor.
\<close>

theorem page_walk_bounded:
  assumes "1 \<le> po_pageSize opts" "honours_limit env"
  shows "\<exists>pgs err st'. walk_pages (Suc (Suc (po_maxItems opts))) env opts (walk_start opts st) st = Some (pgs, err, st')
    \<and> (\<Sum>pg\<leftarrow>pgs. length (mg_items pg)) \<le> po_maxItems opts
    \<and> map mg_pageNumber pgs = [1..<Suc (length pgs)]
    \<and> (\<forall>pg \<in> set (butlast pgs). mg_items pg \<noteq> [] \<and> mg_nextCursor pg \<noteq> None)"
proof -
  have start: "wk_yielded (walk_start opts st) = 0" "wk_pageNumber (walk_start opts st) = 0"
    by (simp_all add: walk_start_def Let_def)
  obtain pgs err st' where w: "walk_pages (Suc (Suc (po_maxItems opts))) env opts (walk_start opts st) st = Some (pgs, err, st')"
    using walk_pages_ends [of opts "walk_start opts st" "po_maxItems opts" env st] start(1) by (metis diff_le_self prod_cases3)
  show ?thesis
    using walk_pages_sound [OF w walk_start_ok [OF assms(1)] assms(2)] w start by simp
qed

theorem page_walk_bounded_witness:
  "\<exists>pgs err st'. walk_pages 502 (stub_env stub_serve) stub_options (walk_start stub_options net_start) net_start = Some (pgs, err, st')
    \<and> (\<Sum>pg\<leftarrow>pgs. length (mg_items pg)) \<le> 500"
  using page_walk_bounded [OF _ stub_honours, of stub_options net_start] by (auto simp: stub_options_def)

section \<open>Throttle\<close>

text \<open>
  The pause before a request: none below the threshold, between one and thirty seconds from the
  threshold on, at most five minutes when Meta says the account is blocked, and never shorter for a
  higher reading.
\<close>

theorem throttle_delay_bounds:
  assumes "0 \<le> worstPct u" "worstPct u \<le> 100"
  shows "(nz (regainMinutes u) \<le> 0 \<and> worstPct u < thr \<longrightarrow> throttleDelayMs (Some u) thr = 0)
    \<and> (nz (regainMinutes u) \<le> 0 \<and> thr \<le> worstPct u \<longrightarrow>
        1000 \<le> throttleDelayMs (Some u) thr \<and> throttleDelayMs (Some u) thr \<le> 30000)
    \<and> (nz (regainMinutes u) > 0 \<longrightarrow> 0 < throttleDelayMs (Some u) thr \<and> throttleDelayMs (Some u) thr \<le> 300000)
    \<and> (nz (regainMinutes u) \<le> 0 \<and> worstPct u \<le> w \<longrightarrow>
        throttleDelayMs (Some u) thr \<le> throttleDelayMs (Some (u\<lparr>worstPct := w\<rparr>)) thr)"
proof -
  have "throttleDelayMs (Some u) thr \<le> throttleDelayMs (Some (u\<lparr>worstPct := w\<rparr>)) thr"
    if "nz (regainMinutes u) \<le> 0" "worstPct u \<le> w"
    using throttle_mono_worst [OF that(1), of "worstPct u" w thr] that(2) assms(1) by simp
  then show ?thesis
    using throttle_below throttle_ramp throttle_blocked assms(2) by blast
qed

theorem throttle_delay_bounds_witness:
  "throttleDelayMs (Some \<lparr>worstPct = 79, callCountPct = None, cpuTimePct = None, totalTimePct = None,
     regainMinutes = None, raw_appUsage = None, raw_bucUsage = None\<rparr>) 80 = 0"
  using throttle_delay_bounds [of "\<lparr>worstPct = 79, callCountPct = None, cpuTimePct = None, totalTimePct = None,
     regainMinutes = None, raw_appUsage = None, raw_bucUsage = None\<rparr>" 80 79] by (simp add: nz_def)

end
