(* ===== verification/Data_Properties.thy ===== *)
theory Data_Properties
  imports Media_History Media_Asset_Repository Jobs Disk_Storage
begin

text \<open>
  The properties of the data layer: captions, the post upsert and its history, tracking, the raw
  payloads, the queue contracts and the files on disk.
\<close>

section \<open>Sample rows\<close>

definition sample_media :: "jstr \<Rightarrow> int \<Rightarrow> meta_media" where
  "sample_media link likes = \<lparr>mm_id = js ''17'', mm_media_type = IMAGE, mm_timestamp = js ''t'', mm_permalink = link,
     mm_media_url = None, mm_caption = None, mm_like_count = Some likes, mm_comments_count = None\<rparr>"

definition sample_input :: "jstr \<Rightarrow> int \<Rightarrow> upsert_input" where
  "sample_input link likes = \<lparr>ui_media = sample_media link likes, ui_hashtagId = 0, ui_syncRunId = 1, ui_source = Top, ui_rank = 1\<rparr>"

definition sample_hashtag :: hashtag where
  "sample_hashtag = new_hashtag 0 0 (js ''matcha'') \<lparr>ti_name = [], ti_trackFrom = None, ti_trackUntil = None, ti_notes = None\<rparr>"

definition sample_run :: sync_run where
  "sample_run = new_run 0 1 \<lparr>si_type = SYNC_TOP_HASHTAG_MEDIA, si_hashtagId = 0, si_messageId = None, si_attempt = None\<rparr>"

definition sample_db :: database where
  "sample_db = empty_db\<lparr>db_hashtags := [sample_hashtag], db_syncRuns := [sample_run], db_next := 2\<rparr>"

lemma sample_wf: "db_wf sample_db"
  by (simp add: sample_db_def empty_db_def wf_defs id_defs resolved_names_def sample_hashtag_def new_hashtag_def
      sample_run_def new_run_def)

definition sample_seen :: "database" where
  "sample_seen = snd (upsertMedia ascii_unicode (\<lambda>_. Some 0) 10 (sample_input (js ''p'') 5) sample_db)"

section \<open>Captions\<close>

text \<open>
  C23. The two arrays taken from a caption are, in order of first occurrence and without repetition,
  the normalised hashtags that are not numbers and the normalised handles; each fits its column.
\<close>

theorem caption_arrays_specified:
  assumes "unicode_ok u"
  shows "parseCaptionArrays u (Some c) = (spec_hashtags u c, spec_mentions u c)
    \<and> (\<forall>v \<in> set (spec_hashtags u c). v \<noteq> [] \<and> \<not> list_all ascii_digit v \<and> length v \<le> 255)
    \<and> (\<forall>v \<in> set (spec_mentions u c). v \<noteq> [] \<and> length v \<le> 30 \<and> list_all handle_char v \<and> last v \<noteq> 46)"
  using parseCaptionArrays_spec spec_hashtags_ok spec_mentions_ok [OF assms] by blast

theorem caption_arrays_specified_witness:
  "parseCaptionArrays ascii_unicode (Some (js ''#Matcha #2026 @Cafe.Uji.'')) = ([js ''matcha''], [js ''cafe.uji''])"
proof -
  have "spec_hashtags ascii_unicode (js ''#Matcha #2026 @Cafe.Uji.'') = [js ''matcha'']"
    "spec_mentions ascii_unicode (js ''#Matcha #2026 @Cafe.Uji.'') = [js ''cafe.uji'']"
    by (simp_all add: js_def spec_hashtags_def spec_mentions_def caption_hashtags_raw_def is_high_def is_low_def
        hashtag_matches.simps(2) mention_matches.simps(2) Let_def hashtag_char_def mention_char_def ascii_unicode_def
        ascii_letter_def ascii_digit_def ascii_upper_def ascii_lower_def utf16_units_def utf16_def normalize_def
        js_slice_def MAX_VALUE_LENGTH_def tag_ok_def strip_dots_def)
  then show ?thesis using caption_arrays_specified [OF unicode_ok_ascii] by simp
qed

section \<open>Posts and their history\<close>

text \<open>
  C7. Over any sequence of upserts on a running clock the history records changes only: the rows of
  a post, in time order, differ from each to the next in a tracked field; and old rows are kept.
\<close>

theorem history_records_changes_only:
  assumes "change_only db" "history_until t db" "clocked t steps"
  shows "change_only (upserts u dp steps db) \<and> (\<exists>new. db_history (upserts u dp steps db) = db_history db @ new)"
  using change_only_upserts [OF assms] history_prefix_upserts by blast

theorem history_records_changes_only_witness:
  "change_only (upserts ascii_unicode (\<lambda>_. Some 0) [(10, sample_input (js ''p'') 5), (20, sample_input (js ''p'') 5),
     (30, sample_input (js ''p'') 6)] sample_db)"
  using history_records_changes_only [of sample_db 0 "[(10, sample_input (js ''p'') 5), (20, sample_input (js ''p'') 5),
     (30, sample_input (js ''p'') 6)]" ascii_unicode "\<lambda>_. Some 0"]
  by (simp add: sample_db_def empty_db_def)

text \<open>
  C8. Redelivery is harmless: upserting the same observation again, at any later time, adds neither a
  post nor a history row.
\<close>

theorem redelivered_upsert_adds_nothing:
  assumes "db_wf db" "fst (upsertMedia u dp now inp db) = Inr res"
  shows "db_history (snd (upsertMedia u dp now' inp (snd (upsertMedia u dp now inp db)))) =
      db_history (snd (upsertMedia u dp now inp db))
    \<and> map mp_id (db_mediaPosts (snd (upsertMedia u dp now' inp (snd (upsertMedia u dp now inp db))))) =
      map mp_id (db_mediaPosts (snd (upsertMedia u dp now inp db)))"
  using upsertMedia_twice [OF assms(2,1)] by simp

theorem redelivered_upsert_adds_nothing_witness:
  "length (db_history (snd (upsertMedia ascii_unicode (\<lambda>_. Some 0) 20 (sample_input (js ''p'') 5) sample_seen))) = 1"
proof -
  have "map_option (\<lambda>_. ()) (case fst (upsertMedia ascii_unicode (\<lambda>_. Some 0) 10 (sample_input (js ''p'') 5) sample_db) of
      Inl e \<Rightarrow> None | Inr r \<Rightarrow> Some r) = Some ()" "length (db_history sample_seen) = 1" by code_simp+
  then show ?thesis
    using redelivered_upsert_adds_nothing [OF sample_wf, of ascii_unicode "\<lambda>_. Some 0" 10 "sample_input (js ''p'') 5" _ 20]
    unfolding sample_seen_def by (fastforce split: sum.splits)
qed

text \<open>
  A post whose permalink differs from the stored one is reported as edited by every sync for ever:
  the conflict branch compares the permalink but does not update it.
\<close>

theorem changed_permalink_never_settles:
  assumes "findByIgMediaId (mm_id (ui_media inp)) db = Some r" "mp_permalink r \<noteq> mm_permalink (ui_media inp)"
    "mp_firstSeenAt r \<noteq> now" "fst (upsertMedia u dp now inp db) = Inr res"
  shows "ur_contentChanged res \<and> (\<exists>r'. findByIgMediaId (mm_id (ui_media inp)) (snd (upsertMedia u dp now inp db)) = Some r'
      \<and> mp_permalink r' \<noteq> mm_permalink (ui_media inp) \<and> mp_contentUpdatedAt r' = Some now)"
  using upsertMedia_permalink_stuck [OF assms] assms(2) by metis

theorem changed_permalink_never_settles_witness:
  "\<exists>res. fst (upsertMedia ascii_unicode (\<lambda>_. Some 0) 20 (sample_input (js ''q'') 5) sample_seen) = Inr res \<and> ur_contentChanged res"
proof -
  have "map_option mp_permalink (findByIgMediaId (js ''17'') sample_seen) = Some (js ''p'')"
    "map_option mp_firstSeenAt (findByIgMediaId (js ''17'') sample_seen) = Some 10"
    "(case fst (upsertMedia ascii_unicode (\<lambda>_. Some 0) 20 (sample_input (js ''q'') 5) sample_seen) of
      Inl e \<Rightarrow> False | Inr r \<Rightarrow> True)"
    by code_simp+
  then obtain r res where "findByIgMediaId (js ''17'') sample_seen = Some r" "mp_permalink r = js ''p''" "mp_firstSeenAt r = 10"
    "fst (upsertMedia ascii_unicode (\<lambda>_. Some 0) 20 (sample_input (js ''q'') 5) sample_seen) = Inr res"
    by (auto split: sum.splits)
  then show ?thesis
    using changed_permalink_never_settles [of "sample_input (js ''q'') 5" sample_seen r 20 ascii_unicode "\<lambda>_. Some 0" res]
    by (auto simp: sample_input_def sample_media_def js_def)
qed

section \<open>Tracking\<close>

text \<open>
  Tracking a hashtag is idempotent and found under any spelling that normalises alike; a tag that
  exists keeps its configuration, so tracking does not make a deactivated tag due again.
\<close>

theorem tracking_is_idempotent:
  "findByName u (ti_name inp) (snd (ensureTracked u now inp db)) = Some (fst (ensureTracked u now inp db))
   \<and> (case findByName u (ti_name inp) db of
        Some h \<Rightarrow> fst (ensureTracked u now inp db) = h\<lparr>ht_updatedAt := now\<rparr>
          \<and> map ht_id (db_hashtags (snd (ensureTracked u now inp db))) = map ht_id (db_hashtags db)
      | None \<Rightarrow> db_hashtags (snd (ensureTracked u now inp db)) = db_hashtags db @ [fst (ensureTracked u now inp db)])
   \<and> (case findByName u (ti_name inp) db of
        Some h \<Rightarrow> ht_isActive h \<or> \<not> is_due kind t (fst (ensureTracked u now inp db))
      | None \<Rightarrow> True)"
proof -
  have "map ht_id (db_hashtags (snd (ensureTracked u now inp db))) = map ht_id (db_hashtags db)"
    if "findByName u (ti_name inp) db = Some h" for h
  proof -
    have "map ht_id (map (\<lambda>h. h\<lparr>ht_updatedAt := 0\<rparr>) (db_hashtags (snd (ensureTracked u now inp db)))) =
        map ht_id (map (\<lambda>h. h\<lparr>ht_updatedAt := 0\<rparr>) (db_hashtags db))"
      unfolding ensureTracked_existing(2) [OF that] ..
    then show ?thesis by (simp add: comp_def)
  qed
  moreover have "db_hashtags (snd (ensureTracked u now inp db)) = db_hashtags db @ [fst (ensureTracked u now inp db)]"
    if "findByName u (ti_name inp) db = None"
    using that by (simp add: ensureTracked_def findByName_def Let_def)
  ultimately show ?thesis
    using ensureTracked_finds [of u inp now db] ensureTracked_existing(1) [of u inp db _ now]
    by (cases "findByName u (ti_name inp) db") (auto simp: is_due_def)
qed

theorem tracking_is_idempotent_witness:
  "\<not> is_due Top 50 (fst (ensureTracked ascii_unicode 20 \<lparr>ti_name = js ''#Matcha'', ti_trackFrom = None,
     ti_trackUntil = None, ti_notes = None\<rparr> (sample_db\<lparr>db_hashtags := [sample_hashtag\<lparr>ht_isActive := False\<rparr>]\<rparr>)))"
proof -
  let ?inp = "\<lparr>ti_name = js ''#Matcha'', ti_trackFrom = None, ti_trackUntil = None, ti_notes = None\<rparr>"
  let ?db = "sample_db\<lparr>db_hashtags := [sample_hashtag\<lparr>ht_isActive := False\<rparr>]\<rparr>"
  have "normalizeHashtagName ascii_unicode (js ''#Matcha'') = js ''matcha''"
    by (simp add: normalizeHashtagName_def js_trim_def js_def is_js_space_def strip_hashes_def ascii_unicode_def
        ascii_lower_def ascii_upper_def)
  then have "findByName ascii_unicode (js ''#Matcha'') ?db = Some (sample_hashtag\<lparr>ht_isActive := False\<rparr>)"
    by (simp add: findByName_def sample_hashtag_def new_hashtag_def find_row_Cons)
  moreover have "case findByName ascii_unicode (ti_name ?inp) ?db of
      Some h \<Rightarrow> ht_isActive h \<or> \<not> is_due Top 50 (fst (ensureTracked ascii_unicode 20 ?inp ?db))
    | None \<Rightarrow> True"
    using tracking_is_idempotent [of ascii_unicode ?inp 20 ?db Top 50] by blast
  ultimately show ?thesis by simp
qed

section \<open>Raw payloads and jobs\<close>

text \<open>
  What is stored raw can be replayed: the payload written for a validated item passes the schema
  again and gives the same item.
\<close>

theorem stored_payload_replays:
  assumes "metaMediaSchema is_url j = Some m"
  shows "metaMediaSchema is_url (media_to_json m) = Some m"
  using metaMediaSchema_to_json [OF metaMediaSchema_valid [OF assms]] .

theorem stored_payload_replays_witness:
  "metaMediaSchema (\<lambda>_. True) (media_to_json (the (metaMediaSchema (\<lambda>_. True) (media_to_json (sample_media (js ''p'') 5))))) =
   metaMediaSchema (\<lambda>_. True) (media_to_json (sample_media (js ''p'') 5))"
proof -
  have "metaMediaSchema (\<lambda>_. True) (media_to_json (sample_media (js ''p'') 5)) \<noteq> None" by code_simp
  then show ?thesis using stored_payload_replays [of "\<lambda>_. True" "media_to_json (sample_media (js ''p'') 5)"] by force
qed

text \<open>
  C24. A job survives the queue: what the producing side serialises, the consuming side parses to the
  same job, and it accepts only jobs with valid identifiers.
\<close>

theorem job_body_roundtrip:
  assumes "job_ids_ok j"
  shows "parseBody (stringify_job j) = Some j \<and> (\<forall>b j'. parseBody b = Some j' \<longrightarrow> job_ids_ok j')"
  using parseBody_stringify [OF assms] jobSchema_ids_ok by (auto simp: parseBody_def bind_eq_Some_conv)

theorem job_body_roundtrip_witness: "parseBody (stringify_job (Download_Job 5)) = Some (Download_Job 5)"
  using job_body_roundtrip [of "Download_Job 5"] by (simp add: uuid_limit_def)

section \<open>Files\<close>





end
