(* ===== verification/Media_Paging.thy ===== *)
theory Media_Paging
  imports Media_Query
begin

text \<open>
  Keyset pagination over the listing: each page is the next segment of one strictly ordered list, so
  a client that follows the cursors receives every matching row exactly once; and when the table
  changes between the pages, every row that matches all along still arrives, and none arrives twice.
\<close>

section \<open>The joins\<close>

lemma filter_unique:
  "distinct (map f xs) \<Longrightarrow> x \<in> set xs \<Longrightarrow> filter (\<lambda>y. f y = f x) xs = [x]"
  by (induction xs) (auto simp: filter_empty_conv rev_image_eqI)

lemma filter_unique_cases:
  "distinct (map f xs) \<Longrightarrow> filter (\<lambda>y. f y = k) xs = [] \<or> (\<exists>x. filter (\<lambda>y. f y = k) xs = [x])"
  by (cases "\<exists>x \<in> set xs. f x = k") (use filter_unique [of f xs] in \<open>auto simp: filter_empty_conv\<close>)

lemma hashtags_of_wf:
  assumes "db_wf db" "m \<in> set (db_mediaPosts db)"
  shows "\<exists>h. hashtags_of m db = [h]"
proof -
  obtain h where h: "h \<in> set (db_hashtags db)" "ht_id h = mp_hashtagId m"
    using assms by (force simp: wf_defs hashtag_ids_def)
  then show ?thesis
    using filter_unique [of ht_id "db_hashtags db" h] assms(1) by (simp add: hashtags_of_def wf_defs)
qed

lemma left_join_wf: "db_wf db \<Longrightarrow> \<exists>a. left_join m db = [a]"
  using filter_unique_cases [of ma_mediaId "db_assets db" "mp_id m"]
  by (auto simp: left_join_def wf_defs)

lemma post_join_fst: "db_wf db \<Longrightarrow> map fst (post_join db) = db_mediaPosts db"
proof -
  assume wf: "db_wf db"
  have "concat (map (\<lambda>m. map fst (map (Pair m) (hashtags_of m db))) ms) = ms"
    if "set ms \<subseteq> set (db_mediaPosts db)" for ms
    using that by (induction ms) (use hashtags_of_wf [OF wf] in fastforce)+
  then show ?thesis by (simp add: post_join_def map_concat comp_def)
qed

definition join_rows :: "(media_post \<times> hashtag) list \<Rightarrow> database \<Rightarrow> list_row list" where
  "join_rows ps db = concat (map (\<lambda>(m, h). map (list_row_of m h) (left_join m db)) ps)"

lemma select_rows_join:
  "select_rows conds db =
     sort_key row_key (join_rows (filter (\<lambda>(m, h). satisfies conds m h) (post_join db)) db)"
  by (simp add: select_rows_def join_rows_def)

lemma join_rows_ids: "db_wf db \<Longrightarrow> map lr_id (join_rows ps db) = map (\<lambda>p. mp_id (fst p)) ps"
proof (induction ps)
  case (Cons p ps)
  then show ?case
    using left_join_wf [of db "fst p"] by (cases p) (auto simp: join_rows_def list_row_of_def)
qed (simp add: join_rows_def)

lemma select_rows_ids:
  assumes "db_wf db"
  shows "distinct (map lr_id (select_rows conds db))"
    and "set (map lr_id (select_rows conds db)) \<subseteq> post_ids db"
    and "length (select_rows conds db) = length (filter (\<lambda>(m, h). satisfies conds m h) (post_join db))"
proof -
  let ?ps = "filter (\<lambda>(m, h). satisfies conds m h) (post_join db)"
  have "map (\<lambda>p. mp_id (fst p)) (post_join db) = map mp_id (db_mediaPosts db)"
    unfolding post_join_fst [OF assms, symmetric] by simp
  then have "distinct (map (\<lambda>p. mp_id (fst p)) ?ps)"
    using distinct_map_filter [of "\<lambda>p. mp_id (fst p)" "post_join db"] assms by (simp add: wf_defs)
  then have "distinct (map lr_id (join_rows ?ps db))"
    by (simp add: join_rows_ids [OF assms])
  then show "distinct (map lr_id (select_rows conds db))"
    by (simp add: select_rows_join distinct_map)
  have "set (map lr_id (select_rows conds db)) = set (map lr_id (join_rows ?ps db))"
    by (simp add: select_rows_join)
  then show "set (map lr_id (select_rows conds db)) \<subseteq> post_ids db"
    unfolding join_rows_ids [OF assms] post_ids_def post_join_fst [OF assms, symmetric] by auto
  have "length (join_rows ?ps db) = length ?ps"
    using arg_cong [OF join_rows_ids [OF assms, of ?ps], of length] by simp
  then show "length (select_rows conds db) = length ?ps"
    by (simp add: select_rows_join)
qed

section \<open>The listing is strictly ordered\<close>

lemma select_rows_strict: "db_wf db \<Longrightarrow> sorted_wrt (<) (map row_key (select_rows conds db))"
proof -
  assume "db_wf db"
  then have "distinct (map lr_id (select_rows conds db))" by (rule select_rows_ids)
  then have "distinct (map row_key (select_rows conds db))"
    by (auto simp: distinct_map inj_on_def row_key_def)
  moreover have "sorted (map row_key (select_rows conds db))"
    by (simp add: select_rows_def)
  ultimately show ?thesis
    using strict_sorted_iff [of "map row_key (select_rows conds db)"] by simp
qed

text \<open>A condition on the row can be applied before or after the listing is ordered.\<close>

lemma select_rows_filter:
  assumes "\<And>m h a. P (list_row_of m h a) \<longleftrightarrow> c m h"
  shows "select_rows (cs @ [c]) db = filter P (select_rows cs db)"
proof -
  have "filter P (join_rows ps db) = join_rows (filter (\<lambda>(m, h). c m h) ps) db" for ps
    by (induction ps) (auto simp: join_rows_def assms filter_map comp_def split: prod.splits)
  moreover have "filter (\<lambda>(m, h). satisfies (cs @ [c]) m h) ps =
      filter (\<lambda>(m, h). c m h) (filter (\<lambda>(m, h). satisfies cs m h) ps)" for ps
    by (induction ps) (auto simp: satisfies_def)
  ultimately show ?thesis by (simp add: select_rows_join filter_sort)
qed

definition after_key :: "(time \<times> uuid) option \<Rightarrow> list_row \<Rightarrow> bool" where
  "after_key c r \<longleftrightarrow> (case c of None \<Rightarrow> True | Some (t, i) \<Rightarrow> Page_Key t i < row_key r)"

definition listing :: "unicode \<Rightarrow> list_filters \<Rightarrow> database \<Rightarrow> list_row list" where
  "listing u fl db = select_rows (list_conditions u (fl\<lparr>lf_cursor := None\<rparr>)) db"

lemma list_conditions_cursor:
  "list_conditions u fl = list_conditions u (fl\<lparr>lf_cursor := None\<rparr>) @ cursor_condition fl"
  by (simp add: list_conditions_def hashtag_condition_def mediaType_condition_def date_conditions_def
      stale_condition_def cursor_condition_def)

lemma select_rows_cursor:
  "select_rows (list_conditions u fl) db = filter (after_key (lf_cursor fl)) (listing u fl db)"
proof (cases "lf_cursor fl")
  case None
  then show ?thesis
    unfolding list_conditions_cursor [of u fl] listing_def
    by (simp add: cursor_condition_def after_key_def)
next
  case (Some c)
  have c: "cursor_condition fl = [\<lambda>m h. mp_takenAt m < fst c \<or> mp_takenAt m = fst c \<and> mp_id m < snd c]"
    using Some by (cases c) (simp add: cursor_condition_def)
  show ?thesis
    unfolding list_conditions_cursor [of u fl] listing_def c
    by (rule select_rows_filter)
      (auto simp: Some after_key_def list_row_of_def row_key_def less_page_key_def split: prod.split)
qed

lemma listMedia_page:
  "listMedia u fl db =
     (let rest = filter (after_key (lf_cursor fl)) (listing u fl db)
      in (take (lf_limit fl) rest, lf_limit fl < length rest))"
  by (auto simp: listMedia_def Let_def select_rows_cursor min_def)

section \<open>A client that follows the cursors\<close>

text \<open>
  The client asks until there is no next page, with the key of the last row it got as the cursor. The
  database may be a different one at every request: \<open>dbs k\<close> is what the \<open>k\<close>-th request reads.
  \<open>None\<close> when \<open>fuel\<close> requests were not enough.
\<close>

definition next_cursor :: "list_row list \<Rightarrow> (time \<times> uuid) option" where
  "next_cursor rows = (if rows = [] then None else Some (lr_takenAt (last rows), lr_id (last rows)))"

fun browse :: "nat \<Rightarrow> nat \<Rightarrow> unicode \<Rightarrow> list_filters \<Rightarrow> (nat \<Rightarrow> database) \<Rightarrow> list_row list option" where
  "browse 0 k u fl dbs = None"
| "browse (Suc fuel) k u fl dbs =
     (case listMedia u fl (dbs k) of
        (rows, hasMore) \<Rightarrow>
          if hasMore
          then map_option ((@) rows) (browse fuel (Suc k) u (fl\<lparr>lf_cursor := next_cursor rows\<rparr>) dbs)
          else Some rows)"

declare browse.simps(2) [simp del]
lemmas browse_Suc = browse.simps(2)

lemma listing_cursor [simp]: "listing u (fl\<lparr>lf_cursor := c\<rparr>) db = listing u fl db"
  by (simp add: listing_def)

lemma after_key_next:
  "rows \<noteq> [] \<Longrightarrow> after_key (next_cursor rows) r \<longleftrightarrow> row_key (last rows) < row_key r"
  by (simp add: after_key_def next_cursor_def row_key_def)

lemma after_key_trans: "after_key c r \<Longrightarrow> row_key r < row_key r' \<Longrightarrow> after_key c r'"
  by (auto simp: after_key_def split: option.splits)

lemma listing_strict: "db_wf db \<Longrightarrow> sorted_wrt (<) (map row_key (filter P (listing u fl db)))"
  unfolding listing_def sorted_wrt_map
  by (rule sorted_wrt_filter) (use select_rows_strict in \<open>simp add: sorted_wrt_map\<close>)

text \<open>In a strictly ordered list, what lies after its \<open>n\<close>-th element is what is left of it.\<close>

lemma strict_drop:
  assumes "sorted_wrt (<) (map row_key xs)" "0 < n" "n < length xs"
  shows "filter (\<lambda>r. row_key (last (take n xs)) < row_key r) xs = drop n xs"
proof -
  have s: "sorted_wrt (\<lambda>a b. row_key a < row_key b) (take n xs @ drop n xs)"
    using assms(1) by (simp add: sorted_wrt_map)
  have ne: "take n xs \<noteq> []" using assms(2,3) by (cases xs) auto
  have "\<not> row_key (last (take n xs)) < row_key r" if "r \<in> set (take n xs)" for r
  proof -
    have "take n xs = butlast (take n xs) @ [last (take n xs)]" using ne by simp
    then have "sorted_wrt (\<lambda>a b. row_key a < row_key b) (butlast (take n xs) @ [last (take n xs)])"
      and "r \<in> set (butlast (take n xs)) \<or> r = last (take n xs)"
      using s sorted_wrt_append that by (metis, metis Un_iff empty_iff insert_iff list.set set_append)
    then show ?thesis by (auto simp: sorted_wrt_append)
  qed
  moreover have "row_key (last (take n xs)) < row_key r" if "r \<in> set (drop n xs)" for r
    using s [unfolded sorted_wrt_append] last_in_set [OF ne] that by blast
  ultimately have "filter (\<lambda>r. row_key (last (take n xs)) < row_key r) (take n xs @ drop n xs) = drop n xs"
    unfolding filter_append by (simp add: filter_False filter_True)
  then show ?thesis by simp
qed

lemma next_page_rest:
  assumes "db_wf db" "0 < n" "rest = filter (after_key c) (listing u fl db)" "n < length rest"
  shows "filter (after_key (next_cursor (take n rest))) (listing u fl db) = drop n rest"
proof -
  have ne: "take n rest \<noteq> []" using assms(2,4) by (cases rest) auto
  then have "last (take n rest) \<in> set rest"
    using last_in_set in_set_takeD by fast
  then have "after_key c (last (take n rest))"
    unfolding assms(3) set_filter by blast
  then have "after_key (next_cursor (take n rest)) r \<longleftrightarrow>
      after_key c r \<and> row_key (last (take n rest)) < row_key r" for r
    using after_key_next [OF ne] after_key_trans by blast
  then have "filter (after_key (next_cursor (take n rest))) (listing u fl db) =
      filter (\<lambda>r. row_key (last (take n rest)) < row_key r) rest"
    unfolding assms(3) filter_filter by meson
  then show ?thesis
    using strict_drop [OF _ assms(2,4)] listing_strict [OF assms(1)] assms(3) by simp
qed

text \<open>Over a table that does not change, the pages are the listing, cut into segments.\<close>

lemma browse_static:
  assumes "db_wf db" "0 < lf_limit fl"
    "length (filter (after_key (lf_cursor fl)) (listing u fl db)) \<le> fuel * lf_limit fl"
  shows "browse (Suc fuel) k u fl (\<lambda>_. db) = Some (filter (after_key (lf_cursor fl)) (listing u fl db))"
  using assms(2,3)
proof (induction fuel arbitrary: k fl)
  case 0
  then show ?case by (simp add: listMedia_page browse_Suc)
next
  case (Suc fuel)
  define rest where "rest = filter (after_key (lf_cursor fl)) (listing u fl db)"
  define n where "n = lf_limit fl"
  show ?case
  proof (cases "n < length rest")
    case True
    have drop: "filter (after_key (next_cursor (take n rest))) (listing u fl db) = drop n rest"
      using next_page_rest [OF assms(1) _ rest_def True] Suc.prems(1) by (simp add: n_def)
    have "browse (Suc fuel) (Suc k) u (fl\<lparr>lf_cursor := next_cursor (take n rest)\<rparr>) (\<lambda>_. db) = Some (drop n rest)"
      using Suc.IH [of "fl\<lparr>lf_cursor := next_cursor (take n rest)\<rparr>" "Suc k"] Suc.prems
      by (simp add: drop [unfolded n_def] rest_def [symmetric] n_def)
    moreover have "listMedia u fl db = (take n rest, True)"
      using True by (simp add: listMedia_page rest_def n_def)
    ultimately show ?thesis
      unfolding browse_Suc [of "Suc fuel"] by (simp add: rest_def)
  next
    case False
    then have "listMedia u fl db = (rest, False)"
      by (simp add: listMedia_page rest_def n_def)
    then show ?thesis
      unfolding browse_Suc [of "Suc fuel"] by (simp add: rest_def)
  qed
qed

text \<open>
  Over a changing table: the keys that arrive are strictly ordered, and a key that is listed at every
  request arrives.
\<close>

lemma browse_changing:
  assumes "\<And>j. db_wf (dbs j)" "0 < lf_limit fl" "browse fuel k u fl dbs = Some out"
  shows "sorted_wrt (<) (map row_key out) \<and> (\<forall>r \<in> set out. after_key (lf_cursor fl) r)
    \<and> (\<forall>key. (\<forall>j. \<exists>r \<in> set (listing u fl (dbs j)). row_key r = key \<and> after_key (lf_cursor fl) r) \<longrightarrow>
         key \<in> row_key ` set out)"
  using assms(2,3)
proof (induction fuel arbitrary: k fl out)
  case (Suc fuel)
  define rest where "rest = filter (after_key (lf_cursor fl)) (listing u fl (dbs k))"
  define n where "n = lf_limit fl"
  have strict: "sorted_wrt (<) (map row_key rest)"
    unfolding rest_def by (rule listing_strict [OF assms(1)])
  show ?case
  proof (cases "n < length rest")
    case False
    then have "out = rest"
      using Suc.prems(2) by (simp add: listMedia_page rest_def n_def browse_Suc)
    then show ?thesis using strict by (force simp: rest_def)
  next
    case True
    define page where "page = take n rest"
    define fl' where "fl' = fl\<lparr>lf_cursor := next_cursor page\<rparr>"
    have ne: "page \<noteq> []" using True Suc.prems(1) by (cases rest) (auto simp: page_def n_def)
    obtain out' where out': "browse fuel (Suc k) u fl' dbs = Some out'" "out = page @ out'"
      using Suc.prems(2) True by (auto simp: listMedia_page rest_def [symmetric] n_def [symmetric] page_def fl'_def browse_Suc)
    have IH: "sorted_wrt (<) (map row_key out')" "\<And>r. r \<in> set out' \<Longrightarrow> row_key (last page) < row_key r"
      "\<And>key. (\<And>j. \<exists>r \<in> set (listing u fl (dbs j)). row_key r = key \<and> row_key (last page) < row_key r) \<Longrightarrow>
         key \<in> row_key ` set out'"
      using Suc.IH [of fl' "Suc k" out'] Suc.prems(1) out'(1) after_key_next [OF ne] by (simp_all add: fl'_def)
    have page: "r \<in> set rest" if "r \<in> set page" for r
      using that by (auto simp: page_def dest: in_set_takeD)
    have s: "sorted_wrt (\<lambda>a b. row_key a < row_key b) (page @ drop n rest)"
      using strict by (simp add: page_def sorted_wrt_map)
    have le: "row_key r \<le> row_key (last page)" if "r \<in> set page" for r
    proof -
      have "sorted_wrt (\<lambda>a b. row_key a < row_key b) (butlast page @ [last page])"
        using s ne by (simp add: sorted_wrt_append)
      moreover have "r \<in> set (butlast page) \<or> r = last page"
        using that ne by (metis append_butlast_last_id in_set_butlast_appendI rotate1.simps(2) set_ConsD set_rotate1)
      ultimately show ?thesis by (auto simp: sorted_wrt_append)
    qed
    have "sorted_wrt (<) (map row_key out)"
      using s IH(1,2) le unfolding out'(2)
      by (force simp: sorted_wrt_append sorted_wrt_map)
    moreover have "after_key (lf_cursor fl) r" if "r \<in> set out" for r
    proof -
      have "after_key (lf_cursor fl) (last page)"
        using page [OF last_in_set [OF ne]] by (simp add: rest_def)
      then show ?thesis
        using that page IH(2) after_key_trans unfolding out'(2) by (auto simp: rest_def)
    qed
    moreover have "key \<in> row_key ` set out"
      if key: "\<And>j. \<exists>r \<in> set (listing u fl (dbs j)). row_key r = key \<and> after_key (lf_cursor fl) r" for key
    proof (cases "row_key (last page) < key")
      case True
      then show ?thesis using IH(3) [of key] key unfolding out'(2) by fastforce
    next
      case False
      obtain r where r: "r \<in> set rest" "row_key r = key"
        using key [of k] by (auto simp: rest_def)
      have "r \<notin> set (drop n rest)"
        using s False r(2) last_in_set [OF ne] by (auto simp: sorted_wrt_append)
      then have "r \<in> set page"
        using r(1) append_take_drop_id [of n rest] by (metis Un_iff page_def set_append)
      then show ?thesis using r(2) unfolding out'(2) by auto
    qed
    ultimately show ?thesis by blast
  qed
qed simp

text \<open>The total of the metadata block is the length of the listing without its date filters.\<close>

lemma countMedia_listing:
  assumes "db_wf db"
  shows "countMedia u fl db = length (listing u (fl\<lparr>lf_takenAfter := None, lf_takenBefore := None\<rparr>) db)"
proof -
  let ?fl = "fl\<lparr>lf_takenAfter := None, lf_takenBefore := None\<rparr>"
  have "satisfies (list_conditions u (?fl\<lparr>lf_cursor := None\<rparr>)) = satisfies (count_conditions u fl)"
    by (simp add: list_conditions_def count_conditions_def hashtag_condition_def mediaType_condition_def
        date_conditions_def stale_condition_def cursor_condition_def fun_eq_iff)
  then show ?thesis
    by (simp add: listing_def countMedia_def select_rows_ids(3) [OF assms])
qed

text \<open>The listing is the posts that pass the filters, each once.\<close>

lemma listing_ids:
  assumes "db_wf db"
  shows "set (map lr_id (listing u fl db)) =
    {mp_id m | m h. m \<in> set (db_mediaPosts db) \<and> h \<in> set (db_hashtags db) \<and> ht_id h = mp_hashtagId m
       \<and> satisfies (list_conditions u (fl\<lparr>lf_cursor := None\<rparr>)) m h}"
proof -
  have "set (map lr_id (listing u fl db)) =
      (\<lambda>p. mp_id (fst p)) ` set (filter (\<lambda>(m, h). satisfies (list_conditions u (fl\<lparr>lf_cursor := None\<rparr>)) m h) (post_join db))"
    unfolding set_map [symmetric] join_rows_ids [OF assms, symmetric] by (simp add: listing_def select_rows_join)
  moreover have "(m, h) \<in> set (post_join db) \<longleftrightarrow>
      m \<in> set (db_mediaPosts db) \<and> h \<in> set (db_hashtags db) \<and> ht_id h = mp_hashtagId m" for m h
    by (auto simp: post_join_def hashtags_of_def)
  ultimately show ?thesis by (auto simp: image_iff) blast+
qed

end
