(* ===== verification/Text_Codec.thy ===== *)
theory Text_Codec
  imports Caption_Parser
begin

text \<open>
  \<open>Buffer.from(text, 'utf8')\<close>, \<open>buffer.toString('utf8')\<close>, \<open>buffer.toString('base64url')\<close> and
  \<open>Buffer.from(text, 'base64url')\<close>, as the cursor of the read API uses them. Bytes are numbers below 256.
\<close>

section \<open>UTF-8\<close>

text \<open>A lone surrogate is encoded as the replacement character U+FFFD.\<close>

definition utf8_bytes :: "nat \<Rightarrow> nat list" where
  "utf8_bytes c =
     (if c < 128 then [c]
      else if c < 2048 then [192 + c div 64, 128 + c mod 64]
      else if is_high c \<or> is_low c then [239, 191, 189]
      else if c < 65536 then [224 + c div 4096, 128 + c div 64 mod 64, 128 + c mod 64]
      else [240 + c div 262144, 128 + c div 4096 mod 64, 128 + c div 64 mod 64, 128 + c mod 64])"

definition utf8_encode :: "jstr \<Rightarrow> nat list" where
  "utf8_encode s = concat (map utf8_bytes (code_points s))"

text \<open>
  The decoder: what a lead byte announces is its payload, the number of continuation bytes and the range
  of the first of them. A sequence that breaks off yields one replacement character, and decoding goes on
  with the byte that broke it.
\<close>

definition lead_byte :: "nat \<Rightarrow> (nat \<times> nat \<times> nat \<times> nat) option" where
  "lead_byte b =
     (if 194 \<le> b \<and> b \<le> 223 then Some (b - 192, 1, 128, 191)
      else if b = 224 then Some (0, 2, 160, 191)
      else if b = 237 then Some (13, 2, 128, 159)
      else if 225 \<le> b \<and> b \<le> 239 then Some (b - 224, 2, 128, 191)
      else if b = 240 then Some (0, 3, 144, 191)
      else if 241 \<le> b \<and> b \<le> 243 then Some (b - 240, 3, 128, 191)
      else if b = 244 then Some (4, 3, 128, 143)
      else None)"

fun utf8_tail :: "nat \<Rightarrow> nat \<Rightarrow> nat \<Rightarrow> nat \<Rightarrow> nat list \<Rightarrow> nat option \<times> nat list" where
  "utf8_tail 0 lo hi acc bs = (Some acc, bs)"
| "utf8_tail (Suc n) lo hi acc [] = (None, [])"
| "utf8_tail (Suc n) lo hi acc (b # bs) =
     (if lo \<le> b \<and> b \<le> hi then utf8_tail n 128 191 (acc * 64 + (b - 128)) bs else (None, b # bs))"

lemma utf8_tail_length: "length (snd (utf8_tail n lo hi acc bs)) \<le> length bs"
  by (induction n lo hi acc bs rule: utf8_tail.induct) auto

function utf8_decode :: "nat list \<Rightarrow> jstr" where
  "utf8_decode [] = []"
| "utf8_decode (b # bs) =
     (if b < 128 then b # utf8_decode bs
      else case lead_byte b of
             None \<Rightarrow> 65533 # utf8_decode bs
           | Some (acc, n, lo, hi) \<Rightarrow>
               (case utf8_tail n lo hi acc bs of
                  (Some cp, rest) \<Rightarrow> utf16 cp @ utf8_decode rest
                | (None, rest) \<Rightarrow> 65533 # utf8_decode rest))"
  by pat_completeness auto
termination
proof (relation "measure length", simp_all)
  fix bs acc n lo hi x rest
  show "(x, rest) = utf8_tail n lo hi acc bs \<Longrightarrow> length rest < Suc (length bs)"
    using utf8_tail_length [of n lo hi acc bs] by (metis less_Suc_eq_le snd_conv)
qed (use utf8_tail_length in \<open>metis less_Suc_eq_le snd_conv\<close>)+

definition ascii :: "jstr \<Rightarrow> bool" where
  "ascii s \<longleftrightarrow> (\<forall>c \<in> set s. c < 128)"

lemma ascii_simps [simp]: "ascii []" "ascii (c # s) \<longleftrightarrow> c < 128 \<and> ascii s" "ascii (s @ t) \<longleftrightarrow> ascii s \<and> ascii t"
  by (auto simp: ascii_def)

lemma code_points_ascii: "ascii s \<Longrightarrow> code_points s = s"
  by (induction s rule: code_points.induct) (auto simp: is_high_def)

lemma utf8_encode_ascii: "ascii s \<Longrightarrow> utf8_encode s = s"
  unfolding utf8_encode_def code_points_ascii
  by (induction s) (auto simp: utf8_bytes_def)

lemma utf8_decode_ascii: "ascii s \<Longrightarrow> utf8_decode s = s"
  by (induction s) auto

section \<open>base64url\<close>

definition b64_char :: "nat \<Rightarrow> nat" where
  "b64_char v = (if v < 26 then 65 + v else if v < 52 then 71 + v else if v < 62 then v - 4
     else if v = 62 then 45 else 95)"

text \<open>The decoder takes the ordinary alphabet too.\<close>

definition b64_value :: "nat \<Rightarrow> nat option" where
  "b64_value c = (if 65 \<le> c \<and> c \<le> 90 then Some (c - 65) else if 97 \<le> c \<and> c \<le> 122 then Some (c - 71)
     else if 48 \<le> c \<and> c \<le> 57 then Some (c + 4) else if c = 45 \<or> c = 43 then Some 62
     else if c = 95 \<or> c = 47 then Some 63 else None)"

fun b64_encode :: "nat list \<Rightarrow> jstr" where
  "b64_encode [] = []"
| "b64_encode [a] = map b64_char [a div 4, a mod 4 * 16]"
| "b64_encode [a, b] = map b64_char [a div 4, a mod 4 * 16 + b div 16, b mod 16 * 4]"
| "b64_encode (a # b # c # r) =
     map b64_char [a div 4, a mod 4 * 16 + b div 16, b mod 16 * 4 + c div 64, c mod 64] @ b64_encode r"

fun b64_groups :: "nat list \<Rightarrow> nat list" where
  "b64_groups (w # x # y # z # r) =
     [w * 4 + x div 16, x mod 16 * 16 + y div 4, y mod 4 * 64 + z] @ b64_groups r"
| "b64_groups [w, x, y] = [w * 4 + x div 16, x mod 16 * 16 + y div 4]"
| "b64_groups [w, x] = [w * 4 + x div 16]"
| "b64_groups _ = []"

text \<open>
  On text with other characters (padding, spaces, anything) the decoder of the runtime is lenient in its
  own way: \<open>loose\<close>.
\<close>

definition b64_decode :: "(jstr \<Rightarrow> nat list) \<Rightarrow> jstr \<Rightarrow> nat list" where
  "b64_decode loose s = (case those (map b64_value s) of Some vs \<Rightarrow> b64_groups vs | None \<Rightarrow> loose s)"

lemma b64_value_char: "v < 64 \<Longrightarrow> b64_value (b64_char v) = Some v"
  by (auto simp: b64_value_def b64_char_def)

lemma b64_char_ascii: "v < 64 \<Longrightarrow> b64_char v < 128"
  by (auto simp: b64_char_def)

definition sextets :: "nat list \<Rightarrow> bool" where
  "sextets vs \<longleftrightarrow> (\<forall>v \<in> set vs. v < 64)"

lemma those_b64: "sextets vs \<Longrightarrow> those (map b64_value (map b64_char vs)) = Some vs"
  by (induction vs) (auto simp: sextets_def b64_value_char)

text \<open>The encoder first cuts the bytes into sextets; the groups put them together again.\<close>

fun b64_sextets :: "nat list \<Rightarrow> nat list" where
  "b64_sextets [] = []"
| "b64_sextets [a] = [a div 4, a mod 4 * 16]"
| "b64_sextets [a, b] = [a div 4, a mod 4 * 16 + b div 16, b mod 16 * 4]"
| "b64_sextets (a # b # c # r) =
     [a div 4, a mod 4 * 16 + b div 16, b mod 16 * 4 + c div 64, c mod 64] @ b64_sextets r"

lemma b64_encode_sextets: "b64_encode bs = map b64_char (b64_sextets bs)"
  by (induction bs rule: b64_encode.induct) simp_all

lemma sextet_parts:
  fixes a b c :: nat
  assumes "a < 256" "b < 256" "c < 256"
  shows "a div 4 < 64" "a mod 4 * 16 < 64" "a mod 4 * 16 + b div 16 < 64" "b mod 16 * 4 < 64"
    "b mod 16 * 4 + c div 64 < 64" "c mod 64 < 64"
    "a div 4 * 4 + (a mod 4 * 16 + b div 16) div 16 = a" "a div 4 * 4 + a mod 4 * 16 div 16 = a"
    "(a mod 4 * 16 + b div 16) mod 16 * 16 + (b mod 16 * 4 + c div 64) div 4 = b"
    "(a mod 4 * 16 + b div 16) mod 16 * 16 + b mod 16 * 4 div 4 = b"
    "(b mod 16 * 4 + c div 64) mod 4 * 64 + c mod 64 = c"
proof -
  have d: "b div 16 < 16" "c div 64 < 4" "a div 4 < 64" using assms by auto
  have m: "a mod 4 < 4" "b mod 16 < 16" by simp_all
  show "a div 4 < 64" "a mod 4 * 16 < 64" "a mod 4 * 16 + b div 16 < 64" "b mod 16 * 4 < 64"
    "b mod 16 * 4 + c div 64 < 64" "c mod 64 < 64"
    using d m by auto
  have "(a mod 4 * 16 + b div 16) div 16 = a mod 4" "(a mod 4 * 16 + b div 16) mod 16 = b div 16"
    "(b mod 16 * 4 + c div 64) div 4 = b mod 16" "(b mod 16 * 4 + c div 64) mod 4 = c div 64"
    using d by auto
  then show "a div 4 * 4 + (a mod 4 * 16 + b div 16) div 16 = a" "a div 4 * 4 + a mod 4 * 16 div 16 = a"
    "(a mod 4 * 16 + b div 16) mod 16 * 16 + (b mod 16 * 4 + c div 64) div 4 = b"
    "(a mod 4 * 16 + b div 16) mod 16 * 16 + b mod 16 * 4 div 4 = b"
    "(b mod 16 * 4 + c div 64) mod 4 * 64 + c mod 64 = c"
    by simp_all
qed

definition octets :: "nat list \<Rightarrow> bool" where
  "octets bs \<longleftrightarrow> (\<forall>b \<in> set bs. b < 256)"

lemma zero_octet: "0 < (256 :: nat)" by simp

lemmas byte_parts =
  sextet_parts(1,2,8) [OF _ zero_octet zero_octet] sextet_parts(3,4,7,10) [OF _ _ zero_octet]
  sextet_parts(5,11) [OF zero_octet] sextet_parts(6) [OF zero_octet zero_octet] sextet_parts(9)

lemma octet_simps: "octets []" "octets (b # bs) \<longleftrightarrow> b < 256 \<and> octets bs"
  by (auto simp: octets_def)

lemma sextet_simps: "sextets []" "sextets (v # vs) \<longleftrightarrow> v < 64 \<and> sextets vs"
  by (auto simp: sextets_def)

lemma b64_sextets_ok: "octets bs \<Longrightarrow> sextets (b64_sextets bs) \<and> b64_groups (b64_sextets bs) = bs"
  by (induction bs rule: b64_sextets.induct)
    (simp_all only: b64_sextets.simps append.simps b64_groups.simps octet_simps sextet_simps byte_parts simp_thms)

lemma b64_roundtrip: "octets bs \<Longrightarrow> b64_decode loose (b64_encode bs) = bs"
  by (simp only: b64_decode_def b64_encode_sextets those_b64 b64_sextets_ok option.case)

lemma b64_encode_ascii: "octets bs \<Longrightarrow> ascii (b64_encode bs)"
  using b64_sextets_ok [of bs] b64_char_ascii by (auto simp: b64_encode_sextets ascii_def sextets_def)

lemma ascii_octets: "ascii s \<Longrightarrow> octets s"
  by (force simp: ascii_def octets_def)

lemma b64_encode_nonempty [simp]: "b64_encode bs = [] \<longleftrightarrow> bs = []"
  by (cases bs rule: b64_encode.cases) simp_all

section \<open>Serialised ASCII text\<close>

lemma ascii_js [simp]: "list_all (\<lambda>c. of_char c < (128::nat)) s \<Longrightarrow> ascii (js s)"
  by (induction s) (auto simp: js_def)

lemma quote_unit_ascii: "c < 128 \<Longrightarrow> ascii (quote_unit c)"
  by (auto simp: quote_unit_def unicode_escape_def hex_digit_def)

lemma quote_units_ascii: "ascii s \<Longrightarrow> ascii (quote_units s)"
  by (induction s rule: quote_units.induct) (auto simp: quote_unit_ascii)

lemma quote_string_ascii: "ascii s \<Longrightarrow> ascii (quote_string s)"
  by (simp add: quote_string_def quote_units_ascii)

lemma stringify_members_ascii:
  "list_all (\<lambda>(k, v). ascii (js k) \<and> ascii v) kvs \<Longrightarrow> ascii (stringify_members kvs)"
  by (induction kvs rule: stringify_members.induct) (auto simp: quote_string_ascii)

end
