(* ===== verification/Cursor.thy ===== *)
theory Cursor
  imports Text_Codec Uuid Api_Errors
begin

text \<open>
  \<open>src/api/controllers/responses/cursor.ts\<close>: the opaque cursor of the read API. \<open>toISOString\<close> and
  \<open>Date.parse\<close> are parameters.
\<close>

record cursor_env =
  cx_iso :: "time \<Rightarrow> jstr"
  cx_date_parse :: "jstr \<Rightarrow> time option"
  cx_loose :: "jstr \<Rightarrow> nat list"

definition encodeCursor :: "cursor_env \<Rightarrow> time \<Rightarrow> uuid \<Rightarrow> jstr" where
  "encodeCursor env takenAt i =
     b64_encode (utf8_encode (stringify_object [(''takenAt'', cx_iso env takenAt), (''id'', uuid_show i)]))"

definition cursor_error :: "string \<Rightarrow> js_error" where
  "cursor_error message = badRequestError (js message) None"

text \<open>A value that is not an object has neither field.\<close>

definition decodeCursor :: "cursor_env \<Rightarrow> jstr \<Rightarrow> js_error + time \<times> uuid" where
  "decodeCursor env raw =
     (case json_parse (utf8_decode (b64_decode (cx_loose env) raw)) of
        None \<Rightarrow> Inl (cursor_error ''cursor is not valid base64url-encoded JSON'')
      | Some parsed \<Rightarrow>
          (case (jfield ''takenAt'' parsed, jfield ''id'' parsed) of
             (Some (JStr t), Some (JStr i)) \<Rightarrow>
               (case cx_date_parse env t of
                  None \<Rightarrow> Inl (cursor_error ''cursor contains an invalid takenAt timestamp'')
                | Some takenAt \<Rightarrow>
                    (case uuid_parse i of
                       None \<Rightarrow> Inl (cursor_error ''cursor contains an invalid id'')
                     | Some k \<Rightarrow> Inr (takenAt, k)))
           | _ \<Rightarrow> Inl (cursor_error ''cursor is missing takenAt or id'')))"

text \<open>What the cursor needs of \<open>toISOString\<close>: plain text that \<open>Date.parse\<close> reads back.\<close>

definition iso_ok :: "cursor_env \<Rightarrow> time \<Rightarrow> bool" where
  "iso_ok env t \<longleftrightarrow> ascii (cx_iso env t) \<and> cx_date_parse env (cx_iso env t) = Some t"

lemma hex_show_ascii: "ascii (hex_show k n)"
  by (induction k arbitrary: n) (auto simp: hex_digit_def)

lemma ascii_take_drop: "ascii s \<Longrightarrow> ascii (take k s) \<and> ascii (drop k s)"
  by (auto simp: ascii_def dest: in_set_takeD in_set_dropD)

lemma uuid_show_ascii: "ascii (uuid_show i)"
  using hex_show_ascii ascii_take_drop by (simp add: uuid_show_def Let_def)

lemma cursor_text_ascii:
  "iso_ok env t \<Longrightarrow> ascii (stringify_object [(''takenAt'', cx_iso env t), (''id'', uuid_show i)])"
  unfolding stringify_object_def
  using stringify_members_ascii [of "[(''takenAt'', cx_iso env t), (''id'', uuid_show i)]"]
  by (simp add: iso_ok_def uuid_show_ascii)

lemma decode_encode:
  assumes "iso_ok env t" "i < uuid_limit"
  shows "decodeCursor env (encodeCursor env t i) = Inr (t, i)"
proof -
  let ?s = "stringify_object [(''takenAt'', cx_iso env t), (''id'', uuid_show i)]"
  have a: "ascii ?s" by (rule cursor_text_ascii [OF assms(1)])
  have "utf8_decode (b64_decode (cx_loose env) (encodeCursor env t i)) = ?s"
    unfolding encodeCursor_def utf8_encode_ascii [OF a] b64_roundtrip [OF ascii_octets [OF a]]
    by (rule utf8_decode_ascii [OF a])
  moreover have "cx_date_parse env (cx_iso env t) = Some t" using assms(1) by (simp add: iso_ok_def)
  ultimately show ?thesis
    by (simp add: decodeCursor_def json_parse_stringify uuid_parse_show [OF assms(2)])
qed

lemma encodeCursor_nonempty [simp]: "iso_ok env t \<Longrightarrow> encodeCursor env t i \<noteq> []"
  using cursor_text_ascii [of env t i]
  by (simp add: encodeCursor_def utf8_encode_ascii) (simp add: stringify_object_def)

text \<open>Whatever a client sends: a key with an identifier in range, or an error that answers 400.\<close>

lemma decodeCursor_total:
  "(\<exists>t i. decodeCursor env raw = Inr (t, i) \<and> i < uuid_limit) \<or>
   (\<exists>m. decodeCursor env raw = Inl (cursor_error m))"
  unfolding decodeCursor_def
  by (auto split: option.split json.split dest: uuid_parse_bound)

end
