(* ===== verification/Zod_Checks.thy ===== *)
theory Zod_Checks
  imports Meta_Types
begin

text \<open>
  Fields of a flat zod object, as the query schema and the environment schema declare them: the checks
  of a field that fail, by name, or its value. \<open>z.coerce.number()\<close> applies \<open>Number\<close>, whose results are
  the three kinds below.
\<close>

type_synonym 'a checked = "string list + 'a"

datatype js_number = Not_A_Number | Infinite bool | Finite rat \<comment> \<open>\<open>Infinite True\<close> is \<open>Infinity\<close>\<close>

definition failed_unless :: "bool \<Rightarrow> string \<Rightarrow> string list" where
  "failed_unless ok check = (if ok then [] else [check])"

definition checked :: "string list \<Rightarrow> 'a \<Rightarrow> 'a checked" where
  "checked failures v = (if failures = [] then Inr v else Inl failures)"

lemma checked_Inr [simp]: "checked fs v = Inr w \<longleftrightarrow> fs = [] \<and> w = v"
  by (auto simp: checked_def)

lemma failed_unless_Nil [simp]: "failed_unless ok c = [] \<longleftrightarrow> ok"
  by (simp add: failed_unless_def)

section \<open>Number\<close>

text \<open>
  \<open>Number(s)\<close> on a string: white space around it is dropped, an empty text is 0, then the radix forms
  \<open>0x\<close>, \<open>0o\<close>, \<open>0b\<close>, or a sign, \<open>Infinity\<close> or a decimal literal with optional fraction and exponent.
  Values are exact rationals: the rounding to 53 bits is left out, the overflow to \<open>Infinity\<close> is not.
\<close>

definition digit_value :: "nat \<Rightarrow> nat \<Rightarrow> nat option" where
  "digit_value base c =
     (case hex_value c of None \<Rightarrow> None | Some v \<Rightarrow> if v < base then Some v else None)"

fun radix_value :: "nat \<Rightarrow> nat \<Rightarrow> jstr \<Rightarrow> nat option" where
  "radix_value base acc [] = Some acc"
| "radix_value base acc (c # s) =
     (case digit_value base c of None \<Rightarrow> None | Some v \<Rightarrow> radix_value base (acc * base + v) s)"

definition radix_of :: "jstr \<Rightarrow> nat option" where
  "radix_of p =
     (if p = js ''0x'' \<or> p = js ''0X'' then Some 16 else if p = js ''0o'' \<or> p = js ''0O'' then Some 8
      else if p = js ''0b'' \<or> p = js ''0B'' then Some 2 else None)"

definition finite_number :: "rat \<Rightarrow> js_number" where
  "finite_number v =
     (if 2 ^ 1024 - 2 ^ 970 \<le> v then Infinite True else if v \<le> - (2 ^ 1024 - 2 ^ 970) then Infinite False
      else Finite v)"

text \<open>The exponent of a decimal literal, with its sign; \<open>None\<close> where the text is not one.\<close>

definition exponent_factor :: "jstr \<Rightarrow> rat option" where
  "exponent_factor s =
     (case s of
        [] \<Rightarrow> Some 1
      | e # r \<Rightarrow>
          if e \<noteq> 101 \<and> e \<noteq> 69 then None
          else let signed = (r \<noteq> [] \<and> (hd r = 43 \<or> hd r = 45)); ds = (if signed then tl r else r)
               in if ds = [] \<or> \<not> list_all ascii_digit ds then None
                  else let p = 10 ^ nat \<lfloor>digits_value ds\<rfloor> in Some (if signed \<and> hd r = 45 then 1 / p else p))"

definition decimal_value :: "jstr \<Rightarrow> rat option" where
  "decimal_value s =
     (let ip = takeWhile ascii_digit s; s1 = dropWhile ascii_digit s;
          dot = (s1 \<noteq> [] \<and> hd s1 = 46);
          fp = (if dot then takeWhile ascii_digit (tl s1) else []);
          s2 = (if dot then dropWhile ascii_digit (tl s1) else s1)
      in if ip @ fp = [] then None
         else map_option (\<lambda>f. digits_value (ip @ fp) / 10 ^ length fp * f) (exponent_factor s2))"

definition js_Number :: "jstr \<Rightarrow> js_number" where
  "js_Number t =
     (let s = js_trim t
      in if s = [] then Finite 0
         else case radix_of (take 2 s) of
           Some b \<Rightarrow>
             (if drop 2 s = [] then Not_A_Number
              else case radix_value b 0 (drop 2 s) of
                None \<Rightarrow> Not_A_Number | Some v \<Rightarrow> finite_number (of_nat v))
         | None \<Rightarrow>
             (let neg = (hd s = 45); u = (if neg \<or> hd s = 43 then tl s else s)
              in if u = js ''Infinity'' then Infinite (\<not> neg)
                 else case decimal_value u of
                   None \<Rightarrow> Not_A_Number
                 | Some v \<Rightarrow> finite_number (if neg then - v else v)))"

text \<open>
  \<open>Number(v)\<close> on a parsed query value: an array is converted to the text of its elements joined by
  commas, so one element counts for itself (but \<open>true\<close> as text is no number) and two never do.
\<close>

fun element_number :: "json \<Rightarrow> js_number" where
  "element_number JNull = Finite 0"
| "element_number (JBool b) = Not_A_Number"
| "element_number (JNum q) = Finite q"
| "element_number (JStr s) = js_Number s"
| "element_number (JArr []) = Finite 0"
| "element_number (JArr [v]) = element_number v"
| "element_number (JArr (v # w # vs)) = Not_A_Number"
| "element_number (JObj kvs) = Not_A_Number"

definition coerce_number :: "json \<Rightarrow> js_number" where
  "coerce_number v =
     (case v of JBool b \<Rightarrow> Finite (if b then 1 else 0) | _ \<Rightarrow> element_number v)"

lemmas number_defs = js_Number_def js_trim_def is_js_space_def radix_of_def decimal_value_def
  exponent_factor_def digits_value_def finite_number_def ascii_digit_def

section \<open>Checks\<close>

fun num_int :: "js_number \<Rightarrow> bool" where
  "num_int (Finite n) = (of_int \<lfloor>n\<rfloor> = n)"
| "num_int _ = False"

fun num_at_least :: "rat \<Rightarrow> js_number \<Rightarrow> bool" where
  "num_at_least k (Finite n) = (k \<le> n)"
| "num_at_least k (Infinite pos) = pos"
| "num_at_least k Not_A_Number = False"

fun num_positive :: "js_number \<Rightarrow> bool" where
  "num_positive (Finite n) = (0 < n)"
| "num_positive (Infinite pos) = pos"
| "num_positive Not_A_Number = False"

fun num_at_most :: "rat \<Rightarrow> js_number \<Rightarrow> bool" where
  "num_at_most k (Finite n) = (n \<le> k)"
| "num_at_most k (Infinite pos) = (\<not> pos)"
| "num_at_most k Not_A_Number = False"

fun num_value :: "js_number \<Rightarrow> nat" where
  "num_value (Finite n) = nat \<lfloor>n\<rfloor>"
| "num_value _ = 0"

text \<open>\<open>z.coerce.number().int()\<close> with a lower and possibly an upper check.\<close>

definition int_checks :: "(js_number \<Rightarrow> bool) \<Rightarrow> rat option \<Rightarrow> js_number \<Rightarrow> nat checked" where
  "int_checks lower upper n =
     (if n = Not_A_Number then Inl [''type'']
      else checked (failed_unless (num_int n) ''int'' @ failed_unless (lower n) ''min'' @
             (case upper of None \<Rightarrow> [] | Some k \<Rightarrow> failed_unless (num_at_most k n) ''max'')) (num_value n))"

lemma int_checks_Inr:
  assumes "int_checks lower upper n = Inr v"
  shows "n = Finite (of_nat v) \<or> (\<exists>i < 0. n = Finite (of_int i) \<and> v = 0)" "lower n"
    "upper = Some k \<Longrightarrow> num_at_most k n"
proof -
  have n: "num_int n" "lower n" "v = num_value n" "upper = Some k \<Longrightarrow> num_at_most k n"
    using assms by (auto simp: int_checks_def split: if_splits)
  then obtain q where q: "n = Finite q" "of_int \<lfloor>q\<rfloor> = q" by (cases n) auto
  show "n = Finite (of_nat v) \<or> (\<exists>i < 0. n = Finite (of_int i) \<and> v = 0)"
  proof (cases "0 \<le> \<lfloor>q\<rfloor>")
    case True
    then have "of_nat v = q" using n(3) q by (metis num_value.simps(1) of_int_of_nat_eq int_nat_eq)
    then show ?thesis using q(1) by simp
  next
    case False
    then show ?thesis using n(3) q by (auto intro!: exI [of _ "\<lfloor>q\<rfloor>"])
  qed
  show "lower n" "upper = Some k \<Longrightarrow> num_at_most k n" using n by simp_all
qed

lemma int_checks_range:
  assumes "int_checks (num_at_least l) upper n = Inr v" "0 \<le> l"
  shows "l \<le> of_nat v" "upper = Some k \<Longrightarrow> of_nat v \<le> k"
  using int_checks_Inr [OF assms(1)] assms(2) by auto

lemma int_checks_positive:
  assumes "int_checks num_positive upper n = Inr v"
  shows "1 \<le> v" "upper = Some k \<Longrightarrow> of_nat v \<le> k"
  using int_checks_Inr [OF assms] by auto

definition field_issues :: "(string \<Rightarrow> string \<Rightarrow> jstr) \<Rightarrow> string \<Rightarrow> 'a checked \<Rightarrow> zod_issue list" where
  "field_issues message k r =
     (case r of
        Inl checks \<Rightarrow> map (\<lambda>c. \<lparr>zi_path = [js k], zi_message = message k c\<rparr>) checks
      | Inr _ \<Rightarrow> [])"

end
