(* ===== verification/Http_Api.thy ===== *)
theory Http_Api
  imports Media_Paging Cursor Hashtag_Repository Zod_Checks
begin

text \<open>
  The read API: \<open>src/api/controllers/requests/listHashtagMediaRequest.ts\<close>,
  \<open>src/api/controllers/HashtagController.ts\<close> and \<open>HealthController.ts\<close>. \<open>Number\<close>, \<open>new Date\<close>, the
  issue texts of zod and the locator of the storage driver are parameters. \<open>req.query\<close> is a JSON
  object: strings, and the arrays and objects the query parser makes of repeated or bracketed names.
\<close>

record api_env =
  ax_unicode :: unicode
  ax_date :: "json \<Rightarrow> time option" \<comment> \<open>\<open>None\<close>: Invalid Date\<close>
  ax_message :: "string \<Rightarrow> string \<Rightarrow> jstr" \<comment> \<open>text for a field and a failed check\<close>
  ax_cursor :: cursor_env
  ax_locator :: "jstr \<Rightarrow> js_error + jstr"
  ax_isProduction :: bool

section \<open>The query schema\<close>

record list_query =
  lq_hashtag :: "jstr option"
  lq_limit :: nat
  lq_cursor :: "jstr option"
  lq_mediaType :: "media_type option"
  lq_takenAfter :: "time option"
  lq_takenBefore :: "time option"
  lq_includeStale :: bool
  lq_includeAsset :: bool

definition hashtag_field :: "json \<Rightarrow> jstr option checked" where
  "hashtag_field q =
     (case jfield ''hashtag'' q of
        None \<Rightarrow> Inr None
      | Some v \<Rightarrow>
          (case z_string v of
             None \<Rightarrow> Inl [''type'']
           | Some s \<Rightarrow> checked (failed_unless (1 \<le> length s) ''min'' @ failed_unless (length s \<le> 255) ''max'') (Some s)))"

definition limit_field :: "api_env \<Rightarrow> json \<Rightarrow> nat checked" where
  "limit_field env q =
     (case jfield ''limit'' q of
        None \<Rightarrow> Inr 25
      | Some v \<Rightarrow> int_checks (num_at_least 1) (Some 100) (coerce_number v))"

definition cursor_field :: "json \<Rightarrow> jstr option checked" where
  "cursor_field q =
     (case jfield ''cursor'' q of
        None \<Rightarrow> Inr None
      | Some v \<Rightarrow> (case z_string v of None \<Rightarrow> Inl [''type'']
                   | Some s \<Rightarrow> checked (failed_unless (1 \<le> length s) ''min'') (Some s)))"

definition mediaType_field :: "json \<Rightarrow> media_type option checked" where
  "mediaType_field q =
     (case jfield ''mediaType'' q of
        None \<Rightarrow> Inr None
      | Some v \<Rightarrow> (case metaMediaTypeSchema v of None \<Rightarrow> Inl [''enum''] | Some t \<Rightarrow> Inr (Some t)))"

definition date_field :: "api_env \<Rightarrow> string \<Rightarrow> json \<Rightarrow> time option checked" where
  "date_field env k q =
     (case jfield k q of
        None \<Rightarrow> Inr None
      | Some v \<Rightarrow> (case ax_date env v of None \<Rightarrow> Inl [''date''] | Some t \<Rightarrow> Inr (Some t)))"

text \<open>\<open>z.enum(['true', 'false']).default('true').transform(value => value === 'true')\<close>\<close>

definition flag_field :: "string \<Rightarrow> json \<Rightarrow> bool checked" where
  "flag_field k q =
     (case jfield k q of
        None \<Rightarrow> Inr True
      | Some v \<Rightarrow> if v = JStr (js ''true'') then Inr True
                   else if v = JStr (js ''false'') then Inr False else Inl [''enum''])"

text \<open>All fields are checked, in the order of the schema; the issues of all of them are reported.\<close>

definition listHashtagMediaQuerySchema :: "api_env \<Rightarrow> json \<Rightarrow> js_error + list_query" where
  "listHashtagMediaQuerySchema env q =
     (let h = hashtag_field q; l = limit_field env q; c = cursor_field q; m = mediaType_field q;
          a = date_field env ''takenAfter'' q; b = date_field env ''takenBefore'' q;
          st = flag_field ''includeStale'' q; as = flag_field ''includeAsset'' q
      in case (h, l, c, m, a, b, st, as) of
           (Inr h', Inr l', Inr c', Inr m', Inr a', Inr b', Inr st', Inr as') \<Rightarrow>
             Inr \<lparr>lq_hashtag = h', lq_limit = l', lq_cursor = c', lq_mediaType = m', lq_takenAfter = a',
               lq_takenBefore = b', lq_includeStale = st', lq_includeAsset = as'\<rparr>
         | _ \<Rightarrow> Inl (Zod_Error (field_issues (ax_message env) ''hashtag'' h @ field_issues (ax_message env) ''limit'' l @ field_issues (ax_message env) ''cursor'' c @
             field_issues (ax_message env) ''mediaType'' m @ field_issues (ax_message env) ''takenAfter'' a @ field_issues (ax_message env) ''takenBefore'' b @
             field_issues (ax_message env) ''includeStale'' st @ field_issues (ax_message env) ''includeAsset'' as)))"

section \<open>The response\<close>

definition jopt :: "('a \<Rightarrow> json) \<Rightarrow> 'a option \<Rightarrow> json" where
  "jopt f v = (case v of None \<Rightarrow> JNull | Some x \<Rightarrow> f x)"

definition jint :: "int \<Rightarrow> json" where
  "jint n = JNum (of_int n)"

definition jnat :: "nat \<Rightarrow> json" where
  "jnat n = jint (int n)"

definition jobject :: "(string \<times> json) list \<Rightarrow> json" where
  "jobject ms = JObj (map (\<lambda>(k, v). (js k, v)) ms)"

definition asset_status_name :: "asset_status \<Rightarrow> string" where
  "asset_status_name s =
     (case s of Pending \<Rightarrow> ''pending'' | Downloading \<Rightarrow> ''downloading'' | Stored \<Rightarrow> ''stored''
      | Asset_Failed \<Rightarrow> ''failed'' | Skipped \<Rightarrow> ''skipped'')"

text \<open>The asset block: the locator may reject a key.\<close>

definition asset_json :: "api_env \<Rightarrow> list_row \<Rightarrow> js_error + json" where
  "asset_json env r =
     (case lr_assetKey r of
        Some key \<Rightarrow>
          if key \<noteq> []
          then (case ax_locator env key of
                  Inl e \<Rightarrow> Inl e
                | Inr loc \<Rightarrow> Inr (jobject
                    [(''status'', jopt (\<lambda>s. JStr (js (asset_status_name s))) (lr_assetStatus r)),
                     (''storageKey'', JStr key), (''locator'', JStr loc),
                     (''sha256'', jopt JStr (lr_assetSha256 r)),
                     (''sizeBytes'', jopt jnat (lr_assetSizeBytes r)),
                     (''contentType'', jopt JStr (lr_assetContentType r))]))
          else Inr (jobject [(''status'', JStr (js (case lr_assetStatus r of None \<Rightarrow> ''pending'' | Some s \<Rightarrow> asset_status_name s)))])
      | None \<Rightarrow> Inr (jobject [(''status'', JStr (js (case lr_assetStatus r of None \<Rightarrow> ''pending'' | Some s \<Rightarrow> asset_status_name s)))]))"

definition row_members :: "api_env \<Rightarrow> list_row \<Rightarrow> (string \<times> json) list" where
  "row_members env r =
     (let iso = (\<lambda>t. JStr (cx_iso (ax_cursor env) t))
      in [(''id'', JStr (uuid_show (lr_id r))), (''igMediaId'', JStr (lr_igMediaId r)),
          (''hashtag'', JStr (lr_hashtagName r)), (''mediaType'', JStr (js (media_type_name (lr_mediaType r)))),
          (''caption'', jopt JStr (lr_caption r)), (''permalink'', JStr (lr_permalink r)),
          (''captionHashtags'', JArr (map JStr (lr_captionHashtags r))),
          (''captionMentions'', JArr (map JStr (lr_captionMentions r))),
          (''takenAt'', iso (lr_takenAt r)),
          (''metrics'', jobject [(''likeCount'', jopt jint (lr_likeCount r)),
             (''commentsCount'', jopt jint (lr_commentsCount r)), (''bestTopRank'', jopt jnat (lr_bestTopRank r))]),
          (''discovery'', jobject [(''seenInTop'', JBool (lr_seenInTop r)), (''seenInRecent'', JBool (lr_seenInRecent r)),
             (''firstSeenAt'', iso (lr_firstSeenAt r)), (''lastSeenAt'', iso (lr_lastSeenAt r)),
             (''contentUpdatedAt'', jopt iso (lr_contentUpdatedAt r)), (''isStale'', JBool (lr_isStale r))])])"

definition row_json :: "api_env \<Rightarrow> bool \<Rightarrow> list_row \<Rightarrow> js_error + json" where
  "row_json env includeAsset r =
     (if includeAsset
      then (case asset_json env r of Inl e \<Rightarrow> Inl e | Inr a \<Rightarrow> Inr (jobject (row_members env r @ [(''asset'', a)])))
      else Inr (jobject (row_members env r)))"

text \<open>\<open>rows.map\<close>: the first row that throws ends it.\<close>

fun map_rows :: "('a \<Rightarrow> js_error + 'b) \<Rightarrow> 'a list \<Rightarrow> js_error + 'b list" where
  "map_rows f [] = Inr []"
| "map_rows f (r # rs) =
     (case f r of
        Inl e \<Rightarrow> Inl e
      | Inr y \<Rightarrow> (case map_rows f rs of Inl e \<Rightarrow> Inl e | Inr ys \<Rightarrow> Inr (y # ys)))"

definition pagination_json :: "api_env \<Rightarrow> list_query \<Rightarrow> list_row list \<Rightarrow> bool \<Rightarrow> nat \<Rightarrow> json" where
  "pagination_json env query rows hasMore matching =
     jobject [(''limit'', jnat (lq_limit query)), (''count'', jnat (length rows)), (''total'', jnat matching),
       (''hasMore'', JBool hasMore),
       (''nextCursor'', if hasMore \<and> rows \<noteq> []
          then JStr (encodeCursor (ax_cursor env) (lr_takenAt (last rows)) (lr_id (last rows))) else JNull)]"

section \<open>GET /hashtags\<close>

text \<open>
  The three reads of one request: each may be rejected, and each may see another state of the tables.
\<close>

record api_reads =
  rd_find :: "js_error + database"
  rd_list :: "js_error + database \<times> database" \<comment> \<open>\<open>Promise.all\<close>: rejects with the first error\<close>

definition filters_of :: "list_query \<Rightarrow> (time \<times> uuid) option \<Rightarrow> list_filters" where
  "filters_of query cursor =
     \<lparr>lf_hashtag = lq_hashtag query, lf_mediaType = lq_mediaType query, lf_takenAfter = lq_takenAfter query,
       lf_takenBefore = lq_takenBefore query, lf_includeStale = lq_includeStale query,
       lf_limit = lq_limit query, lf_cursor = cursor\<rparr>"

definition not_tracked_error :: "jstr \<Rightarrow> js_error" where
  "not_tracked_error name = notFoundError (js ''hashtag \"'' @ name @
     js ''\" is not tracked. Track it with: pnpm hashtag:track '' @ name) None"

definition check_hashtag :: "api_env \<Rightarrow> api_reads \<Rightarrow> jstr option \<Rightarrow> js_error + unit" where
  "check_hashtag env rd name =
     (case name of
        None \<Rightarrow> Inr ()
      | Some s \<Rightarrow>
          if s = [] then Inr ()
          else (case rd_find rd of
                  Inl e \<Rightarrow> Inl e
                | Inr db \<Rightarrow> (case findByName (ax_unicode env) s db of
                               None \<Rightarrow> Inl (not_tracked_error s) | Some h \<Rightarrow> Inr ())))"

definition cursor_of :: "api_env \<Rightarrow> jstr option \<Rightarrow> js_error + (time \<times> uuid) option" where
  "cursor_of env c =
     (case c of
        None \<Rightarrow> Inr None
      | Some s \<Rightarrow> if s = [] then Inr None
                   else (case decodeCursor (ax_cursor env) s of Inl e \<Rightarrow> Inl e | Inr k \<Rightarrow> Inr (Some k)))"

definition listHashtags :: "api_env \<Rightarrow> api_reads \<Rightarrow> json \<Rightarrow> js_error + json" where
  "listHashtags env rd q =
     (case listHashtagMediaQuerySchema env q of
        Inl e \<Rightarrow> Inl e
      | Inr query \<Rightarrow>
          (case check_hashtag env rd (lq_hashtag query) of
             Inl e \<Rightarrow> Inl e
           | Inr u \<Rightarrow>
               (case cursor_of env (lq_cursor query) of
                  Inl e \<Rightarrow> Inl e
                | Inr cursor \<Rightarrow>
                    (case rd_list rd of
                       Inl e \<Rightarrow> Inl e
                     | Inr (db1, db2) \<Rightarrow>
                         (case listMedia (ax_unicode env) (filters_of query cursor) db1 of
                            (rows, hasMore) \<Rightarrow>
                              (case map_rows (row_json env (lq_includeAsset query)) rows of
                                 Inl e \<Rightarrow> Inl e
                               | Inr items \<Rightarrow> Inr (jobject [(''data'', JArr items),
                                   (''pagination'', pagination_json env query rows hasMore
                                      (countMedia (ax_unicode env) (filters_of query None) db2))])))))))"

definition getHashtags :: "api_env \<Rightarrow> api_reads \<Rightarrow> json \<Rightarrow> http_response" where
  "getHashtags env rd q =
     (case listHashtags env rd q of
        Inl e \<Rightarrow> errorHandler (ax_isProduction env) e
      | Inr body \<Rightarrow> \<lparr>hr_status = 200, hr_body = body\<rparr>)"

section \<open>GET /health\<close>

record driver_names =
  dn_queue :: string
  dn_storage :: string
  dn_scheduler :: string

definition getHealth :: "bool \<Rightarrow> driver_names \<Rightarrow> int \<Rightarrow> http_response" where
  "getHealth databaseUp drivers uptimeSeconds =
     \<lparr>hr_status = (if databaseUp then 200 else 503),
       hr_body = jobject
         [(''status'', JStr (js (if databaseUp then ''ok'' else ''degraded''))),
          (''checks'', jobject [(''database'', JStr (js (if databaseUp then ''up'' else ''down'')))]),
          (''drivers'', jobject [(''queue'', JStr (js (dn_queue drivers))), (''storage'', JStr (js (dn_storage drivers))),
             (''scheduler'', JStr (js (dn_scheduler drivers)))]),
          (''uptimeSeconds'', jint uptimeSeconds)]\<rparr>"

end
