(* ===== verification/Http_Correct.thy ===== *)
theory Http_Correct
  imports Http_Api
begin

text \<open>
  A client of \<open>GET /hashtags\<close> that follows \<open>nextCursor\<close> until it is null, and what it receives.
\<close>

section \<open>The client\<close>

definition with_cursor :: "(jstr \<times> json) list \<Rightarrow> jstr option \<Rightarrow> json" where
  "with_cursor params c = JObj (params @ (case c of None \<Rightarrow> [] | Some s \<Rightarrow> [(js ''cursor'', JStr s)]))"

definition next_of :: "json \<Rightarrow> jstr option" where
  "next_of body =
     (case Option.bind (jfield ''pagination'' body) (jfield ''nextCursor'') of Some (JStr s) \<Rightarrow> Some s | _ \<Rightarrow> None)"

definition items_of :: "json \<Rightarrow> json list" where
  "items_of body = (case jfield ''data'' body of Some (JArr items) \<Rightarrow> items | _ \<Rightarrow> [])"

text \<open>The responses' items in order, or the first response that is not 200; \<open>None\<close> when fuel ran out.\<close>

fun crawl :: "nat \<Rightarrow> api_env \<Rightarrow> api_reads \<Rightarrow> (jstr \<times> json) list \<Rightarrow> jstr option \<Rightarrow> (http_response + json list) option" where
  "crawl 0 env rd params c = None"
| "crawl (Suc fuel) env rd params c =
     (let r = getHashtags env rd (with_cursor params c)
      in if hr_status r \<noteq> 200 then Some (Inl r)
         else case next_of (hr_body r) of
                None \<Rightarrow> Some (Inr (items_of (hr_body r)))
              | Some s \<Rightarrow> map_option (map_sum id ((@) (items_of (hr_body r)))) (crawl fuel env rd params (Some s)))"

section \<open>One request\<close>

lemma jfield_jobject: "jfield k (jobject ms) = map_of (rev ms) k"
proof -
  have "map_of (map (\<lambda>(k, v). (js k, v)) ms) (js k) = map_of ms k" for ms :: "(string \<times> json) list"
    by (induction ms) auto
  from this [of "rev ms"] show ?thesis by (simp add: jobject_def rev_map)
qed

lemma jfield_with_cursor:
  "jfield k (with_cursor params (Some s)) = (if k = ''cursor'' then Some (JStr s) else jfield k (with_cursor params None))"
  by (auto simp: with_cursor_def)

text \<open>A valid query stays valid, and means the same, with a cursor added.\<close>

lemma schema_with_cursor:
  assumes "listHashtagMediaQuerySchema env (with_cursor params None) = Inr query" "s \<noteq> []"
  shows "listHashtagMediaQuerySchema env (with_cursor params (Some s)) = Inr (query\<lparr>lq_cursor := Some s\<rparr>)"
proof -
  let ?q = "with_cursor params None" and ?r = "with_cursor params (Some s)"
  have "hashtag_field ?r = hashtag_field ?q" "limit_field env ?r = limit_field env ?q"
    "mediaType_field ?r = mediaType_field ?q" "date_field env ''takenAfter'' ?r = date_field env ''takenAfter'' ?q"
    "date_field env ''takenBefore'' ?r = date_field env ''takenBefore'' ?q"
    "flag_field ''includeStale'' ?r = flag_field ''includeStale'' ?q"
    "flag_field ''includeAsset'' ?r = flag_field ''includeAsset'' ?q" "cursor_field ?r = Inr (Some s)"
    using assms(2)
    by (simp_all add: hashtag_field_def limit_field_def mediaType_field_def date_field_def flag_field_def
        cursor_field_def jfield_with_cursor Suc_le_eq)
  then show ?thesis
    using assms(1) by (auto simp: listHashtagMediaQuerySchema_def Let_def split: sum.splits)
qed

lemma schema_limit:
  assumes "listHashtagMediaQuerySchema env q = Inr query"
  shows "1 \<le> lq_limit query \<and> lq_limit query \<le> 100"
proof -
  have "1 \<le> l \<and> l \<le> 100" if "limit_field env q = Inr l" for l
    using that int_checks_range [of 1 "Some 100" _ l] by (fastforce simp: limit_field_def split: option.splits)
  then show ?thesis
    using assms by (auto simp: listHashtagMediaQuerySchema_def Let_def split: sum.splits)
qed

lemma map_rows_total: "(\<And>r. r \<in> set rs \<Longrightarrow> f r = Inr (g r)) \<Longrightarrow> map_rows f rs = Inr (map g rs)"
  by (induction rs) auto

text \<open>The reads of a request whose database calls all succeed on the same tables.\<close>

definition steady :: "database \<Rightarrow> api_reads" where
  "steady db = \<lparr>rd_find = Inr db, rd_list = Inr (db, db)\<rparr>"

definition tracked_ok :: "api_env \<Rightarrow> database \<Rightarrow> jstr option \<Rightarrow> bool" where
  "tracked_ok env db name \<longleftrightarrow>
     (case name of None \<Rightarrow> True | Some s \<Rightarrow> s = [] \<or> findByName (ax_unicode env) s db \<noteq> None)"

text \<open>Every row has dates that print and read back, an identifier in range and a locator.\<close>

definition rows_ok :: "api_env \<Rightarrow> bool \<Rightarrow> list_row list \<Rightarrow> bool" where
  "rows_ok env inc rows \<longleftrightarrow>
     list_all (\<lambda>r. iso_ok (ax_cursor env) (lr_takenAt r) \<and> lr_id r < uuid_limit \<and> \<not> isl (row_json env inc r)) rows"

lemma rows_okD:
  assumes "rows_ok env inc rows" "r \<in> set rows"
  shows "iso_ok (ax_cursor env) (lr_takenAt r)" "lr_id r < uuid_limit" "row_json env inc r = Inr (projr (row_json env inc r))"
  using assms by (auto simp: rows_ok_def list_all_iff)

lemma listHashtags_page:
  assumes "listHashtagMediaQuerySchema env q = Inr query" "tracked_ok env db (lq_hashtag query)"
    "cursor_of env (lq_cursor query) = Inr cur"
    "listMedia (ax_unicode env) (filters_of query cur) db = (rows, hasMore)"
    "rows_ok env (lq_includeAsset query) rows"
  shows "getHashtags env (steady db) q = \<lparr>hr_status = 200, hr_body = jobject
      [(''data'', JArr (map (\<lambda>r. projr (row_json env (lq_includeAsset query) r)) rows)),
       (''pagination'', pagination_json env query rows hasMore
         (countMedia (ax_unicode env) (filters_of query None) db))]\<rparr>"
proof -
  have "check_hashtag env (steady db) (lq_hashtag query) = Inr ()"
    using assms(2) by (auto simp: check_hashtag_def steady_def tracked_ok_def split: option.splits)
  moreover have "map_rows (row_json env (lq_includeAsset query)) rows =
      Inr (map (\<lambda>r. projr (row_json env (lq_includeAsset query) r)) rows)"
    by (rule map_rows_total) (use rows_okD [OF assms(5)] in blast)
  ultimately show ?thesis
    using assms(1,3,4) by (simp add: getHashtags_def listHashtags_def steady_def)
qed

lemma page_body:
  "items_of (jobject [(''data'', JArr items), (''pagination'', p)]) = items"
  "jfield ''pagination'' (jobject [(''data'', JArr items), (''pagination'', p)]) = Some p"
  by (simp_all add: items_of_def jfield_jobject)

lemma next_of_page:
  "next_of (jobject [(''data'', JArr items), (''pagination'', pagination_json env query rows hasMore n)]) =
     (if hasMore \<and> rows \<noteq> []
      then Some (encodeCursor (ax_cursor env) (lr_takenAt (last rows)) (lr_id (last rows))) else None)"
  unfolding next_of_def page_body by (simp add: pagination_json_def jfield_jobject)

section \<open>The whole walk\<close>

definition cursor_text :: "api_env \<Rightarrow> (time \<times> uuid) option \<Rightarrow> jstr option" where
  "cursor_text env cur = map_option (\<lambda>(t, i). encodeCursor (ax_cursor env) t i) cur"

definition cursor_fine :: "api_env \<Rightarrow> (time \<times> uuid) option \<Rightarrow> bool" where
  "cursor_fine env cur \<longleftrightarrow> (case cur of None \<Rightarrow> True | Some (t, i) \<Rightarrow> iso_ok (ax_cursor env) t \<and> i < uuid_limit)"

lemma cursor_of_text: "cursor_fine env cur \<Longrightarrow> cursor_of env (cursor_text env cur) = Inr cur"
  by (auto simp: cursor_of_def cursor_text_def cursor_fine_def decode_encode split: option.splits)

lemma crawl_browse:
  assumes "listHashtagMediaQuerySchema env (with_cursor params None) = Inr query" "lq_cursor query = None"
    "tracked_ok env db (lq_hashtag query)"
    "rows_ok env (lq_includeAsset query) (listing (ax_unicode env) (filters_of query None) db)"
    "cursor_fine env cur"
  shows "crawl fuel env (steady db) params (cursor_text env cur) =
    map_option (\<lambda>rows. Inr (map (\<lambda>r. projr (row_json env (lq_includeAsset query) r)) rows))
      (browse fuel k (ax_unicode env) (filters_of query cur) (\<lambda>_. db))"
  using assms(5)
proof (induction fuel arbitrary: cur k)
  case (Suc fuel)
  define q where "q = query\<lparr>lq_cursor := cursor_text env cur\<rparr>"
  obtain rows hasMore where page: "listMedia (ax_unicode env) (filters_of query cur) db = (rows, hasMore)"
    by fastforce
  have fl: "filters_of q c = filters_of query c" for c by (simp add: q_def filters_of_def)
  have "listHashtagMediaQuerySchema env (with_cursor params (cursor_text env cur)) = Inr q"
  proof (cases cur)
    case None
    then show ?thesis using assms(1,2) by (simp add: q_def cursor_text_def)
  next
    case (Some p)
    then show ?thesis
      using schema_with_cursor [OF assms(1), of "the (cursor_text env cur)"] Suc.prems
      by (auto simp: q_def cursor_text_def cursor_fine_def split: prod.splits)
  qed
  moreover have sub: "set rows \<subseteq> set (listing (ax_unicode env) (filters_of query None) db)"
    using page set_take_subset
    by (fastforce simp: listMedia_page Let_def filters_of_def listing_def dest: in_set_takeD)
  moreover have "rows_ok env (lq_includeAsset q) rows"
    using assms(4) sub by (auto simp: rows_ok_def list_all_iff q_def)
  ultimately have resp: "getHashtags env (steady db) (with_cursor params (cursor_text env cur)) =
      \<lparr>hr_status = 200, hr_body = jobject
        [(''data'', JArr (map (\<lambda>r. projr (row_json env (lq_includeAsset query) r)) rows)),
         (''pagination'', pagination_json env q rows hasMore
           (countMedia (ax_unicode env) (filters_of query None) db))]\<rparr>"
    using listHashtags_page [of env _ q db cur rows hasMore] assms(3) cursor_of_text [OF Suc.prems] page
    by (simp add: q_def filters_of_def)
  show ?case
  proof (cases "hasMore \<and> rows \<noteq> []")
    case False
    have "hasMore \<Longrightarrow> rows \<noteq> []"
      using page schema_limit [OF assms(1)] by (auto simp: listMedia_page Let_def filters_of_def)
    with False have "\<not> hasMore" by blast
    then show ?thesis
      by (simp add: resp next_of_page page_body browse_Suc page)
  next
    case True
    have "last rows \<in> set (listing (ax_unicode env) (filters_of query None) db)"
      using sub last_in_set True by blast
    then have fine: "cursor_fine env (next_cursor rows)"
      using rows_okD [OF assms(4)] True by (simp add: cursor_fine_def next_cursor_def)
    have "cursor_text env (next_cursor rows) =
        Some (encodeCursor (ax_cursor env) (lr_takenAt (last rows)) (lr_id (last rows)))"
      using True by (simp add: cursor_text_def next_cursor_def)
    moreover have "(filters_of query cur)\<lparr>lf_cursor := next_cursor rows\<rparr> = filters_of query (next_cursor rows)"
      by (simp add: filters_of_def)
    ultimately show ?thesis
      using Suc.IH [OF fine, of "Suc k"] True
      by (simp add: resp next_of_page page_body browse_Suc page option.map_comp comp_def)
  qed
qed simp

lemma crawl_complete:
  assumes "db_wf db" "listHashtagMediaQuerySchema env (with_cursor params None) = Inr query" "lq_cursor query = None"
    "tracked_ok env db (lq_hashtag query)"
    "rows_ok env (lq_includeAsset query) (listing (ax_unicode env) (filters_of query None) db)"
  shows "crawl (Suc (length (listing (ax_unicode env) (filters_of query None) db))) env (steady db) params None =
    Some (Inr (map (\<lambda>r. projr (row_json env (lq_includeAsset query) r))
      (listing (ax_unicode env) (filters_of query None) db)))"
proof -
  let ?fl = "filters_of query None"
  let ?n = "length (listing (ax_unicode env) ?fl db)"
  have "0 < lf_limit ?fl" using schema_limit [OF assms(2)] by (simp add: filters_of_def)
  then have "?n \<le> ?n * lf_limit ?fl" by simp
  have rest: "filter (after_key (lf_cursor ?fl)) (listing (ax_unicode env) ?fl db) = listing (ax_unicode env) ?fl db"
    by (simp add: filters_of_def after_key_def)
  have "browse (Suc ?n) 0 (ax_unicode env) ?fl (\<lambda>_. db) = Some (listing (ax_unicode env) ?fl db)"
    using browse_static [OF assms(1) \<open>0 < lf_limit ?fl\<close>, of "ax_unicode env" ?n 0] \<open>?n \<le> ?n * lf_limit ?fl\<close>
    unfolding rest by blast
  then show ?thesis
    using crawl_browse [OF assms(2-5), of None "Suc ?n" 0] by (simp add: cursor_fine_def cursor_text_def)
qed

end
