(* ===== verification/Api_Properties.thy ===== *)
theory Api_Properties
  imports Http_Correct Media_Repository
begin

text \<open>
  The properties of the read API.
\<close>

section \<open>A sample deployment\<close>

definition api_cursor :: cursor_env where
  "api_cursor = \<lparr>cx_iso = (\<lambda>t. dec_digits (nat t)), cx_date_parse = (\<lambda>s. Some (int (foldl (\<lambda>n c. n * 10 + (c - 48)) 0 s))),
     cx_loose = (\<lambda>_. [])\<rparr>"

definition api_sample :: api_env where
  "api_sample = \<lparr>ax_unicode = ascii_unicode, ax_date = (\<lambda>_. None), ax_message = (\<lambda>k c. js c),
     ax_cursor = api_cursor, ax_locator = Inr, ax_isProduction = True\<rparr>"

definition api_media :: "string \<Rightarrow> meta_media" where
  "api_media i = \<lparr>mm_id = js i, mm_media_type = IMAGE, mm_timestamp = js ''t'', mm_permalink = js ''p'',
     mm_media_url = None, mm_caption = None, mm_like_count = None, mm_comments_count = None\<rparr>"

definition api_post :: "nat \<Rightarrow> string \<Rightarrow> time \<Rightarrow> media_post" where
  "api_post k i t = new_post ascii_unicode 0 k t \<lparr>ui_media = api_media i, ui_hashtagId = 0, ui_syncRunId = 0,
     ui_source = Recent, ui_rank = 1\<rparr>"

definition api_hashtag :: hashtag where
  "api_hashtag = new_hashtag 0 0 (js ''matcha'') \<lparr>ti_name = [], ti_trackFrom = None, ti_trackUntil = None, ti_notes = None\<rparr>"

definition api_db :: database where
  "api_db = empty_db\<lparr>db_hashtags := [api_hashtag],
     db_mediaPosts := [api_post 1 ''a'' 7, api_post 2 ''b'' 9, api_post 3 ''c'' 7], db_next := 4\<rparr>"

definition api_query :: list_query where
  "api_query = \<lparr>lq_hashtag = None, lq_limit = 2, lq_cursor = None, lq_mediaType = None, lq_takenAfter = None,
     lq_takenBefore = None, lq_includeStale = True, lq_includeAsset = True\<rparr>"

definition api_params :: "(jstr \<times> json) list" where
  "api_params = [(js ''limit'', JStr (js ''2''))]"

lemma api_post_simps [simp]:
  "mp_id (api_post k i t) = k" "mp_igMediaId (api_post k i t) = js i" "mp_takenAt (api_post k i t) = t"
  "mp_hashtagId (api_post k i t) = 0"
  by (simp_all add: api_post_def new_post_def api_media_def Let_def)

lemma api_db_wf: "db_wf api_db"
  by (simp add: api_db_def empty_db_def wf_defs id_defs resolved_names_def api_hashtag_def new_hashtag_def)

lemma api_listing:
  "map lr_id (listing ascii_unicode (filters_of api_query None) api_db) = [2, 3, 1]"
  by code_simp

lemma api_rows_ok: "rows_ok api_sample True (listing ascii_unicode (filters_of api_query None) api_db)"
proof -
  have rows: "list_all (\<lambda>r. lr_id r < 4 \<and> (lr_takenAt r = 7 \<or> lr_takenAt r = 9) \<and> lr_assetKey r = None)
      (listing ascii_unicode (filters_of api_query None) api_db)"
    by code_simp
  have iso: "iso_ok (ax_cursor api_sample) 7" "iso_ok (ax_cursor api_sample) 9"
    by (simp_all add: iso_ok_def api_sample_def api_cursor_def dec_digits.simps)
  show ?thesis
    unfolding rows_ok_def
    by (rule list.pred_mono_strong [OF rows])
      (use iso in \<open>auto simp: uuid_limit_def row_json_def asset_json_def\<close>)
qed

lemma api_query_valid: "listHashtagMediaQuerySchema api_sample (with_cursor api_params None) = Inr api_query"
proof -
  have "coerce_number (JStr (js ''2'')) = Finite 2"
    by (simp add: coerce_number_def js_def number_defs)
  then show ?thesis
    by (simp add: listHashtagMediaQuerySchema_def with_cursor_def api_params_def api_sample_def hashtag_field_def
        limit_field_def cursor_field_def mediaType_field_def date_field_def flag_field_def int_checks_def checked_def failed_unless_def api_query_def)
qed

section \<open>Pages\<close>

text \<open>
  C27. A client of the HTTP API that follows \<open>nextCursor\<close> until it is null receives, with status 200
  throughout, the posts that pass its filters, each exactly once, newest first and by identifier among
  equal times, whatever page size it chose.
\<close>

theorem api_walk_delivers_every_row_once:
  assumes "db_wf db" "listHashtagMediaQuerySchema env (with_cursor params None) = Inr query" "lq_cursor query = None"
    "tracked_ok env db (lq_hashtag query)"
    "rows_ok env (lq_includeAsset query) (listing (ax_unicode env) (filters_of query None) db)"
  shows "\<exists>rows. crawl (Suc (length rows)) env (steady db) params None =
      Some (Inr (map (\<lambda>r. projr (row_json env (lq_includeAsset query) r)) rows))
    \<and> sorted_wrt (<) (map row_key rows) \<and> distinct (map lr_id rows)
    \<and> set (map lr_id rows) = {mp_id m | m h. m \<in> set (db_mediaPosts db) \<and> h \<in> set (db_hashtags db)
         \<and> ht_id h = mp_hashtagId m \<and> satisfies (list_conditions (ax_unicode env) (filters_of query None)) m h}"
proof (intro exI conjI)
  let ?rows = "listing (ax_unicode env) (filters_of query None) db"
  have fl: "(filters_of query None)\<lparr>lf_cursor := None\<rparr> = filters_of query None" by (simp add: filters_of_def)
  show "crawl (Suc (length ?rows)) env (steady db) params None =
      Some (Inr (map (\<lambda>r. projr (row_json env (lq_includeAsset query) r)) ?rows))"
    by (rule crawl_complete [OF assms])
  show "sorted_wrt (<) (map row_key ?rows)" unfolding listing_def by (rule select_rows_strict [OF assms(1)])
  show "distinct (map lr_id ?rows)" unfolding listing_def by (rule select_rows_ids [OF assms(1)])
  show "set (map lr_id ?rows) = {mp_id m | m h. m \<in> set (db_mediaPosts db) \<and> h \<in> set (db_hashtags db)
         \<and> ht_id h = mp_hashtagId m \<and> satisfies (list_conditions (ax_unicode env) (filters_of query None)) m h}"
    using listing_ids [OF assms(1), of "ax_unicode env" "filters_of query None"] by (simp add: fl)
qed

theorem api_walk_delivers_every_row_once_witness:
  "\<exists>rows. crawl (Suc (length rows)) api_sample (steady api_db) api_params None =
     Some (Inr (map (\<lambda>r. projr (row_json api_sample True r)) rows)) \<and> sorted_wrt (<) (map row_key rows)"
proof -
  have q: "lq_cursor api_query = None" "tracked_ok api_sample api_db (lq_hashtag api_query)"
    "rows_ok api_sample (lq_includeAsset api_query) (listing (ax_unicode api_sample) (filters_of api_query None) api_db)"
    using api_rows_ok by (simp_all add: api_query_def tracked_ok_def api_sample_def)
  show ?thesis
    using api_walk_delivers_every_row_once [OF api_db_wf api_query_valid q] by (auto simp: api_query_def)
qed



text \<open>
  The total in the metadata of a page is the number of posts listed without the date filters: with
  \<open>takenAfter\<close> or \<open>takenBefore\<close> it can exceed what the client will receive.
\<close>

theorem total_ignores_date_filters:
  assumes "db_wf db"
  shows "countMedia u fl db = length (listing u (fl\<lparr>lf_takenAfter := None, lf_takenBefore := None\<rparr>) db)"
  by (rule countMedia_listing [OF assms])

theorem total_ignores_date_filters_witness:
  "countMedia ascii_unicode ((filters_of api_query None)\<lparr>lf_takenAfter := Some 8\<rparr>) api_db = 3
   \<and> map lr_id (listing ascii_unicode ((filters_of api_query None)\<lparr>lf_takenAfter := Some 8\<rparr>) api_db) = [2]"
proof -
  have "map lr_id (listing ascii_unicode ((filters_of api_query None)\<lparr>lf_takenAfter := Some 8\<rparr>) api_db) = [2]"
    by code_simp
  moreover have "length (listing ascii_unicode (filters_of api_query None) api_db) = 3"
    using arg_cong [OF api_listing, of length] by simp
  moreover have "(filters_of api_query None)\<lparr>lf_takenAfter := None, lf_takenBefore := None\<rparr> = filters_of api_query None"
    by (simp add: filters_of_def api_query_def)
  ultimately show ?thesis
    using total_ignores_date_filters [OF api_db_wf, of ascii_unicode "(filters_of api_query None)\<lparr>lf_takenAfter := Some 8\<rparr>"]
    by simp
qed

section \<open>Cursors and errors\<close>





end
