(* ===== verification/Env_Config.thy ===== *)
theory Env_Config
  imports Zod_Checks
begin

text \<open>
  \<open>src/lib/env/index.ts\<close>: the configuration, read and validated once at boot. \<open>process.env\<close> is a map
  from names to strings; zod's URL check and its issue texts are parameters.
\<close>

section \<open>The configuration\<close>

datatype driver = Local | Aws

record config =
  ev_NODE_ENV :: jstr
  ev_APP_PORT :: nat
  ev_APP_ROUTE_PREFIX :: jstr
  ev_LOG_LEVEL :: jstr
  ev_LOG_OUTPUT :: jstr
  ev_DATABASE_URL :: jstr
  ev_DATABASE_POOL_MAX :: nat
  ev_META_ACCESS_TOKEN :: jstr
  ev_META_IG_USER_ID :: jstr
  ev_META_GRAPH_VERSION :: jstr
  ev_META_API_BASE_URL :: jstr
  ev_SYNC_MAX_MEDIA_PER_RUN :: nat
  ev_SYNC_PAGE_SIZE :: nat
  ev_DOWNLOAD_CONCURRENCY :: nat
  ev_META_THROTTLE_THRESHOLD_PCT :: nat
  ev_META_REQUEST_TIMEOUT_MS :: nat
  ev_QUEUE_DRIVER :: driver
  ev_STORAGE_DRIVER :: driver
  ev_SCHEDULER_DRIVER :: driver
  ev_LOCAL_STORAGE_DIR :: jstr
  ev_RECENT_SYNC_CRON :: jstr
  ev_AWS_REGION :: jstr
  ev_S3_BUCKET :: "jstr option"
  ev_SQS_QUEUE_URL :: "jstr option"
  ev_SQS_DLQ_URL :: "jstr option"
  ev_SQS_VISIBILITY_TIMEOUT :: nat
  ev_SQS_WAIT_TIME_SECONDS :: nat
  ev_EVENTBRIDGE_SCHEDULE_NAME :: jstr
  ev_EVENTBRIDGE_SCHEDULE_ROLE_ARN :: "jstr option"
  ev_METRICS_ENABLED :: bool

record env_lib =
  el_is_url :: "jstr \<Rightarrow> bool"
  el_message :: "string \<Rightarrow> string \<Rightarrow> jstr"

type_synonym process_env = "string \<Rightarrow> jstr option"

section \<open>Fields\<close>

text \<open>A string with checks, required or with a default (the defaults pass their checks).\<close>

definition string_field :: "process_env \<Rightarrow> string \<Rightarrow> jstr option \<Rightarrow> (jstr \<Rightarrow> string list) \<Rightarrow> jstr checked" where
  "string_field p k dflt checks =
     (case p k of
        None \<Rightarrow> (case dflt of None \<Rightarrow> Inl [''type''] | Some d \<Rightarrow> Inr d)
      | Some s \<Rightarrow> checked (checks s) s)"

definition enum_field :: "process_env \<Rightarrow> string \<Rightarrow> string \<Rightarrow> string list \<Rightarrow> jstr checked" where
  "enum_field p k dflt options =
     (case p k of
        None \<Rightarrow> Inr (js dflt)
      | Some s \<Rightarrow> if s \<in> set (map js options) then Inr s else Inl [''enum''])"

definition int_field ::
  "process_env \<Rightarrow> string \<Rightarrow> nat \<Rightarrow> (js_number \<Rightarrow> bool) \<Rightarrow> rat option \<Rightarrow> nat checked" where
  "int_field p k dflt lower upper =
     (case p k of None \<Rightarrow> Inr dflt | Some s \<Rightarrow> int_checks lower upper (js_Number s))"

definition driver_field :: "process_env \<Rightarrow> string \<Rightarrow> driver checked" where
  "driver_field p k =
     (case p k of
        None \<Rightarrow> Inr Local
      | Some s \<Rightarrow> if s = js ''local'' then Inr Local else if s = js ''aws'' then Inr Aws else Inl [''enum''])"

definition booleanish_field :: "process_env \<Rightarrow> string \<Rightarrow> bool checked" where
  "booleanish_field p k =
     (case p k of
        None \<Rightarrow> Inr True
      | Some s \<Rightarrow> if s = js ''true'' \<or> s = js ''1'' then Inr True
                   else if s = js ''false'' \<or> s = js ''0'' then Inr False else Inl [''enum''])"

definition no_checks :: "jstr \<Rightarrow> string list" where
  "no_checks s = []"

definition nonempty_check :: "jstr \<Rightarrow> string list" where
  "nonempty_check s = failed_unless (1 \<le> length s) ''min''"

definition url_check :: "env_lib \<Rightarrow> jstr \<Rightarrow> string list" where
  "url_check lib s = failed_unless (el_is_url lib s) ''url''"

definition slash_check :: "jstr \<Rightarrow> string list" where
  "slash_check s = failed_unless (take 1 s = [47]) ''startsWith''"

text \<open>\<open>/^v\d+\.\d+$/\<close>\<close>

definition version_check :: "jstr \<Rightarrow> string list" where
  "version_check s =
     failed_unless
       (case s of
          [] \<Rightarrow> False
        | c # r \<Rightarrow> c = 118 \<and> takeWhile ascii_digit r \<noteq> [] \<and>
            (case dropWhile ascii_digit r of
               [] \<Rightarrow> False
             | d # t \<Rightarrow> d = 46 \<and> t \<noteq> [] \<and> list_all ascii_digit t)) ''regex''"

section \<open>The schema\<close>

text \<open>Zod goes on to the cross-field checks unless a field has no usable value at all.\<close>

definition aborted :: "'a checked \<Rightarrow> bool" where
  "aborted r = (case r of Inl checks \<Rightarrow> ''type'' \<in> set checks \<or> ''enum'' \<in> set checks | Inr _ \<Rightarrow> False)"

definition custom_issue :: "string \<Rightarrow> string \<Rightarrow> zod_issue" where
  "custom_issue path message = \<lparr>zi_path = [js path], zi_message = js message\<rparr>"

definition present :: "jstr option \<Rightarrow> bool" where
  "present v = (case v of None \<Rightarrow> False | Some s \<Rightarrow> s \<noteq> [])"

definition cross_checks :: "driver \<Rightarrow> driver \<Rightarrow> driver \<Rightarrow> jstr option \<Rightarrow> jstr option \<Rightarrow> zod_issue list" where
  "cross_checks queue storage scheduler bucket queueUrl =
     (if storage = Aws \<and> \<not> present bucket
      then [custom_issue ''S3_BUCKET'' ''S3_BUCKET is required when STORAGE_DRIVER=aws''] else []) @
     (if queue = Aws \<and> \<not> present queueUrl
      then [custom_issue ''SQS_QUEUE_URL'' ''SQS_QUEUE_URL is required when QUEUE_DRIVER=aws''] else []) @
     (if scheduler = Aws \<and> queue \<noteq> Aws
      then [custom_issue ''SCHEDULER_DRIVER''
              ''SCHEDULER_DRIVER=aws requires QUEUE_DRIVER=aws (EventBridge delivers to SQS)''] else [])"

definition value_or :: "'a \<Rightarrow> 'a checked \<Rightarrow> 'a" where
  "value_or d r = (case r of Inl _ \<Rightarrow> d | Inr v \<Rightarrow> v)"

text \<open>
  One pass over the fields in the order of the schema: the issues of each, whether it is unusable, and
  the configuration made of the values.
\<close>

definition parse_env :: "env_lib \<Rightarrow> process_env \<Rightarrow> zod_issue list + config" where
  "parse_env lib p =
     (let str = (\<lambda>k d. string_field p k (Some (js d)) no_checks);
          nodeEnv = enum_field p ''NODE_ENV'' ''development'' [''development'', ''test'', ''production''];
          port = int_field p ''APP_PORT'' 3000 num_positive None;
          prefix = string_field p ''APP_ROUTE_PREFIX'' (Some (js ''/api/v1'')) slash_check;
          level = enum_field p ''LOG_LEVEL'' ''info'' [''trace'', ''debug'', ''info'', ''warn'', ''error'', ''fatal''];
          out = enum_field p ''LOG_OUTPUT'' ''json'' [''dev'', ''json''];
          dbUrl = string_field p ''DATABASE_URL'' None (url_check lib);
          pool = int_field p ''DATABASE_POOL_MAX'' 10 num_positive None;
          token = string_field p ''META_ACCESS_TOKEN'' None nonempty_check;
          igUser = string_field p ''META_IG_USER_ID'' None nonempty_check;
          version = string_field p ''META_GRAPH_VERSION'' (Some (js ''v24.0'')) version_check;
          base = string_field p ''META_API_BASE_URL'' (Some (js ''https://graph.facebook.com'')) (url_check lib);
          maxMedia = int_field p ''SYNC_MAX_MEDIA_PER_RUN'' 500 num_positive (Some 10000);
          pageSize = int_field p ''SYNC_PAGE_SIZE'' 25 num_positive (Some 50);
          conc = int_field p ''DOWNLOAD_CONCURRENCY'' 5 num_positive (Some 50);
          threshold = int_field p ''META_THROTTLE_THRESHOLD_PCT'' 80 (num_at_least 1) (Some 100);
          timeout = int_field p ''META_REQUEST_TIMEOUT_MS'' 60000 num_positive None;
          queue = driver_field p ''QUEUE_DRIVER''; storage = driver_field p ''STORAGE_DRIVER'';
          scheduler = driver_field p ''SCHEDULER_DRIVER'';
          visibility = int_field p ''SQS_VISIBILITY_TIMEOUT'' 300 num_positive None;
          wait = int_field p ''SQS_WAIT_TIME_SECONDS'' 20 (num_at_least 0) (Some 20);
          metrics = booleanish_field p ''METRICS_ENABLED'';
          bucket = p ''S3_BUCKET''; queueUrl = p ''SQS_QUEUE_URL'';
          m = el_message lib;
          issues = field_issues m ''NODE_ENV'' nodeEnv @ field_issues m ''APP_PORT'' port @
            field_issues m ''APP_ROUTE_PREFIX'' prefix @ field_issues m ''LOG_LEVEL'' level @
            field_issues m ''LOG_OUTPUT'' out @ field_issues m ''DATABASE_URL'' dbUrl @
            field_issues m ''DATABASE_POOL_MAX'' pool @ field_issues m ''META_ACCESS_TOKEN'' token @
            field_issues m ''META_IG_USER_ID'' igUser @ field_issues m ''META_GRAPH_VERSION'' version @
            field_issues m ''META_API_BASE_URL'' base @ field_issues m ''SYNC_MAX_MEDIA_PER_RUN'' maxMedia @
            field_issues m ''SYNC_PAGE_SIZE'' pageSize @ field_issues m ''DOWNLOAD_CONCURRENCY'' conc @
            field_issues m ''META_THROTTLE_THRESHOLD_PCT'' threshold @
            field_issues m ''META_REQUEST_TIMEOUT_MS'' timeout @ field_issues m ''QUEUE_DRIVER'' queue @
            field_issues m ''STORAGE_DRIVER'' storage @ field_issues m ''SCHEDULER_DRIVER'' scheduler @
            field_issues m ''SQS_VISIBILITY_TIMEOUT'' visibility @ field_issues m ''SQS_WAIT_TIME_SECONDS'' wait @
            field_issues m ''METRICS_ENABLED'' metrics;
          unusable = aborted nodeEnv \<or> aborted port \<or> aborted prefix \<or> aborted level \<or> aborted out \<or> aborted dbUrl
            \<or> aborted pool \<or> aborted token \<or> aborted igUser \<or> aborted version \<or> aborted base \<or> aborted maxMedia
            \<or> aborted pageSize \<or> aborted conc \<or> aborted threshold \<or> aborted timeout \<or> aborted queue
            \<or> aborted storage \<or> aborted scheduler \<or> aborted visibility \<or> aborted wait \<or> aborted metrics;
          q = value_or Local queue; st = value_or Local storage; sc = value_or Local scheduler;
          problems = issues @ (if unusable then [] else cross_checks q st sc bucket queueUrl)
      in if problems \<noteq> [] then Inl problems
         else Inr \<lparr>ev_NODE_ENV = value_or [] nodeEnv, ev_APP_PORT = value_or 0 port,
           ev_APP_ROUTE_PREFIX = value_or [] prefix, ev_LOG_LEVEL = value_or [] level,
           ev_LOG_OUTPUT = value_or [] out, ev_DATABASE_URL = value_or [] dbUrl,
           ev_DATABASE_POOL_MAX = value_or 0 pool, ev_META_ACCESS_TOKEN = value_or [] token,
           ev_META_IG_USER_ID = value_or [] igUser, ev_META_GRAPH_VERSION = value_or [] version,
           ev_META_API_BASE_URL = value_or [] base, ev_SYNC_MAX_MEDIA_PER_RUN = value_or 0 maxMedia,
           ev_SYNC_PAGE_SIZE = value_or 0 pageSize, ev_DOWNLOAD_CONCURRENCY = value_or 0 conc,
           ev_META_THROTTLE_THRESHOLD_PCT = value_or 0 threshold,
           ev_META_REQUEST_TIMEOUT_MS = value_or 0 timeout, ev_QUEUE_DRIVER = q, ev_STORAGE_DRIVER = st,
           ev_SCHEDULER_DRIVER = sc, ev_LOCAL_STORAGE_DIR = value_or [] (str ''LOCAL_STORAGE_DIR'' ''./storage''),
           ev_RECENT_SYNC_CRON = value_or [] (str ''RECENT_SYNC_CRON'' ''0 */3 * * *''),
           ev_AWS_REGION = value_or [] (str ''AWS_REGION'' ''eu-west-2''), ev_S3_BUCKET = bucket,
           ev_SQS_QUEUE_URL = queueUrl, ev_SQS_DLQ_URL = p ''SQS_DLQ_URL'',
           ev_SQS_VISIBILITY_TIMEOUT = value_or 0 visibility, ev_SQS_WAIT_TIME_SECONDS = value_or 0 wait,
           ev_EVENTBRIDGE_SCHEDULE_NAME = value_or [] (str ''EVENTBRIDGE_SCHEDULE_NAME'' ''sync-recent-hashtag-media''),
           ev_EVENTBRIDGE_SCHEDULE_ROLE_ARN = p ''EVENTBRIDGE_SCHEDULE_ROLE_ARN'',
           ev_METRICS_ENABLED = value_or True metrics\<rparr>)"

text \<open>\<open>load()\<close>: the problems are printed one per line in the message of the error.\<close>

definition problem_line :: "zod_issue \<Rightarrow> jstr" where
  "problem_line i = js ''  - '' @ (if join_path (zi_path i) = [] then js ''(root)'' else join_path (zi_path i)) @
     js '': '' @ zi_message i"

fun join_lines :: "jstr list \<Rightarrow> jstr" where
  "join_lines [] = []"
| "join_lines [l] = l"
| "join_lines (l # ls) = l @ 10 # join_lines ls"

definition load_env :: "env_lib \<Rightarrow> process_env \<Rightarrow> js_error + config" where
  "load_env lib p =
     (case parse_env lib p of
        Inl problems \<Rightarrow> Inl (Plain_Error (js ''Invalid environment configuration:'' @ [10] @
          join_lines (map problem_line problems) @ [10, 10] @ js ''See .env.example.''))
      | Inr cfg \<Rightarrow> Inr cfg)"

definition isProduction :: "config \<Rightarrow> bool" where
  "isProduction cfg \<longleftrightarrow> ev_NODE_ENV cfg = js ''production''"

section \<open>What a loaded configuration guarantees\<close>

definition no_issue :: "'a checked \<Rightarrow> bool" where
  "no_issue r \<longleftrightarrow> (case r of Inl checks \<Rightarrow> checks = [] | Inr _ \<Rightarrow> True)"

lemma field_issues_Nil: "field_issues m k r = [] \<longleftrightarrow> no_issue r"
  by (simp add: field_issues_def no_issue_def split: sum.split)

lemma not_aborted: "no_issue r \<Longrightarrow> \<not> aborted r"
  by (auto simp: no_issue_def aborted_def split: sum.splits)

lemma issue_free: "no_issue r \<Longrightarrow> v = value_or d r \<Longrightarrow> r \<noteq> Inl [] \<Longrightarrow> r = Inr v"
  by (auto simp: no_issue_def value_or_def split: sum.splits)

lemma int_field_positive:
  assumes "int_field p k d num_positive upper = Inr v" "1 \<le> d"
  shows "1 \<le> v" "upper = Some u \<Longrightarrow> of_nat d \<le> u \<Longrightarrow> of_nat v \<le> u"
  using assms int_checks_positive by (auto simp: int_field_def split: option.splits)

lemma int_field_range:
  assumes "int_field p k d (num_at_least l) upper = Inr v" "0 \<le> l" "l \<le> of_nat d"
  shows "l \<le> of_nat v" "upper = Some u \<Longrightarrow> of_nat d \<le> u \<Longrightarrow> of_nat v \<le> u"
  using assms int_checks_range by (auto simp: int_field_def split: option.splits)

lemma int_field_not_Nil: "int_field p k d lower upper \<noteq> Inl []"
  by (auto simp: int_field_def int_checks_def checked_def split: option.split)

lemma driver_field_not_Nil: "driver_field p k \<noteq> Inl []"
  by (auto simp: driver_field_def split: option.split)

lemma string_field_not_Nil: "string_field p k d checks \<noteq> Inl []"
  by (auto simp: string_field_def checked_def split: option.split)

lemmas fields_not_Nil = int_field_not_Nil driver_field_not_Nil string_field_not_Nil

lemma if_Inr: "(if b then Inl x else Inr y) = Inr z \<longleftrightarrow> \<not> b \<and> y = z"
  by auto

text \<open>The fields a configuration is made of, when there are no problems.\<close>

definition took :: "'a \<Rightarrow> 'a checked \<Rightarrow> 'a \<Rightarrow> bool" where
  "took d r v \<longleftrightarrow> no_issue r \<and> v = value_or d r"

lemma took_int: "took d (int_field p k n lower upper) v \<longleftrightarrow> int_field p k n lower upper = Inr v"
  using int_field_not_Nil issue_free by (fastforce simp: took_def no_issue_def value_or_def)

lemma parse_env_values:
  assumes "parse_env lib p = Inr cfg"
  shows "took 0 (int_field p ''DATABASE_POOL_MAX'' 10 num_positive None) (ev_DATABASE_POOL_MAX cfg) \<and>
    took 0 (int_field p ''SYNC_MAX_MEDIA_PER_RUN'' 500 num_positive (Some 10000)) (ev_SYNC_MAX_MEDIA_PER_RUN cfg) \<and>
    took 0 (int_field p ''SYNC_PAGE_SIZE'' 25 num_positive (Some 50)) (ev_SYNC_PAGE_SIZE cfg) \<and>
    took 0 (int_field p ''DOWNLOAD_CONCURRENCY'' 5 num_positive (Some 50)) (ev_DOWNLOAD_CONCURRENCY cfg) \<and>
    took 0 (int_field p ''META_THROTTLE_THRESHOLD_PCT'' 80 (num_at_least 1) (Some 100)) (ev_META_THROTTLE_THRESHOLD_PCT cfg) \<and>
    took 0 (int_field p ''META_REQUEST_TIMEOUT_MS'' 60000 num_positive None) (ev_META_REQUEST_TIMEOUT_MS cfg) \<and>
    took 0 (int_field p ''SQS_VISIBILITY_TIMEOUT'' 300 num_positive None) (ev_SQS_VISIBILITY_TIMEOUT cfg) \<and>
    took 0 (int_field p ''SQS_WAIT_TIME_SECONDS'' 20 (num_at_least 0) (Some 20)) (ev_SQS_WAIT_TIME_SECONDS cfg)"
  using assms unfolding parse_env_def Let_def if_Inr not_not append_is_Nil_conv field_issues_Nil
  by (elim conjE, hypsubst) (simp add: took_def)

lemmas env_values = parse_env_values [unfolded took_int]

lemma parse_env_drivers:
  assumes "parse_env lib p = Inr cfg"
  shows "cross_checks (ev_QUEUE_DRIVER cfg) (ev_STORAGE_DRIVER cfg) (ev_SCHEDULER_DRIVER cfg)
    (ev_S3_BUCKET cfg) (ev_SQS_QUEUE_URL cfg) = []"
  using assms unfolding parse_env_def Let_def if_Inr not_not append_is_Nil_conv field_issues_Nil
  by (elim conjE, hypsubst) (simp add: not_aborted)

lemma cross_checks_Nil:
  "cross_checks queue storage scheduler bucket url = [] \<longleftrightarrow>
     (storage = Aws \<longrightarrow> present bucket) \<and> (queue = Aws \<longrightarrow> present url) \<and> (scheduler = Aws \<longrightarrow> queue = Aws)"
  by (auto simp: cross_checks_def)

lemma load_env_Inr: "load_env lib p = Inr cfg \<longleftrightarrow> parse_env lib p = Inr cfg"
  by (simp add: load_env_def split: sum.split)

text \<open>The bounds the components rely on.\<close>

definition bounds_ok :: "config \<Rightarrow> bool" where
  "bounds_ok cfg \<longleftrightarrow> 1 \<le> ev_SYNC_PAGE_SIZE cfg \<and> ev_SYNC_PAGE_SIZE cfg \<le> 50
     \<and> 1 \<le> ev_SYNC_MAX_MEDIA_PER_RUN cfg \<and> ev_SYNC_MAX_MEDIA_PER_RUN cfg \<le> 10000
     \<and> 1 \<le> ev_DOWNLOAD_CONCURRENCY cfg \<and> ev_DOWNLOAD_CONCURRENCY cfg \<le> 50
     \<and> 1 \<le> ev_META_THROTTLE_THRESHOLD_PCT cfg \<and> ev_META_THROTTLE_THRESHOLD_PCT cfg \<le> 100
     \<and> ev_SQS_WAIT_TIME_SECONDS cfg \<le> 20 \<and> 1 \<le> ev_SQS_VISIBILITY_TIMEOUT cfg
     \<and> 1 \<le> ev_META_REQUEST_TIMEOUT_MS cfg \<and> 1 \<le> ev_DATABASE_POOL_MAX cfg"

definition drivers_ok :: "config \<Rightarrow> bool" where
  "drivers_ok cfg \<longleftrightarrow> (ev_STORAGE_DRIVER cfg = Aws \<longrightarrow> present (ev_S3_BUCKET cfg))
     \<and> (ev_QUEUE_DRIVER cfg = Aws \<longrightarrow> present (ev_SQS_QUEUE_URL cfg))
     \<and> (ev_SCHEDULER_DRIVER cfg = Aws \<longrightarrow> ev_QUEUE_DRIVER cfg = Aws)"

lemma load_env_drivers: "load_env lib p = Inr cfg \<Longrightarrow> drivers_ok cfg"
  using parse_env_drivers by (simp add: load_env_Inr cross_checks_Nil drivers_ok_def)

lemma int_field_up_to:
  assumes "int_field p k d num_positive (Some (of_nat u)) = Inr v" "1 \<le> d" "d \<le> u"
  shows "1 \<le> v \<and> v \<le> u"
  using int_field_positive [OF assms(1,2)] assms(3) by simp

lemma int_field_from_to:
  assumes "int_field p k d (num_at_least (of_nat l)) (Some (of_nat u)) = Inr v" "l \<le> d" "d \<le> u"
  shows "l \<le> v \<and> v \<le> u"
  using int_field_range [OF assms(1)] assms(2,3) by simp

lemma load_env_bounds:
  assumes "load_env lib p = Inr cfg" shows "bounds_ok cfg"
proof -
  note vals = env_values [OF assms [unfolded load_env_Inr]]
  show ?thesis
    unfolding bounds_ok_def
    using vals int_field_up_to [of p "''SYNC_PAGE_SIZE''" 25 50] int_field_up_to [of p "''DOWNLOAD_CONCURRENCY''" 5 50]
      int_field_up_to [of p "''SYNC_MAX_MEDIA_PER_RUN''" 500 10000]
      int_field_from_to [of p "''META_THROTTLE_THRESHOLD_PCT''" 80 1 100]
      int_field_from_to [of p "''SQS_WAIT_TIME_SECONDS''" 20 0 20]
      int_field_positive(1) [of p "''SQS_VISIBILITY_TIMEOUT''" 300 None]
      int_field_positive(1) [of p "''META_REQUEST_TIMEOUT_MS''" 60000 None]
      int_field_positive(1) [of p "''DATABASE_POOL_MAX''" 10 None]
    by simp
qed

end
