(* ===== verification/Schedulers.thy ===== *)
theory Schedulers
  imports Queue_Port
begin

text \<open>
  The drivers of \<open>src/ports/Scheduler.ts\<close>: \<open>adapters/local/NodeCronScheduler.ts\<close>, with the tasks
  node-cron runs as a list, and \<open>adapters/aws/EventBridgeScheduler.ts\<close> over the two SDK clients. Both
  end up sending the same message.
\<close>

definition dispatch_job :: job where
  "dispatch_job = Dispatch_Job Recent"

section \<open>node-cron\<close>

text \<open>
  What the library runs: the expression of every task that was scheduled and not stopped, by number.
  The scheduler keeps the number of the task it started last.
\<close>

record cron_world =
  cw_tasks :: "(nat \<times> jstr) list"
  cw_next :: nat

record cron_scheduler =
  cn_expression :: jstr
  cn_task :: "nat option"

definition cron_create :: "jstr \<Rightarrow> cron_scheduler" where
  "cron_create expression = \<lparr>cn_expression = expression, cn_task = None\<rparr>"

definition cron_ensureSchedules :: "(jstr \<Rightarrow> bool) \<Rightarrow> cron_scheduler \<Rightarrow> js_error + unit" where
  "cron_ensureSchedules validate c =
     (if \<not> validate (cn_expression c) then Inl (Plain_Error (js ''invalid cron expression: '' @ cn_expression c))
      else Inr ())"

definition cron_start ::
  "(jstr \<Rightarrow> bool) \<Rightarrow> cron_scheduler \<Rightarrow> cron_world \<Rightarrow> (js_error + unit) \<times> cron_scheduler \<times> cron_world" where
  "cron_start validate c w =
     (case cron_ensureSchedules validate c of
        Inl e \<Rightarrow> (Inl e, c, w)
      | Inr u \<Rightarrow> (Inr (), c\<lparr>cn_task := Some (cw_next w)\<rparr>,
          w\<lparr>cw_tasks := cw_tasks w @ [(cw_next w, cn_expression c)], cw_next := Suc (cw_next w)\<rparr>))"

definition cron_stop :: "cron_scheduler \<Rightarrow> cron_world \<Rightarrow> cron_scheduler \<times> cron_world" where
  "cron_stop c w =
     (c\<lparr>cn_task := None\<rparr>,
      case cn_task c of
        None \<Rightarrow> w | Some t \<Rightarrow> w\<lparr>cw_tasks := filter (\<lambda>(i, e). i \<noteq> t) (cw_tasks w)\<rparr>)"

text \<open>The callback of a task: a rejected enqueue is caught and logged, so the tasks go on.\<close>

definition cron_tick :: "(job \<Rightarrow> 'q \<Rightarrow> (js_error + 'h) \<times> 'q) \<Rightarrow> 'q \<Rightarrow> 'q" where
  "cron_tick enqueue q = snd (enqueue dispatch_job q)"

section \<open>EventBridge\<close>

record eventbridge_options =
  eo_scheduleName :: jstr
  eo_scheduleExpression :: jstr
  eo_queueUrl :: "jstr option" \<comment> \<open>\<open>undefined\<close> can pass the non-null assertion\<close>
  eo_roleArn :: jstr
  eo_region :: jstr

record schedule =
  sd_Name :: jstr
  sd_ScheduleExpression :: jstr
  sd_FlexibleTimeWindow :: string
  sd_TargetArn :: jstr
  sd_TargetRoleArn :: jstr
  sd_TargetInput :: jstr
  sd_Description :: string
  sd_State :: string

text \<open>The SDK clients; \<open>sx_isConflict\<close> is \<open>error instanceof ConflictException\<close>.\<close>

record 'w scheduler_client =
  sx_getQueueArn :: "jstr option \<Rightarrow> 'w \<Rightarrow> js_error + jstr option"
  sx_createSchedule :: "schedule \<Rightarrow> 'w \<Rightarrow> (js_error + unit) \<times> 'w"
  sx_updateSchedule :: "schedule \<Rightarrow> 'w \<Rightarrow> (js_error + unit) \<times> 'w"
  sx_isConflict :: "js_error \<Rightarrow> bool"

definition show_undefined :: "jstr option \<Rightarrow> jstr" where
  "show_undefined s = (case s of None \<Rightarrow> js ''undefined'' | Some t \<Rightarrow> t)"

definition resolveQueueArn :: "'w scheduler_client \<Rightarrow> eventbridge_options \<Rightarrow> 'w \<Rightarrow> js_error + jstr" where
  "resolveQueueArn c opts w =
     (let failed = Inl (Plain_Error (js ''could not resolve QueueArn for '' @ show_undefined (eo_queueUrl opts)))
      in case sx_getQueueArn c (eo_queueUrl opts) w of
           Inl e \<Rightarrow> Inl e
         | Inr None \<Rightarrow> failed
         | Inr (Some arn) \<Rightarrow> if arn = [] then failed else Inr arn)"

definition schedule_of :: "eventbridge_options \<Rightarrow> jstr \<Rightarrow> schedule" where
  "schedule_of opts queueArn =
     \<lparr>sd_Name = eo_scheduleName opts, sd_ScheduleExpression = eo_scheduleExpression opts,
       sd_FlexibleTimeWindow = ''OFF'', sd_TargetArn = queueArn, sd_TargetRoleArn = eo_roleArn opts,
       sd_TargetInput = stringify_job dispatch_job,
       sd_Description = ''Enqueues a recent-media sync dispatch for all tracked hashtags'', sd_State = ''ENABLED''\<rparr>"

definition eb_ensureSchedules ::
  "'w scheduler_client \<Rightarrow> eventbridge_options \<Rightarrow> 'w \<Rightarrow> (js_error + unit) \<times> 'w" where
  "eb_ensureSchedules c opts w =
     (case resolveQueueArn c opts w of
        Inl e \<Rightarrow> (Inl e, w)
      | Inr queueArn \<Rightarrow>
          (case sx_createSchedule c (schedule_of opts queueArn) w of
             (Inr u, w1) \<Rightarrow> (Inr (), w1)
           | (Inl e, w1) \<Rightarrow>
               if sx_isConflict c e then sx_updateSchedule c (schedule_of opts queueArn) w1
               else (Inl e, w1)))"

text \<open>\<open>start\<close> and \<open>stop\<close> do nothing: AWS owns the clock.\<close>

definition eb_start :: "'w \<Rightarrow> 'w" where
  "eb_start w = w"

definition eb_stop :: "'w \<Rightarrow> 'w" where
  "eb_stop w = w"

section \<open>The service behind the client\<close>

text \<open>
  EventBridge as its documentation describes it, over a view \<open>stored\<close> of its schedules by name: creating
  succeeds for a free name only, a conflict is reported for a taken name only, an accepted create or update stores the given
  schedule, and a rejected call changes nothing.
\<close>

definition scheduler_service :: "'w scheduler_client \<Rightarrow> ('w \<Rightarrow> jstr \<Rightarrow> schedule option) \<Rightarrow> bool" where
  "scheduler_service c stored \<longleftrightarrow>
     (\<forall>sc w. case sx_createSchedule c sc w of
        (Inr u, w1) \<Rightarrow> stored w (sd_Name sc) = None \<and> stored w1 = (stored w)(sd_Name sc \<mapsto> sc)
      | (Inl e, w1) \<Rightarrow> stored w1 = stored w \<and> (sx_isConflict c e \<longrightarrow> stored w (sd_Name sc) \<noteq> None))
     \<and> (\<forall>sc w. case sx_updateSchedule c sc w of
        (Inr u, w1) \<Rightarrow> stored w1 = (stored w)(sd_Name sc \<mapsto> sc)
      | (Inl e, w1) \<Rightarrow> stored w1 = stored w)"

lemma service_create:
  assumes "scheduler_service c stored" "sx_createSchedule c sc w = (r, w1)"
  shows "case r of Inr u \<Rightarrow> stored w1 = (stored w)(sd_Name sc \<mapsto> sc)
    | Inl e \<Rightarrow> stored w1 = stored w \<and> (sx_isConflict c e \<longrightarrow> stored w (sd_Name sc) \<noteq> None)"
proof -
  have "case sx_createSchedule c sc w of
        (Inr u, w1) \<Rightarrow> stored w (sd_Name sc) = None \<and> stored w1 = (stored w)(sd_Name sc \<mapsto> sc)
      | (Inl e, w1) \<Rightarrow> stored w1 = stored w \<and> (sx_isConflict c e \<longrightarrow> stored w (sd_Name sc) \<noteq> None)"
    using assms(1) by (simp add: scheduler_service_def)
  then show ?thesis using assms(2) by (cases r) simp_all
qed

lemma service_update:
  assumes "scheduler_service c stored" "sx_updateSchedule c sc w = (r, w1)"
  shows "stored w1 = (if isl r then stored w else (stored w)(sd_Name sc \<mapsto> sc))"
proof -
  have "case sx_updateSchedule c sc w of
        (Inr u, w1) \<Rightarrow> stored w1 = (stored w)(sd_Name sc \<mapsto> sc)
      | (Inl e, w1) \<Rightarrow> stored w1 = stored w"
    using assms(1) by (simp add: scheduler_service_def)
  then show ?thesis using assms(2) by (cases r) simp_all
qed

text \<open>Whatever was there: an accepted call leaves exactly the wanted schedule, a rejected one no trace.\<close>

lemma ensureSchedules_stored:
  assumes "scheduler_service c stored" "resolveQueueArn c opts w = Inr arn"
    "eb_ensureSchedules c opts w = (r, w1)"
  shows "stored w1 = (if isl r then stored w else (stored w)(eo_scheduleName opts \<mapsto> schedule_of opts arn))"
proof -
  let ?sc = "schedule_of opts arn"
  have name: "sd_Name ?sc = eo_scheduleName opts" by (simp add: schedule_of_def)
  obtain r1 v1 where create: "sx_createSchedule c ?sc w = (r1, v1)" by fastforce
  note created = service_create [OF assms(1) create]
  show ?thesis
  proof (cases "\<exists>e. r1 = Inl e \<and> sx_isConflict c e")
    case True
    then have "sx_updateSchedule c ?sc v1 = (r, w1)"
      using assms(2,3) create by (auto simp: eb_ensureSchedules_def)
    then show ?thesis using service_update [OF assms(1)] created True name by fastforce
  next
    case False
    then have "r = r1 \<and> w1 = v1"
      using assms(2,3) create by (cases r1) (auto simp: eb_ensureSchedules_def)
    then show ?thesis using created name by (cases r1) auto
  qed
qed

lemma ensureSchedules_unresolved:
  "resolveQueueArn c opts w = Inl e \<Longrightarrow> eb_ensureSchedules c opts w = (Inl e, w)"
  by (simp add: eb_ensureSchedules_def)

text \<open>A conflict on create is never reported to the caller of \<open>ensureSchedules\<close>.\<close>

lemma ensureSchedules_conflict:
  assumes "resolveQueueArn c opts w = Inr arn" "sx_createSchedule c (schedule_of opts arn) w = (Inl e, w1)"
    "sx_isConflict c e"
  shows "eb_ensureSchedules c opts w = sx_updateSchedule c (schedule_of opts arn) w1"
  using assms by (simp add: eb_ensureSchedules_def)

section \<open>Both drivers send the same message\<close>

lemma dispatch_input_parses: "parseBody (sd_TargetInput (schedule_of opts arn)) = Some dispatch_job"
  by (simp add: schedule_of_def dispatch_job_def parseBody_stringify)

context job_queue
begin

lemma tick_enqueues:
  assumes "fst (enqueue dispatch_job s) = Inr i"
  shows "stock (cron_tick enqueue s) = add_mset dispatch_job (stock s)" "held (cron_tick enqueue s) = held s"
  using enqueue_stock [OF assms] enqueue_held by (simp_all add: cron_tick_def)

lemma tick_rejected: "fst (enqueue dispatch_job s) = Inl e \<Longrightarrow> cron_tick enqueue s = s"
  using enqueue_rejected by (simp add: cron_tick_def)

end

section \<open>Starting and stopping\<close>

definition cron_fresh :: "cron_world \<Rightarrow> bool" where
  "cron_fresh w \<longleftrightarrow> (\<forall>(i, e) \<in> set (cw_tasks w). i < cw_next w)"

lemma cron_start_stop:
  assumes "cron_start validate c w = (Inr u, c1, w1)" "cron_fresh w"
  shows "cw_tasks w1 = cw_tasks w @ [(cw_next w, cn_expression c)]"
    and "cw_tasks (snd (cron_stop c1 w1)) = cw_tasks w" "cn_task (fst (cron_stop c1 w1)) = None"
proof -
  have w1: "c1 = c\<lparr>cn_task := Some (cw_next w)\<rparr>"
    "w1 = w\<lparr>cw_tasks := cw_tasks w @ [(cw_next w, cn_expression c)], cw_next := Suc (cw_next w)\<rparr>"
    using assms(1) by (auto simp: cron_start_def split: sum.splits)
  have "filter (\<lambda>(i, e). i \<noteq> cw_next w) (cw_tasks w) = cw_tasks w"
    using assms(2) by (intro filter_True) (auto simp: cron_fresh_def)
  then show "cw_tasks w1 = cw_tasks w @ [(cw_next w, cn_expression c)]"
    "cw_tasks (snd (cron_stop c1 w1)) = cw_tasks w" "cn_task (fst (cron_stop c1 w1)) = None"
    using w1 by (simp_all add: cron_stop_def)
qed

text \<open>A second \<open>start\<close> forgets the first task: \<open>stop\<close> leaves it running.\<close>

lemma cron_started_twice:
  assumes "cron_start validate c w = (Inr u, c1, w1)" "cron_start validate c1 w1 = (Inr u', c2, w2)"
    "cron_fresh w"
  shows "cw_tasks (snd (cron_stop c2 w2)) = cw_tasks w @ [(cw_next w, cn_expression c)]"
proof -
  have "cron_fresh w1" "cw_tasks w1 = cw_tasks w @ [(cw_next w, cn_expression c)]"
    using assms(1,3) by (auto simp: cron_start_def cron_fresh_def less_Suc_eq split: sum.splits)
  then show ?thesis using cron_start_stop(2) [OF assms(2)] by simp
qed

end
