(* ===== verification/Adapters.thy ===== *)
theory Adapters
  imports Env_Config Schedulers Memory_Queue Disk_Storage
begin

text \<open>
  \<open>src/adapters/index.ts\<close>: the choice of the drivers, memoised in module variables. A driver object is
  its constructor arguments and a serial number, which stands for its identity: two objects with the
  same arguments are different queues.
\<close>

section \<open>Driver objects\<close>

datatype queue_args =
    Sqs_Queue_Args "jstr option" jstr nat \<comment> \<open>queue URL (\<open>undefined\<close> can pass the assertion), region, wait\<close>
  | Memory_Queue_Args mem_config

datatype storage_args =
    S3_Args "jstr option" jstr
  | Local_Disk_Args "jstr list"

record 'a object =
  ob_serial :: nat
  ob_args :: 'a

datatype scheduler_args =
    Event_Bridge_Args eventbridge_options
  | Node_Cron_Args "queue_args object" jstr

record adapters =
  ad_queue :: "queue_args object option"
  ad_storage :: "storage_args object option"
  ad_scheduler :: "scheduler_args object option"
  ad_serial :: nat \<comment> \<open>of the next object\<close>

definition no_adapters :: adapters where
  "no_adapters = \<lparr>ad_queue = None, ad_storage = None, ad_scheduler = None, ad_serial = 0\<rparr>"

definition new_object :: "'a \<Rightarrow> adapters \<Rightarrow> 'a object" where
  "new_object a ad = \<lparr>ob_serial = ad_serial ad, ob_args = a\<rparr>"

section \<open>Cron translation\<close>

text \<open>\<open>s.split(/\s+/)\<close> of a trimmed text: the fields between runs of white space; the empty text has one.\<close>

function split_spaces :: "jstr \<Rightarrow> jstr list" where
  "split_spaces s =
     (let field = takeWhile (\<lambda>c. \<not> is_js_space c) s; rest = dropWhile (\<lambda>c. \<not> is_js_space c) s
      in if rest = [] then [field] else field # split_spaces (dropWhile is_js_space rest))"
  by pat_completeness auto
termination
proof (relation "measure length", simp, goal_cases)
  case (1 s field rest)
  then obtain a r where r: "rest = a # r" by (metis list.exhaust)
  then have "is_js_space a"
    using 1 hd_dropWhile [of "\<lambda>c. \<not> is_js_space c" s] by simp
  then have "length (dropWhile is_js_space rest) < length rest"
    by (simp add: r le_imp_less_Suc length_dropWhile_le)
  then show ?case
    using 1 length_dropWhile_le [of "\<lambda>c. \<not> is_js_space c" s] by simp
qed

declare split_spaces.simps [simp del]

definition star :: jstr where "star = [42]"
definition question :: jstr where "question = [63]"

definition field_count_error :: "nat \<Rightarrow> jstr \<Rightarrow> js_error" where
  "field_count_error n unixCron =
     Plain_Error (js ''expected a 5-field cron expression, got '' @ dec_digits n @ js '' fields: \"'' @ unixCron @ [34])"

definition eb_days :: "jstr \<Rightarrow> jstr \<Rightarrow> jstr \<times> jstr" where
  "eb_days dayOfMonth dayOfWeek =
     (let dom = (if dayOfMonth = star \<and> dayOfWeek \<noteq> star then question else dayOfMonth);
          dow = (if dayOfWeek = star \<and> dom \<noteq> question then question else dayOfWeek)
      in (dom, dow))"

definition toEventBridgeExpression :: "jstr \<Rightarrow> js_error + jstr" where
  "toEventBridgeExpression unixCron =
     (let fields = split_spaces (js_trim unixCron)
      in case fields of
           [minute, hour, dayOfMonth, month, dayOfWeek] \<Rightarrow>
             (let (dom, dow) = eb_days dayOfMonth dayOfWeek
              in Inr (js ''cron('' @ minute @ 32 # hour @ 32 # dom @ 32 # month @ 32 # dow @ js '' *)''))
         | _ \<Rightarrow> Inl (field_count_error (length fields) unixCron))"

section \<open>The getters\<close>

definition getQueue :: "config \<Rightarrow> adapters \<Rightarrow> queue_args object \<times> adapters" where
  "getQueue cfg ad =
     (case ad_queue ad of
        Some q \<Rightarrow> (q, ad)
      | None \<Rightarrow>
          (let q = new_object
             (if ev_QUEUE_DRIVER cfg = Aws
              then Sqs_Queue_Args (ev_SQS_QUEUE_URL cfg) (ev_AWS_REGION cfg) (ev_SQS_WAIT_TIME_SECONDS cfg)
              else Memory_Queue_Args \<lparr>mc_visibilityTimeoutMs = int (ev_SQS_VISIBILITY_TIMEOUT cfg) * 1000,
                     mc_maxReceiveCount = 3\<rparr>) ad
           in (q, ad\<lparr>ad_queue := Some q, ad_serial := Suc (ad_serial ad)\<rparr>)))"

text \<open>\<open>path.resolve(dir)\<close>, from the working directory.\<close>

definition path_resolve :: "jstr list \<Rightarrow> jstr \<Rightarrow> jstr list" where
  "path_resolve cwd p = norm_segs False (if is_absolute p then [] else cwd) (split_slash p)"

definition getStorage :: "jstr list \<Rightarrow> config \<Rightarrow> adapters \<Rightarrow> storage_args object \<times> adapters" where
  "getStorage cwd cfg ad =
     (case ad_storage ad of
        Some s \<Rightarrow> (s, ad)
      | None \<Rightarrow>
          (let s = new_object
             (if ev_STORAGE_DRIVER cfg = Aws then S3_Args (ev_S3_BUCKET cfg) (ev_AWS_REGION cfg)
              else Local_Disk_Args (path_resolve cwd (ev_LOCAL_STORAGE_DIR cfg))) ad
           in (s, ad\<lparr>ad_storage := Some s, ad_serial := Suc (ad_serial ad)\<rparr>)))"

definition role_arn_error :: js_error where
  "role_arn_error = Plain_Error
     (js ''EVENTBRIDGE_SCHEDULE_ROLE_ARN is required when SCHEDULER_DRIVER=aws - '' @
      js ''EventBridge needs a role it can assume to call sqs:SendMessage. '' @
      js ''Run `pnpm aws:provision` to create it.'')"

definition getScheduler :: "config \<Rightarrow> adapters \<Rightarrow> (js_error + scheduler_args object) \<times> adapters" where
  "getScheduler cfg ad =
     (case ad_scheduler ad of
        Some s \<Rightarrow> (Inr s, ad)
      | None \<Rightarrow>
          if ev_SCHEDULER_DRIVER cfg = Aws
          then (if \<not> present (ev_EVENTBRIDGE_SCHEDULE_ROLE_ARN cfg) then (Inl role_arn_error, ad)
                else case toEventBridgeExpression (ev_RECENT_SYNC_CRON cfg) of
                  Inl e \<Rightarrow> (Inl e, ad)
                | Inr expression \<Rightarrow>
                    (let s = new_object (Event_Bridge_Args
                           \<lparr>eo_scheduleName = ev_EVENTBRIDGE_SCHEDULE_NAME cfg, eo_scheduleExpression = expression,
                             eo_queueUrl = ev_SQS_QUEUE_URL cfg,
                             eo_roleArn = the (ev_EVENTBRIDGE_SCHEDULE_ROLE_ARN cfg), eo_region = ev_AWS_REGION cfg\<rparr>) ad
                     in (Inr s, ad\<lparr>ad_scheduler := Some s, ad_serial := Suc (ad_serial ad)\<rparr>)))
          else case getQueue cfg ad of
            (q, ad1) \<Rightarrow>
              (let s = new_object (Node_Cron_Args q (ev_RECENT_SYNC_CRON cfg)) ad1
               in (Inr s, ad1\<lparr>ad_scheduler := Some s, ad_serial := Suc (ad_serial ad1)\<rparr>)))"

text \<open>
  The scheduler is stopped and the queue closed, an error of either being ignored; the storage has
  nothing to release. The result names what was stopped and closed.
\<close>

definition closeAdapters :: "adapters \<Rightarrow> scheduler_args object option \<times> queue_args object option \<times> adapters" where
  "closeAdapters ad =
     (ad_scheduler ad, ad_queue ad, ad\<lparr>ad_queue := None, ad_storage := None, ad_scheduler := None\<rparr>)"

definition setAdaptersForTest ::
  "queue_args object option \<Rightarrow> storage_args object option \<Rightarrow> scheduler_args object option \<Rightarrow> adapters \<Rightarrow> adapters" where
  "setAdaptersForTest q s sc ad =
     ad\<lparr>ad_queue := (case q of None \<Rightarrow> ad_queue ad | Some _ \<Rightarrow> q),
       ad_storage := (case s of None \<Rightarrow> ad_storage ad | Some _ \<Rightarrow> s),
       ad_scheduler := (case sc of None \<Rightarrow> ad_scheduler ad | Some _ \<Rightarrow> sc)\<rparr>"

section \<open>The processes that use them\<close>

inductive adapter_step :: "jstr list \<Rightarrow> config \<Rightarrow> adapters \<Rightarrow> adapters \<Rightarrow> bool" for cwd cfg where
  queue: "getQueue cfg ad = (q, ad') \<Longrightarrow> adapter_step cwd cfg ad ad'"
| storage: "getStorage cwd cfg ad = (s, ad') \<Longrightarrow> adapter_step cwd cfg ad ad'"
| scheduler: "getScheduler cfg ad = (r, ad') \<Longrightarrow> adapter_step cwd cfg ad ad'"
| close: "closeAdapters ad = (sc, q, ad') \<Longrightarrow> adapter_step cwd cfg ad ad'"

inductive_simps adapter_step_iff: "adapter_step cwd cfg ad ad'"

text \<open>A dispatch of the scheduler reaches the queue: the same object, or the same SQS queue.\<close>

fun feeds :: "scheduler_args \<Rightarrow> queue_args object \<Rightarrow> bool" where
  "feeds (Node_Cron_Args q e) q' = (q = q')"
| "feeds (Event_Bridge_Args opts) q' =
     (case ob_args q' of
        Sqs_Queue_Args url region wait \<Rightarrow> eo_queueUrl opts = url \<and> eo_region opts = region \<and> present url
      | Memory_Queue_Args c \<Rightarrow> False)"

definition queue_args_of :: "config \<Rightarrow> queue_args" where
  "queue_args_of cfg =
     (if ev_QUEUE_DRIVER cfg = Aws
      then Sqs_Queue_Args (ev_SQS_QUEUE_URL cfg) (ev_AWS_REGION cfg) (ev_SQS_WAIT_TIME_SECONDS cfg)
      else Memory_Queue_Args \<lparr>mc_visibilityTimeoutMs = int (ev_SQS_VISIBILITY_TIMEOUT cfg) * 1000,
             mc_maxReceiveCount = 3\<rparr>)"

text \<open>The module variables hold what the configuration says.\<close>

definition scheduler_from :: "config \<Rightarrow> queue_args object option \<Rightarrow> scheduler_args \<Rightarrow> bool" where
  "scheduler_from cfg q s =
     (case s of
        Node_Cron_Args p e \<Rightarrow> ev_SCHEDULER_DRIVER cfg \<noteq> Aws \<and> q = Some p
      | Event_Bridge_Args opts \<Rightarrow> ev_SCHEDULER_DRIVER cfg = Aws \<and> eo_queueUrl opts = ev_SQS_QUEUE_URL cfg
          \<and> eo_region opts = ev_AWS_REGION cfg)"

definition adapters_ok :: "config \<Rightarrow> adapters \<Rightarrow> bool" where
  "adapters_ok cfg ad \<longleftrightarrow>
     (case ad_queue ad of None \<Rightarrow> True | Some q \<Rightarrow> ob_args q = queue_args_of cfg \<and> ob_serial q < ad_serial ad)
     \<and> (case ad_scheduler ad of None \<Rightarrow> True | Some s \<Rightarrow> scheduler_from cfg (ad_queue ad) (ob_args s))"

lemma getQueue_memoised:
  "ad_queue (snd (getQueue cfg ad)) = Some (fst (getQueue cfg ad))"
  by (simp add: getQueue_def Let_def split: option.split)

lemma getQueue_again: "ad_queue ad = Some q \<Longrightarrow> getQueue cfg ad = (q, ad)"
  by (simp add: getQueue_def)

lemma getQueue_ok:
  assumes "adapters_ok cfg ad" "getQueue cfg ad = (q, ad')"
  shows "adapters_ok cfg ad'" "ob_args q = queue_args_of cfg" "ad_queue ad' = Some q"
    "ad_scheduler ad' = ad_scheduler ad"
  using assms by (auto simp: getQueue_def adapters_ok_def queue_args_of_def new_object_def Let_def scheduler_from_def
      split: option.splits scheduler_args.splits)

lemma getStorage_ok: "adapters_ok cfg ad \<Longrightarrow> getStorage cwd cfg ad = (s, ad') \<Longrightarrow> adapters_ok cfg ad'"
  by (auto simp: getStorage_def adapters_ok_def Let_def split: option.splits)

lemma getScheduler_ok:
  assumes "adapters_ok cfg ad" "getScheduler cfg ad = (r, ad')"
  shows "adapters_ok cfg ad'" "r = Inr s \<Longrightarrow> ad_scheduler ad' = Some s"
proof -
  obtain q ad1 where q: "getQueue cfg ad = (q, ad1)" by fastforce
  note queue = getQueue_ok [OF assms(1) q]
  show "adapters_ok cfg ad'" "r = Inr s \<Longrightarrow> ad_scheduler ad' = Some s"
    using assms queue q
    by (auto simp: getScheduler_def adapters_ok_def new_object_def scheduler_from_def Let_def
        split: option.splits if_splits sum.splits scheduler_args.splits)
qed

lemma adapters_ok_close: "closeAdapters ad = (sc, q, ad') \<Longrightarrow> adapters_ok cfg ad'"
  by (auto simp: closeAdapters_def adapters_ok_def)

lemma adapters_ok_step: "adapter_step cwd cfg ad ad' \<Longrightarrow> adapters_ok cfg ad \<Longrightarrow> adapters_ok cfg ad'"
  by (erule adapter_step.cases) (use getQueue_ok(1) getStorage_ok getScheduler_ok(1) adapters_ok_close in blast)+

lemma adapters_ok_reachable:
  assumes "(adapter_step cwd cfg)\<^sup>*\<^sup>* no_adapters ad" shows "adapters_ok cfg ad"
  using assms
proof (induction rule: rtranclp_induct)
  case base
  show ?case by (simp add: adapters_ok_def no_adapters_def)
next
  case (step y z)
  then show ?case using adapters_ok_step by blast
qed

lemma scheduler_feeds:
  assumes "adapters_ok cfg ad" "drivers_ok cfg" "getScheduler cfg ad = (Inr s, ad1)"
  shows "feeds (ob_args s) (fst (getQueue cfg ad1))"
proof -
  note ok = getScheduler_ok [OF assms(1,3)]
  obtain q ad2 where q: "getQueue cfg ad1 = (q, ad2)" by fastforce
  have "scheduler_from cfg (ad_queue ad1) (ob_args s)" "ob_args q = queue_args_of cfg"
    using ok getQueue_ok(2) [OF ok(1) q] by (simp_all add: adapters_ok_def)
  then show ?thesis
    using assms(2) q getQueue_again [of ad1 _ cfg]
    by (cases "ob_args s") (auto simp: scheduler_from_def drivers_ok_def queue_args_of_def)
qed

section \<open>What the translation preserves\<close>

lemma eb_days_cases:
  assumes "dayOfMonth \<noteq> question" "dayOfWeek \<noteq> question"
  shows "eb_days dayOfMonth dayOfWeek =
     (if dayOfWeek \<noteq> star then (if dayOfMonth = star then question else dayOfMonth, dayOfWeek)
      else (dayOfMonth, question))"
  using assms by (simp add: eb_days_def Let_def)

end
