(* ===== verification/S3_Storage.thy ===== *)
theory S3_Storage
  imports Storage_Port
begin

text \<open>
  \<open>src/adapters/aws/S3Storage.ts\<close>: the object store on S3. The SDK client is a record of functions on
  the state of the service; an SDK error carries a name and an HTTP status beside its message.
\<close>

section \<open>The driver\<close>

record sdk_error =
  xe_name :: "jstr option"
  xe_httpStatusCode :: "nat option"
  xe_error :: js_error

record s3_head =
  sh_ContentLength :: "nat option"
  sh_ContentType :: "jstr option"

record s3_upload =
  su_Bucket :: jstr
  su_Key :: jstr
  su_Body :: bytes
  su_ContentType :: "jstr option"
  su_partSize :: nat
  su_queueSize :: nat

record 'w s3_client =
  s3_head_object :: "jstr \<Rightarrow> jstr \<Rightarrow> 'w \<Rightarrow> sdk_error + s3_head"
  s3_get_object :: "jstr \<Rightarrow> jstr \<Rightarrow> 'w \<Rightarrow> sdk_error + bytes option"
  s3_run_upload :: "s3_upload \<Rightarrow> 'w \<Rightarrow> (sdk_error + unit) \<times> 'w"

text \<open>\<open>name === 'NotFound' || name === 'NoSuchKey' || status === 404\<close>\<close>

definition is_absent :: "sdk_error \<Rightarrow> bool" where
  "is_absent e \<longleftrightarrow> xe_name e = Some (js ''NotFound'') \<or> xe_name e = Some (js ''NoSuchKey'')
     \<or> xe_httpStatusCode e = Some 404"

definition s3_exists :: "'w s3_client \<Rightarrow> jstr \<Rightarrow> jstr \<Rightarrow> 'w \<Rightarrow> js_error + bool" where
  "s3_exists c bucket key w =
     (case s3_head_object c bucket key w of
        Inr h \<Rightarrow> Inr True
      | Inl e \<Rightarrow> if is_absent e then Inr False else Inl (xe_error e))"

definition upload_of :: "jstr \<Rightarrow> jstr \<Rightarrow> bytes \<Rightarrow> jstr option \<Rightarrow> s3_upload" where
  "upload_of bucket key body contentType =
     \<lparr>su_Bucket = bucket, su_Key = key, su_Body = body,
       su_ContentType = (case contentType of None \<Rightarrow> None | Some t \<Rightarrow> if t = [] then None else Some t),
       su_partSize = 5 * 1024 * 1024, su_queueSize = 4\<rparr>"

text \<open>What S3 stored, not what was sent: the size and type are those a HEAD reports afterwards.\<close>

definition s3_put ::
  "'w s3_client \<Rightarrow> jstr \<Rightarrow> jstr \<Rightarrow> bytes \<Rightarrow> jstr option \<Rightarrow> 'w \<Rightarrow> (js_error + stored_object) \<times> 'w" where
  "s3_put c bucket key body contentType w =
     (case s3_run_upload c (upload_of bucket key body contentType) w of
        (Inl e, w1) \<Rightarrow> (Inl (xe_error e), w1)
      | (Inr u, w1) \<Rightarrow>
          (case s3_head_object c bucket key w1 of
             Inl e \<Rightarrow> (Inl (xe_error e), w1)
           | Inr h \<Rightarrow>
               (Inr \<lparr>so_key = key, so_provider = ''s3'',
                  so_sizeBytes = (case sh_ContentLength h of None \<Rightarrow> 0 | Some n \<Rightarrow> n),
                  so_contentType = (case sh_ContentType h of None \<Rightarrow> contentType | Some t \<Rightarrow> Some t)\<rparr>, w1)))"

definition s3_getStream :: "'w s3_client \<Rightarrow> jstr \<Rightarrow> jstr \<Rightarrow> 'w \<Rightarrow> js_error + bytes" where
  "s3_getStream c bucket key w =
     (case s3_get_object c bucket key w of
        Inl e \<Rightarrow> Inl (xe_error e)
      | Inr None \<Rightarrow> Inl (Plain_Error (js ''S3 object '' @ key @ js '' has no body''))
      | Inr (Some body) \<Rightarrow> Inr body)"

definition s3_getLocator :: "jstr \<Rightarrow> jstr \<Rightarrow> jstr" where
  "s3_getLocator bucket key = js ''s3://'' @ bucket @ js ''/'' @ key"

section \<open>The service behind the client\<close>

text \<open>
  S3 as its documentation describes it, over a view \<open>content\<close> of the bucket: HEAD answers with the length
  of an object or an absence, an upload that completes has stored its body and nothing else, one that is
  rejected stored it completely or not at all.
\<close>

definition s3_service :: "'w s3_client \<Rightarrow> jstr \<Rightarrow> ('w \<Rightarrow> jstr \<Rightarrow> bytes option) \<Rightarrow> bool" where
  "s3_service c bucket content \<longleftrightarrow>
     (\<forall>k w. case s3_head_object c bucket k w of
        Inr h \<Rightarrow> map_option length (content w k) = sh_ContentLength h \<and> content w k \<noteq> None
      | Inl e \<Rightarrow> is_absent e \<longrightarrow> content w k = None)
     \<and> (\<forall>k b t w. case s3_run_upload c (upload_of bucket k b t) w of
        (Inr u, w1) \<Rightarrow> content w1 = (content w)(k \<mapsto> b)
      | (Inl e, w1) \<Rightarrow> content w1 = content w \<or> content w1 = (content w)(k \<mapsto> b))"

lemma service_head:
  assumes "s3_service c bucket content"
  shows "case s3_head_object c bucket k w of
      Inr h \<Rightarrow> map_option length (content w k) = sh_ContentLength h \<and> content w k \<noteq> None
    | Inl e \<Rightarrow> is_absent e \<longrightarrow> content w k = None"
  using assms by (simp add: s3_service_def)

lemma service_upload:
  assumes "s3_service c bucket content"
  shows "case s3_run_upload c (upload_of bucket k b t) w of
      (Inr u, w1) \<Rightarrow> content w1 = (content w)(k \<mapsto> b)
    | (Inl e, w1) \<Rightarrow> content w1 = content w \<or> content w1 = (content w)(k \<mapsto> b)"
  using assms by (simp add: s3_service_def)

lemma s3_exists_content:
  assumes "s3_service c bucket content" "s3_exists c bucket k w = Inr b"
  shows "b = (content w k \<noteq> None)"
  using assms(2) service_head [OF assms(1), where k = k and w = w] by (auto simp: s3_exists_def split: sum.splits if_splits)

lemma s3_put_content:
  assumes "s3_service c bucket content" "s3_put c bucket k body ct w = (r, w1)"
  shows "case r of
      Inr ob \<Rightarrow> content w1 = (content w)(k \<mapsto> body) \<and> so_key ob = k \<and> so_provider ob = ''s3''
        \<and> so_sizeBytes ob = length body
    | Inl e \<Rightarrow> content w1 = content w \<or> content w1 = (content w)(k \<mapsto> body)"
proof -
  obtain r1 v where up: "s3_run_upload c (upload_of bucket k body ct) w = (r1, v)" by fastforce
  have stored: "case r1 of Inr u \<Rightarrow> content v = (content w)(k \<mapsto> body)
      | Inl e \<Rightarrow> content v = content w \<or> content v = (content w)(k \<mapsto> body)"
    using service_upload [OF assms(1), where k = k and b = body and t = ct and w = w] up by simp
  show ?thesis
  proof (cases r1)
    case (Inl e)
    then show ?thesis using assms(2) up stored by (auto simp: s3_put_def)
  next
    case (Inr u)
    then show ?thesis
      using assms(2) up stored service_head [OF assms(1), where k = k and w = v]
      by (cases "s3_head_object c bucket k v") (auto simp: s3_put_def split: option.split)
  qed
qed

text \<open>
  So the driver meets the contract of the port: after a failed put the object may be there (the HEAD that
  follows the upload can fail), but then it is complete.
\<close>

lemma s3_object_store:
  assumes "s3_service c bucket content"
  shows "object_store (s3_exists c bucket) (s3_put c bucket) content ''s3''"
proof (unfold_locales, goal_cases)
  case (1 k s b)
  then show ?case using s3_exists_content [OF assms] by simp
next
  case (2 k k' body ct s ob)
  then show ?case using s3_put_content [OF assms prod.collapse [symmetric], of k body ct s] by simp
next
  case (3 k body ct s ob)
  then show ?case using s3_put_content [OF assms prod.collapse [symmetric], of k body ct s] by simp
next
  case (4 k k' body ct s e)
  then show ?case using s3_put_content [OF assms prod.collapse [symmetric], of k body ct s] by (auto split: if_splits)
qed

lemma upload_of_bounds: "su_partSize (upload_of bucket k b t) \<ge> 5242880" "su_ContentType (upload_of bucket k b t) \<noteq> Some []"
  by (simp_all add: upload_of_def split: option.split)

end
