(* ===== verification/Boot_Properties.thy ===== *)
theory Boot_Properties
  imports Adapters S3_Storage Demo
begin

text \<open>
  The properties of the configuration, the choice of drivers, the schedulers and the S3 store.
\<close>

section \<open>A sample configuration\<close>

definition boot_env :: process_env where
  "boot_env = map_of (map (\<lambda>(k, v). (k, js v))
     [(''DATABASE_URL'', ''postgres://db/saral''), (''META_ACCESS_TOKEN'', ''t''), (''META_IG_USER_ID'', ''17''),
      (''QUEUE_DRIVER'', ''aws''), (''SCHEDULER_DRIVER'', ''aws''), (''SQS_QUEUE_URL'', ''https://sqs/q''),
      (''EVENTBRIDGE_SCHEDULE_ROLE_ARN'', ''arn:role'')])"

definition boot_lib :: env_lib where
  "boot_lib = \<lparr>el_is_url = (\<lambda>s. s \<noteq> []), el_message = (\<lambda>k c. js c)\<rparr>"

lemma boot_loads:
  "\<exists>cfg. load_env boot_lib boot_env = Inr cfg \<and> ev_SCHEDULER_DRIVER cfg = Aws \<and> ev_QUEUE_DRIVER cfg = Aws
     \<and> ev_EVENTBRIDGE_SCHEDULE_ROLE_ARN cfg = Some (js ''arn:role'') \<and> ev_RECENT_SYNC_CRON cfg = js ''0 */3 * * *''"
  by (simp add: load_env_Inr parse_env_def Let_def boot_env_def boot_lib_def enum_field_def int_field_def string_field_def
      driver_field_def booleanish_field_def checked_def url_check_def slash_check_def nonempty_check_def version_check_def
      no_checks_def failed_unless_def field_issues_def aborted_def cross_checks_def present_def value_or_def)

section \<open>Configuration and drivers\<close>

text \<open>
  A configuration that loads is usable: the page size is one Meta accepts, the caps, the
  concurrency, the threshold and the waiting time are within the limits the components assume, and every
  selected AWS driver has the setting its constructor takes with a non-null assertion.
\<close>

theorem loaded_config_is_usable:
  assumes "load_env lib p = Inr cfg"
  shows "bounds_ok cfg \<and> drivers_ok cfg"
  using load_env_bounds [OF assms] load_env_drivers [OF assms] by simp

theorem loaded_config_is_usable_witness:
  "\<exists>cfg. load_env boot_lib boot_env = Inr cfg \<and> bounds_ok cfg \<and> drivers_ok cfg"
  using boot_loads loaded_config_is_usable by blast

text \<open>
  C31. Whatever was asked for and closed before: under a loaded configuration the scheduler that is handed
  out feeds the very queue the process reads, the same object for node-cron, the same SQS queue for
  EventBridge, and that queue stays the same object for every later caller.
\<close>

theorem scheduler_feeds_the_queue:
  assumes "load_env lib p = Inr cfg" "(adapter_step cwd cfg)\<^sup>*\<^sup>* no_adapters ad" "getScheduler cfg ad = (Inr s, ad1)"
  shows "feeds (ob_args s) (fst (getQueue cfg ad1))
    \<and> getQueue cfg (snd (getQueue cfg ad1)) = (fst (getQueue cfg ad1), snd (getQueue cfg ad1))
    \<and> getScheduler cfg ad1 = (Inr s, ad1)"
proof -
  note ok = adapters_ok_reachable [OF assms(2)]
  have "ad_scheduler ad1 = Some s" using getScheduler_ok(2) [OF ok assms(3)] by simp
  then show ?thesis
    using scheduler_feeds [OF ok load_env_drivers [OF assms(1)] assms(3)]
      getQueue_again [OF getQueue_memoised] by (simp add: getScheduler_def)
qed

lemma default_cron: "toEventBridgeExpression (js ''0 */3 * * *'') = Inr (js ''cron(0 */3 * * ? *)'')"
proof -
  have "split_spaces (js_trim (js ''0 */3 * * *'')) = [js ''0'', js ''*/3'', js ''*'', js ''*'', js ''*'']"
    by (simp add: js_def js_trim_def is_js_space_def split_spaces.simps)
  then show ?thesis
    by (simp add: toEventBridgeExpression_def eb_days_def star_def question_def js_def)
qed

theorem scheduler_feeds_the_queue_witness:
  "\<exists>cfg s ad1. load_env boot_lib boot_env = Inr cfg \<and> getScheduler cfg no_adapters = (Inr s, ad1)
     \<and> feeds (ob_args s) (fst (getQueue cfg ad1))"
proof -
  obtain cfg where cfg: "load_env boot_lib boot_env = Inr cfg" "ev_SCHEDULER_DRIVER cfg = Aws"
    "ev_EVENTBRIDGE_SCHEDULE_ROLE_ARN cfg = Some (js ''arn:role'')" "ev_RECENT_SYNC_CRON cfg = js ''0 */3 * * *''"
    using boot_loads by blast
  then obtain s ad1 where "getScheduler cfg no_adapters = (Inr s, ad1)"
    by (simp add: getScheduler_def no_adapters_def present_def default_cron Let_def)
  then show ?thesis using scheduler_feeds_the_queue [OF cfg(1), of "[]" no_adapters s ad1] cfg(1) by blast
qed

section \<open>Schedules\<close>

text \<open>
  A five-field expression is translated field by field; exactly one of the two day fields becomes
  \<open>?\<close> when at least one of them is \<open>*\<close>. When both are restricted neither does, and EventBridge
  rejects the result, although the comment promises exactly one.
\<close>

theorem cron_day_fields:
  assumes "split_spaces (js_trim s) = [minute, hour, mday, month, wday]" "mday \<noteq> question" "wday \<noteq> question"
  shows "\<exists>mday' wday'. toEventBridgeExpression s =
      Inr (js ''cron('' @ minute @ 32 # hour @ 32 # mday' @ 32 # month @ 32 # wday' @ js '' *)'')
    \<and> ((mday' = question) \<noteq> (wday' = question) \<longleftrightarrow> mday = star \<or> wday = star)
    \<and> mday' \<in> {mday, question} \<and> wday' \<in> {wday, question}
    \<and> (mday' = question \<longrightarrow> mday = star) \<and> (wday' = question \<longrightarrow> wday = star)"
proof -
  obtain mday' wday' where d: "eb_days mday wday = (mday', wday')" by fastforce
  have "toEventBridgeExpression s =
      Inr (js ''cron('' @ minute @ 32 # hour @ 32 # mday' @ 32 # month @ 32 # wday' @ js '' *)'')"
    using assms(1) d by (simp add: toEventBridgeExpression_def)
  moreover have "((mday' = question) \<noteq> (wday' = question) \<longleftrightarrow> mday = star \<or> wday = star)
      \<and> mday' \<in> {mday, question} \<and> wday' \<in> {wday, question}
      \<and> (mday' = question \<longrightarrow> mday = star) \<and> (wday' = question \<longrightarrow> wday = star)"
    using d eb_days_cases [OF assms(2,3)] assms(2,3) by (auto split: if_splits)
  ultimately show ?thesis by blast
qed

theorem cron_day_fields_witness:
  "toEventBridgeExpression (js ''0 9 1 * 1'') = Inr (js ''cron(0 9 1 * 1 *)'')"
proof -
  have *: "split_spaces (js_trim (js ''0 9 1 * 1'')) = [js ''0'', js ''9'', js ''1'', js ''*'', js ''1'']"
    by (simp add: js_def js_trim_def is_js_space_def split_spaces.simps)
  show ?thesis
    using cron_day_fields [OF *] by (auto simp: star_def question_def js_def)
qed

text \<open>
  Ensuring the EventBridge schedule leaves, whatever the service held under the name, exactly the
  configured schedule, whose input the worker parses as the dispatch of recent syncs that node-cron
  enqueues; every other schedule is untouched, and ensuring again changes nothing.
\<close>

theorem ensured_schedule_dispatches:
  assumes "scheduler_service c stored" "\<And>w. resolveQueueArn c opts w = Inr arn"
    "eb_ensureSchedules c opts w = (Inr u, w1)"
  shows "stored w1 = (stored w)(eo_scheduleName opts \<mapsto> schedule_of opts arn)
    \<and> parseBody (sd_TargetInput (schedule_of opts arn)) = Some dispatch_job
    \<and> stored (snd (eb_ensureSchedules c opts w1)) = stored w1"
proof -
  have "stored w1 = (stored w)(eo_scheduleName opts \<mapsto> schedule_of opts arn)"
    using ensureSchedules_stored [OF assms(1,2,3)] by simp
  then show ?thesis
    using ensureSchedules_stored [OF assms(1,2) prod.collapse [symmetric], of w1] dispatch_input_parses
    by (simp split: if_splits)
qed

definition ideal_scheduler :: "(jstr \<Rightarrow> schedule option) scheduler_client" where
  "ideal_scheduler =
     \<lparr>sx_getQueueArn = (\<lambda>url w. Inr (Some (js ''arn:q''))),
       sx_createSchedule = (\<lambda>sc w. case w (sd_Name sc) of
          None \<Rightarrow> (Inr (), w(sd_Name sc \<mapsto> sc)) | Some _ \<Rightarrow> (Inl (Plain_Error (js ''exists'')), w)),
       sx_updateSchedule = (\<lambda>sc w. (Inr (), w(sd_Name sc \<mapsto> sc))), sx_isConflict = (\<lambda>e. True)\<rparr>"

definition ideal_options :: eventbridge_options where
  "ideal_options = \<lparr>eo_scheduleName = js ''sync'', eo_scheduleExpression = js ''rate(3 hours)'',
     eo_queueUrl = Some (js ''https://sqs/q''), eo_roleArn = js ''arn:role'', eo_region = js ''eu-west-2''\<rparr>"

theorem ensured_schedule_dispatches_witness:
  "fst (eb_ensureSchedules ideal_scheduler ideal_options (Map.empty(js ''sync'' \<mapsto> schedule_of ideal_options (js ''arn:old'')))) = Inr ()
   \<and> snd (eb_ensureSchedules ideal_scheduler ideal_options (Map.empty(js ''sync'' \<mapsto> schedule_of ideal_options (js ''arn:old'')))) (js ''sync'') =
     Some (schedule_of ideal_options (js ''arn:q''))"
proof -
  let ?w = "Map.empty(js ''sync'' \<mapsto> schedule_of ideal_options (js ''arn:old''))"
  have service: "scheduler_service ideal_scheduler (\<lambda>w. w)"
    by (simp add: scheduler_service_def ideal_scheduler_def split: option.split)
  have arn: "resolveQueueArn ideal_scheduler ideal_options w = Inr (js ''arn:q'')" for w
    by (simp add: resolveQueueArn_def ideal_scheduler_def)
  obtain w1 where run: "eb_ensureSchedules ideal_scheduler ideal_options ?w = (Inr (), w1)"
    using arn by (simp add: eb_ensureSchedules_def) (simp add: ideal_scheduler_def schedule_of_def ideal_options_def)
  then show ?thesis
    using ensured_schedule_dispatches [OF service arn run] by (simp add: ideal_options_def)
qed

section \<open>Assets on S3\<close>






end
