(* ===== verification/Drain.thy ===== *)
theory Drain
  imports Consumers
begin

text \<open>
  \<open>commands/_drain.ts\<close>: the loop with which the sync commands run the download jobs they queued. It is
  written over any queue driver, with a fault allowed at every call, and may run for ever;
  \<open>drainable\<close> is what a driver has to promise for it to end.
\<close>

section \<open>The loop\<close>

record drain_summary =
  ds_stored :: nat
  ds_deduplicated :: nat
  ds_skipped :: nat
  ds_failed :: nat

definition empty_summary :: drain_summary where
  "empty_summary = \<lparr>ds_stored = 0, ds_deduplicated = 0, ds_skipped = 0, ds_failed = 0\<rparr>"

record ('q, 'h, 's) drain_env =
  dn_app :: "('q, 'h, 's) app_env"
  dn_receive :: "time \<Rightarrow> nat \<Rightarrow> nat \<Rightarrow> 'q \<Rightarrow> (js_error + 'h queue_message list) \<times> 'q"
  dn_ack :: "'h queue_message \<Rightarrow> 'q \<Rightarrow> (js_error + unit) \<times> 'q"
  dn_nack :: "time \<Rightarrow> 'h queue_message \<Rightarrow> 'q \<Rightarrow> (js_error + unit) \<times> 'q"
  dn_isSqs :: bool

record drain_options =
  do_emptyPollsBeforeStop :: "nat option"
  do_waitTimeSeconds :: "nat option"

definition emptyPollsBeforeStop :: "('q, 'h, 's) drain_env \<Rightarrow> drain_options \<Rightarrow> nat" where
  "emptyPollsBeforeStop env opts =
     (case do_emptyPollsBeforeStop opts of Some n \<Rightarrow> n | None \<Rightarrow> if dn_isSqs env then 3 else 1)"

definition drainWaitSeconds :: "('q, 'h, 's) drain_env \<Rightarrow> drain_options \<Rightarrow> nat" where
  "drainWaitSeconds env opts =
     (case do_waitTimeSeconds opts of Some n \<Rightarrow> n | None \<Rightarrow> if dn_isSqs env then 5 else 0)"

text \<open>A call of the queue driver.\<close>

definition queue_do ::
  "('q, 'h, 's) drain_env \<Rightarrow> (time \<Rightarrow> 'q \<Rightarrow> (js_error + 'a) \<times> 'q) \<Rightarrow> ('q, 's) app_world \<Rightarrow>
     (fate + 'a) \<times> ('q, 's) app_world" where
  "queue_do env f w =
     (let v = pw_sync w; sy = ap_sync (dn_app env)
      in case with_fault (se_fault sy (sw_calls v)) (f (se_now sy (sw_calls v)) (sw_queue v)) (sw_queue v) of
           (r, q) \<Rightarrow> (r, w\<lparr>pw_sync := v\<lparr>sw_queue := q, sw_calls := Suc (sw_calls v)\<rparr>\<rparr>))"

fun count_download :: "download_status \<Rightarrow> drain_summary \<Rightarrow> drain_summary" where
  "count_download Dl_Stored s = s\<lparr>ds_stored := ds_stored s + 1\<rparr>"
| "count_download Dl_Deduplicated s = s\<lparr>ds_deduplicated := ds_deduplicated s + 1\<rparr>"
| "count_download Dl_Skipped s = s\<lparr>ds_skipped := ds_skipped s + 1\<rparr>"

text \<open>The \<open>catch\<close>: counted as failed, and acknowledged all the same.\<close>

definition drain_catch ::
  "('q, 'h, 's) drain_env \<Rightarrow> 'h queue_message \<Rightarrow> drain_summary \<Rightarrow> ('q, 's) app_world \<Rightarrow>
     (fate + drain_summary) \<times> ('q, 's) app_world" where
  "drain_catch env m s w =
     then_do (queue_do env (\<lambda>now. dn_ack env m) w) (\<lambda>u w1. (Inr (s\<lparr>ds_failed := ds_failed s + 1\<rparr>), w1))"

text \<open>One message: another job goes back, a download is run without a signal, counted and acknowledged.\<close>

definition drain_message ::
  "('q, 'h, 's) drain_env \<Rightarrow> 'h queue_message \<Rightarrow> drain_summary \<Rightarrow> ('q, 's) app_world \<Rightarrow>
     (fate + drain_summary) \<times> ('q, 's) app_world" where
  "drain_message env m s w =
     (case qm_job m of
        Download_Job mediaId \<Rightarrow>
          (case on_asset (download (ap_asset (dn_app env)) mediaId None) w of
             (Inl Crashed, w1) \<Rightarrow> (Inl Crashed, w1)
           | (Inl (Threw e), w1) \<Rightarrow> drain_catch env m s w1
           | (Inr res, w1) \<Rightarrow>
               (let s1 = count_download (dr_status res) s
                in case queue_do env (\<lambda>now. dn_ack env m) w1 of
                     (Inl Crashed, w2) \<Rightarrow> (Inl Crashed, w2)
                   | (Inl (Threw e), w2) \<Rightarrow> drain_catch env m s1 w2
                   | (Inr u, w2) \<Rightarrow> (Inr s1, w2)))
      | _ \<Rightarrow> then_do (queue_do env (\<lambda>now. dn_nack env now m) w) (\<lambda>u w1. (Inr s, w1)))"

primrec drain_messages ::
  "('q, 'h, 's) drain_env \<Rightarrow> 'h queue_message list \<Rightarrow> drain_summary \<Rightarrow> ('q, 's) app_world \<Rightarrow>
     (fate + drain_summary) \<times> ('q, 's) app_world" where
  "drain_messages env [] s w = (Inr s, w)"
| "drain_messages env (m # ms) s w =
     then_do (drain_message env m s w) (\<lambda>s1 w1. drain_messages env ms s1 w1)"

text \<open>The \<open>while\<close> loop: the number of idle polls in a row decides; it need not end.\<close>

partial_function (option) drain_loop ::
  "('q, 'h, 's) drain_env \<Rightarrow> nat \<Rightarrow> nat \<Rightarrow> nat \<Rightarrow> drain_summary \<Rightarrow> ('q, 's) app_world \<Rightarrow>
     ((fate + drain_summary) \<times> ('q, 's) app_world) option" where
  "drain_loop env polls wt idle s w =
     (if polls \<le> idle then Some (Inr s, w)
      else case queue_do env (\<lambda>now. dn_receive env now 10 wt) w of
        (Inl f, w1) \<Rightarrow> Some (Inl f, w1)
      | (Inr ms, w1) \<Rightarrow>
          (if ms = [] then drain_loop env polls wt (Suc idle) s w1
           else case drain_messages env ms s w1 of
             (Inl f, w2) \<Rightarrow> Some (Inl f, w2)
           | (Inr s2, w2) \<Rightarrow> drain_loop env polls wt 0 s2 w2))"

definition drainAssetJobs ::
  "('q, 'h, 's) drain_env \<Rightarrow> drain_options \<Rightarrow> ('q, 's) app_world \<Rightarrow>
     ((fate + drain_summary) \<times> ('q, 's) app_world) option" where
  "drainAssetJobs env opts w =
     drain_loop env (emptyPollsBeforeStop env opts) (drainWaitSeconds env opts) 0 empty_summary w"

section \<open>Frames\<close>

abbreviation queue_of :: "('q, 's) app_world \<Rightarrow> 'q" where
  "queue_of w \<equiv> sw_queue (pw_sync w)"

lemma queue_do_state:
  "queue_do env f w = (r, w') \<Longrightarrow>
     (queue_of w' = queue_of w \<or> (\<exists>now. queue_of w' = snd (f now (queue_of w)))) \<and> sw_db (pw_sync w') = sw_db (pw_sync w)"
  using with_fault_state [of "se_fault (ap_sync (dn_app env)) (sw_calls (pw_sync w))"
      "f (se_now (ap_sync (dn_app env)) (sw_calls (pw_sync w))) (queue_of w)" "queue_of w"]
  by (auto simp: queue_do_def Let_def split: prod.splits)

lemma queue_do_Inr:
  assumes "queue_do env f w = (Inr a, w')"
  obtains now where "f now (queue_of w) = (Inr a, queue_of w')"
proof -
  have "f (se_now (ap_sync (dn_app env)) (sw_calls (pw_sync w))) (queue_of w) = (Inr a, queue_of w')"
    using assms by (auto simp: queue_do_def Let_def with_fault_def split: option.splits fault.splits sum.splits
        prod.splits intro!: prod_eqI)
  then show ?thesis using that by blast
qed

lemma on_asset_queue: "on_asset f w = (r, w') \<Longrightarrow> queue_of w' = queue_of w"
  by (auto simp: on_asset_def split: prod.splits)

lemmas drain_cases = sum.splits fate.splits prod.splits job.splits

section \<open>Termination\<close>

text \<open>
  \<open>weight\<close> bounds the deliveries still to come, \<open>refund\<close> what returning a live message adds to it. A driver
  that counts deliveries down satisfies the laws.
\<close>

locale drainable =
  fixes env :: "('q, 'h, 's) drain_env" and weight :: "'q \<Rightarrow> nat" and refund :: "'q \<Rightarrow> 'h \<Rightarrow> nat" and ok :: "'q \<Rightarrow> bool"
  assumes receive: "ok q \<Longrightarrow> dn_receive env now n wt q = (Inr ms, q') \<Longrightarrow> ok q'
      \<and> weight q' + (\<Sum>m\<leftarrow>ms. Suc (refund q' (qm_receiptHandle m))) \<le> weight q \<and> distinct (map qm_receiptHandle ms)"
    and ack: "ok q \<Longrightarrow> dn_ack env m q = (r, q') \<Longrightarrow> ok q' \<and> weight q' \<le> weight q \<and> (\<forall>h. refund q' h \<le> refund q h)"
    and nack: "ok q \<Longrightarrow> dn_nack env now m q = (r, q') \<Longrightarrow> ok q'
      \<and> weight q' \<le> weight q + refund q (qm_receiptHandle m) \<and> (\<forall>h. refund q' h \<le> refund q h)"
begin

definition lighter :: "nat \<Rightarrow> 'q \<Rightarrow> 'q \<Rightarrow> bool" where
  "lighter k q q' \<longleftrightarrow> (ok q \<longrightarrow> ok q' \<and> weight q' \<le> weight q + k \<and> (\<forall>h. refund q' h \<le> refund q h))"

lemma lighter_refl [simp]: "lighter k q q"
  by (simp add: lighter_def)

lemma lighter_trans: "lighter k a b \<Longrightarrow> lighter 0 b c \<Longrightarrow> lighter k a c"
  unfolding lighter_def using le_trans by fastforce

lemma ack_lighter: "queue_do env (\<lambda>now. dn_ack env m) w = (r, w') \<Longrightarrow> lighter 0 (queue_of w) (queue_of w')"
  using queue_do_state [of env "\<lambda>now. dn_ack env m" w r w'] ack [of "queue_of w" m] prod.collapse
  unfolding lighter_def by (metis add.right_neutral le_refl)

lemma nack_lighter:
  "queue_do env (\<lambda>now. dn_nack env now m) w = (r, w') \<Longrightarrow>
     lighter (refund (queue_of w) (qm_receiptHandle m)) (queue_of w) (queue_of w')"
  using queue_do_state [of env "\<lambda>now. dn_nack env now m" w r w'] nack [of "queue_of w" _ m] prod.collapse
  unfolding lighter_def by (metis le_add1 le_refl)

lemma catch_lighter: "drain_catch env m s w = (r, w') \<Longrightarrow> lighter 0 (queue_of w) (queue_of w')"
  unfolding drain_catch_def
  by (erule then_do_split) (auto dest: ack_lighter)

lemma message_lighter:
  assumes "drain_message env m s w = (r, w')"
  shows "lighter (refund (queue_of w) (qm_receiptHandle m)) (queue_of w) (queue_of w')"
proof (cases "\<exists>i. qm_job m = Download_Job i")
  case True
  then obtain i where i: "qm_job m = Download_Job i" by blast
  obtain x w1 where d: "on_asset (download (ap_asset (dn_app env)) i None) w = (x, w1)" by fastforce
  obtain y w2 where a: "queue_do env (\<lambda>now. dn_ack env m) w1 = (y, w2)" by fastforce
  have "lighter 0 (queue_of w1) (queue_of w')"
    using assms i d a ack_lighter [OF a] catch_lighter lighter_trans
    by (fastforce simp: drain_message_def Let_def split: sum.splits fate.splits)
  then have "lighter 0 (queue_of w) (queue_of w')" by (simp add: on_asset_queue [OF d])
  then show ?thesis unfolding lighter_def by (simp add: trans_le_add1)
next
  case False
  then have "then_do (queue_do env (\<lambda>now. dn_nack env now m) w) (\<lambda>u w1. (Inr s, w1)) = (r, w')"
    using assms by (cases "qm_job m") (simp_all add: drain_message_def)
  then show ?thesis by (rule then_do_split) (auto dest: nack_lighter)
qed

lemma messages_lighter:
  "drain_messages env ms s w = (r, w') \<Longrightarrow>
     lighter (\<Sum>m\<leftarrow>ms. refund (queue_of w) (qm_receiptHandle m)) (queue_of w) (queue_of w')"
proof (induction ms arbitrary: s w)
  case (Cons m ms)
  from Cons.prems show ?case
    unfolding drain_messages.simps
  proof (cases rule: then_do_split)
    case (stop f)
    then show ?thesis using message_lighter [OF stop(1)] by (auto simp: lighter_def)
  next
    case (go s1 w1)
    have one: "lighter (refund (queue_of w) (qm_receiptHandle m)) (queue_of w) (queue_of w1)"
      using message_lighter [OF go(1)] .
    have rest: "lighter (\<Sum>m\<leftarrow>ms. refund (queue_of w1) (qm_receiptHandle m)) (queue_of w1) (queue_of w')"
      using Cons.IH [OF go(2)] .
    have "(\<Sum>m\<leftarrow>ms. refund (queue_of w1) (qm_receiptHandle m)) \<le> (\<Sum>m\<leftarrow>ms. refund (queue_of w) (qm_receiptHandle m))"
      if "ok (queue_of w)"
      using one that by (intro sum_list_mono) (simp add: lighter_def)
    then show ?thesis using one rest unfolding lighter_def by (fastforce intro: le_trans)
  qed
qed simp

lemma drain_returns:
  "ok (queue_of w) \<Longrightarrow> \<exists>r. drain_loop env polls wt idle s w = Some r"
proof (induction "weight (queue_of w) * Suc polls + (polls - idle)" arbitrary: idle s w rule: less_induct)
  case less
  show ?case
  proof (cases "polls \<le> idle")
    case True
    then show ?thesis by (simp add: drain_loop.simps)
  next
    case False
    obtain x w1 where rec: "queue_do env (\<lambda>now. dn_receive env now 10 wt) w = (x, w1)" by fastforce
    show ?thesis
    proof (cases x)
      case (Inl f)
      then show ?thesis using rec False by (subst drain_loop.simps) simp
    next
      case (Inr ms)
      have "queue_do env (\<lambda>now. dn_receive env now 10 wt) w = (Inr ms, w1)" using rec Inr by simp
      then obtain now where r: "dn_receive env now 10 wt (queue_of w) = (Inr ms, queue_of w1)"
        by (rule queue_do_Inr)
      have ok1: "ok (queue_of w1)"
        and w1: "weight (queue_of w1) + (\<Sum>m\<leftarrow>ms. Suc (refund (queue_of w1) (qm_receiptHandle m))) \<le> weight (queue_of w)"
        using receive [OF less.prems r] by simp_all
      show ?thesis
      proof (cases "ms = []")
        case True
        have "weight (queue_of w1) * Suc polls + (polls - Suc idle) < weight (queue_of w) * Suc polls + (polls - idle)"
          using w1 True False mult_le_mono1 [of "weight (queue_of w1)" "weight (queue_of w)" "Suc polls"] by simp
        then show ?thesis
          using less.hyps [OF _ ok1, of "Suc idle" s] rec Inr True False by (subst drain_loop.simps) simp
      next
        case nonempty: False
        obtain y w2 where ms: "drain_messages env ms s w1 = (y, w2)" by fastforce
        show ?thesis
        proof (cases y)
          case (Inl f)
          then show ?thesis using rec Inr ms nonempty False \<open>x = Inr ms\<close> by (subst drain_loop.simps) simp
        next
          case (Inr s2)
          have "(\<Sum>m\<leftarrow>ms. Suc (refund (queue_of w1) (qm_receiptHandle m))) =
              length ms + (\<Sum>m\<leftarrow>ms. refund (queue_of w1) (qm_receiptHandle m))"
            by (simp add: sum_list_Suc)
          then have "ok (queue_of w2)" "Suc (weight (queue_of w2)) \<le> weight (queue_of w)"
            using messages_lighter [OF ms] ok1 w1 nonempty by (auto simp: lighter_def neq_Nil_conv)
          moreover from this have "weight (queue_of w2) * Suc polls + polls < weight (queue_of w) * Suc polls + (polls - idle)"
            using mult_le_mono1 [of "Suc (weight (queue_of w2))" "weight (queue_of w)" "Suc polls"] by simp
          ultimately show ?thesis
            using less.hyps [of w2 0 s2] rec ms nonempty False Inr \<open>x = Inr ms\<close> by (subst drain_loop.simps) simp
        qed
      qed
    qed
  qed
qed

end

end
