(* ===== verification/Drain_Correct.thy ===== *)
theory Drain_Correct
  imports Drain
begin

text \<open>
  The drain loop over the in-memory queue: it ends, every download job is acknowledged, and a job of
  another type that is waiting ends up with the dead letters.
\<close>

section \<open>The in-memory queue\<close>

text \<open>With the local driver's default waiting time of 0 \<open>receive\<close> is one poll.\<close>

definition mem_drain_env :: "mem_config \<Rightarrow> (mem_queue, uuid, 's) app_env \<Rightarrow> (mem_queue, uuid, 's) drain_env" where
  "mem_drain_env c app =
     \<lparr>dn_app = app,
       dn_receive = (\<lambda>now n wt q. (Inr (fst (mem_poll c now n q)), snd (mem_poll c now n q))),
       dn_ack = (\<lambda>m q. (Inr (), mem_ack m q)), dn_nack = (\<lambda>now m q. (Inr (), mem_nack now m q)),
       dn_isSqs = False\<rparr>"

lemma mem_receive_no_wait:
  "pe_start env \<le> pe_later env 0 \<Longrightarrow>
     mem_receive (Suc fuel) c env n 0 q = Some (mem_poll c (pe_clock env 0) n q)"
  by (simp add: mem_receive_def split: prod.split)

definition left_of :: "mem_config \<Rightarrow> envelope \<Rightarrow> nat" where
  "left_of c e = Suc (mc_maxReceiveCount c) - en_receivedCount e"

definition mem_weight :: "mem_config \<Rightarrow> mem_queue \<Rightarrow> nat" where
  "mem_weight c q = (\<Sum>e\<leftarrow>mq_messages q. left_of c e)"

definition mem_refund :: "mem_config \<Rightarrow> mem_queue \<Rightarrow> uuid \<Rightarrow> nat" where
  "mem_refund c q h = (case mem_find h q of None \<Rightarrow> 0 | Some e \<Rightarrow> left_of c e)"

lemma scan_weight:
  "mem_scan c now room n es = (keep, out, dead, n') \<Longrightarrow>
     (\<Sum>e\<leftarrow>keep. left_of c e) + (\<Sum>e\<leftarrow>out. Suc (left_of c e)) \<le> (\<Sum>e\<leftarrow>es. left_of c e)"
  by (induction rule: mem_scan_induct) (auto simp: left_of_def)

lemma mem_find_out:
  assumes "mem_ok c q" "mem_scan c now k (mq_next q) (mq_messages q) = (keep, out, dead, n)" "e \<in> set out"
  shows "mem_find (en_receiptHandle e) (q\<lparr>mq_messages := keep, mq_inFlight := mq_inFlight q @ out,
      mq_deadLetters := mq_deadLetters q @ dead, mq_next := n\<rparr>) = Some e"
proof -
  note h = mem_scan_handles [OF assms(2)]
  have "mq_next q \<le> en_receiptHandle e"
    using h assms(3) by (metis atLeastLessThan_iff image_eqI set_map set_upt)
  then have "find_row (\<lambda>x. en_receiptHandle x = en_receiptHandle e) (mq_inFlight q) = None"
    using assms(1) by (auto simp: find_row_None_iff mem_ok_def)
  moreover have "distinct (map en_receiptHandle out)" using h by simp
  ultimately show ?thesis
    using assms(3) by (simp add: mem_find_def find_row_append find_row_unique)
qed

lemma poll_weight:
  assumes "mem_ok c q" "mem_poll c now k q = (ms, q')"
  shows "mem_weight c q' + (\<Sum>m\<leftarrow>ms. Suc (mem_refund c q' (qm_receiptHandle m))) \<le> mem_weight c q"
    "distinct (map qm_receiptHandle ms)"
proof -
  obtain keep out dead n where
    scan: "mem_scan c now k (mq_next q) (mq_messages q) = (keep, out, dead, n)"
    and r: "ms = map message_of out"
    and q': "q' = q\<lparr>mq_messages := keep, mq_inFlight := mq_inFlight q @ out,
             mq_deadLetters := mq_deadLetters q @ dead, mq_next := n\<rparr>"
    using assms(2) by (rule mem_poll_split)
  have "mem_refund c q' (en_receiptHandle e) = left_of c e" if "e \<in> set out" for e
    using mem_find_out [OF assms(1) scan that] by (simp add: mem_refund_def q')
  then have "(\<Sum>m\<leftarrow>ms. Suc (mem_refund c q' (qm_receiptHandle m))) = (\<Sum>e\<leftarrow>out. Suc (left_of c e))"
    unfolding r by (auto simp: message_of_def comp_def intro!: arg_cong [of _ _ sum_list])
  then show "mem_weight c q' + (\<Sum>m\<leftarrow>ms. Suc (mem_refund c q' (qm_receiptHandle m))) \<le> mem_weight c q"
    using scan_weight [OF scan] by (simp add: mem_weight_def q')
  show "distinct (map qm_receiptHandle ms)"
    using mem_scan_handles [OF scan] by (simp add: r message_of_def comp_def)
qed

lemma mem_find_ack:
  "mem_find h (mem_ack m q) = (if h = qm_receiptHandle m then None else mem_find h q)"
  by (simp add: mem_find_def mem_ack_def find_row_filter_ne)

lemma mem_find_nack:
  "mem_find h (mem_nack now m q) = (if h = qm_receiptHandle m then None else mem_find h q)"
  by (auto simp: mem_find_def mem_nack_def find_row_filter_ne split: option.split)

lemma nack_weight: "mem_weight c (mem_nack now m q) \<le> mem_weight c q + mem_refund c q (qm_receiptHandle m)"
  by (simp add: mem_weight_def mem_refund_def mem_nack_def left_of_def split: option.split)

interpretation mem_drain: drainable "mem_drain_env c app" "mem_weight c" "mem_refund c" "mem_ok c" for c app
proof (unfold_locales, goal_cases)
  case (1 q now n wt ms q')
  then show ?case
    using mem_poll_ok [of c q now n] poll_weight [of c q now n ms q']
    by (auto simp: mem_drain_env_def)
next
  case (2 q m r q')
  then show ?case
    by (auto simp: mem_drain_env_def mem_ack_ok mem_weight_def mem_refund_def mem_find_ack) (simp add: mem_ack_def)
next
  case (3 q now m r q')
  then show ?case
    using nack_weight [of c now m q] by (auto simp: mem_drain_env_def mem_nack_ok mem_refund_def mem_find_nack)
qed

section \<open>Undisturbed calls\<close>

definition undisturbed :: "('q, 'h, 's) app_env \<Rightarrow> bool" where
  "undisturbed app \<longleftrightarrow> (\<forall>n. se_fault (ap_sync app) n = None) \<and> (\<forall>n. ac_fault (ap_asset app) n = None)
     \<and> (\<forall>n. se_now (ap_sync app) n \<le> se_now (ap_sync app) (Suc n))"

lemma undisturbed_clock: "undisturbed app \<Longrightarrow> i \<le> j \<Longrightarrow> se_now (ap_sync app) i \<le> se_now (ap_sync app) j"
  unfolding undisturbed_def by (metis lift_Suc_mono_le)

text \<open>Without faults a step of the asset service does not crash; the clock goes on.\<close>

definition calm :: "'s asset_world \<Rightarrow> (fate + 'a) \<times> 's asset_world \<Rightarrow> bool" where
  "calm w m \<longleftrightarrow> aw_calls w \<le> aw_calls (snd m) \<and> fst m \<noteq> Inl Crashed"

lemma calm_then:
  assumes "calm w m" "\<And>a w1. m = (Inr a, w1) \<Longrightarrow> calm w1 (k a w1)"
  shows "calm w (then_do m k)"
  using assms by (cases m; cases "fst m") (auto simp: calm_def then_do_def intro: le_trans)

lemma calm_done [simp]: "x \<noteq> Inl Crashed \<Longrightarrow> calm w (x, w)"
  by (simp add: calm_def)

lemma calm_calls:
  assumes "\<And>n. ac_fault env n = None"
  shows "calm w (asset_db env f w)" "calm w (asset_store env g w)" "calm w (asset_mkdtemp env w)"
    "calm w (asset_fetch env sg url w)"
  by (simp_all add: assms calm_def asset_db_def asset_store_def asset_mkdtemp_def asset_fetch_def with_fault_def
      split: sum.split)

lemma calm_finally:
  assumes "\<And>n. ac_fault env n = None" "calm w m" shows "calm w (download_finally env m)"
  using assms by (cases m) (auto simp: calm_def download_finally_def with_fault_def split: sum.splits fate.splits)

lemma calm_catch:
  assumes "\<And>n. ac_fault env n = None" "calm w m" shows "calm w (download_catch env i m)"
proof -
  obtain r w1 where m: "m = (r, w1)" by fastforce
  have "calm w1 (then_do (asset_db env (updating (\<lambda>now. markFailed now i (error_message e))) w1)
      (\<lambda>u w1. (Inl (Threw e), w1)))" for e
    by (rule calm_then) (simp_all add: calm_calls assms(1))
  then show ?thesis
    using assms(2) m by (auto simp: calm_def download_catch_def intro: le_trans split: sum.splits fate.splits)
qed

lemma calm_store_bytes: "(\<And>n. ac_fault env n = None) \<Longrightarrow> calm w (store_bytes env i ct body w)"
  unfolding store_bytes_def record_duplicate_def upload_new_def Let_def
  by (auto intro!: calm_then simp: calm_calls)

lemma calm_try: "(\<And>n. ac_fault env n = None) \<Longrightarrow> calm w (download_try env i url sg w)"
  unfolding download_try_def
  by (rule calm_then) (auto simp: calm_calls calm_store_bytes split: option.split sum.split)

lemma calm_download: "(\<And>n. ac_fault env n = None) \<Longrightarrow> calm w (download env i sg w)"
  unfolding download_def
  by (auto intro!: calm_then simp: calm_calls calm_finally calm_catch calm_try split: option.split)

section \<open>One message\<close>

definition foreign :: "job \<Rightarrow> bool" where
  "foreign j \<longleftrightarrow> type_of_job j \<noteq> Download_Asset"

definition handled :: "drain_summary \<Rightarrow> nat" where
  "handled s = ds_stored s + ds_deduplicated s + ds_skipped s + ds_failed s"

definition clock_of :: "(mem_queue, uuid, 's) app_env \<Rightarrow> (mem_queue, 's) app_world \<Rightarrow> time" where
  "clock_of app w = se_now (ap_sync app) (sw_calls (pw_sync w))"

text \<open>Every waiting message can be received at the time of the world.\<close>

definition all_due :: "(mem_queue, uuid, 's) app_env \<Rightarrow> (mem_queue, 's) app_world \<Rightarrow> bool" where
  "all_due app w \<longleftrightarrow> (\<forall>e \<in> set (mq_messages (queue_of w)). en_visibleAt e \<le> clock_of app w)"

lemma handled_count [simp]: "handled (count_download d s) = Suc (handled s)"
  by (cases d) (simp_all add: handled_def)

lemma handled_failed [simp]: "handled (s\<lparr>ds_failed := Suc (ds_failed s)\<rparr>) = Suc (handled s)"
  by (simp add: handled_def)

lemma queue_do_undisturbed:
  assumes "undisturbed (dn_app env)" "f (clock_of (dn_app env) w) (queue_of w) = (Inr a, q)"
  shows "queue_do env f w =
    (Inr a, w\<lparr>pw_sync := (pw_sync w)\<lparr>sw_queue := q, sw_calls := Suc (sw_calls (pw_sync w))\<rparr>\<rparr>)"
  using assms by (simp add: queue_do_def undisturbed_def with_fault_def clock_of_def Let_def)

lemma on_asset_undisturbed:
  assumes "undisturbed app" "on_asset (download (ap_asset app) i sg) w = (r, w')"
  shows "r \<noteq> Inl Crashed" "queue_of w' = queue_of w" "sw_calls (pw_sync w) \<le> sw_calls (pw_sync w')"
  using assms calm_download [of "ap_asset app" "\<lparr>aw_db = sw_db (pw_sync w), aw_store = pw_store w,
      aw_workDirs = pw_workDirs w, aw_calls = sw_calls (pw_sync w)\<rparr>" i sg]
  by (auto simp: on_asset_def undisturbed_def calm_def split: prod.splits)

lemma message_settles:
  fixes app :: "(mem_queue, uuid, 's) app_env"
  assumes "undisturbed app" "drain_message (mem_drain_env c app) m s w = (r, w')"
  obtains s' now where "r = Inr s'" "sw_calls (pw_sync w) \<le> sw_calls (pw_sync w')" "now \<le> clock_of app w'"
    "queue_of w' = (if foreign (qm_job m) then mem_nack now m (queue_of w) else mem_ack m (queue_of w))"
    "handled s' = handled s + (if foreign (qm_job m) then 0 else 1)"
proof -
  have app: "dn_app (mem_drain_env c app) = app" by (simp add: mem_drain_env_def)
  show ?thesis
  proof (cases "foreign (qm_job m)")
    case True
    have "drain_message (mem_drain_env c app) m s w =
        then_do (queue_do (mem_drain_env c app) (\<lambda>now. dn_nack (mem_drain_env c app) now m) w) (\<lambda>u w1. (Inr s, w1))"
      using True by (cases "qm_job m") (simp_all add: drain_message_def foreign_def)
    also have "\<dots> = (Inr s, w\<lparr>pw_sync := (pw_sync w)\<lparr>sw_queue := mem_nack (clock_of app w) m (queue_of w),
        sw_calls := Suc (sw_calls (pw_sync w))\<rparr>\<rparr>)"
      using queue_do_undisturbed [of "mem_drain_env c app" "\<lambda>now. dn_nack (mem_drain_env c app) now m" w] assms(1) app
      by (simp add: then_do_def mem_drain_env_def)
    finally show ?thesis
      using assms(2) True undisturbed_clock [OF assms(1), of "sw_calls (pw_sync w)" "Suc (sw_calls (pw_sync w))"]
      by (intro that [of s "clock_of app w"]) (auto simp: clock_of_def)
  next
    case False
    then obtain i where i: "qm_job m = Download_Job i" by (cases "qm_job m") (auto simp: foreign_def)
    obtain x w1 where d: "on_asset (download (ap_asset app) i None) w = (x, w1)" by fastforce
    note asset = on_asset_undisturbed [OF assms(1) d]
    define w2 where "w2 = w1\<lparr>pw_sync := (pw_sync w1)\<lparr>sw_queue := mem_ack m (queue_of w1),
        sw_calls := Suc (sw_calls (pw_sync w1))\<rparr>\<rparr>"
    have ack: "queue_do (mem_drain_env c app) (\<lambda>now. dn_ack (mem_drain_env c app) m) w1 = (Inr (), w2)"
      using queue_do_undisturbed [of "mem_drain_env c app" "\<lambda>now. dn_ack (mem_drain_env c app) m" w1] assms(1) app
      by (simp add: w2_def mem_drain_env_def)
    have "\<exists>s'. r = Inr s' \<and> handled s' = Suc (handled s) \<and> w' = w2"
      using assms(2) asset(1) ack d i app
      by (cases x) (auto simp: drain_message_def drain_catch_def then_do_def Let_def split: fate.splits)
    then show ?thesis
      using False asset by (auto simp: w2_def intro!: that [of _ "clock_of app w2"])
  qed
qed

section \<open>A batch\<close>

lemma find_row_mem_nack:
  "mem_held q h = Some j \<Longrightarrow> h \<noteq> qm_receiptHandle m \<Longrightarrow> mem_held (mem_nack now m q) h = Some j"
  "mem_held q h = Some j \<Longrightarrow> h \<noteq> qm_receiptHandle m \<Longrightarrow> mem_held (mem_ack m q) h = Some j"
  by (simp_all add: mem_held_nack mem_held_ack)

lemma nack_visible:
  "\<forall>e \<in> set (mq_messages q). en_visibleAt e \<le> t \<Longrightarrow> now \<le> t \<Longrightarrow>
     \<forall>e \<in> set (mq_messages (mem_nack now m q)). en_visibleAt e \<le> t"
  by (auto simp: mem_nack_def split: option.split)

lemma settled_queue:
  "mq_messages (mem_ack m q) = mq_messages q" "mem_dead (mem_ack m q) = mem_dead q"
  "mem_dead (mem_nack now m q) = mem_dead q"
  "mq_inFlight (mem_ack m q) = filter (\<lambda>e. en_receiptHandle e \<noteq> qm_receiptHandle m) (mq_inFlight q)"
  "mem_held q (qm_receiptHandle m) = Some j \<Longrightarrow>
     mq_inFlight (mem_nack now m q) = filter (\<lambda>e. en_receiptHandle e \<noteq> qm_receiptHandle m) (mq_inFlight q)"
  "mem_held q (qm_receiptHandle m) = Some j \<Longrightarrow> mem_stock (mem_nack now m q) = add_mset j (mem_stock q)"
  by (auto simp: mem_ack_def mem_nack_def mem_dead_def mem_held_def mem_stock_def split: option.split)

lemma batch_settles:
  fixes app :: "(mem_queue, uuid, 's) app_env"
  assumes "undisturbed app"
  shows "drain_messages (mem_drain_env c app) ms s w = (r, w') \<Longrightarrow> mem_ok c (queue_of w) \<Longrightarrow> all_due app w \<Longrightarrow>
    distinct (map qm_receiptHandle ms) \<Longrightarrow>
    (\<And>m. m \<in> set ms \<Longrightarrow> mem_held (queue_of w) (qm_receiptHandle m) = Some (qm_job m)) \<Longrightarrow>
    \<exists>s'. r = Inr s' \<and> mem_ok c (queue_of w') \<and> all_due app w' \<and> mem_dead (queue_of w') = mem_dead (queue_of w)
      \<and> mq_inFlight (queue_of w') =
        filter (\<lambda>e. en_receiptHandle e \<notin> set (map qm_receiptHandle ms)) (mq_inFlight (queue_of w))
      \<and> mem_stock (queue_of w') = mem_stock (queue_of w) + filter_mset foreign (mset (map qm_job ms))
      \<and> handled s' = handled s + size (filter_mset (\<lambda>j. \<not> foreign j) (mset (map qm_job ms)))"
proof (induction ms arbitrary: s w)
  case (Cons m ms)
  obtain x w1 where step: "drain_message (mem_drain_env c app) m s w = (x, w1)" by fastforce
  obtain s1 now where m: "x = Inr s1" "sw_calls (pw_sync w) \<le> sw_calls (pw_sync w1)" "now \<le> clock_of app w1"
    "queue_of w1 = (if foreign (qm_job m) then mem_nack now m (queue_of w) else mem_ack m (queue_of w))"
    "handled s1 = handled s + (if foreign (qm_job m) then 0 else 1)"
    using message_settles [OF assms step] by metis
  have rest: "drain_messages (mem_drain_env c app) ms s1 w1 = (r, w')"
    using Cons.prems(1) step m(1) by (simp add: then_do_def)
  have held: "mem_held (queue_of w) (qm_receiptHandle m) = Some (qm_job m)" using Cons.prems(5) by simp
  have "clock_of app w \<le> clock_of app w1"
    using undisturbed_clock [OF assms m(2)] by (simp add: clock_of_def)
  then have "\<forall>e \<in> set (mq_messages (queue_of w)). en_visibleAt e \<le> clock_of app w1"
    using Cons.prems(3) unfolding all_due_def by fastforce
  then have due: "all_due app w1"
    using nack_visible [OF _ m(3)] by (simp add: all_due_def m(4) settled_queue(1))
  have ok: "mem_ok c (queue_of w1)"
    using Cons.prems(2) by (simp add: m(4) mem_ack_ok mem_nack_ok)
  have others: "mem_held (queue_of w1) (qm_receiptHandle n) = Some (qm_job n)" if "n \<in> set ms" for n
  proof -
    have "qm_receiptHandle n \<noteq> qm_receiptHandle m" using Cons.prems(4) that by (metis distinct.simps(2) image_eqI list.map(2) set_map)
    then show ?thesis using Cons.prems(5) [of n] that by (simp add: m(4) find_row_mem_nack)
  qed
  have dist: "distinct (map qm_receiptHandle ms)" using Cons.prems(4) by simp
  obtain s' where s': "r = Inr s'" "mem_ok c (queue_of w')" "all_due app w'"
    "mem_dead (queue_of w') = mem_dead (queue_of w1)"
    "mq_inFlight (queue_of w') =
       filter (\<lambda>e. en_receiptHandle e \<notin> set (map qm_receiptHandle ms)) (mq_inFlight (queue_of w1))"
    "mem_stock (queue_of w') = mem_stock (queue_of w1) + filter_mset foreign (mset (map qm_job ms))"
    "handled s' = handled s1 + size (filter_mset (\<lambda>j. \<not> foreign j) (mset (map qm_job ms)))"
    using Cons.IH [OF rest ok due dist others] by blast
  have "mq_inFlight (queue_of w1) = filter (\<lambda>e. en_receiptHandle e \<noteq> qm_receiptHandle m) (mq_inFlight (queue_of w))"
    "mem_dead (queue_of w1) = mem_dead (queue_of w)"
    "mem_stock (queue_of w1) = mem_stock (queue_of w) + (if foreign (qm_job m) then {#qm_job m#} else {#})"
    using settled_queue [where m = m and q = "queue_of w"] held by (simp_all add: m(4) mem_stock_ack)
  then show ?case
    using s' m(5) by (auto simp: conj_commute intro!: filter_cong)
qed (auto simp: all_due_def)

section \<open>The whole drain\<close>

lemma poll_all_due:
  assumes "mem_poll c now k q = (ms, q')" "\<forall>e \<in> set (mq_messages q). en_visibleAt e \<le> now"
  shows "\<forall>e \<in> set (mq_messages q'). en_visibleAt e \<le> now" "ms = [] \<Longrightarrow> 0 < k \<Longrightarrow> mq_messages q' = []"
    "mq_inFlight q = [] \<Longrightarrow> filter (\<lambda>e. en_receiptHandle e \<notin> set (map qm_receiptHandle ms)) (mq_inFlight q') = []"
proof -
  obtain keep out dead n where
    scan: "mem_scan c now k (mq_next q) (mq_messages q) = (keep, out, dead, n)"
    and r: "ms = map message_of out"
    and q': "q' = q\<lparr>mq_messages := keep, mq_inFlight := mq_inFlight q @ out,
             mq_deadLetters := mq_deadLetters q @ dead, mq_next := n\<rparr>"
    using assms(1) by (rule mem_poll_split)
  show due: "\<forall>e \<in> set (mq_messages q'). en_visibleAt e \<le> now"
    using mem_scan_counts [OF scan] assms(2) by (auto simp: q')
  show "ms = [] \<Longrightarrow> 0 < k \<Longrightarrow> mq_messages q' = []"
  proof -
    assume "ms = []" "0 < k"
    then have "\<forall>e \<in> set keep. now < en_visibleAt e" using mem_scan_complete [OF scan] by (simp add: r)
    then show "mq_messages q' = []" using due by (cases keep) (auto simp: q')
  qed
  show "mq_inFlight q = [] \<Longrightarrow> filter (\<lambda>e. en_receiptHandle e \<notin> set (map qm_receiptHandle ms)) (mq_inFlight q') = []"
    by (auto simp: r q' filter_empty_conv message_of_def)
qed

text \<open>What the loop has done when it is over, in terms of where it started.\<close>

definition drained ::
  "drain_summary \<Rightarrow> mem_queue \<Rightarrow> drain_summary \<Rightarrow> mem_queue \<Rightarrow> bool" where
  "drained s q s' q' \<longleftrightarrow> mq_messages q' = [] \<and> mq_inFlight q' = []
     \<and> filter_mset foreign (mem_dead q') = filter_mset foreign (mem_stock q + mem_dead q)
     \<and> handled s' + size (filter_mset (\<lambda>j. \<not> foreign j) (mem_dead q')) =
       handled s + size (filter_mset (\<lambda>j. \<not> foreign j) (mem_stock q + mem_dead q))"

lemma drained_step:
  assumes "drained s1 q1 s' q'"
    "filter_mset foreign (mem_stock q1 + mem_dead q1) = filter_mset foreign (mem_stock q + mem_dead q)"
    "handled s1 + size (filter_mset (\<lambda>j. \<not> foreign j) (mem_stock q1 + mem_dead q1)) =
      handled s + size (filter_mset (\<lambda>j. \<not> foreign j) (mem_stock q + mem_dead q))"
  shows "drained s q s' q'"
  using assms by (simp add: drained_def)

text \<open>One iteration whose poll delivers something.\<close>

lemma iteration:
  fixes app :: "(mem_queue, uuid, 's) app_env"
  assumes "undisturbed app" "mem_ok c (queue_of w)" "mq_inFlight (queue_of w) = []" "all_due app w"
    "queue_do (mem_drain_env c app) (\<lambda>now. dn_receive (mem_drain_env c app) now 10 wt) w = (x, w1)"
  obtains ms where "x = Inr ms" "mem_ok c (queue_of w1)" "all_due app w1" "ms = [] \<longrightarrow> mq_messages (queue_of w1) = []"
    "mem_stock (queue_of w) + mem_dead (queue_of w) =
       mset (map qm_job ms) + mem_stock (queue_of w1) + mem_dead (queue_of w1)"
    "filter (\<lambda>e. en_receiptHandle e \<notin> set (map qm_receiptHandle ms)) (mq_inFlight (queue_of w1)) = []"
    "distinct (map qm_receiptHandle ms)"
    "\<forall>m \<in> set ms. mem_held (queue_of w1) (qm_receiptHandle m) = Some (qm_job m)"
proof -
  let ?env = "mem_drain_env c app"
  obtain ms q1 where poll: "mem_poll c (clock_of app w) 10 (queue_of w) = (ms, q1)" by fastforce
  have "queue_do ?env (\<lambda>now. dn_receive ?env now 10 wt) w =
      (Inr ms, w\<lparr>pw_sync := (pw_sync w)\<lparr>sw_queue := q1, sw_calls := Suc (sw_calls (pw_sync w))\<rparr>\<rparr>)"
    using queue_do_undisturbed [of ?env "\<lambda>now. dn_receive ?env now 10 wt" w ms q1] assms(1) poll
    by (simp add: mem_drain_env_def)
  then have x: "x = Inr ms" and q1: "queue_of w1 = q1" and calls: "sw_calls (pw_sync w1) = Suc (sw_calls (pw_sync w))"
    using assms(5) by auto
  have clock: "clock_of app w \<le> clock_of app w1"
    using undisturbed_clock [OF assms(1)] by (simp add: clock_of_def calls)
  note due = poll_all_due [OF poll assms(4) [unfolded all_due_def]]
  have "all_due app w1" using due(1) clock unfolding all_due_def q1 by fastforce
  moreover have "mem_ok c (queue_of w1)" using mem_poll_ok [OF assms(2), of "clock_of app w" 10] poll q1 by simp
  ultimately show ?thesis
    using that [of ms] x due(2,3) mem_poll_stock [OF poll] poll_weight(2) [OF assms(2) poll]
      mem_poll_held(1) [OF assms(2) poll] assms(3) q1 by simp
qed

lemma drain_loop_drains:
  fixes app :: "(mem_queue, uuid, 's) app_env"
  assumes "undisturbed app" "drain_loop (mem_drain_env c app) polls wt idle s w = Some res"
    "mem_ok c (queue_of w)" "mq_inFlight (queue_of w) = []" "all_due app w"
    "0 < idle \<longrightarrow> mq_messages (queue_of w) = []" "0 < polls"
  shows "\<exists>s'. fst res = Inr s' \<and> drained s (queue_of w) s' (queue_of (snd res))"
  using assms(2-)
proof (induction "mem_drain_env c app" polls wt idle s w res rule: drain_loop.raw_induct [rotated, consumes 1, case_names step])
  case (step loop polls wt idle s w res)
  let ?env = "mem_drain_env c app"
  show ?case
  proof (cases "polls \<le> idle")
    case True
    then have "res = (Inr s, w)" "mq_messages (queue_of w) = []" using step(2,6,7) by simp_all
    then show ?thesis using step(4) by (simp add: drained_def mem_stock_def)
  next
    case False
    obtain x w1 where rec: "queue_do ?env (\<lambda>now. dn_receive ?env now 10 wt) w = (x, w1)" by fastforce
    obtain ms where ms: "x = Inr ms" "mem_ok c (queue_of w1)" "all_due app w1"
      "ms = [] \<longrightarrow> mq_messages (queue_of w1) = []"
      and jobs: "mem_stock (queue_of w) + mem_dead (queue_of w) =
         mset (map qm_job ms) + mem_stock (queue_of w1) + mem_dead (queue_of w1)"
      and flight: "filter (\<lambda>e. en_receiptHandle e \<notin> set (map qm_receiptHandle ms)) (mq_inFlight (queue_of w1)) = []"
      and dist: "distinct (map qm_receiptHandle ms)"
      and held: "\<forall>m \<in> set ms. mem_held (queue_of w1) (qm_receiptHandle m) = Some (qm_job m)"
      by (rule iteration [OF assms(1) step(3,4,5) rec])
    show ?thesis
    proof (cases "ms = []")
      case True
      then have "loop ?env polls wt (Suc idle) s w1 = Some res" using step(2) rec ms(1) False by simp
      moreover have "mq_inFlight (queue_of w1) = []" using flight True by simp
      ultimately obtain s' where "fst res = Inr s'" "drained s (queue_of w1) s' (queue_of (snd res))"
        using step(1) [of polls wt "Suc idle" s w1 res] ms step(7) True by auto
      moreover have "mem_stock (queue_of w) + mem_dead (queue_of w) = mem_stock (queue_of w1) + mem_dead (queue_of w1)"
        using jobs True by simp
      ultimately show ?thesis by (simp add: drained_def)
    next
      case nonempty: False
      obtain y w2 where batch: "drain_messages ?env ms s w1 = (y, w2)" by fastforce
      obtain s2 where s2: "y = Inr s2" "mem_ok c (queue_of w2)" "all_due app w2"
        "mem_dead (queue_of w2) = mem_dead (queue_of w1)" "mq_inFlight (queue_of w2) = []"
        "mem_stock (queue_of w2) = mem_stock (queue_of w1) + filter_mset foreign (mset (map qm_job ms))"
        "handled s2 = handled s + size (filter_mset (\<lambda>j. \<not> foreign j) (mset (map qm_job ms)))"
        using batch_settles [OF assms(1) batch ms(2,3) dist bspec [OF held]] flight by auto
      have "loop ?env polls wt 0 s2 w2 = Some res" using step(2) rec ms(1) False nonempty batch s2(1) by simp
      then obtain s' where s': "fst res = Inr s'" "drained s2 (queue_of w2) s' (queue_of (snd res))"
        using step(1) [of polls wt 0 s2 w2 res] s2 step(7) by auto
      have "filter_mset foreign (mem_stock (queue_of w2) + mem_dead (queue_of w2)) =
          filter_mset foreign (mem_stock (queue_of w) + mem_dead (queue_of w))"
        unfolding jobs s2(4,6) by (simp add: filter_filter_mset)
      moreover have "handled s2 + size (filter_mset (\<lambda>j. \<not> foreign j) (mem_stock (queue_of w2) + mem_dead (queue_of w2))) =
          handled s + size (filter_mset (\<lambda>j. \<not> foreign j) (mem_stock (queue_of w) + mem_dead (queue_of w)))"
        unfolding jobs s2(4,6,7) by (simp add: filter_filter_mset)
      ultimately show ?thesis using s' drained_step by blast
    qed
  qed
qed

theorem drainAssetJobs_drains:
  fixes app :: "(mem_queue, uuid, 's) app_env"
  assumes "undisturbed app" "mem_ok c (queue_of w)" "mq_inFlight (queue_of w) = []" "all_due app w"
    "0 < emptyPollsBeforeStop (mem_drain_env c app) opts"
  shows "\<exists>s w'. drainAssetJobs (mem_drain_env c app) opts w = Some (Inr s, w')
    \<and> drained empty_summary (queue_of w) s (queue_of w')"
proof -
  let ?env = "mem_drain_env c app"
  obtain r w' where run: "drainAssetJobs ?env opts w = Some (r, w')"
    using mem_drain.drain_returns [OF assms(2)] unfolding drainAssetJobs_def by fastforce
  then show ?thesis
    using drain_loop_drains [OF assms(1) _ assms(2,3,4) _ assms(5), of _ 0] unfolding drainAssetJobs_def by force
qed

end
