(* ===== verification/Commands.thy ===== *)
theory Commands
  imports Drain
begin

text \<open>
  The operator commands under \<open>commands/\<close>: \<open>_runner.ts\<close>, \<open>trackHashtag.ts\<close>, \<open>untrackHashtag.ts\<close>,
  \<open>seed.ts\<close>, \<open>replay.ts\<close>, \<open>syncTop.ts\<close> and \<open>syncRecent.ts\<close>, over the world the worker uses and with a
  fault allowed at every call. \<open>args\<close> is \<open>process.argv\<close> after the script name.
\<close>

section \<open>The bootstrap\<close>

text \<open>A command stops early when it throws or dies, or when \<open>requireArg\<close> ends the process.\<close>

datatype command_stop = Stopped fate | Usage jstr

definition optionalArg :: "nat \<Rightarrow> jstr list \<Rightarrow> jstr option" where
  "optionalArg i args = (if i < length args then Some (args ! i) else None)"

definition usage_text :: "jstr \<Rightarrow> command_stop" where
  "usage_text usage = Usage (10 # js ''  Usage: '' @ usage @ [10])"

definition requireArg :: "nat \<Rightarrow> jstr \<Rightarrow> jstr list \<Rightarrow> command_stop + jstr" where
  "requireArg i usage args =
     (case optionalArg i args of
        None \<Rightarrow> Inl (usage_text usage)
      | Some v \<Rightarrow> if v = [] then Inl (usage_text usage) else Inr v)"

text \<open>
  The exit code: 0 when the body and the release of the pool went through, 1 otherwise; a process that
  was killed has none. The adapters and the pool are released in either case.
\<close>

definition exit_code :: "command_stop + 'a \<Rightarrow> js_error option \<Rightarrow> nat option" where
  "exit_code r closeFailure =
     (case r of
        Inr _ \<Rightarrow> Some (if closeFailure = None then 0 else 1)
      | Inl (Stopped (Threw _)) \<Rightarrow> Some 1
      | Inl (Usage _) \<Rightarrow> Some 1
      | Inl (Stopped Crashed) \<Rightarrow> None)"

text \<open>A service call inside a command.\<close>

definition stopping :: "(fate + 'a) \<times> 'w \<Rightarrow> (command_stop + 'a) \<times> 'w" where
  "stopping m = (case m of (Inl f, w) \<Rightarrow> (Inl (Stopped f), w) | (Inr a, w) \<Rightarrow> (Inr a, w))"

definition throwing :: "jstr \<Rightarrow> 'w \<Rightarrow> (command_stop + 'a) \<times> 'w" where
  "throwing message w = (Inl (Stopped (Threw (Plain_Error message))), w)"

definition with_arg ::
  "nat \<Rightarrow> jstr \<Rightarrow> jstr list \<Rightarrow> (jstr \<Rightarrow> 'w \<Rightarrow> (command_stop + 'a) \<times> 'w) \<Rightarrow> 'w \<Rightarrow> (command_stop + 'a) \<times> 'w" where
  "with_arg i usage args k w = (case requireArg i usage args of Inl e \<Rightarrow> (Inl e, w) | Inr v \<Rightarrow> k v w)"

section \<open>Tracking\<close>

definition tracking ::
  "unicode \<Rightarrow> track_input \<Rightarrow> time \<Rightarrow> database \<Rightarrow> (js_error + hashtag) \<times> database" where
  "tracking u inp now db = (case ensureTracked u now inp db of (h, db1) \<Rightarrow> (Inr h, db1))"

text \<open>
  \<open>date\<close> is \<open>new Date(text)\<close>; binding an invalid date to the statement throws, so nothing is written.
\<close>

definition date_arg :: "(jstr \<Rightarrow> time option) \<Rightarrow> jstr option \<Rightarrow> js_error + time option" where
  "date_arg date v =
     (case v of
        None \<Rightarrow> Inr None
      | Some s \<Rightarrow> if s = [] then Inr None
                   else (case date s of None \<Rightarrow> Inl (Plain_Error (js ''Invalid time value'')) | Some t \<Rightarrow> Inr (Some t)))"

definition track_statement ::
  "unicode \<Rightarrow> (jstr \<Rightarrow> time option) \<Rightarrow> jstr \<Rightarrow> jstr option \<Rightarrow> jstr option \<Rightarrow> time \<Rightarrow> database \<Rightarrow>
     (js_error + hashtag) \<times> database" where
  "track_statement u date name trackFrom trackUntil now db =
     (case (date_arg date trackFrom, date_arg date trackUntil) of
        (Inr f, Inr t) \<Rightarrow>
          tracking u \<lparr>ti_name = name, ti_trackFrom = f, ti_trackUntil = t, ti_notes = None\<rparr> now db
      | (Inl e, _) \<Rightarrow> (Inl e, db)
      | (_, Inl e) \<Rightarrow> (Inl e, db))"

definition trackHashtag ::
  "('q, 'h) sync_env \<Rightarrow> (jstr \<Rightarrow> time option) \<Rightarrow> jstr list \<Rightarrow> 'q sync_world \<Rightarrow>
     (command_stop + 'h) \<times> 'q sync_world" where
  "trackHashtag env date args =
     with_arg 0 (js ''pnpm hashtag:track <name> [trackFrom] [trackUntil]'') args (\<lambda>name w.
       stopping (then_do (db_call env (track_statement (se_unicode env) date name (optionalArg 1 args) (optionalArg 2 args)) w)
         (\<lambda>h w1. then_do (resolve_step env h w1) (\<lambda>ig w2. queue_call env (Sync_Top_Job (ht_id h)) w2))))"

definition setting_active :: "unicode \<Rightarrow> jstr \<Rightarrow> bool \<Rightarrow> time \<Rightarrow> database \<Rightarrow> (js_error + hashtag option) \<times> database" where
  "setting_active u name active now db = (case setActive u now name active db of (h, db1) \<Rightarrow> (Inr h, db1))"

definition untrackHashtag :: "('q, 'h) sync_env \<Rightarrow> jstr list \<Rightarrow> 'q sync_world \<Rightarrow> (command_stop + unit) \<times> 'q sync_world" where
  "untrackHashtag env args =
     with_arg 0 (js ''pnpm hashtag:untrack <name>'') args (\<lambda>name w.
       then_do (stopping (db_call env (setting_active (se_unicode env) name False) w)) (\<lambda>found w1.
         case found of
           None \<Rightarrow> throwing (js ''hashtag \"'' @ name @ js ''\" is not tracked'') w1
         | Some h \<Rightarrow> (Inr (), w1)))"

definition seed_input :: track_input where
  "seed_input = \<lparr>ti_name = js ''matcha'', ti_trackFrom = None, ti_trackUntil = None,
     ti_notes = Some (js ''Seeded by pnpm db:seed - the tag required by the assignment brief.'')\<rparr>"

text \<open>\<open>migrated\<close> is how \<open>runMigrations\<close> settles.\<close>

definition seed :: "('q, 'h) sync_env \<Rightarrow> fate + unit \<Rightarrow> 'q sync_world \<Rightarrow> (command_stop + unit) \<times> 'q sync_world" where
  "seed env migrated w =
     (case migrated of
        Inl f \<Rightarrow> (Inl (Stopped f), w)
      | Inr u \<Rightarrow> then_do (stopping (db_call env (tracking (se_unicode env) seed_input) w)) (\<lambda>h w1. (Inr (), w1)))"

section \<open>Replay\<close>

record replay_counts =
  rp_reprocessed :: nat
  rp_created :: nat
  rp_changed :: nat
  rp_invalid :: nat

definition no_replay :: replay_counts where
  "no_replay = \<lparr>rp_reprocessed = 0, rp_created = 0, rp_changed = 0, rp_invalid = 0\<rparr>"

definition replay_source :: "sync_run \<Rightarrow> media_source" where
  "replay_source run = (if sr_type run = SYNC_TOP_HASHTAG_MEDIA then Top else Recent)"

definition replay_input :: "uuid \<Rightarrow> media_source \<Rightarrow> data_point \<Rightarrow> meta_media \<Rightarrow> upsert_input" where
  "replay_input syncRunId source payload media =
     \<lparr>ui_media = media, ui_hashtagId = dp_hashtagId payload, ui_syncRunId = syncRunId, ui_source = source,
       ui_rank = dp_positionOverall payload + 1\<rparr>"

definition count_replayed :: "upsert_result \<Rightarrow> replay_counts \<Rightarrow> replay_counts" where
  "count_replayed r c =
     c\<lparr>rp_reprocessed := rp_reprocessed c + 1, rp_created := rp_created c + (if ur_isNew r then 1 else 0),
       rp_changed := rp_changed c + (if ur_contentChanged r then 1 else 0)\<rparr>"

primrec replay_payloads ::
  "('q, 'h) sync_env \<Rightarrow> uuid \<Rightarrow> media_source \<Rightarrow> data_point list \<Rightarrow> replay_counts \<Rightarrow> 'q sync_world \<Rightarrow>
     (fate + replay_counts) \<times> 'q sync_world" where
  "replay_payloads env syncRunId source [] c w = (Inr c, w)"
| "replay_payloads env syncRunId source (p # ps) c w =
     (case metaMediaSchema (ne_is_url (se_net env)) (dp_payload p) of
        None \<Rightarrow> replay_payloads env syncRunId source ps (c\<lparr>rp_invalid := rp_invalid c + 1\<rparr>) w
      | Some media \<Rightarrow>
          then_do (db_call env (\<lambda>now. upsertMedia (se_unicode env) (se_date_parse env) now
                     (replay_input syncRunId source p media)) w)
            (\<lambda>result w1. replay_payloads env syncRunId source ps (count_replayed result c) w1))"

text \<open>The argument is parsed by Postgres (\<open>pg_uuid\<close>): a text that is no UUID makes the first statement fail.\<close>

definition find_run_statement :: "(jstr \<Rightarrow> uuid option) \<Rightarrow> jstr \<Rightarrow> time \<Rightarrow> database \<Rightarrow> (js_error + sync_run option) \<times> database" where
  "find_run_statement pg_uuid arg now db =
     (case pg_uuid arg of
        None \<Rightarrow> (Inl (pg_violation ''invalid input syntax for type uuid''), db)
      | Some i \<Rightarrow> (Inr (findRunById i db), db))"

definition replay ::
  "('q, 'h) sync_env \<Rightarrow> (jstr \<Rightarrow> uuid option) \<Rightarrow> jstr list \<Rightarrow> 'q sync_world \<Rightarrow> (command_stop + replay_counts) \<times> 'q sync_world" where
  "replay env pg_uuid args =
     with_arg 0 (js ''pnpm replay <sync_run_id>'') args (\<lambda>arg w.
       then_do (stopping (db_call env (find_run_statement pg_uuid arg) w)) (\<lambda>found w1.
         case found of
           None \<Rightarrow> throwing (js ''sync run '' @ arg @ js '' not found'') w1
         | Some run \<Rightarrow>
             then_do (stopping (db_call env (reading (findByRunId (sr_id run))) w1)) (\<lambda>payloads w2.
               if payloads = []
               then throwing (js ''sync run '' @ arg @ js '' recorded no raw payloads - nothing to replay'') w2
               else stopping (replay_payloads env (sr_id run) (replay_source run) payloads no_replay w2))))"

section \<open>Inline syncs\<close>

definition not_tracked :: "jstr \<Rightarrow> jstr" where
  "not_tracked name = js ''hashtag \"'' @ name @ js ''\" is not tracked - run: pnpm hashtag:track '' @ name"

definition inline_options :: "media_source \<Rightarrow> hashtag \<Rightarrow> sync_options" where
  "inline_options kind h = \<lparr>sy_hashtagId = ht_id h, sy_kind = kind, sy_messageId = None, sy_attempt = None\<rparr>"

definition default_drain :: drain_options where
  "default_drain = \<lparr>do_emptyPollsBeforeStop = None, do_waitTimeSeconds = None\<rparr>"

text \<open>The last step of both commands; the loop may go on for ever.\<close>

definition then_drain ::
  "('q, 'h, 's) drain_env \<Rightarrow> (command_stop + unit) \<times> ('q, 's) app_world \<Rightarrow>
     ((command_stop + drain_summary) \<times> ('q, 's) app_world) option" where
  "then_drain env m =
     (case m of
        (Inl e, w) \<Rightarrow> Some (Inl e, w)
      | (Inr u, w) \<Rightarrow> map_option stopping (drainAssetJobs env default_drain w))"

definition sync_top_part ::
  "('q, 'h, 's) app_env \<Rightarrow> jstr list \<Rightarrow> ('q, 's) app_world \<Rightarrow> (command_stop + unit) \<times> ('q, 's) app_world" where
  "sync_top_part env args =
     with_arg 0 (js ''pnpm sync:top <hashtag>'') args (\<lambda>name w.
       then_do (stopping (on_sync (db_call (ap_sync env) (reading (findByName (se_unicode (ap_sync env)) name))) w))
         (\<lambda>found w1. case found of
            None \<Rightarrow> throwing (not_tracked name) w1
          | Some h \<Rightarrow>
              then_do (stopping (on_sync (sync (ap_sync env) (inline_options Top h)) w1)) (\<lambda>outcome w2. (Inr (), w2))))"

definition syncTop ::
  "('q, 'h, 's) drain_env \<Rightarrow> jstr list \<Rightarrow> ('q, 's) app_world \<Rightarrow>
     ((command_stop + drain_summary) \<times> ('q, 's) app_world) option" where
  "syncTop env args w = then_drain env (sync_top_part (dn_app env) args w)"

primrec sync_each ::
  "('q, 'h, 's) app_env \<Rightarrow> hashtag list \<Rightarrow> ('q, 's) app_world \<Rightarrow> (fate + unit) \<times> ('q, 's) app_world" where
  "sync_each env [] w = (Inr (), w)"
| "sync_each env (h # hs) w =
     then_do (on_sync (sync (ap_sync env) (inline_options Recent h)) w) (\<lambda>outcome w1. sync_each env hs w1)"

definition recent_targets ::
  "('q, 'h) sync_env \<Rightarrow> jstr option \<Rightarrow> time \<Rightarrow> database \<Rightarrow> (js_error + hashtag list) \<times> database" where
  "recent_targets env name now db =
     (Inr (if truthy_url name
           then (case findByName (se_unicode env) (the name) db of None \<Rightarrow> [] | Some h \<Rightarrow> [h])
           else findDueForSync Recent now db), db)"

definition sync_recent_part ::
  "('q, 'h, 's) app_env \<Rightarrow> jstr list \<Rightarrow> ('q, 's) app_world \<Rightarrow> (command_stop + unit) \<times> ('q, 's) app_world" where
  "sync_recent_part env args w =
     (let name = optionalArg 0 args
      in then_do (stopping (on_sync (db_call (ap_sync env) (recent_targets (ap_sync env) name)) w)) (\<lambda>hashtags w1.
           if hashtags = []
           then throwing (if truthy_url name then not_tracked (the name)
                          else js ''no hashtags are due for a recent sync'') w1
           else stopping (sync_each env hashtags w1)))"

definition syncRecent ::
  "('q, 'h, 's) drain_env \<Rightarrow> jstr list \<Rightarrow> ('q, 's) app_world \<Rightarrow>
     ((command_stop + drain_summary) \<times> ('q, 's) app_world) option" where
  "syncRecent env args w = then_drain env (sync_recent_part (dn_app env) args w)"

end
