(* ===== verification/Commands_Correct.thy ===== *)
theory Commands_Correct
  imports Commands
begin

text \<open>
  What the operator commands keep, whatever fails in them; and the replay of a run: which upserts it
  makes and what is left of later observations.
\<close>

section \<open>What every command keeps\<close>

lemma stopping_cases:
  assumes "stopping m = (r, w')"
  obtains (stop) f where "m = (Inl f, w')" "r = Inl (Stopped f)" | (go) a where "m = (Inr a, w')" "r = Inr a"
  using assms by (cases m; cases "fst m") (auto simp: stopping_def)

lemma with_arg_cases:
  assumes "with_arg i usage args k w = (r, w')"
  obtains (missing) e where "w' = w" "r = Inl e" | (arg) v where "k v w = (r, w')"
  using assms by (cases "requireArg i usage args") (auto simp: with_arg_def)

lemma on_sync_split: "on_sync f w = (r, w') \<Longrightarrow> \<exists>v. f (pw_sync w) = (r, v) \<and> w' = w\<lparr>pw_sync := v\<rparr>"
  by (auto simp: on_sync_def split: prod.splits)

locale command_invariant = consumer_invariant P for P +
  assumes inv_track: "P db \<Longrightarrow> P (snd (ensureTracked u now inp db))"
    and inv_active: "P db \<Longrightarrow> P (snd (setActive u now name active db))"
begin

lemma track_call:
  assumes "db_call env (track_statement u date name f t) w = (r, w')" "P (sw_db w)"
  shows "P (sw_db w')"
  using assms
proof (rule call)
  show "P (snd (track_statement u date name f t now (sw_db w)))" for now
    using assms(2) inv_track
    by (auto simp: track_statement_def tracking_def split: sum.split prod.split) (metis snd_conv)
qed

lemma resolve_keeps: "resolve_step env h w = (r, w') \<Longrightarrow> P (sw_db w) \<Longrightarrow> P (sw_db w')"
  unfolding resolve_step_def
  by (auto split: if_splits prod.splits sum.splits elim!: then_do_split dest!: call simp: inv_set_ig)

lemma track_keeps:
  assumes "trackHashtag env date args w = (r, w')" "P (sw_db w)"
  shows "P (sw_db w')"
  using assms(1) unfolding trackHashtag_def
proof (cases rule: with_arg_cases)
  case (arg name)
  then obtain x where "then_do (db_call env (track_statement (se_unicode env) date name (optionalArg 1 args) (optionalArg 2 args)) w)
         (\<lambda>h w1. then_do (resolve_step env h w1) (\<lambda>ig w2. queue_call env (Sync_Top_Job (ht_id h)) w2)) = (x, w')"
    by (meson stopping_cases)
  then show ?thesis
  proof (cases rule: then_do_split)
    case (stop f)
    then show ?thesis using track_call assms(2) by blast
  next
    case (go h w1)
    have P1: "P (sw_db w1)" using track_call [OF go(1) assms(2)] .
    from go(2) show ?thesis
    proof (cases rule: then_do_split)
      case (stop f)
      then show ?thesis using resolve_keeps P1 by blast
    next
      case (go ig w2)
      then show ?thesis using resolve_keeps [OF go(1) P1] queue_call_frame [OF go(2)] by simp
    qed
  qed
qed (use assms(2) in simp)

lemma untrack_keeps:
  assumes "untrackHashtag env args w = (r, w')" "P (sw_db w)"
  shows "P (sw_db w')"
  using assms(1) unfolding untrackHashtag_def
proof (cases rule: with_arg_cases)
  case (arg name)
  have "P (snd (setting_active (se_unicode env) name False now (sw_db w)))" for now
    using inv_active [OF assms(2)] by (auto simp: setting_active_def split: prod.split) (metis snd_conv)
  then show ?thesis
    using arg assms(2) call [of env "setting_active (se_unicode env) name False" w]
    by (auto simp: throwing_def elim!: then_do_split stopping_cases split: option.splits)
qed (use assms(2) in simp)

lemma seed_keeps:
  assumes "seed env migrated w = (r, w')" "P (sw_db w)"
  shows "P (sw_db w')"
proof -
  have "P (snd (tracking (se_unicode env) seed_input now (sw_db w)))" for now
    using inv_track [OF assms(2)] by (auto simp: tracking_def split: prod.split) (metis snd_conv)
  then show ?thesis
    using assms call [of env "tracking (se_unicode env) seed_input" w]
    by (auto simp: seed_def elim!: then_do_split stopping_cases split: sum.splits)
qed

lemma payloads_keep:
  "replay_payloads env i source ps c w = (r, w') \<Longrightarrow> P (sw_db w) \<Longrightarrow> P (sw_db w')"
proof (induction ps arbitrary: c w)
  case (Cons p ps)
  show ?case
  proof (cases "metaMediaSchema (ne_is_url (se_net env)) (dp_payload p)")
    case None
    then show ?thesis using Cons by simp
  next
    case (Some media)
    then have "then_do (db_call env (\<lambda>now. upsertMedia (se_unicode env) (se_date_parse env) now (replay_input i source p media)) w)
        (\<lambda>result w1. replay_payloads env i source ps (count_replayed result c) w1) = (r, w')"
      using Cons.prems(1) by simp
    then show ?thesis
    proof (cases rule: then_do_split)
      case (stop f)
      then show ?thesis using call [OF stop(1) Cons.prems(2)] inv_upsert [OF Cons.prems(2)] by blast
    next
      case (go res w1)
      then show ?thesis using call [OF go(1) Cons.prems(2)] inv_upsert [OF Cons.prems(2)] Cons.IH by blast
    qed
  qed
qed simp

lemma find_run_keeps: "db_call env (find_run_statement pg arg) w = (r, w') \<Longrightarrow> P (sw_db w) \<Longrightarrow> P (sw_db w')"
  by (rule call) (auto simp: find_run_statement_def split: option.split)

lemma replay_keeps:
  assumes "replay env pg args w = (r, w')" "P (sw_db w)"
  shows "P (sw_db w')"
  using assms(1) unfolding replay_def
proof (cases rule: with_arg_cases)
  case (arg a)
  then show ?thesis
    using assms(2) find_run_keeps call_reading payloads_keep
    by (fastforce simp: throwing_def elim!: then_do_split stopping_cases split: option.splits if_splits)
qed (use assms(2) in simp)

text \<open>The inline syncs and the drain.\<close>

lemma on_sync_sync_keeps:
  assumes "on_sync (sync env opts) w = (r, w')" "P (sw_db (pw_sync w))"
  shows "P (sw_db (pw_sync w'))"
  using on_sync_split [OF assms(1)] sync_keeps assms(2) by auto

lemma sync_each_keeps: "sync_each env hs w = (r, w') \<Longrightarrow> P (sw_db (pw_sync w)) \<Longrightarrow> P (sw_db (pw_sync w'))"
proof (induction hs arbitrary: w)
  case (Cons h hs)
  from Cons.prems(1) show ?case
    unfolding sync_each.simps
  proof (cases rule: then_do_split)
    case (stop f)
    then show ?thesis using on_sync_sync_keeps Cons.prems(2) by blast
  next
    case (go a w1)
    then show ?thesis using on_sync_sync_keeps Cons.prems(2) Cons.IH by blast
  qed
qed simp

lemma on_sync_reading:
  "on_sync (db_call env (reading f)) w = (r, w') \<Longrightarrow> P (sw_db (pw_sync w)) \<Longrightarrow> P (sw_db (pw_sync w'))"
  by (drule on_sync_split) (auto dest: call_reading)

lemma on_sync_targets:
  assumes "on_sync (db_call env (recent_targets env name)) w = (r, w')" "P (sw_db (pw_sync w))"
  shows "P (sw_db (pw_sync w'))"
proof -
  obtain v where v: "db_call env (recent_targets env name) (pw_sync w) = (r, v)" "w' = w\<lparr>pw_sync := v\<rparr>"
    using on_sync_split [OF assms(1)] by blast
  then show ?thesis using call [OF v(1)] assms(2) by (simp add: recent_targets_def)
qed

lemma sync_top_part_keeps:
  assumes "sync_top_part env args w = (r, w')" "P (sw_db (pw_sync w))"
  shows "P (sw_db (pw_sync w'))"
  using assms(1) unfolding sync_top_part_def
proof (cases rule: with_arg_cases)
  case (arg name)
  then show ?thesis
    using assms(2) on_sync_reading on_sync_sync_keeps
    by (fastforce simp: throwing_def elim!: then_do_split stopping_cases split: option.splits)
qed (use assms(2) in simp)

lemma sync_recent_part_keeps:
  assumes "sync_recent_part env args w = (r, w')" "P (sw_db (pw_sync w))"
  shows "P (sw_db (pw_sync w'))"
  using assms on_sync_targets sync_each_keeps unfolding sync_recent_part_def Let_def
  by (fastforce simp: throwing_def elim!: then_do_split stopping_cases split: if_splits)

lemma drain_message_keeps:
  assumes "drain_message env m s w = (r, w')" "P (sw_db (pw_sync w))"
  shows "P (sw_db (pw_sync w'))"
proof -
  have queue: "sw_db (pw_sync w2) = sw_db (pw_sync w1)" if "queue_do env f w1 = (x, w2)" for f w1 w2 and x :: "fate + unit"
    using queue_do_state [OF that] by blast
  have asset: "P (sw_db (pw_sync w1))"
    if "on_asset (download (ap_asset (dn_app env)) i None) w = (x, w1)" for i x w1
  proof -
    have inv: "asset_invariant (ap_asset (dn_app env)) (\<lambda>db s. P db)"
      by unfold_locales (simp_all add: inv_mark_skipped inv_mark_downloading inv_mark_failed inv_mark_stored)
    show ?thesis
      using that assms(2) asset_invariant.download_keeps [OF inv]
      by (auto simp: on_asset_def split: prod.splits)
  qed
  have catch: "P (sw_db (pw_sync w2))" if "drain_catch env m t w1 = (x, w2)" "P (sw_db (pw_sync w1))" for t w1 x w2
    using that queue unfolding drain_catch_def by (fastforce elim!: then_do_split)
  show ?thesis
  proof (cases "\<exists>i. qm_job m = Download_Job i")
    case True
    then obtain i where i: "qm_job m = Download_Job i" by blast
    obtain x w1 where d: "on_asset (download (ap_asset (dn_app env)) i None) w = (x, w1)" by fastforce
    obtain y w2 where a: "queue_do env (\<lambda>now. dn_ack env m) w1 = (y, w2)" by fastforce
    show ?thesis
      using assms(1) asset [OF d] d a i catch queue [OF a]
      by (auto simp: drain_message_def Let_def split: sum.splits fate.splits)
  next
    case False
    then have "then_do (queue_do env (\<lambda>now. dn_nack env now m) w) (\<lambda>u w1. (Inr s, w1)) = (r, w')"
      using assms(1) by (cases "qm_job m") (simp_all add: drain_message_def)
    then show ?thesis using queue assms(2) by (fastforce elim!: then_do_split)
  qed
qed

lemma drain_messages_keeps:
  "drain_messages env ms s w = (r, w') \<Longrightarrow> P (sw_db (pw_sync w)) \<Longrightarrow> P (sw_db (pw_sync w'))"
proof (induction ms arbitrary: s w)
  case (Cons m ms)
  from Cons.prems(1) show ?case
    unfolding drain_messages.simps
  proof (cases rule: then_do_split)
    case (stop f)
    then show ?thesis using drain_message_keeps Cons.prems(2) by blast
  next
    case (go s1 w1)
    then show ?thesis using drain_message_keeps Cons.prems(2) Cons.IH by blast
  qed
qed simp

lemma drain_loop_keeps:
  assumes "drain_loop env polls wt idle s w = Some res" "P (sw_db (pw_sync w))"
  shows "P (sw_db (pw_sync (snd res)))"
  using assms
proof (induction env polls wt idle s w res rule: drain_loop.raw_induct [rotated, consumes 1, case_names step])
  case (step loop env polls wt idle s w res)
  obtain x w1 where rec: "queue_do env (\<lambda>now. dn_receive env now 10 wt) w = (x, w1)" by fastforce
  have P1: "P (sw_db (pw_sync w1))" using queue_do_state [OF rec] step.prems by simp
  show ?case
  proof (cases "polls \<le> idle \<or> isl x \<or> projr x = []")
    case True
    then show ?thesis using step rec P1 by (cases x) (auto split: if_splits)
  next
    case False
    then obtain ms where ms: "x = Inr ms" "ms \<noteq> []" by (cases x) auto
    obtain y w2 where y: "drain_messages env ms s w1 = (y, w2)" by fastforce
    have "P (sw_db (pw_sync w2))" using drain_messages_keeps [OF y P1] .
    then show ?thesis using step rec ms y False by (cases y) auto
  qed
qed

lemma then_drain_keeps:
  assumes "then_drain env m = Some (r, w')" "P (sw_db (pw_sync (snd m)))"
  shows "P (sw_db (pw_sync w'))"
proof (cases "fst m")
  case (Inl e)
  then show ?thesis using assms by (cases m) (simp add: then_drain_def)
next
  case (Inr u)
  then obtain x where x: "drainAssetJobs env default_drain (snd m) = Some x" "stopping x = (r, w')"
    using assms(1) by (cases m) (auto simp: then_drain_def)
  have "P (sw_db (pw_sync (snd x)))"
    using x(1) drain_loop_keeps assms(2) unfolding drainAssetJobs_def by blast
  then show ?thesis using x(2) by (cases x) (auto elim!: stopping_cases)
qed

end

section \<open>Commands and handlers together\<close>

text \<open>One command or one job after another, each in an environment of its own.\<close>

inductive program_step ::
  "(('q, 'h, 's) drain_env \<Rightarrow> bool) \<Rightarrow> ('q, 's) app_world \<Rightarrow> ('q, 's) app_world \<Rightarrow> bool" for allowed where
  job: "allowed d \<Longrightarrow> consumer_step (\<lambda>env. env = dn_app d) w w' \<Longrightarrow> program_step allowed w w'"
| track: "allowed d \<Longrightarrow> trackHashtag (ap_sync (dn_app d)) date args (pw_sync w) = (r, v) \<Longrightarrow>
    program_step allowed w (w\<lparr>pw_sync := v\<rparr>)"
| untrack: "allowed d \<Longrightarrow> untrackHashtag (ap_sync (dn_app d)) args (pw_sync w) = (r, v) \<Longrightarrow>
    program_step allowed w (w\<lparr>pw_sync := v\<rparr>)"
| seed: "allowed d \<Longrightarrow> seed (ap_sync (dn_app d)) migrated (pw_sync w) = (r, v) \<Longrightarrow>
    program_step allowed w (w\<lparr>pw_sync := v\<rparr>)"
| replay: "allowed d \<Longrightarrow> replay (ap_sync (dn_app d)) pg args (pw_sync w) = (r, v) \<Longrightarrow>
    program_step allowed w (w\<lparr>pw_sync := v\<rparr>)"
| sync_top: "allowed d \<Longrightarrow> syncTop d args w = Some (r, w') \<Longrightarrow> program_step allowed w w'"
| sync_recent: "allowed d \<Longrightarrow> syncRecent d args w = Some (r, w') \<Longrightarrow> program_step allowed w w'"

context command_invariant
begin

lemma program_keeps_one: "program_step allowed w w' \<Longrightarrow> P (sw_db (pw_sync w)) \<Longrightarrow> P (sw_db (pw_sync w'))"
proof (induction rule: program_step.induct)
  case (sync_top d args w r w')
  then show ?case
    using then_drain_keeps [OF sync_top(2) [unfolded syncTop_def]] sync_top_part_keeps [OF prod.collapse [symmetric]] by blast
next
  case (sync_recent d args w r w')
  then show ?case
    using then_drain_keeps [OF sync_recent(2) [unfolded syncRecent_def]] sync_recent_part_keeps [OF prod.collapse [symmetric]]
    by blast
qed (simp_all add: handler_keeps track_keeps untrack_keeps seed_keeps replay_keeps)

lemma program_keeps:
  "(program_step allowed)\<^sup>*\<^sup>* w w' \<Longrightarrow> P (sw_db (pw_sync w)) \<Longrightarrow> P (sw_db (pw_sync w'))"
  by (induction rule: rtranclp_induct) (auto intro: program_keeps_one)

end

lemma tracked_tables [simp]:
  "db_mediaPosts (snd (ensureTracked u now inp db)) = db_mediaPosts db"
  "db_history (snd (ensureTracked u now inp db)) = db_history db"
  "db_dataPoints (snd (ensureTracked u now inp db)) = db_dataPoints db"
  "db_mediaPosts (snd (setActive u now name a db)) = db_mediaPosts db"
  "db_history (snd (setActive u now name a db)) = db_history db"
  "db_dataPoints (snd (setActive u now name a db)) = db_dataPoints db"
  by (simp_all add: ensureTracked_def setActive_def Let_def split: option.split)

interpretation command_wf: command_invariant db_wf
  by unfold_locales (simp_all add: ensureTracked_wf setActive_wf)

interpretation command_posts: command_invariant "posts_evolve db0" for db0
  by unfold_locales (simp_all add: posts_evolve_def)

interpretation command_history: command_invariant "\<lambda>db. \<exists>new. db_history db = db_history db0 @ new" for db0
  by unfold_locales simp_all

interpretation command_raw: command_invariant "\<lambda>db. \<exists>new. db_dataPoints db = db_dataPoints db0 @ new" for db0
  by unfold_locales simp_all

end
