(* ===== verification/Replay_Correct.thy ===== *)
theory Replay_Correct
  imports Commands_Correct
begin

text \<open>
  \<open>pnpm replay\<close>: the upserts it makes are those of the live run, a second replay creates nothing, and
  the recorded content replaces what a later run observed.
\<close>

section \<open>The inputs of a replay\<close>

definition replay_inputs :: "(jstr \<Rightarrow> bool) \<Rightarrow> uuid \<Rightarrow> media_source \<Rightarrow> data_point list \<Rightarrow> upsert_input list" where
  "replay_inputs is_url i source ps =
     concat (map (\<lambda>p. case metaMediaSchema is_url (dp_payload p) of
        None \<Rightarrow> [] | Some media \<Rightarrow> [replay_input i source p media]) ps)"

text \<open>The inputs \<open>sync_items\<close> gives to the upsert for the items of a page, from rank \<open>rank\<close> on.\<close>

fun live_inputs :: "sync_options \<Rightarrow> uuid \<Rightarrow> nat \<Rightarrow> meta_media list \<Rightarrow> upsert_input list" where
  "live_inputs opts runId rank [] = []"
| "live_inputs opts runId rank (item # rest) =
     upsert_input_of opts runId rank item # live_inputs opts runId (Suc rank) rest"

lemma replay_inputs_append:
  "replay_inputs is_url i source (ps @ qs) = replay_inputs is_url i source ps @ replay_inputs is_url i source qs"
  by (simp add: replay_inputs_def)

lemma enumerate_live_inputs:
  "map (\<lambda>(k, item). upsert_input_of opts runId (rank + k) item) (enumerate n items) = live_inputs opts runId (rank + n) items"
  by (induction items arbitrary: n) auto

lemma page_rows_replayed:
  assumes "\<And>m. m \<in> set (mg_items page) \<Longrightarrow> media_valid is_url m"
  shows "replay_inputs is_url runId (sy_kind opts) (page_rows now base (page_input_of opts runId seen page)) =
    live_inputs opts runId (Suc seen) (mg_items page)"
proof -
  have "replay_inputs is_url runId (sy_kind opts)
      (map (\<lambda>(k, item). data_point_of now base (page_input_of opts runId seen page) k item) (enumerate n items)) =
    live_inputs opts runId (Suc seen + n) items" if "set items \<subseteq> set (mg_items page)" for n items
    using that
  proof (induction items arbitrary: n)
    case (Cons item items)
    then have "metaMediaSchema is_url (media_to_json item) = Some item"
      using metaMediaSchema_to_json assms by auto
    then show ?case
      using Cons.IH [of "Suc n"] Cons.prems
      by (simp add: replay_inputs_def data_point_of_def page_input_of_def replay_input_def upsert_input_of_def)
  qed (simp add: replay_inputs_def)
  from this [of "mg_items page" 0] show ?thesis
    by (simp add: page_rows_def page_input_of_def)
qed

lemma sort_key_append:
  assumes "\<And>x y. x \<in> set xs \<Longrightarrow> y \<in> set ys \<Longrightarrow> f x < (f y :: 'b :: linorder)" "sorted (map f ys)"
  shows "sort_key f (xs @ ys) = sort_key f xs @ ys"
proof (rule properties_for_sort_key)
  show "mset (sort_key f xs @ ys) = mset (xs @ ys)" by simp
  show "filter (\<lambda>y. f k = f y) (sort_key f xs @ ys) = filter (\<lambda>x. f k = f x) (xs @ ys)"
    if "k \<in> set (sort_key f xs @ ys)" for k
    using sort_key_stable [of f "f k" xs] by (simp add: eq_commute [of "f k"])
  show "sorted (map f (sort_key f xs @ ys))"
    using assms by (auto simp: sorted_append intro: less_imp_le)
qed

lemma page_rows_sorted: "sorted (map dp_positionOverall (page_rows now base pinp))"
  by (auto simp: sorted_iff_nth_mono page_rows_nth data_point_of_def)

lemma findByRunId_after_page:
  assumes "recordPage now pinp db = (Inr (), db')"
    "\<And>d. d \<in> set (findByRunId (pi_syncRunId pinp) db) \<Longrightarrow> dp_positionOverall d < pi_offset pinp"
  shows "findByRunId (pi_syncRunId pinp) db' =
    findByRunId (pi_syncRunId pinp) db @ page_rows now (db_next db) pinp"
proof -
  let ?rows = "page_rows now (db_next db) pinp"
  have db': "db_dataPoints db' = db_dataPoints db @ ?rows"
    using assms(1) by (auto simp: recordPage_def page_rows_def split: if_splits)
  have rows: "filter (\<lambda>d. dp_syncRunId d = pi_syncRunId pinp) ?rows = ?rows"
    by (rule filter_True) (simp add: page_rows_const)
  have "dp_positionOverall d < dp_positionOverall e"
    if "d \<in> set (filter (\<lambda>d. dp_syncRunId d = pi_syncRunId pinp) (db_dataPoints db))" "e \<in> set ?rows" for d e
  proof -
    have "dp_positionOverall d < pi_offset pinp" using assms(2) [of d] that(1) by (simp add: findByRunId_def)
    moreover have "pi_offset pinp \<le> dp_positionOverall e"
      using that(2) by (auto simp: page_rows_def data_point_of_def)
    ultimately show ?thesis by simp
  qed
  then show ?thesis
    unfolding findByRunId_def db' filter_append rows by (rule sort_key_append [OF _ page_rows_sorted])
qed

section \<open>Undisturbed replays\<close>

lemma db_call_undisturbed:
  assumes "\<And>n. se_fault env n = None" "db_call env f w = (Inr a, w')"
  shows "f (se_now env (sw_calls w)) (sw_db w) = (Inr a, sw_db w')" "sw_calls w' = Suc (sw_calls w)"
  using assms by (auto simp: db_call_def with_fault_def split: sum.splits prod.splits intro!: prod_eqI)

text \<open>The clock is ahead of every sighting in the database, and never stands still between two calls.\<close>

definition clock_ahead :: "('q, 'h) sync_env \<Rightarrow> 'q sync_world \<Rightarrow> bool" where
  "clock_ahead env w \<longleftrightarrow>
     (\<forall>m \<in> set (db_mediaPosts (sw_db w)). \<forall>n \<ge> sw_calls w. mp_firstSeenAt m < se_now env n)
     \<and> (\<forall>n. se_now env n < se_now env (Suc n))"

lemma clock_ahead_mono: "clock_ahead env w \<Longrightarrow> i < j \<Longrightarrow> se_now env i < se_now env j"
  unfolding clock_ahead_def by (metis lift_Suc_mono_less)

definition has_post :: "database \<Rightarrow> upsert_input \<Rightarrow> bool" where
  "has_post db inp \<longleftrightarrow> findByIgMediaId (mm_id (ui_media inp)) db \<noteq> None"

lemma upsert_step:
  assumes "upsertMedia u dp now inp db = (Inr res, db')" "\<forall>m \<in> set (db_mediaPosts db). mp_firstSeenAt m < now"
  shows "\<forall>m \<in> set (db_mediaPosts db'). mp_firstSeenAt m \<le> now" "has_post db' inp"
    "has_post db j \<Longrightarrow> has_post db' j" "ur_isNew res \<longleftrightarrow> \<not> has_post db inp"
    "map mp_id (db_mediaPosts db') = map mp_id (db_mediaPosts db) @ (if ur_isNew res then [ur_id res] else [])"
proof -
  obtain row db1 takenAt where up: "upsert_post u now takenAt inp db = (Inr row, db1)"
    "findByIgMediaId (mm_id (ui_media inp)) db' = Some row" "db_mediaPosts db' = db_mediaPosts db1"
    "ur_id res = mp_id row" "ur_isNew res = (mp_firstSeenAt row = now)"
    using upsertMedia_row [of u dp now inp db res] assms(1) by (metis fst_conv snd_conv)
  have new: "ur_isNew res \<longleftrightarrow> findByIgMediaId (mm_id (ui_media inp)) db = None"
    using upsertMedia_isNew [of u dp now inp db res] assms by fastforce
  show "has_post db' inp" using up(2) by (simp add: has_post_def)
  show "has_post db j \<Longrightarrow> has_post db' j"
    using posts_evolve_find [OF posts_evolve_upsert, of _ db] assms(1) unfolding has_post_def by (metis option.exhaust option.distinct(1) snd_conv)
  show "ur_isNew res \<longleftrightarrow> \<not> has_post db inp" using new by (simp add: has_post_def)
  show "\<forall>m \<in> set (db_mediaPosts db'). mp_firstSeenAt m \<le> now"
    using up(1) assms(2) by (cases rule: upsert_post_cases) (auto simp: up(3) update_where_def less_imp_le)
  show "map mp_id (db_mediaPosts db') = map mp_id (db_mediaPosts db) @ (if ur_isNew res then [ur_id res] else [])"
    using up(1) new by (cases rule: upsert_post_cases) (auto simp: up(3,4) update_where_def)
qed

lemma replay_run:
  assumes "\<And>n. se_fault env n = None"
  shows "replay_payloads env i source ps c w = (Inr c', w') \<Longrightarrow> clock_ahead env w \<Longrightarrow>
    clock_ahead env w' \<and> (\<forall>j \<in> set (replay_inputs (ne_is_url (se_net env)) i source ps). has_post (sw_db w') j)
    \<and> (\<forall>j. has_post (sw_db w) j \<longrightarrow> has_post (sw_db w') j)
    \<and> (\<exists>new. map mp_id (db_mediaPosts (sw_db w')) = map mp_id (db_mediaPosts (sw_db w)) @ new
        \<and> rp_created c' = rp_created c + length new)
    \<and> ((\<forall>j \<in> set (replay_inputs (ne_is_url (se_net env)) i source ps). has_post (sw_db w) j) \<longrightarrow>
        rp_created c' = rp_created c)
    \<and> db_dataPoints (sw_db w') = db_dataPoints (sw_db w) \<and> db_syncRuns (sw_db w') = db_syncRuns (sw_db w)"
proof (induction ps arbitrary: c w)
  case Nil
  then show ?case by (simp add: replay_inputs_def)
next
  case (Cons p ps)
  show ?case
  proof (cases "metaMediaSchema (ne_is_url (se_net env)) (dp_payload p)")
    case None
    then show ?thesis using Cons.IH [of "c\<lparr>rp_invalid := rp_invalid c + 1\<rparr>" w] Cons.prems by (simp add: replay_inputs_def)
  next
    case (Some media)
    let ?inp = "replay_input i source p media"
    obtain res w1 where call: "db_call env (\<lambda>now. upsertMedia (se_unicode env) (se_date_parse env) now ?inp) w = (Inr res, w1)"
      and rest: "replay_payloads env i source ps (count_replayed res c) w1 = (Inr c', w')"
      using Cons.prems(1) Some by (auto elim!: then_do_split)
    note up = db_call_undisturbed [OF assms call]
    have older: "\<forall>m \<in> set (db_mediaPosts (sw_db w)). mp_firstSeenAt m < se_now env (sw_calls w)"
      using Cons.prems(2) by (simp add: clock_ahead_def)
    note step = upsert_step [OF up(1) older]
    have "se_now env (sw_calls w) < se_now env n" if "Suc (sw_calls w) \<le> n" for n
      using clock_ahead_mono [OF Cons.prems(2)] that by simp
    then have "clock_ahead env w1"
      using step(1) Cons.prems(2) unfolding clock_ahead_def up(2) by fastforce
    note IH = Cons.IH [OF rest this]
    have tables: "db_dataPoints (sw_db w1) = db_dataPoints (sw_db w)" "db_syncRuns (sw_db w1) = db_syncRuns (sw_db w)"
      using upsertMedia_keeps(5,6) [of "se_unicode env" "se_date_parse env" "se_now env (sw_calls w)" ?inp "sw_db w"] up(1)
      by simp_all
    have inputs: "replay_inputs (ne_is_url (se_net env)) i source (p # ps) =
        ?inp # replay_inputs (ne_is_url (se_net env)) i source ps"
      using Some by (simp add: replay_inputs_def)
    show ?thesis
      unfolding inputs using IH step tables by (auto simp: count_replayed_def)
  qed
qed

text \<open>The command: two statements that read, then the loop.\<close>

lemma replay_unfold:
  assumes "\<And>n. se_fault env n = None" "replay env pg args w = (Inr c, w')"
  obtains run w2 where "findRunById (sr_id run) (sw_db w) = Some run" "sw_db w2 = sw_db w"
    "sw_calls w2 = Suc (Suc (sw_calls w))"
    "replay_payloads env (sr_id run) (replay_source run) (findByRunId (sr_id run) (sw_db w)) no_replay w2 = (Inr c, w')"
    "pg (args ! 0) = Some (sr_id run)"
proof -
  obtain arg where arg: "requireArg 0 (js ''pnpm replay <sync_run_id>'') args = Inr arg"
    using assms(2) by (auto simp: replay_def with_arg_def split: sum.splits)
  then have arg0: "args ! 0 = arg"
    by (auto simp: requireArg_def optionalArg_def split: option.splits if_splits)
  obtain found w1 where 1: "db_call env (find_run_statement pg arg) w = (Inr found, w1)"
    using assms(2) arg by (auto simp: replay_def with_arg_def stopping_def then_do_def split: sum.splits prod.splits)
  note first = db_call_undisturbed [OF assms(1) 1]
  obtain run where run: "found = Some run"
    using assms(2) arg 1 by (cases found) (auto simp: replay_def with_arg_def stopping_def then_do_def throwing_def)
  have state: "sw_db w1 = sw_db w" "\<exists>i. pg arg = Some i \<and> findRunById i (sw_db w) = Some run"
    using first(1) run by (auto simp: find_run_statement_def split: option.splits)
  then have id: "findRunById (sr_id run) (sw_db w) = Some run" "pg arg = Some (sr_id run)"
    by (auto simp: findRunById_def dest: find_row_SomeD)
  obtain payloads w2 where 2: "db_call env (reading (findByRunId (sr_id run))) w1 = (Inr payloads, w2)"
    using assms(2) arg 1 run
    by (auto simp: replay_def with_arg_def stopping_def then_do_def split: sum.splits prod.splits)
  note second = db_call_undisturbed [OF assms(1) 2]
  have "payloads = findByRunId (sr_id run) (sw_db w)" "sw_db w2 = sw_db w"
    using second(1) state(1) by (auto simp: reading_def)
  moreover have "replay_payloads env (sr_id run) (replay_source run) payloads no_replay w2 = (Inr c, w')"
    using assms(2) arg 1 run 2
    by (auto simp: replay_def with_arg_def stopping_def then_do_def throwing_def split: sum.splits prod.splits if_splits)
  ultimately show ?thesis using that [OF id(1)] id(2) arg0 first(2) second(2) by simp
qed

lemma replay_again:
  assumes "\<And>n. se_fault env n = None" "clock_ahead env w" "replay env pg args w = (Inr c1, w1)"
    "replay env pg args w1 = (Inr c2, w2)"
  shows "rp_created c2 = 0 \<and> map mp_id (db_mediaPosts (sw_db w2)) = map mp_id (db_mediaPosts (sw_db w1))
    \<and> (\<exists>new. map mp_id (db_mediaPosts (sw_db w1)) = map mp_id (db_mediaPosts (sw_db w)) @ new \<and> length new = rp_created c1)"
proof -
  obtain run v where 1: "findRunById (sr_id run) (sw_db w) = Some run" "sw_db v = sw_db w"
    "sw_calls v = Suc (Suc (sw_calls w))" "pg (args ! 0) = Some (sr_id run)"
    and run1: "replay_payloads env (sr_id run) (replay_source run) (findByRunId (sr_id run) (sw_db w)) no_replay v = (Inr c1, w1)"
    using replay_unfold [OF assms(1,3)] by metis
  obtain run' v' where 2: "findRunById (sr_id run') (sw_db w1) = Some run'" "sw_db v' = sw_db w1"
    "sw_calls v' = Suc (Suc (sw_calls w1))" "pg (args ! 0) = Some (sr_id run')"
    and run2: "replay_payloads env (sr_id run') (replay_source run') (findByRunId (sr_id run') (sw_db w1)) no_replay v' = (Inr c2, w2)"
    using replay_unfold [OF assms(1,4)] by metis
  have "clock_ahead env v" using assms(2) 1(2,3) by (simp add: clock_ahead_def)
  note first = replay_run [OF assms(1) run1 this]
  have tables: "db_syncRuns (sw_db w1) = db_syncRuns (sw_db w)" "db_dataPoints (sw_db w1) = db_dataPoints (sw_db w)"
    using first unfolding 1(2) by blast+
  have "sr_id run' = sr_id run" using 1(4) 2(4) by simp
  then have same: "run' = run" using 1(1) 2(1) by (simp add: findRunById_def tables)
  have payloads: "findByRunId (sr_id run') (sw_db w1) = findByRunId (sr_id run) (sw_db w)"
    by (simp add: findByRunId_def tables same)
  have "clock_ahead env v'" using first unfolding clock_ahead_def 2(2,3) by fastforce
  note second = replay_run [OF assms(1) run2 this]
  have "\<forall>j \<in> set (replay_inputs (ne_is_url (se_net env)) (sr_id run') (replay_source run') (findByRunId (sr_id run') (sw_db w1))).
      has_post (sw_db v') j"
    using first unfolding same payloads [unfolded same] 2(2) by blast
  then have none: "rp_created c2 = 0" using second by (simp add: no_replay_def)
  moreover obtain new2 where "map mp_id (db_mediaPosts (sw_db w2)) = map mp_id (db_mediaPosts (sw_db w1)) @ new2"
    "rp_created c2 = rp_created no_replay + length new2"
    using second unfolding 2(2) by blast
  moreover obtain new1 where "map mp_id (db_mediaPosts (sw_db w1)) = map mp_id (db_mediaPosts (sw_db w)) @ new1"
    "rp_created c1 = rp_created no_replay + length new1"
    using first unfolding 1(2) by blast
  ultimately show ?thesis by (simp add: no_replay_def)
qed

section \<open>What is left of later observations\<close>

lemma replay_last:
  assumes "\<And>n. se_fault env n = None" "metaMediaSchema (ne_is_url (se_net env)) (dp_payload p) = Some m"
  shows "replay_payloads env i source (ps @ [p]) c w = (Inr c', w') \<Longrightarrow>
    \<exists>post. findByIgMediaId (mm_id m) (sw_db w') = Some post \<and> mp_caption post = mm_caption m
      \<and> mp_likeCount post = mm_like_count m \<and> mp_commentsCount post = mm_comments_count m
      \<and> mp_sourceMediaUrl post = mm_media_url m \<and> mp_lastSeenAt post = se_now env (sw_calls w' - 1)"
proof (induction ps arbitrary: c w)
  case Nil
  then obtain res where call: "db_call env (\<lambda>now. upsertMedia (se_unicode env) (se_date_parse env) now
      (replay_input i source p m)) w = (Inr res, w')"
    using assms(2) by (auto elim!: then_do_split)
  note up = db_call_undisturbed [OF assms(1) call]
  let ?inp = "replay_input i source p m"
  have ok: "fst (upsertMedia (se_unicode env) (se_date_parse env) (se_now env (sw_calls w)) ?inp (sw_db w)) = Inr res"
    "snd (upsertMedia (se_unicode env) (se_date_parse env) (se_now env (sw_calls w)) ?inp (sw_db w)) = sw_db w'"
    using up(1) by simp_all
  obtain row db1 takenAt where row: "upsert_post (se_unicode env) (se_now env (sw_calls w)) takenAt ?inp (sw_db w) = (Inr row, db1)"
    "findByIgMediaId (mm_id (ui_media ?inp)) (sw_db w') = Some row"
    using upsertMedia_row [OF ok(1)] unfolding ok(2) by metis
  show ?case
    using row(1)
    by (cases rule: upsert_post_cases)
      (use row(2) up(2) in \<open>simp_all add: refresh_post_def new_post_def Let_def replay_input_def\<close>)
next
  case (Cons q ps)
  then show ?case
    by (cases "metaMediaSchema (ne_is_url (se_net env)) (dp_payload q)") (auto elim!: then_do_split)
qed

lemma replay_restores:
  assumes "\<And>n. se_fault env n = None" "replay env pg args w = (Inr c, w')" "pg (args ! 0) = Some i"
    "findByRunId i (sw_db w) = ps @ [p]" "metaMediaSchema (ne_is_url (se_net env)) (dp_payload p) = Some m"
  shows "\<exists>post. findByIgMediaId (mm_id m) (sw_db w') = Some post \<and> mp_caption post = mm_caption m
    \<and> mp_likeCount post = mm_like_count m \<and> mp_commentsCount post = mm_comments_count m
    \<and> mp_sourceMediaUrl post = mm_media_url m \<and> mp_lastSeenAt post = se_now env (sw_calls w' - 1)"
proof -
  obtain run v where "replay_payloads env (sr_id run) (replay_source run) (findByRunId (sr_id run) (sw_db w)) no_replay v = (Inr c, w')"
    "pg (args ! 0) = Some (sr_id run)"
    using replay_unfold [OF assms(1,2)] by metis
  then show ?thesis using replay_last [OF assms(1,5)] assms(3,4) by simp
qed

end
