(* ===== verification/Ops_Properties.thy ===== *)
theory Ops_Properties
  imports Drain_Correct Replay_Correct Demo
begin

text \<open>
  The properties of the operator commands and of the whole program over time.
\<close>

section \<open>Samples\<close>

text \<open>A run that recorded one payload, and the command that replays it.\<close>

definition demo_page :: media_page where
  "demo_page = \<lparr>mg_items = [demo_media], mg_pageNumber = 1, mg_nextCursor = None, mg_rateLimit = None\<rparr>"

definition demo_raw :: "mem_queue sync_world" where
  "demo_raw = demo_world\<lparr>sw_db := demo_db\<lparr>db_syncRuns := [demo_syncRun],
     db_dataPoints := page_rows 0 2 (page_input_of demo_options 1 0 demo_page), db_next := 3\<rparr>\<rparr>"

definition demo_replay :: "mem_queue sync_world \<Rightarrow> (command_stop + replay_counts) \<times> mem_queue sync_world" where
  "demo_replay = replay (demo_env (\<lambda>_. None)) (\<lambda>_. Some 1) [js ''run'']"

lemma demo_replays:
  "fst (demo_replay demo_raw) = Inr \<lparr>rp_reprocessed = 1, rp_created = 1, rp_changed = 0, rp_invalid = 0\<rparr>"
  by code_simp

lemma demo_replays_again:
  "fst (demo_replay (snd (demo_replay demo_raw))) = Inr \<lparr>rp_reprocessed = 1, rp_created = 0, rp_changed = 0, rp_invalid = 0\<rparr>"
  by code_simp

text \<open>The same run after a later one saw the post with another caption.\<close>

definition demo_edited :: "mem_queue sync_world" where
  "demo_edited = demo_raw\<lparr>sw_db := (sw_db demo_raw)\<lparr>
     db_mediaPosts := [demo_post\<lparr>mp_caption := Some (js ''edited'')\<rparr>], db_next := 4\<rparr>\<rparr>"

lemma demo_replays_edited:
  "fst (demo_replay demo_edited) = Inr \<lparr>rp_reprocessed = 1, rp_created = 0, rp_changed = 1, rp_invalid = 0\<rparr>"
  by code_simp

lemma demo_undisturbed [simp]: "se_fault (demo_env (\<lambda>_. None)) n = None"
  by (simp add: demo_env_def)

lemma demo_payload: "metaMediaSchema (ne_is_url (se_net (demo_env (\<lambda>_. None)))) (media_to_json demo_media) = Some demo_media"
  by code_simp

section \<open>The program over time\<close>

text \<open>
  C5. Whatever jobs are handled and whatever commands an operator runs, in any order and with any
  failures: the constraints of the database hold, no post loses its identity, its first sighting or its
  best rank, and the history and the raw payloads only grow.
\<close>

theorem program_keeps_the_data:
  assumes "(program_step allowed)\<^sup>*\<^sup>* w w'" "db_wf (sw_db (pw_sync w))"
  shows "db_wf (sw_db (pw_sync w')) \<and> posts_evolve (sw_db (pw_sync w)) (sw_db (pw_sync w'))
    \<and> (\<exists>new. db_history (sw_db (pw_sync w')) = db_history (sw_db (pw_sync w)) @ new)
    \<and> (\<exists>new. db_dataPoints (sw_db (pw_sync w')) = db_dataPoints (sw_db (pw_sync w)) @ new)"
  using command_wf.program_keeps [OF assms] command_posts.program_keeps [OF assms(1) posts_evolve_refl]
    command_history.program_keeps [OF assms(1), of "sw_db (pw_sync w)"]
    command_raw.program_keeps [OF assms(1), of "sw_db (pw_sync w)"] by simp

theorem program_keeps_the_data_witness:
  "\<exists>w'. program_step (\<lambda>d. d = mem_drain_env mem_default (demo_app (\<lambda>_. None))) demo_app_world w'
     \<and> db_wf (sw_db (pw_sync w'))"
proof -
  let ?d = "mem_drain_env mem_default (demo_app (\<lambda>_. None))"
  obtain r v where run: "untrackHashtag (ap_sync (dn_app ?d)) [js ''matcha''] (pw_sync demo_app_world) = (r, v)"
    by fastforce
  have step: "program_step (\<lambda>d. d = ?d) demo_app_world (demo_app_world\<lparr>pw_sync := v\<rparr>)"
    by (rule program_step.untrack [OF refl run])
  have steps: "(program_step (\<lambda>d. d = ?d))\<^sup>*\<^sup>* demo_app_world (demo_app_world\<lparr>pw_sync := v\<rparr>)"
    using step by (rule r_into_rtranclp)
  have "db_wf (sw_db (pw_sync demo_app_world))" by (simp add: demo_app_world_def demo_world_def demo_db_wf)
  then show ?thesis using program_keeps_the_data [OF steps] step by blast
qed

section \<open>The drain\<close>

text \<open>
  C34. Over the in-memory queue the drain of the sync commands ends, whatever jobs are queued and whatever
  fails: a job that is handed back is delivered a bounded number of times.
\<close>

theorem drain_terminates:
  assumes "mem_ok c (queue_of w)"
  shows "\<exists>r. drainAssetJobs (mem_drain_env c app) opts w = Some r"
  using mem_drain.drain_returns [OF assms] by (simp add: drainAssetJobs_def)

definition demo_queue :: mem_queue where
  "demo_queue = snd (mem_enqueue 0 0 (Download_Job 2) (snd (mem_enqueue 0 0 (Dispatch_Job Recent) mem_empty)))"

definition demo_drain_world :: "(mem_queue, file_system) app_world" where
  "demo_drain_world = demo_app_world\<lparr>pw_sync := demo_world\<lparr>sw_queue := demo_queue\<rparr>\<rparr>"

lemma demo_queue_ok: "mem_ok mem_default demo_queue"
  unfolding demo_queue_def by (intro mem_enqueue_ok mem_empty_ok)

theorem drain_terminates_witness:
  "\<exists>r. drainAssetJobs (mem_drain_env mem_default (demo_app (\<lambda>n. Some (Lose (Plain_Error []))))) default_drain demo_drain_world = Some r"
  using drain_terminates [of mem_default demo_drain_world] demo_queue_ok by (simp add: demo_drain_world_def)

text \<open>
  When nothing disturbs it and all jobs can be received, the drain leaves the queue empty: every
  download is counted once and acknowledged (or had used up its deliveries), and every job of another
  type, which the comment says is handed back rather than dropped, is handed back until it lands with
  the dead letters.
\<close>

theorem drain_parks_foreign_jobs:
  fixes app :: "(mem_queue, uuid, 's) app_env"
  assumes "undisturbed app" "mem_ok c (queue_of w)" "mq_inFlight (queue_of w) = []" "all_due app w"
  shows "\<exists>s w'. drainAssetJobs (mem_drain_env c app) default_drain w = Some (Inr s, w')
    \<and> mq_messages (queue_of w') = [] \<and> mq_inFlight (queue_of w') = []
    \<and> filter_mset foreign (mem_dead (queue_of w')) =
      filter_mset foreign (mem_stock (queue_of w) + mem_dead (queue_of w))
    \<and> handled s + size (filter_mset (\<lambda>j. \<not> foreign j) (mem_dead (queue_of w'))) =
      size (filter_mset (\<lambda>j. \<not> foreign j) (mem_stock (queue_of w) + mem_dead (queue_of w)))"
proof -
  have "0 < emptyPollsBeforeStop (mem_drain_env c app) default_drain"
    by (simp add: emptyPollsBeforeStop_def default_drain_def mem_drain_env_def)
  then obtain s w' where "drainAssetJobs (mem_drain_env c app) default_drain w = Some (Inr s, w')"
    "drained empty_summary (queue_of w) s (queue_of w')"
    using drainAssetJobs_drains [OF assms] by blast
  then show ?thesis unfolding drained_def by (auto simp: empty_summary_def handled_def)
qed

theorem drain_parks_foreign_jobs_witness:
  "\<exists>s w'. drainAssetJobs (mem_drain_env mem_default (demo_app (\<lambda>_. None))) default_drain demo_drain_world = Some (Inr s, w')
     \<and> filter_mset foreign (mem_dead (queue_of w')) = {#Dispatch_Job Recent#}"
proof -
  have "undisturbed (demo_app (\<lambda>_. None))"
    by (simp add: undisturbed_def demo_app_def demo_env_def demo_env_simps)
  moreover have q: "queue_of demo_drain_world = demo_queue" by (simp add: demo_drain_world_def)
  moreover have "mq_inFlight demo_queue = []" "all_due (demo_app (\<lambda>_. None)) demo_drain_world"
    "filter_mset foreign (mem_stock demo_queue + mem_dead demo_queue) = {#Dispatch_Job Recent#}"
    by (auto simp: demo_queue_def mem_enqueue_def mem_empty_def all_due_def q clock_of_def demo_app_def demo_env_def
        mem_stock_def mem_dead_def foreign_def demo_drain_world_def demo_world_def)
  ultimately show ?thesis
    using drain_parks_foreign_jobs [of "demo_app (\<lambda>_. None)" mem_default demo_drain_world] demo_queue_ok by auto
qed

section \<open>Replay\<close>



text \<open>
  Replay is safe to repeat: the second replay of a run creates no post, and the first created
  exactly as many as it reports.
\<close>

theorem replay_twice_creates_nothing:
  assumes "\<And>n. se_fault env n = None" "clock_ahead env w" "replay env pg args w = (Inr c1, w1)"
    "replay env pg args w1 = (Inr c2, w2)"
  shows "rp_created c2 = 0 \<and> map mp_id (db_mediaPosts (sw_db w2)) = map mp_id (db_mediaPosts (sw_db w1))
    \<and> (\<exists>new. map mp_id (db_mediaPosts (sw_db w1)) = map mp_id (db_mediaPosts (sw_db w)) @ new \<and> length new = rp_created c1)"
  by (rule replay_again [OF assms])

theorem replay_twice_creates_nothing_witness:
  "length (db_mediaPosts (sw_db (snd (demo_replay (snd (demo_replay demo_raw)))))) = 1"
proof -
  have "clock_ahead (demo_env (\<lambda>_. None)) demo_raw"
    by (simp add: clock_ahead_def demo_raw_def demo_db_def empty_db_def demo_env_def)
  moreover have "demo_replay demo_raw = (Inr \<lparr>rp_reprocessed = 1, rp_created = 1, rp_changed = 0, rp_invalid = 0\<rparr>,
      snd (demo_replay demo_raw))"
    using demo_replays by (metis prod.collapse)
  moreover have "demo_replay (snd (demo_replay demo_raw)) =
      (Inr \<lparr>rp_reprocessed = 1, rp_created = 0, rp_changed = 0, rp_invalid = 0\<rparr>, snd (demo_replay (snd (demo_replay demo_raw))))"
    using demo_replays_again by (metis prod.collapse)
  ultimately obtain new where "map mp_id (db_mediaPosts (sw_db (snd (demo_replay (snd (demo_replay demo_raw)))))) =
      map mp_id (db_mediaPosts (sw_db demo_raw)) @ new" "length new = 1"
    using replay_twice_creates_nothing [of "demo_env (\<lambda>_. None)" demo_raw] unfolding demo_replay_def by fastforce
  moreover have "db_mediaPosts (sw_db demo_raw) = []" by (simp add: demo_raw_def demo_db_def empty_db_def)
  ultimately show ?thesis by (metis append_Nil length_map list.map(1))
qed

text \<open>
  Replay puts the recorded content back: whatever later runs observed, the post of the last payload
  has its caption, its counts and its expired URL again and counts as seen now, although the comment
  calls a replay safe to run.
\<close>

theorem replay_overwrites_later_observations:
  assumes "\<And>n. se_fault env n = None" "replay env pg args w = (Inr c, w')" "pg (args ! 0) = Some i"
    "findByRunId i (sw_db w) = ps @ [p]" "metaMediaSchema (ne_is_url (se_net env)) (dp_payload p) = Some m"
  shows "\<exists>post. findByIgMediaId (mm_id m) (sw_db w') = Some post \<and> mp_caption post = mm_caption m
    \<and> mp_likeCount post = mm_like_count m \<and> mp_commentsCount post = mm_comments_count m
    \<and> mp_sourceMediaUrl post = mm_media_url m \<and> mp_lastSeenAt post = se_now env (sw_calls w' - 1)"
  by (rule replay_restores [OF assms])

theorem replay_overwrites_later_observations_witness:
  "map mp_caption (db_mediaPosts (sw_db demo_edited)) = [Some (js ''edited'')]
   \<and> (\<exists>post. findByIgMediaId (js ''1'') (sw_db (snd (demo_replay demo_edited))) = Some post \<and> mp_caption post = None)"
proof -
  have run: "demo_replay demo_edited = (Inr \<lparr>rp_reprocessed = 1, rp_created = 0, rp_changed = 1, rp_invalid = 0\<rparr>,
      snd (demo_replay demo_edited))"
    using demo_replays_edited by (metis prod.collapse)
  have rows: "findByRunId 1 (sw_db demo_edited) = [] @ [data_point_of 0 2 (page_input_of demo_options 1 0 demo_page) 0 demo_media]"
    by (simp add: findByRunId_def demo_edited_def demo_raw_def page_rows_def page_input_of_def demo_page_def data_point_of_def)
  have payload: "metaMediaSchema (ne_is_url (se_net (demo_env (\<lambda>_. None))))
      (dp_payload (data_point_of 0 2 (page_input_of demo_options 1 0 demo_page) 0 demo_media)) = Some demo_media"
    using demo_payload by (simp add: data_point_of_def)
  show ?thesis
    using replay_overwrites_later_observations [OF demo_undisturbed run [unfolded demo_replay_def] _ rows payload]
    by (auto simp: demo_replay_def demo_media_def demo_edited_def)
qed

end
