(* ===== verification/Cloud_Api.thy ===== *)
theory Cloud_Api
  imports Schedulers Sync_Service
begin

text \<open>
  What the commands under \<open>commands/\<close> that manage the AWS account ask the SDK clients: a request is the
  command object that is sent, a response an object whose every field may be missing. The client is a
  parameter; what AWS documents of the requests is the hypothesis \<open>aws_service\<close>, over a view of the
  account.
\<close>

section \<open>JSON.stringify of policy documents\<close>

text \<open>The numbers in the documents are whole.\<close>

fun stringify_value :: "json \<Rightarrow> jstr"
  and stringify_elements :: "json list \<Rightarrow> jstr"
  and stringify_fields :: "(jstr \<times> json) list \<Rightarrow> jstr"
where
  "stringify_value JNull = js ''null''"
| "stringify_value (JBool b) = (if b then js ''true'' else js ''false'')"
| "stringify_value (JNum r) = show_int \<lfloor>r\<rfloor>"
| "stringify_value (JStr s) = quote_string s"
| "stringify_value (JArr vs) = 91 # stringify_elements vs @ [93]"
| "stringify_value (JObj kvs) = 123 # stringify_fields kvs @ [125]"
| "stringify_elements [] = []"
| "stringify_elements [v] = stringify_value v"
| "stringify_elements (v # vs) = stringify_value v @ 44 # stringify_elements vs"
| "stringify_fields [] = []"
| "stringify_fields [(k, v)] = quote_string k @ 58 # stringify_value v"
| "stringify_fields ((k, v) # kvs) = quote_string k @ 58 # stringify_value v @ 44 # stringify_fields kvs"

definition jobj :: "(string \<times> json) list \<Rightarrow> json" where
  "jobj kvs = JObj (map (\<lambda>(k, v). (js k, v)) kvs)"

section \<open>Requests and responses\<close>

record lifecycle_rule =
  lr_ID :: string
  lr_Status :: string
  lr_Prefix :: string
  lr_ExpirationDays :: nat
  lr_AbortAfterDays :: nat

record ingress =
  ig_IpProtocol :: string
  ig_FromPort :: nat
  ig_ToPort :: nat
  ig_CidrIp :: jstr
  ig_Description :: string

record launch_spec =
  ln_ImageId :: jstr
  ln_InstanceType :: string
  ln_MinCount :: nat
  ln_MaxCount :: nat
  ln_KeyName :: jstr
  ln_SubnetId :: jstr
  ln_SecurityGroupIds :: "jstr list"
  ln_IamInstanceProfile :: jstr
  ln_UserData :: jstr
  ln_DeviceName :: string
  ln_VolumeSize :: nat
  ln_VolumeType :: string
  ln_DeleteOnTermination :: bool

type_synonym api_filter = "string \<times> jstr list"

datatype aws_request =
    GetCallerIdentity
  | HeadBucket jstr
  | CreateBucket jstr "jstr option" \<comment> \<open>the location constraint\<close>
  | PutPublicAccessBlock jstr bool bool bool bool
  | PutBucketEncryption jstr string
  | PutBucketLifecycle jstr "lifecycle_rule list"
  | ListObjectsV2 jstr nat
  | DeleteObjects jstr "jstr list"
  | DeleteBucket jstr
  | GetQueueUrl jstr
  | CreateQueue jstr "(string \<times> jstr) list"
  | GetQueueAttributes jstr "string list"
  | SetQueueAttributes jstr "(string \<times> jstr) list"
  | DeleteQueue jstr
  | GetRole jstr
  | CreateRole jstr jstr string \<comment> \<open>name, trust policy, description\<close>
  | PutRolePolicy jstr jstr jstr \<comment> \<open>role, policy name, document\<close>
  | DeleteRolePolicy jstr jstr
  | DeleteRole jstr
  | GetInstanceProfile jstr
  | CreateInstanceProfile jstr
  | AddRoleToInstanceProfile jstr jstr
  | CreateSchedule schedule
  | UpdateSchedule schedule
  | DeleteSchedule jstr
  | DescribeInstances "api_filter list"
  | TerminateInstances "jstr list"
  | DescribeVpcs "api_filter list"
  | DescribeSubnets "api_filter list"
  | DescribeSecurityGroups "api_filter list"
  | CreateSecurityGroup jstr string jstr \<comment> \<open>name, description, VPC\<close>
  | AuthorizeSecurityGroupIngress jstr "ingress list"
  | CreateKeyPair jstr
  | DescribeImages "string list" "api_filter list"
  | RunInstances launch_spec
  | CreateTags "jstr list" "(string \<times> jstr) list"

record ec2_instance =
  ei_InstanceId :: "jstr option"
  ei_PublicIpAddress :: "jstr option"

record ec2_image =
  ea_ImageId :: "jstr option"
  ea_CreationDate :: "jstr option"

text \<open>
  One record for the fields the code reads of any response; a list that is missing reads as the empty
  list, which is what the code makes of it (\<open>?? []\<close> and \<open>?.[0]\<close>).
\<close>

record aws_response =
  rs_Account :: "jstr option"
  rs_QueueUrl :: "jstr option"
  rs_QueueArn :: "jstr option"
  rs_RoleArn :: "jstr option"
  rs_Contents :: "jstr option list"
  rs_IsTruncated :: bool
  rs_Errors :: "jstr list" \<comment> \<open>the keys \<open>DeleteObjects\<close> reports as not deleted; no caller reads them\<close>
  rs_Reservations :: "ec2_instance list list"
  rs_Instances :: "ec2_instance list"
  rs_Vpcs :: "jstr option list"
  rs_Subnets :: "jstr option list"
  rs_SecurityGroups :: "jstr option list"
  rs_GroupId :: "jstr option"
  rs_KeyMaterial :: "jstr option"
  rs_Images :: "ec2_image list"

definition no_fields :: aws_response where
  "no_fields =
     \<lparr>rs_Account = None, rs_QueueUrl = None, rs_QueueArn = None, rs_RoleArn = None, rs_Contents = [],
       rs_IsTruncated = False, rs_Errors = [], rs_Reservations = [], rs_Instances = [], rs_Vpcs = [],
       rs_Subnets = [], rs_SecurityGroups = [], rs_GroupId = None, rs_KeyMaterial = None, rs_Images = []\<rparr>"

text \<open>
  The clients of all services as one function on the state of the cloud; \<open>cl_isConflict\<close> is
  \<open>error instanceof ConflictException\<close>, \<open>cl_wait\<close> a pause in milliseconds.
\<close>

record 'w cloud =
  cl_send :: "aws_request \<Rightarrow> 'w \<Rightarrow> (js_error + aws_response) \<times> 'w"
  cl_isConflict :: "js_error \<Rightarrow> bool"
  cl_wait :: "nat \<Rightarrow> 'w \<Rightarrow> 'w"

text \<open>\<open>try { ... } catch { ... }\<close> without a binding, and \<open>if (!x) throw new Error(...)\<close>.\<close>

definition catching :: "('e + 'a) \<times> 'w \<Rightarrow> ('w \<Rightarrow> ('e + 'a) \<times> 'w) \<Rightarrow> ('e + 'a) \<times> 'w" where
  "catching m handler = (case m of (Inl e, w) \<Rightarrow> handler w | (Inr a, w) \<Rightarrow> (Inr a, w))"

definition nonempty_or :: "jstr \<Rightarrow> jstr option \<Rightarrow> 'w \<Rightarrow> (js_error + jstr) \<times> 'w" where
  "nonempty_or message v w =
     (case v of
        None \<Rightarrow> (Inl (Plain_Error message), w)
      | Some s \<Rightarrow> if s = [] then (Inl (Plain_Error message), w) else (Inr s, w))"

text \<open>The clients as \<open>EventBridgeScheduler\<close> uses them.\<close>

definition scheduler_client_of :: "'w cloud \<Rightarrow> 'w scheduler_client" where
  "scheduler_client_of c =
     (let unit_call = (\<lambda>q w. case cl_send c q w of (Inl e, w1) \<Rightarrow> (Inl e, w1) | (Inr r, w1) \<Rightarrow> (Inr (), w1))
      in \<lparr>sx_getQueueArn = (\<lambda>url w. case cl_send c (GetQueueAttributes (show_undefined url) [''QueueArn'']) w of
             (Inl e, w1) \<Rightarrow> Inl e | (Inr r, w1) \<Rightarrow> Inr (rs_QueueArn r)),
           sx_createSchedule = (\<lambda>sc. unit_call (CreateSchedule sc)),
           sx_updateSchedule = (\<lambda>sc. unit_call (UpdateSchedule sc)), sx_isConflict = cl_isConflict c\<rparr>)"

end
