(* ===== verification/Cloud_Account.thy ===== *)
theory Cloud_Account
  imports Cloud_Api
begin

text \<open>
  An AWS account as the management commands see it, and what AWS documents of the requests they send:
  when an answer can be given at all and what is in it (\<open>accepted\<close>), and what the request does to the account
  (\<open>effect\<close>). Both only serve to state the hypothesis \<open>aws_service\<close> about the client, a parameter.
\<close>

section \<open>The account\<close>

record bucket =
  bk_accessBlock :: "bool list"
  bk_encryption :: "string option"
  bk_lifecycle :: "lifecycle_rule list"
  bk_keys :: "jstr list"

record queue_resource =
  qr_arn :: jstr
  qr_attributes :: "string \<Rightarrow> jstr option"

record role =
  ro_arn :: jstr
  ro_trust :: jstr
  ro_policies :: "jstr \<Rightarrow> jstr option"

record security_group =
  sg_id :: jstr
  sg_name :: jstr
  sg_vpc :: jstr
  sg_ingress :: "ingress list"

record vm =
  vm_id :: jstr
  vm_state :: string
  vm_tagName :: "jstr option"
  vm_spec :: launch_spec

record account =
  cl_id :: jstr
  cl_region :: jstr
  cl_newBucket :: bucket \<comment> \<open>the settings AWS gives a new bucket\<close>
  cl_vpcs :: "jstr list" \<comment> \<open>the default VPCs\<close>
  cl_subnets :: "(jstr \<times> jstr) list" \<comment> \<open>with their VPC\<close>
  cl_buckets :: "jstr \<Rightarrow> bucket option"
  cl_queues :: "jstr \<Rightarrow> queue_resource option" \<comment> \<open>by URL\<close>
  cl_roles :: "jstr \<Rightarrow> role option"
  cl_schedules :: "jstr \<Rightarrow> schedule option"
  cl_profiles :: "jstr \<Rightarrow> jstr list option"
  cl_groups :: "security_group list"
  cl_keys :: "jstr set"
  cl_instances :: "vm list"

definition sqs_url :: "account \<Rightarrow> jstr \<Rightarrow> jstr" where
  "sqs_url a name = js ''https://sqs.'' @ cl_region a @ js ''.amazonaws.com/'' @ cl_id a @ 47 # name"

definition sqs_arn :: "account \<Rightarrow> jstr \<Rightarrow> jstr" where
  "sqs_arn a name = js ''arn:aws:sqs:'' @ cl_region a @ 58 # cl_id a @ 58 # name"

definition iam_role_arn :: "account \<Rightarrow> jstr \<Rightarrow> jstr" where
  "iam_role_arn a name = js ''arn:aws:iam::'' @ cl_id a @ js '':role/'' @ name"

lemma sqs_url_inject [simp]: "sqs_url a n = sqs_url a m \<longleftrightarrow> n = m"
  by (simp add: sqs_url_def)

lemma names_upd [simp]:
  "sqs_url (cl_buckets_update f1 a) = sqs_url a" "sqs_url (cl_queues_update f2 a) = sqs_url a"
  "sqs_url (cl_roles_update f3 a) = sqs_url a" "sqs_url (cl_schedules_update f4 a) = sqs_url a"
  by (simp_all add: fun_eq_iff sqs_url_def)

text \<open>Filters: an instance passes when each filter lists its value; other filters are not used.\<close>

definition vm_matches :: "api_filter list \<Rightarrow> vm \<Rightarrow> bool" where
  "vm_matches fs v \<longleftrightarrow>
     (\<forall>(name, vals) \<in> set fs.
        if name = ''tag:Name'' then (\<exists>t. vm_tagName v = Some t \<and> t \<in> set vals)
        else name = ''instance-state-name'' \<longrightarrow> js (vm_state v) \<in> set vals)"

definition group_matches :: "api_filter list \<Rightarrow> security_group \<Rightarrow> bool" where
  "group_matches fs g \<longleftrightarrow>
     (\<forall>(name, vals) \<in> set fs.
        if name = ''group-name'' then sg_name g \<in> set vals else name = ''vpc-id'' \<longrightarrow> sg_vpc g \<in> set vals)"

definition subnet_matches :: "api_filter list \<Rightarrow> jstr \<times> jstr \<Rightarrow> bool" where
  "subnet_matches fs s \<longleftrightarrow> (\<forall>(name, vals) \<in> set fs. name = ''vpc-id'' \<longrightarrow> snd s \<in> set vals)"

section \<open>What an accepted request implies\<close>

fun accepted :: "aws_request \<Rightarrow> account \<Rightarrow> aws_response \<Rightarrow> bool" where
  "accepted GetCallerIdentity a r \<longleftrightarrow> rs_Account r = Some (cl_id a)"
| "accepted (HeadBucket b) a r \<longleftrightarrow> cl_buckets a b \<noteq> None"
| "accepted (CreateBucket b loc) a r \<longleftrightarrow> cl_buckets a b = None \<or> cl_region a = js ''us-east-1''"
| "accepted (PutPublicAccessBlock b p q s t) a r \<longleftrightarrow> cl_buckets a b \<noteq> None"
| "accepted (PutBucketEncryption b x) a r \<longleftrightarrow> cl_buckets a b \<noteq> None"
| "accepted (PutBucketLifecycle b x) a r \<longleftrightarrow> cl_buckets a b \<noteq> None"
| "accepted (ListObjectsV2 b n) a r \<longleftrightarrow>
     (\<exists>B ks. cl_buckets a b = Some B \<and> rs_Contents r = map Some ks \<and> set ks \<subseteq> set (bk_keys B)
        \<and> length ks \<le> n \<and> [] \<notin> set ks \<and> (ks = [] \<longrightarrow> bk_keys B = []) \<and> (rs_IsTruncated r \<or> set ks = set (bk_keys B)))"
| "accepted (DeleteObjects b ks) a r \<longleftrightarrow> cl_buckets a b \<noteq> None \<and> set (rs_Errors r) \<subseteq> set ks"
| "accepted (DeleteBucket b) a r \<longleftrightarrow> (\<exists>B. cl_buckets a b = Some B \<and> bk_keys B = [])"
| "accepted (GetQueueUrl n) a r \<longleftrightarrow> cl_queues a (sqs_url a n) \<noteq> None \<and> rs_QueueUrl r = Some (sqs_url a n)"
| "accepted (CreateQueue n atts) a r \<longleftrightarrow>
     rs_QueueUrl r = Some (sqs_url a n)
     \<and> (case cl_queues a (sqs_url a n) of
          None \<Rightarrow> True | Some q \<Rightarrow> (\<forall>(k, v) \<in> set atts. qr_attributes q k = Some v))"
| "accepted (GetQueueAttributes url ns) a r \<longleftrightarrow>
     (\<exists>q. cl_queues a url = Some q \<and> (''QueueArn'' \<in> set ns \<longrightarrow> rs_QueueArn r = Some (qr_arn q)))"
| "accepted (SetQueueAttributes url atts) a r \<longleftrightarrow> cl_queues a url \<noteq> None"
| "accepted (DeleteQueue url) a r \<longleftrightarrow> cl_queues a url \<noteq> None"
| "accepted (GetRole n) a r \<longleftrightarrow> (\<exists>x. cl_roles a n = Some x \<and> rs_RoleArn r = Some (ro_arn x))"
| "accepted (CreateRole n doc desc) a r \<longleftrightarrow> cl_roles a n = None \<and> rs_RoleArn r = Some (iam_role_arn a n)"
| "accepted (PutRolePolicy n p doc) a r \<longleftrightarrow> cl_roles a n \<noteq> None"
| "accepted (DeleteRolePolicy n p) a r \<longleftrightarrow> (\<exists>x. cl_roles a n = Some x \<and> ro_policies x p \<noteq> None)"
| "accepted (DeleteRole n) a r \<longleftrightarrow> (\<exists>x. cl_roles a n = Some x \<and> ro_policies x = Map.empty)"
| "accepted (GetInstanceProfile n) a r \<longleftrightarrow> cl_profiles a n \<noteq> None"
| "accepted (CreateInstanceProfile n) a r \<longleftrightarrow> cl_profiles a n = None"
| "accepted (AddRoleToInstanceProfile n x) a r \<longleftrightarrow> cl_profiles a n = Some [] \<and> cl_roles a x \<noteq> None"
| "accepted (CreateSchedule sc) a r \<longleftrightarrow> cl_schedules a (sd_Name sc) = None"
| "accepted (UpdateSchedule sc) a r \<longleftrightarrow> cl_schedules a (sd_Name sc) \<noteq> None"
| "accepted (DeleteSchedule n) a r \<longleftrightarrow> cl_schedules a n \<noteq> None"
| "accepted (DescribeInstances fs) a r \<longleftrightarrow>
     [] \<notin> set (rs_Reservations r)
     \<and> mset (map ei_InstanceId (concat (rs_Reservations r))) =
         mset (map (\<lambda>v. Some (vm_id v)) (filter (vm_matches fs) (cl_instances a)))"
| "accepted (TerminateInstances ids) a r \<longleftrightarrow> set ids \<subseteq> vm_id ` set (cl_instances a)"
| "accepted (DescribeVpcs fs) a r \<longleftrightarrow> rs_Vpcs r = map Some (cl_vpcs a)"
| "accepted (DescribeSubnets fs) a r \<longleftrightarrow>
     rs_Subnets r = map (\<lambda>s. Some (fst s)) (filter (subnet_matches fs) (cl_subnets a))"
| "accepted (DescribeSecurityGroups fs) a r \<longleftrightarrow>
     rs_SecurityGroups r = map (\<lambda>g. Some (sg_id g)) (filter (group_matches fs) (cl_groups a))"
| "accepted (CreateSecurityGroup n d v) a r \<longleftrightarrow>
     (\<exists>i. rs_GroupId r = Some i \<and> i \<noteq> [] \<and> i \<notin> sg_id ` set (cl_groups a))
     \<and> (\<forall>g \<in> set (cl_groups a). \<not> (sg_name g = n \<and> sg_vpc g = v))"
| "accepted (AuthorizeSecurityGroupIngress i ps) a r \<longleftrightarrow> i \<in> sg_id ` set (cl_groups a)"
| "accepted (CreateKeyPair n) a r \<longleftrightarrow> n \<notin> cl_keys a"
| "accepted (DescribeImages os fs) a r \<longleftrightarrow> True"
| "accepted (RunInstances l) a r \<longleftrightarrow>
     (\<exists>i ip. rs_Instances r = [\<lparr>ei_InstanceId = Some i, ei_PublicIpAddress = ip\<rparr>] \<and> i \<noteq> []
        \<and> i \<notin> vm_id ` set (cl_instances a))"
| "accepted (CreateTags ids tags) a r \<longleftrightarrow> set ids \<subseteq> vm_id ` set (cl_instances a)"

section \<open>What a request does to the account\<close>

definition change_bucket :: "jstr \<Rightarrow> (bucket \<Rightarrow> bucket) \<Rightarrow> account \<Rightarrow> account" where
  "change_bucket b f a = a\<lparr>cl_buckets := (cl_buckets a)(b := map_option f (cl_buckets a b))\<rparr>"

definition change_role :: "jstr \<Rightarrow> (role \<Rightarrow> role) \<Rightarrow> account \<Rightarrow> account" where
  "change_role n f a = a\<lparr>cl_roles := (cl_roles a)(n := map_option f (cl_roles a n))\<rparr>"

fun effect :: "aws_request \<Rightarrow> aws_response \<Rightarrow> account \<Rightarrow> account" where
  "effect (CreateBucket b loc) r a =
     (case cl_buckets a b of
        Some _ \<Rightarrow> a | None \<Rightarrow> a\<lparr>cl_buckets := (cl_buckets a)(b \<mapsto> (cl_newBucket a)\<lparr>bk_keys := []\<rparr>)\<rparr>)"
| "effect (PutPublicAccessBlock b p q s t) r a = change_bucket b (bk_accessBlock_update (\<lambda>_. [p, q, s, t])) a"
| "effect (PutBucketEncryption b x) r a = change_bucket b (bk_encryption_update (\<lambda>_. Some x)) a"
| "effect (PutBucketLifecycle b x) r a = change_bucket b (bk_lifecycle_update (\<lambda>_. x)) a"
| "effect (DeleteObjects b ks) r a =
     change_bucket b (bk_keys_update (filter (\<lambda>k. k \<notin> set ks \<or> k \<in> set (rs_Errors r)))) a"
| "effect (DeleteBucket b) r a = a\<lparr>cl_buckets := (cl_buckets a)(b := None)\<rparr>"
| "effect (CreateQueue n atts) r a =
     (case cl_queues a (sqs_url a n) of
        Some _ \<Rightarrow> a
      | None \<Rightarrow> a\<lparr>cl_queues := (cl_queues a)(sqs_url a n \<mapsto> \<lparr>qr_arn = sqs_arn a n, qr_attributes = map_of atts\<rparr>)\<rparr>)"
| "effect (SetQueueAttributes url atts) r a =
     a\<lparr>cl_queues := (cl_queues a)(url := map_option (qr_attributes_update (\<lambda>m. m ++ map_of atts)) (cl_queues a url))\<rparr>"
| "effect (DeleteQueue url) r a = a\<lparr>cl_queues := (cl_queues a)(url := None)\<rparr>"
| "effect (CreateRole n doc desc) r a =
     a\<lparr>cl_roles := (cl_roles a)(n \<mapsto> \<lparr>ro_arn = iam_role_arn a n, ro_trust = doc, ro_policies = Map.empty\<rparr>)\<rparr>"
| "effect (PutRolePolicy n p doc) r a = change_role n (ro_policies_update (\<lambda>m. m(p \<mapsto> doc))) a"
| "effect (DeleteRolePolicy n p) r a = change_role n (ro_policies_update (\<lambda>m. m(p := None))) a"
| "effect (DeleteRole n) r a = a\<lparr>cl_roles := (cl_roles a)(n := None)\<rparr>"
| "effect (CreateInstanceProfile n) r a = a\<lparr>cl_profiles := (cl_profiles a)(n \<mapsto> [])\<rparr>"
| "effect (AddRoleToInstanceProfile n x) r a = a\<lparr>cl_profiles := (cl_profiles a)(n \<mapsto> [x])\<rparr>"
| "effect (CreateSchedule sc) r a = a\<lparr>cl_schedules := (cl_schedules a)(sd_Name sc \<mapsto> sc)\<rparr>"
| "effect (UpdateSchedule sc) r a = a\<lparr>cl_schedules := (cl_schedules a)(sd_Name sc \<mapsto> sc)\<rparr>"
| "effect (DeleteSchedule n) r a = a\<lparr>cl_schedules := (cl_schedules a)(n := None)\<rparr>"
| "effect (TerminateInstances ids) r a =
     a\<lparr>cl_instances := update_where (\<lambda>v. vm_id v \<in> set ids \<and> vm_state v \<noteq> ''terminated'')
          (vm_state_update (\<lambda>_. ''shutting-down'')) (cl_instances a)\<rparr>"
| "effect (CreateSecurityGroup n d v) r a =
     a\<lparr>cl_groups := cl_groups a @ [\<lparr>sg_id = the (rs_GroupId r), sg_name = n, sg_vpc = v, sg_ingress = []\<rparr>]\<rparr>"
| "effect (AuthorizeSecurityGroupIngress i ps) r a =
     a\<lparr>cl_groups := update_where (\<lambda>g. sg_id g = i) (sg_ingress_update (\<lambda>xs. xs @ ps)) (cl_groups a)\<rparr>"
| "effect (CreateKeyPair n) r a = a\<lparr>cl_keys := insert n (cl_keys a)\<rparr>"
| "effect (RunInstances l) r a =
     a\<lparr>cl_instances := cl_instances a @ [\<lparr>vm_id = the (ei_InstanceId (hd (rs_Instances r))), vm_state = ''pending'',
          vm_tagName = None, vm_spec = l\<rparr>]\<rparr>"
| "effect (CreateTags ids tags) r a =
     a\<lparr>cl_instances := update_where (\<lambda>v. vm_id v \<in> set ids)
          (vm_tagName_update (\<lambda>t. case map_of tags ''Name'' of None \<Rightarrow> t | Some n \<Rightarrow> Some n)) (cl_instances a)\<rparr>"
| "effect q r a = a"

text \<open>
  The hypothesis: an answered request was acceptable and has had its effect, a rejected one has had no
  effect or, when only the answer was lost, its effect; a pause changes nothing.
\<close>

definition aws_service :: "'w cloud \<Rightarrow> ('w \<Rightarrow> account) \<Rightarrow> bool" where
  "aws_service c view \<longleftrightarrow>
     (\<forall>q w. case cl_send c q w of
        (Inr r, w1) \<Rightarrow> accepted q (view w) r \<and> view w1 = effect q r (view w)
      | (Inl e, w1) \<Rightarrow> view w1 = view w \<or> (\<exists>r. accepted q (view w) r \<and> view w1 = effect q r (view w)))
     \<and> (\<forall>n w. view (cl_wait c n w) = view w)"

text \<open>A service with nothing in the way: whatever is acceptable is answered, a taken schedule name is a conflict.\<close>

definition aws_responsive :: "'w cloud \<Rightarrow> ('w \<Rightarrow> account) \<Rightarrow> bool" where
  "aws_responsive c view \<longleftrightarrow>
     (\<forall>q w r. accepted q (view w) r \<longrightarrow> \<not> isl (fst (cl_send c q w)))
     \<and> (\<forall>sc w e. fst (cl_send c (CreateSchedule sc) w) = Inl e \<longrightarrow> cl_isConflict c e)"

lemma service_answered:
  assumes "aws_service c view" "cl_send c q w = (Inr r, w1)"
  shows "accepted q (view w) r" "view w1 = effect q r (view w)"
proof -
  have "case cl_send c q w of
        (Inr r, w1) \<Rightarrow> accepted q (view w) r \<and> view w1 = effect q r (view w)
      | (Inl e, w1) \<Rightarrow> view w1 = view w \<or> (\<exists>r. accepted q (view w) r \<and> view w1 = effect q r (view w))"
    using assms(1) by (simp add: aws_service_def)
  then show "accepted q (view w) r" "view w1 = effect q r (view w)" using assms(2) by simp_all
qed

lemma service_ok:
  "aws_service c view \<Longrightarrow> cl_send c q w = (Inr r, w1) \<Longrightarrow> accepted q (view w) r \<and> view w1 = effect q r (view w)"
  by (intro conjI service_answered)

lemma service_rejected:
  assumes "aws_service c view" "cl_send c q w = (Inl e, w1)"
  obtains "view w1 = view w" | r where "accepted q (view w) r" "view w1 = effect q r (view w)"
proof -
  have "case cl_send c q w of
        (Inr r, w1) \<Rightarrow> accepted q (view w) r \<and> view w1 = effect q r (view w)
      | (Inl e, w1) \<Rightarrow> view w1 = view w \<or> (\<exists>r. accepted q (view w) r \<and> view w1 = effect q r (view w))"
    using assms(1) by (simp add: aws_service_def)
  then show ?thesis using assms(2) that by auto
qed

lemma service_wait: "aws_service c view \<Longrightarrow> view (cl_wait c n w) = view w"
  by (simp add: aws_service_def)

lemma responsive_answers:
  assumes "aws_responsive c view" "aws_service c view" "accepted q (view w) r0"
  obtains r w1 where "cl_send c q w = (Inr r, w1)" "accepted q (view w) r" "view w1 = effect q r (view w)"
proof -
  have "\<not> isl (fst (cl_send c q w))" using assms(1,3) by (auto simp: aws_responsive_def)
  then obtain r w1 where "cl_send c q w = (Inr r, w1)"
    by (metis prod.collapse sum.collapse(2))
  then show ?thesis using that service_answered [OF assms(2)] by blast
qed

lemma responsive_ok:
  assumes "aws_responsive c view" "aws_service c view" "\<exists>r0. accepted q (view w) r0"
  shows "\<exists>r w1. cl_send c q w = (Inr r, w1) \<and> accepted q (view w) r \<and> view w1 = effect q r (view w)"
proof -
  obtain r0 where "accepted q (view w) r0" using assms(3) by blast
  then show ?thesis by (rule responsive_answers [OF assms(1,2)]) blast
qed

text \<open>A request that only reads, whatever comes of it.\<close>

lemma reading_view:
  assumes "aws_service c view" "cl_send c q w = (x, w1)" "\<And>r a. effect q r a = a"
  shows "view w1 = view w"
  using service_answered(2) [OF assms(1)] service_rejected [OF assms(1)] assms(2,3) by (cases x) metis+

section \<open>What a sequence of requests does\<close>

text \<open>
  A relation between accounts that is kept by every effect of a kind of request: it then relates the account
  before and after any program that only sends requests of that kind, whatever is rejected in between.
\<close>

definition request_safe :: "(account \<Rightarrow> account \<Rightarrow> bool) \<Rightarrow> aws_request \<Rightarrow> bool" where
  "request_safe R q \<longleftrightarrow> (\<forall>a r. accepted q a r \<longrightarrow> R a (effect q r a))"

lemma request_safeI: "(\<And>a r. accepted q a r \<Longrightarrow> R a (effect q r a)) \<Longrightarrow> request_safe R q"
  by (simp add: request_safe_def)

lemma send_related:
  assumes "aws_service c view" "request_safe R q" "\<And>a. R a a" "cl_send c q w = (x, w1)"
  shows "R (view w) (view w1)"
proof (cases x)
  case (Inl e)
  then show ?thesis
    using service_rejected [OF assms(1)] assms(2-4) unfolding request_safe_def by metis
next
  case (Inr r)
  then show ?thesis
    using service_answered [OF assms(1)] assms(2,4) unfolding request_safe_def by metis
qed

text \<open>The same for programs: one rule per construct of the commands.\<close>

named_theorems keeps_intros \<open>rules for what a program keeps\<close>

definition keeps ::
  "('w \<Rightarrow> account) \<Rightarrow> (account \<Rightarrow> account \<Rightarrow> bool) \<Rightarrow> ('w \<Rightarrow> ('e + 'a) \<times> 'w) \<Rightarrow> bool" where
  "keeps view R f \<longleftrightarrow> (\<forall>w x w1. f w = (x, w1) \<longrightarrow> R (view w) (view w1))"

definition preorder_on_accounts :: "(account \<Rightarrow> account \<Rightarrow> bool) \<Rightarrow> bool" where
  "preorder_on_accounts R \<longleftrightarrow> reflp R \<and> transp R"

lemma keepsD: "keeps view R f \<Longrightarrow> f w = (x, w1) \<Longrightarrow> R (view w) (view w1)"
  by (auto simp: keeps_def)

lemma keeps_send [keeps_intros]:
  "aws_service c view \<Longrightarrow> preorder_on_accounts R \<Longrightarrow> request_safe R q \<Longrightarrow> keeps view R (cl_send c q)"
  using send_related by (fastforce simp: keeps_def preorder_on_accounts_def reflp_def)

lemma keeps_done [keeps_intros]: "preorder_on_accounts R \<Longrightarrow> keeps view R (\<lambda>w. (x, w))"
  by (auto simp: keeps_def preorder_on_accounts_def reflp_def)

lemma keeps_nonempty_or [keeps_intros]: "preorder_on_accounts R \<Longrightarrow> keeps view R (nonempty_or m v)"
  by (auto simp: keeps_def preorder_on_accounts_def reflp_def nonempty_or_def split: option.splits if_splits)

lemma keeps_then [keeps_intros]:
  assumes "preorder_on_accounts R" "keeps view R m" "\<And>a. keeps view R (k a)"
  shows "keeps view R (\<lambda>w. then_do (m w) k)"
  unfolding keeps_def
proof (intro allI impI)
  fix w x w2 assume "then_do (m w) k = (x, w2)"
  then consider e where "m w = (Inl e, w2)" | a w1 where "m w = (Inr a, w1)" "k a w1 = (x, w2)"
    by (cases "m w"; cases "fst (m w)") (auto simp: then_do_def)
  then show "R (view w) (view w2)"
    using assms by cases (auto simp: preorder_on_accounts_def dest: keepsD transpD)
qed

lemma keeps_catching [keeps_intros]:
  assumes "preorder_on_accounts R" "keeps view R m" "keeps view R h"
  shows "keeps view R (\<lambda>w. catching (m w) h)"
  unfolding keeps_def
proof (intro allI impI)
  fix w x w2 assume "catching (m w) h = (x, w2)"
  then consider a where "m w = (Inr a, w2)" | e w1 where "m w = (Inl e, w1)" "h w1 = (x, w2)"
    by (cases "m w"; cases "fst (m w)") (auto simp: catching_def)
  then show "R (view w) (view w2)"
    using assms by cases (auto simp: preorder_on_accounts_def dest: keepsD transpD)
qed

lemma keeps_try [keeps_intros]:
  assumes "preorder_on_accounts R" "keeps view R m" "keeps view R h" "\<And>a. keeps view R (k a)"
  shows "keeps view R (\<lambda>w. case m w of (Inl e, w1) \<Rightarrow> h w1 | (Inr a, w1) \<Rightarrow> k a w1)"
  unfolding keeps_def
proof (intro allI impI)
  fix w x w2 assume "(case m w of (Inl e, w1) \<Rightarrow> h w1 | (Inr a, w1) \<Rightarrow> k a w1) = (x, w2)"
  then consider a w1 where "m w = (Inr a, w1)" "k a w1 = (x, w2)" | e w1 where "m w = (Inl e, w1)" "h w1 = (x, w2)"
    by (cases "m w"; cases "fst (m w)") auto
  then show "R (view w) (view w2)"
  proof cases
    case 1
    then have "R (view w) (view w1)" "R (view w1) (view w2)" using keepsD [OF assms(2)] keepsD [OF assms(4)] by blast+
    then show ?thesis using assms(1) by (auto simp: preorder_on_accounts_def dest: transpD)
  next
    case 2
    then have "R (view w) (view w1)" "R (view w1) (view w2)" using keepsD [OF assms(2)] keepsD [OF assms(3)] by blast+
    then show ?thesis using assms(1) by (auto simp: preorder_on_accounts_def dest: transpD)
  qed
qed

lemma keeps_option [keeps_intros]:
  "keeps view R f \<Longrightarrow> (\<And>s. keeps view R (g s)) \<Longrightarrow>
     keeps view R (\<lambda>w. case v of None \<Rightarrow> f w | Some s \<Rightarrow> g s w)"
  by (cases v) simp_all

lemma keeps_waited [keeps_intros]: "aws_service c view \<Longrightarrow> keeps view R f \<Longrightarrow> keeps view R (\<lambda>w. f (cl_wait c n w))"
  unfolding keeps_def by (metis service_wait)

lemma keeps_if [keeps_intros]:
  "(b \<Longrightarrow> keeps view R f) \<Longrightarrow> (\<not> b \<Longrightarrow> keeps view R g) \<Longrightarrow> keeps view R (\<lambda>w. if b then f w else g w)"
  by (cases b) simp_all

text \<open>
  Relative to what identifies the account, and with what is known of the value a step returned.
\<close>

definition same_account :: "account \<Rightarrow> account \<Rightarrow> bool" where
  "same_account a0 a \<longleftrightarrow> cl_id a = cl_id a0 \<and> cl_region a = cl_region a0"

lemma same_account_names:
  assumes "same_account a0 a"
  shows "sqs_url a n = sqs_url a0 n" "sqs_arn a n = sqs_arn a0 n" "iam_role_arn a n = iam_role_arn a0 n"
    "cl_id a = cl_id a0" "cl_region a = cl_region a0"
  using assms by (simp_all add: same_account_def sqs_url_def sqs_arn_def iam_role_arn_def)

definition inside :: "account \<Rightarrow> (account \<Rightarrow> account \<Rightarrow> bool) \<Rightarrow> account \<Rightarrow> account \<Rightarrow> bool" where
  "inside a0 R a b \<longleftrightarrow> (same_account a0 a \<longrightarrow> same_account a0 b \<and> R a b)"

lemma inside_preorder [intro, simp]: "preorder_on_accounts R \<Longrightarrow> preorder_on_accounts (inside a0 R)"
  unfolding preorder_on_accounts_def by (auto intro!: reflpI transpI simp: inside_def dest: reflpD transpD)

lemma keeps_inside: "keeps view (inside a0 R) f \<Longrightarrow> f w = (x, w1) \<Longrightarrow> view w = a0 \<Longrightarrow> R a0 (view w1)"
  by (fastforce simp: keeps_def inside_def same_account_def)

lemma keeps_then_value:
  assumes "preorder_on_accounts R" "keeps view (inside a0 R) m"
    "\<And>w a w1. same_account a0 (view w) \<Longrightarrow> m w = (Inr a, w1) \<Longrightarrow> V a"
    "\<And>a. V a \<Longrightarrow> keeps view (inside a0 R) (k a)"
  shows "keeps view (inside a0 R) (\<lambda>w. then_do (m w) k)"
  unfolding keeps_def
proof (intro allI impI)
  fix w x w2 assume run: "then_do (m w) k = (x, w2)"
  show "inside a0 R (view w) (view w2)"
  proof (cases "same_account a0 (view w)")
    case True
    from run consider e where "m w = (Inl e, w2)" | a w1 where "m w = (Inr a, w1)" "k a w1 = (x, w2)"
      by (cases "m w"; cases "fst (m w)") (auto simp: then_do_def)
    then show ?thesis
    proof cases
      case 1
      then show ?thesis using assms(2) by (blast dest: keepsD)
    next
      case (2 a w1)
      then have "inside a0 R (view w) (view w1)" "inside a0 R (view w1) (view w2)"
        using assms(2,4) assms(3) [OF True] by (blast dest: keepsD)+
      then show ?thesis
        using inside_preorder [OF assms(1)] unfolding preorder_on_accounts_def by (blast dest: transpD)
    qed
  qed (simp add: inside_def)
qed

text \<open>A program that went through did so step by step.\<close>

lemma then_do_Inr: "then_do m k = (Inr b, w2) \<longleftrightarrow> (\<exists>a w1. m = (Inr a, w1) \<and> k a w1 = (Inr b, w2))"
  by (cases m; cases "fst m") (auto simp: then_do_def)

lemma catching_Inr:
  "catching m h = (Inr b, w2) \<longleftrightarrow> m = (Inr b, w2) \<or> (\<exists>e w1. m = (Inl e, w1) \<and> h w1 = (Inr b, w2))"
  by (cases m; cases "fst m") (auto simp: catching_def)

lemma nonempty_or_Inr: "nonempty_or msg v w = (Inr s, w1) \<longleftrightarrow> v = Some s \<and> s \<noteq> [] \<and> w1 = w"
  by (auto simp: nonempty_or_def split: option.splits if_splits)

lemmas went_through = then_do_Inr catching_Inr nonempty_or_Inr

end
