(* ===== verification/Provision.thy ===== *)
theory Provision
  imports Cloud_Account Adapters
begin

text \<open>
  \<open>commands/provisionAws.ts\<close>: the bucket, the two queues with their redrive policy, the role EventBridge
  assumes and the schedule. \<open>cfg\<close> is the loaded environment. Log lines are left out.
\<close>

definition QUEUE_NAME :: jstr where
  "QUEUE_NAME = js ''hashtag-pipeline-jobs''"

definition DLQ_NAME :: jstr where
  "DLQ_NAME = js ''hashtag-pipeline-jobs-dlq''"

definition SCHEDULER_ROLE_NAME :: jstr where
  "SCHEDULER_ROLE_NAME = js ''hashtag-pipeline-scheduler-role''"

definition SEND_POLICY_NAME :: jstr where
  "SEND_POLICY_NAME = js ''send-message-to-jobs-queue''"

section \<open>The steps\<close>

definition resolveAccountId :: "'w cloud \<Rightarrow> 'w \<Rightarrow> (js_error + jstr) \<times> 'w" where
  "resolveAccountId c w =
     then_do (cl_send c GetCallerIdentity w) (\<lambda>identity.
       nonempty_or (js ''could not resolve AWS account ID'') (rs_Account identity))"

definition bucket_name :: "config \<Rightarrow> jstr \<Rightarrow> jstr" where
  "bucket_name cfg accountId =
     (case ev_S3_BUCKET cfg of
        None \<Rightarrow> js ''hashtag-media-'' @ accountId
      | Some b \<Rightarrow> if b = [] then js ''hashtag-media-'' @ accountId else b)"

definition location_constraint :: "jstr \<Rightarrow> jstr option" where
  "location_constraint region = (if region = js ''us-east-1'' then None else Some region)"

definition ensureBucket :: "'w cloud \<Rightarrow> config \<Rightarrow> jstr \<Rightarrow> jstr \<Rightarrow> 'w \<Rightarrow> (js_error + jstr) \<times> 'w" where
  "ensureBucket c cfg region accountId w =
     (let bucket = bucket_name cfg accountId
      in then_do (catching (cl_send c (HeadBucket bucket) w)
           (cl_send c (CreateBucket bucket (location_constraint region)))) (\<lambda>r1 w1.
         then_do (cl_send c (PutPublicAccessBlock bucket True True True True) w1) (\<lambda>r2 w2.
         then_do (cl_send c (PutBucketEncryption bucket ''AES256'') w2) (\<lambda>r3 w3. (Inr bucket, w3)))))"

definition queue_attributes :: "config \<Rightarrow> (string \<times> jstr) list" where
  "queue_attributes cfg =
     [(''VisibilityTimeout'', dec_digits (ev_SQS_VISIBILITY_TIMEOUT cfg)),
      (''MessageRetentionPeriod'', js ''1209600'')]"

definition create_queue :: "'w cloud \<Rightarrow> config \<Rightarrow> jstr \<Rightarrow> 'w \<Rightarrow> (js_error + jstr) \<times> 'w" where
  "create_queue c cfg name w =
     then_do (cl_send c (CreateQueue name (queue_attributes cfg)) w) (\<lambda>created.
       nonempty_or (js ''failed to create queue '' @ name) (rs_QueueUrl created))"

definition ensureQueueUrl :: "'w cloud \<Rightarrow> config \<Rightarrow> jstr \<Rightarrow> 'w \<Rightarrow> (js_error + jstr) \<times> 'w" where
  "ensureQueueUrl c cfg name w =
     (case cl_send c (GetQueueUrl name) w of
        (Inl e, w1) \<Rightarrow> create_queue c cfg name w1
      | (Inr existing, w1) \<Rightarrow>
          (case rs_QueueUrl existing of
             None \<Rightarrow> create_queue c cfg name w1
           | Some url \<Rightarrow> if url = [] then create_queue c cfg name w1 else (Inr url, w1)))"

definition queueArn :: "'w cloud \<Rightarrow> jstr \<Rightarrow> 'w \<Rightarrow> (js_error + jstr) \<times> 'w" where
  "queueArn c url w =
     then_do (cl_send c (GetQueueAttributes url [''QueueArn'']) w) (\<lambda>attrs.
       nonempty_or (js ''could not resolve ARN for '' @ url) (rs_QueueArn attrs))"

definition redrive_policy :: "jstr \<Rightarrow> jstr" where
  "redrive_policy dlqArn = stringify_value (jobj [(''deadLetterTargetArn'', JStr dlqArn), (''maxReceiveCount'', JNum 3)])"

definition redrive_attributes :: "config \<Rightarrow> jstr \<Rightarrow> (string \<times> jstr) list" where
  "redrive_attributes cfg dlqArn =
     [(''RedrivePolicy'', redrive_policy dlqArn),
      (''VisibilityTimeout'', dec_digits (ev_SQS_VISIBILITY_TIMEOUT cfg))]"

definition ensureQueues :: "'w cloud \<Rightarrow> config \<Rightarrow> 'w \<Rightarrow> (js_error + jstr \<times> jstr) \<times> 'w" where
  "ensureQueues c cfg w =
     then_do (ensureQueueUrl c cfg DLQ_NAME w) (\<lambda>dlqUrl w1.
     then_do (queueArn c dlqUrl w1) (\<lambda>dlqArn w2.
     then_do (ensureQueueUrl c cfg QUEUE_NAME w2) (\<lambda>queueUrl w3.
     then_do (cl_send c (SetQueueAttributes queueUrl (redrive_attributes cfg dlqArn)) w3) (\<lambda>r w4.
       (Inr (queueUrl, dlqUrl), w4)))))"

definition trust_policy :: "string \<Rightarrow> jstr" where
  "trust_policy service = stringify_value (jobj [(''Version'', JStr (js ''2012-10-17'')),
     (''Statement'', JArr [jobj [(''Effect'', JStr (js ''Allow'')),
        (''Principal'', jobj [(''Service'', JStr (js service))]),
        (''Action'', JStr (js ''sts:AssumeRole''))]])])"

definition send_policy :: "jstr \<Rightarrow> jstr" where
  "send_policy targetQueueArn = stringify_value (jobj [(''Version'', JStr (js ''2012-10-17'')),
     (''Statement'', JArr [jobj [(''Effect'', JStr (js ''Allow'')), (''Action'', JStr (js ''sqs:SendMessage'')),
        (''Resource'', JStr targetQueueArn)]])])"

definition ensureSchedulerRole :: "'w cloud \<Rightarrow> jstr \<Rightarrow> 'w \<Rightarrow> (js_error + jstr) \<times> 'w" where
  "ensureSchedulerRole c targetQueueArn w =
     then_do (catching (cl_send c (GetRole SCHEDULER_ROLE_NAME) w)
        (cl_send c (CreateRole SCHEDULER_ROLE_NAME (trust_policy ''scheduler.amazonaws.com'')
           ''Lets EventBridge Scheduler enqueue hashtag sync jobs onto SQS''))) (\<lambda>found w1.
     then_do (nonempty_or (js ''could not resolve scheduler role ARN'') (rs_RoleArn found) w1) (\<lambda>roleArn w2.
     then_do (cl_send c (PutRolePolicy SCHEDULER_ROLE_NAME SEND_POLICY_NAME (send_policy targetQueueArn)) w2)
       (\<lambda>r w3. (Inr roleArn, w3))))"

section \<open>The command\<close>

record provisioned_values =
  pv_region :: jstr
  pv_bucket :: jstr
  pv_queueUrl :: jstr
  pv_dlqUrl :: jstr
  pv_roleArn :: jstr

definition provision_schedule :: "'w cloud \<Rightarrow> config \<Rightarrow> jstr \<Rightarrow> jstr \<Rightarrow> 'w \<Rightarrow> (js_error + unit) \<times> 'w" where
  "provision_schedule c cfg queueUrl roleArn w =
     (case toEventBridgeExpression (ev_RECENT_SYNC_CRON cfg) of
        Inl e \<Rightarrow> (Inl e, w)
      | Inr expression \<Rightarrow>
          eb_ensureSchedules (scheduler_client_of c)
            \<lparr>eo_scheduleName = ev_EVENTBRIDGE_SCHEDULE_NAME cfg, eo_scheduleExpression = expression,
              eo_queueUrl = Some queueUrl, eo_roleArn = roleArn, eo_region = ev_AWS_REGION cfg\<rparr> w)"

definition provisionAws :: "'w cloud \<Rightarrow> config \<Rightarrow> 'w \<Rightarrow> (js_error + provisioned_values) \<times> 'w" where
  "provisionAws c cfg w =
     (let region = ev_AWS_REGION cfg
      in then_do (resolveAccountId c w) (\<lambda>accountId w1.
         then_do (ensureBucket c cfg region accountId w1) (\<lambda>bucket w2.
         then_do (ensureQueues c cfg w2) (\<lambda>(queueUrl, dlqUrl) w3.
         then_do (queueArn c queueUrl w3) (\<lambda>mainArn w4.
         then_do (ensureSchedulerRole c mainArn w4) (\<lambda>roleArn w5.
         then_do (provision_schedule c cfg queueUrl roleArn (cl_wait c 10000 w5)) (\<lambda>u w6.
           (Inr \<lparr>pv_region = region, pv_bucket = bucket, pv_queueUrl = queueUrl, pv_dlqUrl = dlqUrl,
              pv_roleArn = roleArn\<rparr>, w6))))))))"

text \<open>The lines of the summary that go into \<open>.env\<close>, and what is printed around them.\<close>

definition summary_settings :: "provisioned_values \<Rightarrow> (string \<times> jstr) list" where
  "summary_settings v =
     [(''QUEUE_DRIVER'', js ''aws''), (''STORAGE_DRIVER'', js ''aws''), (''SCHEDULER_DRIVER'', js ''aws''),
      (''AWS_REGION'', pv_region v), (''S3_BUCKET'', pv_bucket v), (''SQS_QUEUE_URL'', pv_queueUrl v),
      (''SQS_DLQ_URL'', pv_dlqUrl v), (''EVENTBRIDGE_SCHEDULE_ROLE_ARN'', pv_roleArn v)]"

definition setting_line :: "string \<times> jstr \<Rightarrow> jstr" where
  "setting_line s = js (fst s) @ 61 # snd s"

definition provision_summary :: "provisioned_values \<Rightarrow> jstr" where
  "provision_summary v = join_lines
     ([[], js ''  Provisioning complete. Put these in your .env to switch drivers:'', []] @
      map (\<lambda>s. js ''    '' @ setting_line s) (summary_settings v) @
      [[], js ''  IAMFullAccess is only needed for provisioning - safe to detach now.'', []])"

definition provision_exit :: "js_error + provisioned_values \<Rightarrow> jstr option \<times> nat" where
  "provision_exit r = (case r of Inl e \<Rightarrow> (None, 1) | Inr v \<Rightarrow> (Some (provision_summary v), 0))"

end
