(* ===== verification/Teardown.thy ===== *)
theory Teardown
  imports Deploy
begin

text \<open>
  \<open>commands/teardownAws.ts\<close>: instances, schedule, queues, role and bucket are deleted, in this order. Only
  the bucket's failures reach the caller. Log lines are left out; the names are those of \<open>provisionAws.ts\<close>,
  which the file declares a second time.
\<close>

section \<open>The bucket\<close>

definition listed_keys :: "aws_response \<Rightarrow> jstr list" where
  "listed_keys r = filter (\<lambda>k. k \<noteq> []) (List.map_filter (\<lambda>k. k) (rs_Contents r))"

text \<open>The loop need not end: nothing looks at what \<open>DeleteObjects\<close> reports as not deleted.\<close>

partial_function (option) empty_bucket ::
  "'w cloud \<Rightarrow> jstr \<Rightarrow> nat \<Rightarrow> 'w \<Rightarrow> ((js_error + nat) \<times> 'w) option" where
  "empty_bucket c bucket deleted w =
     (case cl_send c (ListObjectsV2 bucket 1000) w of
        (Inl e, w1) \<Rightarrow> Some (Inl e, w1)
      | (Inr listed, w1) \<Rightarrow>
          (let objects = listed_keys listed
           in if objects = [] then Some (Inr deleted, w1)
              else case cl_send c (DeleteObjects bucket objects) w1 of
                 (Inl e, w2) \<Rightarrow> Some (Inl e, w2)
               | (Inr r, w2) \<Rightarrow>
                   if \<not> rs_IsTruncated listed then Some (Inr (deleted + length objects), w2)
                   else empty_bucket c bucket (deleted + length objects) w2))"

definition emptyAndDeleteBucket :: "'w cloud \<Rightarrow> jstr \<Rightarrow> 'w \<Rightarrow> ((js_error + nat) \<times> 'w) option" where
  "emptyAndDeleteBucket c bucket w =
     (case empty_bucket c bucket 0 w of
        None \<Rightarrow> None
      | Some m \<Rightarrow> Some (then_do m (\<lambda>deleted w1.
          then_do (cl_send c (DeleteBucket bucket) w1) (\<lambda>r w2. (Inr deleted, w2)))))"

section \<open>The other resources\<close>

text \<open>A block whose \<open>catch\<close> only logs.\<close>

definition swallowing :: "('e + 'a) \<times> 'w \<Rightarrow> 'w" where
  "swallowing m = snd m"

definition deleteQueue :: "'w cloud \<Rightarrow> jstr \<Rightarrow> 'w \<Rightarrow> 'w" where
  "deleteQueue c name w =
     swallowing (then_do (cl_send c (GetQueueUrl name) w) (\<lambda>r w1.
       if present (rs_QueueUrl r) then cl_send c (DeleteQueue (the (rs_QueueUrl r))) w1 else (Inr no_fields, w1)))"

definition teardown_filters :: "api_filter list" where
  "teardown_filters =
     [(''tag:Name'', [INSTANCE_TAG]),
      (''instance-state-name'', [js ''pending'', js ''running'', js ''stopped''])]"

definition found_ids :: "aws_response \<Rightarrow> jstr list" where
  "found_ids r = filter (\<lambda>i. i \<noteq> []) (List.map_filter ei_InstanceId (concat (rs_Reservations r)))"

definition terminateInstances :: "'w cloud \<Rightarrow> 'w \<Rightarrow> 'w" where
  "terminateInstances c w =
     swallowing (then_do (cl_send c (DescribeInstances teardown_filters) w) (\<lambda>found w1.
       if found_ids found \<noteq> [] then cl_send c (TerminateInstances (found_ids found)) w1 else (Inr no_fields, w1)))"

definition deleteSchedule :: "'w cloud \<Rightarrow> config \<Rightarrow> 'w \<Rightarrow> 'w" where
  "deleteSchedule c cfg w = swallowing (cl_send c (DeleteSchedule (ev_EVENTBRIDGE_SCHEDULE_NAME cfg)) w)"

definition deleteSchedulerRole :: "'w cloud \<Rightarrow> 'w \<Rightarrow> 'w" where
  "deleteSchedulerRole c w =
     swallowing (cl_send c (DeleteRole SCHEDULER_ROLE_NAME)
       (swallowing (cl_send c (DeleteRolePolicy SCHEDULER_ROLE_NAME SEND_POLICY_NAME) w)))"

section \<open>The command\<close>

definition warning_lines :: "config \<Rightarrow> jstr list" where
  "warning_lines cfg =
     [[],
      js ''  This permanently deletes:'',
      js ''    - S3 bucket '' @ (if present (ev_S3_BUCKET cfg) then the (ev_S3_BUCKET cfg) else js ''(derived)'')
        @ js '' and every stored media file'',
      js ''    - SQS queues '' @ QUEUE_NAME @ js '' and '' @ DLQ_NAME,
      js ''    - IAM role '' @ SCHEDULER_ROLE_NAME,
      js ''    - EventBridge schedule '' @ ev_EVENTBRIDGE_SCHEDULE_NAME cfg,
      [],
      js ''  The media cannot be re-downloaded: Meta media_urls expire and the'',
      js ''  hashtag quota is 30 unique tags per 7 days.'',
      [],
      js ''  Re-run with --yes to proceed:  pnpm aws:teardown --yes'',
      []]"

definition delete_managed :: "'w cloud \<Rightarrow> config \<Rightarrow> 'w \<Rightarrow> 'w" where
  "delete_managed c cfg w =
     deleteSchedulerRole c (deleteQueue c DLQ_NAME (deleteQueue c QUEUE_NAME
       (deleteSchedule c cfg (terminateInstances c w))))"

definition delete_bucket_part :: "'w cloud \<Rightarrow> config \<Rightarrow> 'w \<Rightarrow> ((js_error + nat) \<times> 'w) option" where
  "delete_bucket_part c cfg w =
     (if present (ev_S3_BUCKET cfg) then emptyAndDeleteBucket c (the (ev_S3_BUCKET cfg)) w else Some (Inr 0, w))"

definition teardownAws :: "'w cloud \<Rightarrow> config \<Rightarrow> jstr list \<Rightarrow> 'w \<Rightarrow> ((command_stop + unit) \<times> 'w) option" where
  "teardownAws c cfg args w =
     (if js ''--yes'' \<notin> set args then Some (Inl (Usage (join_lines (warning_lines cfg))), w)
      else case delete_bucket_part c cfg (delete_managed c cfg w) of
        None \<Rightarrow> None
      | Some (Inl e, w1) \<Rightarrow> Some (Inl (Stopped (Threw e)), w1)
      | Some (Inr deleted, w1) \<Rightarrow> Some (Inr (), w1))"

end
