(* ===== verification/Provision_Correct.thy ===== *)
theory Provision_Correct
  imports Provision
begin

text \<open>
  What provisioning leaves behind: whatever fails, only the named resources change and nothing is lost;
  when it goes through, the account is provisioned; and a second run changes nothing.
\<close>

section \<open>What is never touched\<close>

definition map_within :: "'k set \<Rightarrow> ('v \<Rightarrow> 'v \<Rightarrow> bool) \<Rightarrow> ('k \<Rightarrow> 'v option) \<Rightarrow> ('k \<Rightarrow> 'v option) \<Rightarrow> bool" where
  "map_within K Q m m' \<longleftrightarrow>
     (\<forall>k. k \<notin> K \<longrightarrow> m' k = m k) \<and> (\<forall>k x. m k = Some x \<longrightarrow> (\<exists>y. m' k = Some y \<and> Q x y))"

lemma map_within_refl: "(\<And>x. Q x x) \<Longrightarrow> map_within K Q m m"
  by (auto simp: map_within_def)

lemma map_within_trans:
  assumes "map_within K Q m m1" "map_within K Q m1 m2" "\<And>x y z. Q x y \<Longrightarrow> Q y z \<Longrightarrow> Q x z"
  shows "map_within K Q m m2"
  unfolding map_within_def
proof (intro conjI allI impI)
  fix k assume "k \<notin> K"
  then show "m2 k = m k" using assms(1,2) by (simp add: map_within_def)
next
  fix k x assume "m k = Some x"
  then show "\<exists>z. m2 k = Some z \<and> Q x z" using assms unfolding map_within_def by metis
qed

lemma map_within_upd: "k \<in> K \<Longrightarrow> (\<And>x. Q x x) \<Longrightarrow> (\<And>x. m k = Some x \<Longrightarrow> Q x y) \<Longrightarrow> map_within K Q m (m(k \<mapsto> y))"
  by (auto simp: map_within_def)

lemma map_within_new: "k \<in> K \<Longrightarrow> (\<And>x. Q x x) \<Longrightarrow> m k = None \<Longrightarrow> map_within K Q m (m(k \<mapsto> y))"
  by (auto simp: map_within_def)

lemma map_within_change:
  "k \<in> K \<Longrightarrow> (\<And>x. Q x x) \<Longrightarrow> (\<And>x. m k = Some x \<Longrightarrow> Q x (f x)) \<Longrightarrow> map_within K Q m (m(k := map_option f (m k)))"
  by (auto simp: map_within_def)

definition bucket_kept :: "bucket \<Rightarrow> bucket \<Rightarrow> bool" where
  "bucket_kept B B' \<longleftrightarrow> bk_keys B' = bk_keys B \<and> bk_lifecycle B' = bk_lifecycle B"

definition queue_kept :: "queue_resource \<Rightarrow> queue_resource \<Rightarrow> bool" where
  "queue_kept q q' \<longleftrightarrow> qr_arn q' = qr_arn q"

definition role_kept :: "role \<Rightarrow> role \<Rightarrow> bool" where
  "role_kept x y \<longleftrightarrow> ro_arn y = ro_arn x \<and> ro_trust y = ro_trust x
     \<and> (\<forall>p. p \<noteq> SEND_POLICY_NAME \<longrightarrow> ro_policies y p = ro_policies x p)"

text \<open>The parts of an account that provisioning has no business with.\<close>

definition unmanaged where
  "unmanaged a = (cl_id a, cl_region a, cl_newBucket a, cl_vpcs a, cl_subnets a, cl_profiles a, cl_groups a,
     cl_keys a, cl_instances a)"

definition provision_frame :: "config \<Rightarrow> account \<Rightarrow> account \<Rightarrow> bool" where
  "provision_frame cfg a b \<longleftrightarrow>
     unmanaged b = unmanaged a
     \<and> map_within {bucket_name cfg (cl_id a)} bucket_kept (cl_buckets a) (cl_buckets b)
     \<and> map_within {sqs_url a QUEUE_NAME, sqs_url a DLQ_NAME} queue_kept (cl_queues a) (cl_queues b)
     \<and> map_within {SCHEDULER_ROLE_NAME} role_kept (cl_roles a) (cl_roles b)
     \<and> map_within {ev_EVENTBRIDGE_SCHEDULE_NAME cfg} (\<lambda>_ _. True) (cl_schedules a) (cl_schedules b)"

lemma kept_refl [simp]: "bucket_kept B B" "queue_kept q q" "role_kept x x"
  by (simp_all add: bucket_kept_def queue_kept_def role_kept_def)

lemma kept_trans:
  "bucket_kept B B1 \<Longrightarrow> bucket_kept B1 B2 \<Longrightarrow> bucket_kept B B2"
  "queue_kept q q1 \<Longrightarrow> queue_kept q1 q2 \<Longrightarrow> queue_kept q q2"
  "role_kept x y \<Longrightarrow> role_kept y z \<Longrightarrow> role_kept x z"
  by (simp_all add: bucket_kept_def queue_kept_def role_kept_def)

lemma frame_fields:
  assumes "provision_frame cfg a b"
  shows "cl_id b = cl_id a" "cl_region b = cl_region a" "sqs_url b n = sqs_url a n"
proof -
  have "unmanaged b = unmanaged a" using assms unfolding provision_frame_def by (rule conjunct1)
  then show "cl_id b = cl_id a" "cl_region b = cl_region a" "sqs_url b n = sqs_url a n"
    by (simp_all add: unmanaged_def sqs_url_def)
qed

lemma frameD:
  assumes "provision_frame cfg a b"
  shows "unmanaged b = unmanaged a"
    "map_within {bucket_name cfg (cl_id a)} bucket_kept (cl_buckets a) (cl_buckets b)"
    "map_within {sqs_url a QUEUE_NAME, sqs_url a DLQ_NAME} queue_kept (cl_queues a) (cl_queues b)"
    "map_within {SCHEDULER_ROLE_NAME} role_kept (cl_roles a) (cl_roles b)"
    "map_within {ev_EVENTBRIDGE_SCHEDULE_NAME cfg} (\<lambda>_ _. True) (cl_schedules a) (cl_schedules b)"
  using assms unfolding provision_frame_def by blast+

lemma frame_trans:
  assumes ab: "provision_frame cfg a b" and bd: "provision_frame cfg b d"
  shows "provision_frame cfg a d"
  unfolding provision_frame_def
proof (intro conjI)
  note bd' = frameD [OF bd, unfolded frame_fields [OF ab]]
  show "unmanaged d = unmanaged a" using frameD(1) [OF ab] bd'(1) by simp
  show "map_within {bucket_name cfg (cl_id a)} bucket_kept (cl_buckets a) (cl_buckets d)"
    by (rule map_within_trans [OF frameD(2) [OF ab] bd'(2) kept_trans(1)])
  show "map_within {sqs_url a QUEUE_NAME, sqs_url a DLQ_NAME} queue_kept (cl_queues a) (cl_queues d)"
    by (rule map_within_trans [OF frameD(3) [OF ab] bd'(3) kept_trans(2)])
  show "map_within {SCHEDULER_ROLE_NAME} role_kept (cl_roles a) (cl_roles d)"
    by (rule map_within_trans [OF frameD(4) [OF ab] bd'(4) kept_trans(3)])
  show "map_within {ev_EVENTBRIDGE_SCHEDULE_NAME cfg} (\<lambda>_ _. True) (cl_schedules a) (cl_schedules d)"
    by (rule map_within_trans [OF frameD(5) [OF ab] bd'(5)])
qed

lemma frame_preorder [simp]: "preorder_on_accounts (provision_frame cfg)"
  unfolding preorder_on_accounts_def
  by (auto intro!: reflpI transpI dest: frame_trans simp: provision_frame_def map_within_refl)

text \<open>The requests of the command, in the account they are meant for.\<close>

definition provisioning :: "config \<Rightarrow> account \<Rightarrow> account \<Rightarrow> account \<Rightarrow> bool" where
  "provisioning cfg a0 = inside a0 (provision_frame cfg)"

lemma provisioning_preorder [simp]: "preorder_on_accounts (provisioning cfg a0)"
  by (simp add: provisioning_def)

lemma same_account_upd [simp]:
  "same_account a0 (cl_buckets_update f a) = same_account a0 a"
  "same_account a0 (cl_queues_update g a) = same_account a0 a"
  "same_account a0 (cl_roles_update h a) = same_account a0 a"
  "same_account a0 (cl_schedules_update k a) = same_account a0 a"
  by (simp_all add: same_account_def)

lemma safe_reading:
  assumes "\<And>r a. effect q r a = a"
  shows "request_safe (provisioning cfg a0) q"
  using provisioning_preorder [of cfg a0] assms
  by (simp add: request_safe_def preorder_on_accounts_def reflp_def)

lemma frame_parts:
  assumes "unmanaged b = unmanaged a"
    "map_within {bucket_name cfg (cl_id a)} bucket_kept (cl_buckets a) (cl_buckets b)"
    "map_within {sqs_url a QUEUE_NAME, sqs_url a DLQ_NAME} queue_kept (cl_queues a) (cl_queues b)"
    "map_within {SCHEDULER_ROLE_NAME} role_kept (cl_roles a) (cl_roles b)"
    "map_within {ev_EVENTBRIDGE_SCHEDULE_NAME cfg} (\<lambda>_ _. True) (cl_schedules a) (cl_schedules b)"
    "same_account a0 a \<Longrightarrow> same_account a0 b"
  shows "provisioning cfg a0 a b"
  using assms by (simp add: provisioning_def inside_def provision_frame_def)

lemma safe_bucket:
  assumes "b = bucket_name cfg (cl_id a0)" "\<And>B. bucket_kept B (f B)" "\<And>r a. effect q r a = change_bucket b f a"
  shows "request_safe (provisioning cfg a0) q"
proof (rule request_safeI, goal_cases)
  case (1 a r)
  show ?case
  proof (cases "same_account a0 a")
    case True
    then show ?thesis
      using assms by (intro frame_parts)
        (simp_all add: change_bucket_def unmanaged_def map_within_refl map_within_change same_account_names)
  qed (simp add: provisioning_def inside_def)
qed

lemma safe_harden:
  "request_safe (provisioning cfg a0) (PutPublicAccessBlock (bucket_name cfg (cl_id a0)) p q r s)"
  "request_safe (provisioning cfg a0) (PutBucketEncryption (bucket_name cfg (cl_id a0)) x)"
  by (rule safe_bucket [OF refl, where f = "bk_accessBlock_update (\<lambda>_. [p, q, r, s])"], simp_all add: bucket_kept_def)
    (rule safe_bucket [OF refl, where f = "bk_encryption_update (\<lambda>_. Some x)"], simp_all add: bucket_kept_def)

lemma safe_in_account:
  assumes "\<And>a r. accepted q a r \<Longrightarrow> same_account a0 a \<Longrightarrow> provisioning cfg a0 a (effect q r a)"
  shows "request_safe (provisioning cfg a0) q"
  using assms by (auto simp: request_safe_def provisioning_def inside_def)

lemma safe_create_bucket: "request_safe (provisioning cfg a0) (CreateBucket (bucket_name cfg (cl_id a0)) loc)"
proof (rule safe_in_account, goal_cases)
  case (1 a r)
  show ?case
  proof (cases "cl_buckets a (bucket_name cfg (cl_id a0))")
    case None
    then show ?thesis
      using 1(2) by (intro frame_parts) (simp_all add: unmanaged_def map_within_refl map_within_new same_account_names)
  next
    case (Some B)
    then show ?thesis
      using provisioning_preorder by (simp add: preorder_on_accounts_def reflpD)
  qed
qed

lemma safe_create_queue:
  "name = QUEUE_NAME \<or> name = DLQ_NAME \<Longrightarrow> request_safe (provisioning cfg a0) (CreateQueue name atts)"
proof (rule safe_in_account, goal_cases)
  case (1 a r)
  show ?case
  proof (cases "cl_queues a (sqs_url a name)")
    case None
    then show ?thesis
      using 1(1) by (intro frame_parts) (auto simp: unmanaged_def map_within_refl intro!: map_within_upd)
  next
    case (Some B)
    then show ?thesis
      using provisioning_preorder by (simp add: preorder_on_accounts_def reflpD)
  qed
qed

lemma safe_set_queue: "request_safe (provisioning cfg a0) (SetQueueAttributes (sqs_url a0 QUEUE_NAME) atts)"
  by (rule safe_in_account, rule frame_parts)
    (simp_all add: unmanaged_def map_within_refl map_within_change same_account_names queue_kept_def)

lemma safe_create_role: "request_safe (provisioning cfg a0) (CreateRole SCHEDULER_ROLE_NAME doc desc)"
  by (rule safe_in_account, rule frame_parts) (simp_all add: unmanaged_def map_within_refl map_within_new)

lemma safe_role_policy: "request_safe (provisioning cfg a0) (PutRolePolicy SCHEDULER_ROLE_NAME SEND_POLICY_NAME doc)"
  by (rule safe_in_account, rule frame_parts)
    (simp_all add: unmanaged_def change_role_def map_within_refl map_within_change role_kept_def)

lemma safe_schedule:
  assumes "sd_Name sc = ev_EVENTBRIDGE_SCHEDULE_NAME cfg"
  shows "request_safe (provisioning cfg a0) (CreateSchedule sc)" "request_safe (provisioning cfg a0) (UpdateSchedule sc)"
  using assms by (auto intro!: safe_in_account frame_parts simp: unmanaged_def map_within_refl map_within_upd)

lemmas provisioning_safe =
  safe_create_bucket safe_create_queue safe_set_queue safe_create_role safe_role_policy safe_schedule

section \<open>Whatever fails\<close>

lemma resolveAccountId_value:
  assumes "aws_service c view" "resolveAccountId c w = (Inr i, w1)"
  shows "i = cl_id (view w)" "i \<noteq> []" "view w1 = view w"
  using assms(2) by (auto simp: resolveAccountId_def went_through dest!: service_ok [OF assms(1)])

lemma create_queue_value:
  assumes "aws_service c view" "create_queue c cfg name w = (Inr url, w1)"
  shows "url = sqs_url (view w) name" "url \<noteq> []"
    "view w1 = effect (CreateQueue name (queue_attributes cfg)) no_fields (view w)"
  using assms(2)
  by (auto simp: create_queue_def went_through split: option.split dest!: service_ok [OF assms(1)])

lemma ensureQueueUrl_value:
  assumes "aws_service c view" "ensureQueueUrl c cfg name w = (Inr url, w1)"
  shows "url = sqs_url (view w) name" "cl_queues (view w1) url \<noteq> None"
proof -
  have url: "sqs_url (view w2) name = sqs_url (view w) name" if "cl_send c (GetQueueUrl name) w = (x, w2)" for x w2
    using that send_related [OF assms(1), where R = "\<lambda>a b. sqs_url b name = sqs_url a name" and q = "GetQueueUrl name"]
    by (simp add: request_safe_def)
  show "url = sqs_url (view w) name" "cl_queues (view w1) url \<noteq> None"
    using assms(2) create_queue_value [OF assms(1)] url
    by (auto simp: ensureQueueUrl_def split: prod.splits sum.splits option.splits if_splits
        dest!: service_ok [OF assms(1)])
qed

lemma queueArn_value:
  assumes "aws_service c view" "queueArn c url w = (Inr arn, w1)"
  shows "\<exists>q. cl_queues (view w) url = Some q \<and> arn = qr_arn q" "view w1 = view w"
  using assms(2) by (auto simp: queueArn_def went_through dest!: service_ok [OF assms(1)])

lemma queueArn_keeps:
  assumes "aws_service c view"
  shows "keeps view (provisioning cfg a0) (queueArn c url)"
  unfolding queueArn_def using assms by (intro keeps_intros provisioning_preorder safe_reading) simp_all

lemma resolveAccountId_keeps:
  assumes "aws_service c view"
  shows "keeps view (provisioning cfg a0) (resolveAccountId c)"
  unfolding resolveAccountId_def using assms by (intro keeps_intros provisioning_preorder safe_reading) simp_all

lemma ensureBucket_keeps:
  assumes "aws_service c view"
  shows "keeps view (provisioning cfg a0) (ensureBucket c cfg region (cl_id a0))"
  unfolding ensureBucket_def Let_def using assms
  by (intro keeps_intros provisioning_preorder safe_create_bucket safe_harden) (simp_all add: safe_reading)

lemma ensureQueueUrl_keeps:
  assumes "aws_service c view" "name = QUEUE_NAME \<or> name = DLQ_NAME"
  shows "keeps view (provisioning cfg a0) (ensureQueueUrl c cfg name)"
proof -
  have "keeps view (provisioning cfg a0) (create_queue c cfg name)"
    unfolding create_queue_def using assms
    by (intro keeps_intros provisioning_preorder safe_create_queue) simp_all
  then show ?thesis
    unfolding ensureQueueUrl_def using assms(1)
    by (intro keeps_intros provisioning_preorder) (simp_all add: safe_reading)
qed

lemma ensureQueues_value:
  assumes "aws_service c view" "ensureQueues c cfg w = (Inr (qu, du), w1)" "same_account a0 (view w)"
  shows "qu = sqs_url a0 QUEUE_NAME" "du = sqs_url a0 DLQ_NAME"
proof -
  obtain arn v1 v2 v3 r where steps:
    "ensureQueueUrl c cfg DLQ_NAME w = (Inr du, v1)" "queueArn c du v1 = (Inr arn, v2)"
    "ensureQueueUrl c cfg QUEUE_NAME v2 = (Inr qu, v3)"
    using assms(2) by (auto simp: ensureQueues_def went_through)
  have "same_account a0 (view v1)"
    using keepsD [OF ensureQueueUrl_keeps [OF assms(1) disjI2 [OF refl]] steps(1), of a0] assms(3)
    by (simp add: provisioning_def inside_def)
  then show "qu = sqs_url a0 QUEUE_NAME"
    using ensureQueueUrl_value(1) [OF assms(1) steps(3)] queueArn_value(2) [OF assms(1) steps(2)]
    by (simp add: same_account_names)
  show "du = sqs_url a0 DLQ_NAME"
    using ensureQueueUrl_value(1) [OF assms(1) steps(1)] assms(3) by (simp add: same_account_names)
qed

lemma ensureQueues_keeps:
  assumes "aws_service c view"
  shows "keeps view (provisioning cfg a0) (ensureQueues c cfg)"
proof -
  have main: "keeps view (provisioning cfg a0)
      (\<lambda>w. then_do (ensureQueueUrl c cfg QUEUE_NAME w) (\<lambda>queueUrl w3.
         then_do (cl_send c (SetQueueAttributes queueUrl (redrive_attributes cfg arn)) w3) (\<lambda>r w4. (Inr (queueUrl, du), w4))))"
    for arn du
    unfolding provisioning_def
  proof (rule keeps_then_value [where V = "\<lambda>u. u = sqs_url a0 QUEUE_NAME"], goal_cases)
    case 1
    then show ?case by simp
  next
    case 2
    then show ?case using ensureQueueUrl_keeps [OF assms] by (simp add: provisioning_def)
  next
    case (3 w a w1)
    then show ?case using ensureQueueUrl_value(1) [OF assms 3(2)] by (simp add: same_account_names)
  next
    case (4 u)
    then show ?case
      using assms safe_set_queue [of cfg a0] provisioning_preorder [of cfg a0] unfolding provisioning_def
      by (auto intro!: keeps_intros)
  qed
  show ?thesis
    unfolding ensureQueues_def
    by (rule keeps_then [OF provisioning_preorder ensureQueueUrl_keeps [OF assms disjI2 [OF refl]]],
        rule keeps_then [OF provisioning_preorder queueArn_keeps [OF assms] main])
qed

lemma ensureSchedulerRole_keeps:
  assumes "aws_service c view"
  shows "keeps view (provisioning cfg a0) (ensureSchedulerRole c arn)"
  unfolding ensureSchedulerRole_def using assms
  by (intro keeps_intros provisioning_preorder safe_create_role safe_role_policy) (simp_all add: safe_reading)

lemma provision_schedule_keeps:
  assumes "aws_service c view"
  shows "keeps view (provisioning cfg a0) (provision_schedule c cfg qu role)"
proof (cases "toEventBridgeExpression (ev_RECENT_SYNC_CRON cfg)")
  case (Inl e)
  then have "provision_schedule c cfg qu role = (\<lambda>w. (Inl e, w))" by (simp add: fun_eq_iff provision_schedule_def)
  then show ?thesis by (simp add: keeps_done)
next
  case (Inr x)
  let ?opts = "\<lparr>eo_scheduleName = ev_EVENTBRIDGE_SCHEDULE_NAME cfg, eo_scheduleExpression = x, eo_queueUrl = Some qu,
    eo_roleArn = role, eo_region = ev_AWS_REGION cfg\<rparr>"
  have name: "sd_Name (schedule_of ?opts arn) = ev_EVENTBRIDGE_SCHEDULE_NAME cfg" for arn
    by (simp add: schedule_of_def)
  note kept = keepsD [OF keeps_send [OF assms provisioning_preorder safe_schedule(1) [OF name]]]
    keepsD [OF keeps_send [OF assms provisioning_preorder safe_schedule(2) [OF name]]]
  have refl: "provisioning cfg a0 a a" for a
    using provisioning_preorder [of cfg a0] by (simp add: preorder_on_accounts_def reflpD)
  have trans: "provisioning cfg a0 a b \<Longrightarrow> provisioning cfg a0 b d \<Longrightarrow> provisioning cfg a0 a d" for a b d
    using provisioning_preorder [of cfg a0] by (auto simp: preorder_on_accounts_def dest: transpD)
  have "provisioning cfg a0 (view w) (view w1)"
    if "eb_ensureSchedules (scheduler_client_of c) ?opts w = (y, w1)" for w y w1
    using that refl kept trans
    by (auto simp: eb_ensureSchedules_def scheduler_client_of_def split: sum.splits prod.splits if_splits) blast+
  then show ?thesis using Inr by (simp add: provision_schedule_def keeps_def)
qed

text \<open>Whatever is rejected on the way: nothing but the named resources is changed, and nothing is lost.\<close>

lemma provisionAws_keeps:
  assumes "aws_service c view"
  shows "keeps view (provisioning cfg a0) (provisionAws c cfg)"
  unfolding provisionAws_def Let_def provisioning_def
proof (rule keeps_then_value [where V = "\<lambda>i. i = cl_id a0"], goal_cases)
  case 1
  then show ?case by simp
next
  case 2
  then show ?case using resolveAccountId_keeps [OF assms] by (simp add: provisioning_def)
next
  case (3 w a w1)
  then show ?case using resolveAccountId_value [OF assms 3(2)] by (simp add: same_account_names)
next
  case (4 i)
  have rest: "keeps view (provisioning cfg a0) (\<lambda>w. then_do (queueArn c qu w) (\<lambda>mainArn w4.
         then_do (ensureSchedulerRole c mainArn w4) (\<lambda>roleArn w5.
         then_do (provision_schedule c cfg qu roleArn (cl_wait c 10000 w5)) (\<lambda>u w6. (Inr (f roleArn), w6)))))" for qu f
    using queueArn_keeps [OF assms] ensureSchedulerRole_keeps [OF assms] provision_schedule_keeps [OF assms] assms
    by (intro keeps_intros provisioning_preorder)
  show ?case
    unfolding provisioning_def [symmetric] 4
    by (rule keeps_then [OF provisioning_preorder ensureBucket_keeps [OF assms]],
        rule keeps_then [OF provisioning_preorder ensureQueues_keeps [OF assms]])
      (simp add: split_beta rest)
qed

lemma provisionAws_frame:
  assumes "aws_service c view" "provisionAws c cfg w = (x, w1)"
  shows "provision_frame cfg (view w) (view w1)"
  using keepsD [OF provisionAws_keeps [OF assms(1)] assms(2), of "view w"]
  by (simp add: provisioning_def inside_def same_account_def)

section \<open>When it goes through\<close>

text \<open>The specification, as a function on accounts: what is missing is created, what is there is brought in line.\<close>

definition bucket_spec :: "jstr \<Rightarrow> account \<Rightarrow> account" where
  "bucket_spec b a = change_bucket b (\<lambda>B. B\<lparr>bk_accessBlock := [True, True, True, True], bk_encryption := Some ''AES256''\<rparr>)
     (effect (CreateBucket b None) no_fields a)"

definition queue_spec :: "config \<Rightarrow> jstr \<Rightarrow> account \<Rightarrow> account" where
  "queue_spec cfg name a = effect (CreateQueue name (queue_attributes cfg)) no_fields a"

definition arn_at :: "account \<Rightarrow> jstr \<Rightarrow> jstr" where
  "arn_at a url = (case cl_queues a url of None \<Rightarrow> [] | Some q \<Rightarrow> qr_arn q)"

definition queues_spec :: "config \<Rightarrow> account \<Rightarrow> account" where
  "queues_spec cfg a =
     (let a2 = queue_spec cfg QUEUE_NAME (queue_spec cfg DLQ_NAME a)
      in effect (SetQueueAttributes (sqs_url a QUEUE_NAME) (redrive_attributes cfg (arn_at a2 (sqs_url a DLQ_NAME)))) no_fields a2)"

definition role_spec :: "jstr \<Rightarrow> account \<Rightarrow> account" where
  "role_spec arn a =
     (let a1 = (case cl_roles a SCHEDULER_ROLE_NAME of
            Some _ \<Rightarrow> a | None \<Rightarrow> effect (CreateRole SCHEDULER_ROLE_NAME (trust_policy ''scheduler.amazonaws.com'') []) no_fields a)
      in effect (PutRolePolicy SCHEDULER_ROLE_NAME SEND_POLICY_NAME (send_policy arn)) no_fields a1)"

definition role_arn_at :: "account \<Rightarrow> jstr" where
  "role_arn_at a = (case cl_roles a SCHEDULER_ROLE_NAME of None \<Rightarrow> [] | Some x \<Rightarrow> ro_arn x)"

definition provisioned_options :: "config \<Rightarrow> account \<Rightarrow> jstr \<Rightarrow> eventbridge_options" where
  "provisioned_options cfg a expression =
     \<lparr>eo_scheduleName = ev_EVENTBRIDGE_SCHEDULE_NAME cfg, eo_scheduleExpression = expression,
       eo_queueUrl = Some (sqs_url a QUEUE_NAME), eo_roleArn = role_arn_at a, eo_region = ev_AWS_REGION cfg\<rparr>"

definition schedule_spec :: "config \<Rightarrow> jstr \<Rightarrow> account \<Rightarrow> account" where
  "schedule_spec cfg expression a =
     a\<lparr>cl_schedules := (cl_schedules a)(ev_EVENTBRIDGE_SCHEDULE_NAME cfg \<mapsto>
        schedule_of (provisioned_options cfg a expression) (arn_at a (sqs_url a QUEUE_NAME)))\<rparr>"

definition provision_spec :: "config \<Rightarrow> jstr \<Rightarrow> account \<Rightarrow> account" where
  "provision_spec cfg expression a =
     (let a1 = queues_spec cfg (bucket_spec (bucket_name cfg (cl_id a)) a)
      in schedule_spec cfg expression (role_spec (arn_at a1 (sqs_url a QUEUE_NAME)) a1))"

lemma ensureBucket_spec:
  assumes "aws_service c view" "ensureBucket c cfg region i w = (Inr b, w1)"
  shows "b = bucket_name cfg i" "view w1 = bucket_spec b (view w)"
proof -
  note ok = service_ok [OF assms(1)] and read = reading_view [OF assms(1)]
  have created: "effect (CreateBucket b None) no_fields (view w) = view v"
    if "catching (cl_send c (HeadBucket b) w) (cl_send c (CreateBucket b l)) = (Inr r, v)" for r v l
    using that by (auto simp: went_through split: option.split dest!: ok read)
  show "b = bucket_name cfg i" using assms(2) by (auto simp: ensureBucket_def Let_def went_through)
  then obtain r v x v2 y where "catching (cl_send c (HeadBucket b) w) (cl_send c (CreateBucket b (location_constraint region))) = (Inr r, v)"
    "cl_send c (PutPublicAccessBlock b True True True True) v = (Inr x, v2)"
    "cl_send c (PutBucketEncryption b ''AES256'') v2 = (Inr y, w1)"
    using assms(2) by (auto simp: ensureBucket_def Let_def then_do_Inr)
  then show "view w1 = bucket_spec b (view w)"
    using created by (auto simp: bucket_spec_def change_bucket_def map_option.compositionality comp_def dest!: ok)
qed

lemma queue_spec_present [simp]: "cl_queues a (sqs_url a name) \<noteq> None \<Longrightarrow> queue_spec cfg name a = a"
  by (auto simp: queue_spec_def)

lemma create_queue_fields: "effect (CreateQueue name atts) r a = effect (CreateQueue name atts) no_fields a"
  by (simp split: option.split)

lemma ensureQueueUrl_spec:
  assumes "aws_service c view" "ensureQueueUrl c cfg name w = (Inr url, w1)"
  shows "view w1 = queue_spec cfg name (view w)"
proof -
  note ok = service_ok [OF assms(1)]
  have created: "view w1 = queue_spec cfg name (view w)"
    if "create_queue c cfg name v = (Inr url, w1)" "cl_send c (GetQueueUrl name) w = (x, v)" for v x
    using create_queue_value(3) [OF assms(1) that(1)] reading_view [OF assms(1) that(2)] by (simp add: queue_spec_def)
  show ?thesis
    using assms(2) created
    by (auto simp: ensureQueueUrl_def split: prod.splits sum.splits option.splits if_splits dest!: ok)
qed

lemma queueArn_spec:
  assumes "aws_service c view" "queueArn c url w = (Inr arn, w1)"
  shows "arn = arn_at (view w) url" "view w1 = view w"
  using queueArn_value [OF assms] by (auto simp: arn_at_def)

lemma queue_spec_names [simp]:
  "sqs_url (queue_spec cfg name a) = sqs_url a" "sqs_arn (queue_spec cfg name a) = sqs_arn a"
  by (simp_all add: queue_spec_def fun_eq_iff sqs_url_def sqs_arn_def split: option.split)

lemma queue_spec_other: "n \<noteq> name \<Longrightarrow> arn_at (queue_spec cfg name a) (sqs_url a n) = arn_at a (sqs_url a n)"
  by (simp add: queue_spec_def arn_at_def split: option.split)

lemma two_queues [simp]: "DLQ_NAME \<noteq> QUEUE_NAME" "QUEUE_NAME \<noteq> DLQ_NAME"
  by (simp_all add: DLQ_NAME_def QUEUE_NAME_def js_def)

lemma ensureQueues_spec:
  assumes "aws_service c view" "ensureQueues c cfg w = (Inr (qu, du), w1)"
  shows "view w1 = queues_spec cfg (view w)" "qu = sqs_url (view w) QUEUE_NAME" "du = sqs_url (view w) DLQ_NAME"
proof -
  obtain arn v1 v2 v3 r where steps:
    "ensureQueueUrl c cfg DLQ_NAME w = (Inr du, v1)" "queueArn c du v1 = (Inr arn, v2)"
    "ensureQueueUrl c cfg QUEUE_NAME v2 = (Inr qu, v3)"
    "cl_send c (SetQueueAttributes qu (redrive_attributes cfg arn)) v3 = (Inr r, w1)"
    using assms(2) by (auto simp: ensureQueues_def went_through)
  note v1 = ensureQueueUrl_spec [OF assms(1) steps(1)] and v2 = queueArn_spec [OF assms(1) steps(2)]
    and v3 = ensureQueueUrl_spec [OF assms(1) steps(3)]
  show qu: "qu = sqs_url (view w) QUEUE_NAME" and du: "du = sqs_url (view w) DLQ_NAME"
    using ensureQueues_value [OF assms] by (simp_all add: same_account_def)
  have "arn_at (view v3) du = arn"
    using v1 v2 v3 du queue_spec_other [of DLQ_NAME QUEUE_NAME cfg "queue_spec cfg DLQ_NAME (view w)"] by simp
  then show "view w1 = queues_spec cfg (view w)"
    using service_ok [OF assms(1) steps(4)] v1 v2 v3 qu du by (simp add: queues_spec_def Let_def)
qed

lemma ensureSchedulerRole_spec:
  assumes "aws_service c view" "ensureSchedulerRole c arn w = (Inr role, w1)"
  shows "view w1 = role_spec arn (view w)" "role = role_arn_at (view w1)"
proof -
  note ok = service_ok [OF assms(1)] and read = reading_view [OF assms(1)]
  obtain r v y where found: "catching (cl_send c (GetRole SCHEDULER_ROLE_NAME) w)
        (cl_send c (CreateRole SCHEDULER_ROLE_NAME (trust_policy ''scheduler.amazonaws.com'')
           ''Lets EventBridge Scheduler enqueue hashtag sync jobs onto SQS'')) = (Inr r, v)"
    "rs_RoleArn r = Some role" "cl_send c (PutRolePolicy SCHEDULER_ROLE_NAME SEND_POLICY_NAME (send_policy arn)) v = (Inr y, w1)"
    using assms(2) by (auto simp: ensureSchedulerRole_def went_through)
  from found(1) have "(\<exists>x. cl_roles (view w) SCHEDULER_ROLE_NAME = Some x \<and> rs_RoleArn r = Some (ro_arn x) \<and> view v = view w)
     \<or> (cl_roles (view w) SCHEDULER_ROLE_NAME = None \<and> rs_RoleArn r = Some (iam_role_arn (view w) SCHEDULER_ROLE_NAME)
        \<and> view v = effect (CreateRole SCHEDULER_ROLE_NAME (trust_policy ''scheduler.amazonaws.com'') []) no_fields (view w))"
    by (auto simp: catching_Inr dest!: ok read)
  then show "view w1 = role_spec arn (view w)" "role = role_arn_at (view w1)"
    using found(2) ok [OF found(3)] by (auto simp: role_spec_def role_arn_at_def Let_def change_role_def)
qed

lemma provision_schedule_spec:
  assumes "aws_service c view" "provision_schedule c cfg (sqs_url a0 QUEUE_NAME) role w = (Inr u, w1)"
    "same_account a0 (view w)" "role = role_arn_at (view w)"
  shows "\<exists>x. toEventBridgeExpression (ev_RECENT_SYNC_CRON cfg) = Inr x \<and> view w1 = schedule_spec cfg x (view w)"
proof -
  note ok = service_ok [OF assms(1)]
  obtain x where x: "toEventBridgeExpression (ev_RECENT_SYNC_CRON cfg) = Inr x"
    using assms(2) by (auto simp: provision_schedule_def split: sum.splits)
  let ?opts = "\<lparr>eo_scheduleName = ev_EVENTBRIDGE_SCHEDULE_NAME cfg, eo_scheduleExpression = x,
    eo_queueUrl = Some (sqs_url a0 QUEUE_NAME), eo_roleArn = role, eo_region = ev_AWS_REGION cfg\<rparr>"
  have opts: "?opts = provisioned_options cfg (view w) x"
    using assms(3,4) by (simp add: provisioned_options_def same_account_names)
  have run: "eb_ensureSchedules (scheduler_client_of c) ?opts w = (Inr u, w1)"
    using assms(2) x by (simp add: provision_schedule_def)
  then obtain arn where arn: "resolveQueueArn (scheduler_client_of c) ?opts w = Inr arn"
    by (auto simp: eb_ensureSchedules_def split: sum.splits)
  have arn_value: "arn = arn_at (view w) (sqs_url (view w) QUEUE_NAME)"
    using arn assms(3)
    by (auto simp: resolveQueueArn_def scheduler_client_of_def show_undefined_def Let_def arn_at_def same_account_names
        split: sum.splits prod.splits option.splits if_splits dest!: ok)
  let ?sc = "schedule_of ?opts arn"
  have name: "sd_Name ?sc = ev_EVENTBRIDGE_SCHEDULE_NAME cfg" by (simp add: schedule_of_def)
  from run arn consider r where "cl_send c (CreateSchedule ?sc) w = (Inr r, w1)"
    | e v r where "cl_send c (CreateSchedule ?sc) w = (Inl e, v)" "cl_send c (UpdateSchedule ?sc) v = (Inr r, w1)"
    by (auto simp: eb_ensureSchedules_def scheduler_client_of_def Let_def split: sum.splits prod.splits if_splits)
  then have "view w1 = (view w)\<lparr>cl_schedules := (cl_schedules (view w))(sd_Name ?sc \<mapsto> ?sc)\<rparr>"
  proof cases
    case 1
    then show ?thesis using ok [OF 1] by simp
  next
    case 2
    have "view v = view w \<or> view v = (view w)\<lparr>cl_schedules := (cl_schedules (view w))(sd_Name ?sc \<mapsto> ?sc)\<rparr>"
      by (rule service_rejected [OF assms(1) 2(1)]) simp_all
    then show ?thesis using ok [OF 2(2)] by auto
  qed
  then show ?thesis using x name opts arn_value by (simp add: schedule_spec_def)
qed

lemma bucket_spec_names [simp]:
  "sqs_url (bucket_spec b a) = sqs_url a" "cl_id (bucket_spec b a) = cl_id a" "cl_region (bucket_spec b a) = cl_region a"
  by (simp_all add: bucket_spec_def change_bucket_def fun_eq_iff sqs_url_def split: option.split)

lemma queues_spec_names [simp]:
  "sqs_url (queues_spec cfg a) = sqs_url a" "cl_id (queues_spec cfg a) = cl_id a" "cl_region (queues_spec cfg a) = cl_region a"
  by (simp_all add: queues_spec_def queue_spec_def Let_def fun_eq_iff sqs_url_def split: option.split)

lemma role_spec_names [simp]:
  "sqs_url (role_spec arn a) = sqs_url a" "cl_id (role_spec arn a) = cl_id a" "cl_region (role_spec arn a) = cl_region a"
  by (simp_all add: role_spec_def change_role_def Let_def fun_eq_iff sqs_url_def split: option.split)

lemma provisionAws_spec:
  assumes "aws_service c view" "provisionAws c cfg w = (Inr v, w1)"
  shows "\<exists>x. toEventBridgeExpression (ev_RECENT_SYNC_CRON cfg) = Inr x \<and> view w1 = provision_spec cfg x (view w)"
    "v = \<lparr>pv_region = ev_AWS_REGION cfg, pv_bucket = bucket_name cfg (cl_id (view w)),
       pv_queueUrl = sqs_url (view w) QUEUE_NAME, pv_dlqUrl = sqs_url (view w) DLQ_NAME, pv_roleArn = role_arn_at (view w1)\<rparr>"
proof -
  obtain i v1 b v2 qu du v3 arn v4 role v5 u where steps:
    "resolveAccountId c w = (Inr i, v1)" "ensureBucket c cfg (ev_AWS_REGION cfg) i v1 = (Inr b, v2)"
    "ensureQueues c cfg v2 = (Inr (qu, du), v3)" "queueArn c qu v3 = (Inr arn, v4)"
    "ensureSchedulerRole c arn v4 = (Inr role, v5)" "provision_schedule c cfg qu role (cl_wait c 10000 v5) = (Inr u, w1)"
    and v: "v = \<lparr>pv_region = ev_AWS_REGION cfg, pv_bucket = b, pv_queueUrl = qu, pv_dlqUrl = du, pv_roleArn = role\<rparr>"
    using assms(2) by (auto simp: provisionAws_def Let_def then_do_Inr)
  note id = resolveAccountId_value [OF assms(1) steps(1)] and bucket = ensureBucket_spec [OF assms(1) steps(2)]
    and queues = ensureQueues_spec [OF assms(1) steps(3)] and arn = queueArn_spec [OF assms(1) steps(4)]
    and role = ensureSchedulerRole_spec [OF assms(1) steps(5)] and wait = service_wait [OF assms(1), of 10000 v5]
  let ?a1 = "queues_spec cfg (bucket_spec (bucket_name cfg (cl_id (view w))) (view w))"
  have v4: "view v4 = ?a1" "qu = sqs_url (view w) QUEUE_NAME" "du = sqs_url (view w) DLQ_NAME"
    using id bucket queues arn by simp_all
  then have v5: "view v5 = role_spec (arn_at ?a1 (sqs_url (view w) QUEUE_NAME)) ?a1"
    using role arn by simp
  have "same_account (view w) (view (cl_wait c 10000 v5))" "role = role_arn_at (view (cl_wait c 10000 v5))"
    using wait v5 role by (simp_all add: same_account_def)
  then obtain x where x: "toEventBridgeExpression (ev_RECENT_SYNC_CRON cfg) = Inr x" "view w1 = schedule_spec cfg x (view v5)"
    using provision_schedule_spec [OF assms(1) steps(6) [unfolded v4(2)]] wait by auto
  then show "\<exists>x. toEventBridgeExpression (ev_RECENT_SYNC_CRON cfg) = Inr x \<and> view w1 = provision_spec cfg x (view w)"
    using v5 by (auto simp: provision_spec_def Let_def)
  have "role_arn_at (view w1) = role" using x(2) role(2) by (simp add: schedule_spec_def role_arn_at_def)
  then show "v = \<lparr>pv_region = ev_AWS_REGION cfg, pv_bucket = bucket_name cfg (cl_id (view w)),
       pv_queueUrl = sqs_url (view w) QUEUE_NAME, pv_dlqUrl = sqs_url (view w) DLQ_NAME, pv_roleArn = role_arn_at (view w1)\<rparr>"
    using v v4 bucket(1) id(1) by simp
qed

section \<open>A provisioned account\<close>

definition bucket_hardened :: "bucket \<Rightarrow> bool" where
  "bucket_hardened B \<longleftrightarrow> bk_accessBlock B = [True, True, True, True] \<and> bk_encryption B = Some ''AES256''"

definition queues_wired :: "config \<Rightarrow> account \<Rightarrow> bool" where
  "queues_wired cfg a \<longleftrightarrow>
     (\<exists>q d. cl_queues a (sqs_url a QUEUE_NAME) = Some q \<and> cl_queues a (sqs_url a DLQ_NAME) = Some d
        \<and> qr_attributes q ''RedrivePolicy'' = Some (redrive_policy (qr_arn d))
        \<and> qr_attributes q ''VisibilityTimeout'' = Some (dec_digits (ev_SQS_VISIBILITY_TIMEOUT cfg)))"

definition provisioned :: "config \<Rightarrow> account \<Rightarrow> bool" where
  "provisioned cfg a \<longleftrightarrow>
     (\<exists>B r x. cl_buckets a (bucket_name cfg (cl_id a)) = Some B \<and> bucket_hardened B
        \<and> queues_wired cfg a
        \<and> cl_roles a SCHEDULER_ROLE_NAME = Some r
        \<and> ro_policies r SEND_POLICY_NAME = Some (send_policy (arn_at a (sqs_url a QUEUE_NAME)))
        \<and> toEventBridgeExpression (ev_RECENT_SYNC_CRON cfg) = Inr x
        \<and> cl_schedules a (ev_EVENTBRIDGE_SCHEDULE_NAME cfg) =
            Some (schedule_of (provisioned_options cfg a x) (arn_at a (sqs_url a QUEUE_NAME))))"

lemma bucket_spec_hardened: "\<exists>B. cl_buckets (bucket_spec b a) b = Some B \<and> bucket_hardened B"
  by (cases "cl_buckets a b") (simp_all add: bucket_spec_def change_bucket_def bucket_hardened_def)

lemma queue_spec_there: "cl_queues (queue_spec cfg name a) (sqs_url a name) \<noteq> None"
  by (simp add: queue_spec_def split: option.split)

lemma queue_spec_grows: "cl_queues a u \<noteq> None \<Longrightarrow> cl_queues (queue_spec cfg name a) u = cl_queues a u"
  by (auto simp: queue_spec_def split: option.split)

lemma queues_spec_wired: "queues_wired cfg (queues_spec cfg a)"
proof -
  let ?a2 = "queue_spec cfg QUEUE_NAME (queue_spec cfg DLQ_NAME a)"
  obtain q where q: "cl_queues ?a2 (sqs_url a QUEUE_NAME) = Some q"
    using queue_spec_there [of cfg QUEUE_NAME "queue_spec cfg DLQ_NAME a"] by auto
  obtain d where d: "cl_queues ?a2 (sqs_url a DLQ_NAME) = Some d"
    using queue_spec_grows queue_spec_there [of cfg DLQ_NAME a] by fastforce
  show ?thesis
    unfolding queues_wired_def using q d
    by (simp add: queues_spec_def Let_def redrive_attributes_def arn_at_def map_add_def)
qed

lemma spec_parts [simp]:
  "cl_queues (bucket_spec b a) = cl_queues a" "cl_roles (bucket_spec b a) = cl_roles a"
  "cl_buckets (queues_spec cfg a) = cl_buckets a" "cl_roles (queues_spec cfg a) = cl_roles a"
  "cl_buckets (role_spec arn a) = cl_buckets a" "cl_queues (role_spec arn a) = cl_queues a"
  "cl_buckets (schedule_spec cfg x a) = cl_buckets a" "cl_queues (schedule_spec cfg x a) = cl_queues a"
  "cl_roles (schedule_spec cfg x a) = cl_roles a" "cl_id (schedule_spec cfg x a) = cl_id a"
  "sqs_url (schedule_spec cfg x a) = sqs_url a"
  by (simp_all add: bucket_spec_def change_bucket_def queues_spec_def queue_spec_def role_spec_def change_role_def
      schedule_spec_def Let_def fun_eq_iff sqs_url_def split: option.split)

lemma arn_at_parts [simp]:
  "arn_at (role_spec arn a) u = arn_at a u" "arn_at (schedule_spec cfg x a) u = arn_at a u"
  by (simp_all add: arn_at_def)

lemma role_spec_policy:
  "\<exists>r. cl_roles (role_spec arn a) SCHEDULER_ROLE_NAME = Some r \<and> ro_policies r SEND_POLICY_NAME = Some (send_policy arn)"
  by (simp add: role_spec_def change_role_def Let_def split: option.split)

lemma queues_wired_parts:
  "cl_queues a = cl_queues b \<Longrightarrow> sqs_url a = sqs_url b \<Longrightarrow> queues_wired cfg a = queues_wired cfg b"
  by (simp add: queues_wired_def)

lemma provision_spec_provisioned:
  assumes "toEventBridgeExpression (ev_RECENT_SYNC_CRON cfg) = Inr x"
  shows "provisioned cfg (provision_spec cfg x a)"
proof -
  let ?a1 = "queues_spec cfg (bucket_spec (bucket_name cfg (cl_id a)) a)"
  let ?b = "provision_spec cfg x a"
  have b: "?b = schedule_spec cfg x (role_spec (arn_at ?a1 (sqs_url a QUEUE_NAME)) ?a1)"
    by (simp add: provision_spec_def Let_def)
  have "queues_wired cfg ?b"
    using queues_spec_wired [of cfg "bucket_spec (bucket_name cfg (cl_id a)) a"] queues_wired_parts [of ?b ?a1 cfg]
    by (simp add: b)
  moreover have "cl_schedules ?b (ev_EVENTBRIDGE_SCHEDULE_NAME cfg) =
      Some (schedule_of (provisioned_options cfg ?b x) (arn_at ?b (sqs_url ?b QUEUE_NAME)))"
    unfolding b schedule_spec_def by (simp add: provisioned_options_def role_arn_at_def arn_at_def sqs_url_def)
  ultimately show ?thesis
    unfolding provisioned_def
    using assms bucket_spec_hardened [of "bucket_name cfg (cl_id a)" a] role_spec_policy [of "arn_at ?a1 (sqs_url a QUEUE_NAME)" ?a1]
    by (auto simp: b)
qed

text \<open>Nothing is left to do in a provisioned account.\<close>

lemma bucket_spec_fix: "cl_buckets a b = Some B \<Longrightarrow> bucket_hardened B \<Longrightarrow> bucket_spec b a = a"
  by (auto simp: bucket_spec_def change_bucket_def bucket_hardened_def fun_upd_idem)

lemma queues_spec_fix:
  assumes "queues_wired cfg a"
  shows "queues_spec cfg a = a"
proof -
  obtain q d where q: "cl_queues a (sqs_url a QUEUE_NAME) = Some q" "cl_queues a (sqs_url a DLQ_NAME) = Some d"
    "qr_attributes q ''RedrivePolicy'' = Some (redrive_policy (qr_arn d))"
    "qr_attributes q ''VisibilityTimeout'' = Some (dec_digits (ev_SQS_VISIBILITY_TIMEOUT cfg))"
    using assms by (auto simp: queues_wired_def)
  have "qr_attributes q ++ map_of (redrive_attributes cfg (qr_arn d)) = qr_attributes q"
    using q(3,4) by (auto simp: redrive_attributes_def map_add_def fun_eq_iff)
  then show ?thesis
    using q(1,2) by (auto simp: queues_spec_def Let_def arn_at_def fun_upd_idem)
qed

lemma provisioned_fix:
  assumes "provisioned cfg a" "toEventBridgeExpression (ev_RECENT_SYNC_CRON cfg) = Inr x"
  shows "provision_spec cfg x a = a"
proof -
  obtain B r where p: "cl_buckets a (bucket_name cfg (cl_id a)) = Some B" "bucket_hardened B" "queues_wired cfg a"
    "cl_roles a SCHEDULER_ROLE_NAME = Some r" "ro_policies r SEND_POLICY_NAME = Some (send_policy (arn_at a (sqs_url a QUEUE_NAME)))"
    "cl_schedules a (ev_EVENTBRIDGE_SCHEDULE_NAME cfg) = Some (schedule_of (provisioned_options cfg a x) (arn_at a (sqs_url a QUEUE_NAME)))"
    using assms by (auto simp: provisioned_def)
  have "role_spec (arn_at a (sqs_url a QUEUE_NAME)) a = a"
    using p(4,5) by (auto simp: role_spec_def change_role_def Let_def fun_upd_idem)
  moreover have "schedule_spec cfg x a = a"
    using p(6) by (simp add: schedule_spec_def fun_upd_idem)
  ultimately show ?thesis
    using bucket_spec_fix [OF p(1,2)] queues_spec_fix [OF p(3)] by (simp add: provision_spec_def Let_def)
qed

section \<open>A second run\<close>

text \<open>A program goes through from every state with this view.\<close>

definition runs :: "('w \<Rightarrow> account) \<Rightarrow> account \<Rightarrow> ('w \<Rightarrow> ('e + 'a) \<times> 'w) \<Rightarrow> 'a \<Rightarrow> bool" where
  "runs view a f x \<longleftrightarrow> (\<forall>w. view w = a \<longrightarrow> (\<exists>w1. f w = (Inr x, w1) \<and> view w1 = a))"

lemma runsE:
  assumes "runs view a f x" "view w = a"
  obtains w1 where "f w = (Inr x, w1)" "view w1 = a"
  using assms by (auto simp: runs_def)

lemma runs_done: "runs view a (\<lambda>w. (Inr x, w)) x"
  by (simp add: runs_def)

lemma runs_then: "runs view a m x \<Longrightarrow> runs view a (k x) y \<Longrightarrow> runs view a (\<lambda>w. then_do (m w) k) y"
  by (fastforce simp: runs_def then_do_def)

lemma runs_send:
  assumes "aws_responsive c view" "aws_service c view" "accepted q a r0" "\<And>r. accepted q a r \<Longrightarrow> effect q r a = a"
    "\<And>w r w1. view w = a \<Longrightarrow> cl_send c q w = (Inr r, w1) \<Longrightarrow> runs view a (k r) y"
  shows "runs view a (\<lambda>w. then_do (cl_send c q w) k) y"
  unfolding runs_def
proof (intro allI impI)
  fix w assume w: "view w = a"
  obtain r w1 where s: "cl_send c q w = (Inr r, w1)" "accepted q a r" "view w1 = effect q r a"
    using responsive_ok [OF assms(1,2), of q w] assms(3) w by auto
  then have "runs view a (k r) y" "view w1 = a" using assms(4,5) w by auto
  then show "\<exists>w1. then_do (cl_send c q w) k = (Inr y, w1) \<and> view w1 = a"
    using s(1) by (auto simp: then_do_def elim: runsE)
qed

lemma resolveAccountId_runs:
  assumes "aws_responsive c view" "aws_service c view" "cl_id a \<noteq> []"
  shows "runs view a (resolveAccountId c) (cl_id a)"
  unfolding resolveAccountId_def
proof (rule runs_send [OF assms(1,2), where ?r0.0 = "no_fields\<lparr>rs_Account := Some (cl_id a)\<rparr>"], goal_cases)
  case (3 w r w1)
  then show ?case using service_ok [OF assms(2) 3(2)] assms(3) by (simp add: nonempty_or_def runs_def)
qed simp_all

lemma queueArn_runs:
  assumes "aws_responsive c view" "aws_service c view" "cl_queues a u = Some q" "qr_arn q \<noteq> []"
  shows "runs view a (queueArn c u) (qr_arn q)"
  unfolding queueArn_def
proof (rule runs_send [OF assms(1,2), where ?r0.0 = "no_fields\<lparr>rs_QueueArn := Some (qr_arn q)\<rparr>"], goal_cases)
  case (3 w r w1)
  then show ?case using service_ok [OF assms(2) 3(2)] assms(3,4) by (auto simp: nonempty_or_def runs_def)
qed (simp_all add: assms(3))

lemma sqs_url_nonempty [simp]: "sqs_url a n \<noteq> []"
  by (simp add: sqs_url_def js_def)

lemma ensureQueueUrl_runs:
  assumes "aws_responsive c view" "aws_service c view" "cl_queues a (sqs_url a name) \<noteq> None"
  shows "runs view a (ensureQueueUrl c cfg name) (sqs_url a name)"
  unfolding runs_def
proof (intro allI impI)
  fix w assume "view w = a"
  then obtain r w1 where "cl_send c (GetQueueUrl name) w = (Inr r, w1)" "rs_QueueUrl r = Some (sqs_url a name)" "view w1 = a"
    using responsive_ok [OF assms(1,2), of "GetQueueUrl name" w] assms(3)
      exI [of _ "no_fields\<lparr>rs_QueueUrl := Some (sqs_url a name)\<rparr>"] by auto
  then show "\<exists>w1. ensureQueueUrl c cfg name w = (Inr (sqs_url a name), w1) \<and> view w1 = a"
    by (simp add: ensureQueueUrl_def)
qed

lemma caught_send:
  assumes "aws_responsive c view" "aws_service c view" "accepted q a r0" "\<And>r. effect q r a = a"
    "\<And>r. accepted q a r \<Longrightarrow> runs view a (k r) y"
  shows "runs view a (\<lambda>w. then_do (catching (cl_send c q w) h) k) y"
  unfolding runs_def
proof (intro allI impI)
  fix w assume w: "view w = a"
  obtain r w1 where s: "cl_send c q w = (Inr r, w1)" "accepted q a r" "view w1 = a"
    using responsive_ok [OF assms(1,2), of q w] assms(3,4) w by auto
  show "\<exists>w1. then_do (catching (cl_send c q w) h) k = (Inr y, w1) \<and> view w1 = a"
    using s assms(5) [OF s(2)] by (auto simp: then_do_def catching_def elim: runsE)
qed

lemma ensureBucket_runs:
  assumes "aws_responsive c view" "aws_service c view" "cl_buckets a (bucket_name cfg i) = Some B" "bucket_hardened B"
  shows "runs view a (ensureBucket c cfg region i) (bucket_name cfg i)"
proof -
  have fix_bucket: "change_bucket (bucket_name cfg i) f a = a" if "f B = B" for f
    using assms(3) that by (simp add: change_bucket_def fun_upd_idem)
  have same: "B\<lparr>bk_accessBlock := [True, True, True, True]\<rparr> = B" "B\<lparr>bk_encryption := Some ''AES256''\<rparr> = B"
    using assms(4) by (simp_all add: bucket_hardened_def)
  show ?thesis
    unfolding ensureBucket_def Let_def
    by (intro caught_send [OF assms(1,2)] runs_send [OF assms(1,2)] runs_done)
      (simp_all add: assms(3) fix_bucket same)
qed

lemma ensureQueues_runs:
  assumes "aws_responsive c view" "aws_service c view" "queues_wired cfg a"
    "\<And>u q. cl_queues a u = Some q \<Longrightarrow> qr_arn q \<noteq> []"
  shows "runs view a (ensureQueues c cfg) (sqs_url a QUEUE_NAME, sqs_url a DLQ_NAME)"
proof -
  obtain q d where q: "cl_queues a (sqs_url a QUEUE_NAME) = Some q" "cl_queues a (sqs_url a DLQ_NAME) = Some d"
    using assms(3) by (auto simp: queues_wired_def)
  have "effect (SetQueueAttributes (sqs_url a QUEUE_NAME) (redrive_attributes cfg (qr_arn d))) r a = a" for r
    using queues_spec_fix [OF assms(3)] q by (simp add: queues_spec_def Let_def arn_at_def)
  then show ?thesis
    unfolding ensureQueues_def using q
    by (intro runs_then [OF ensureQueueUrl_runs [OF assms(1,2)]] runs_then [OF queueArn_runs [OF assms(1,2) q(2) assms(4) [OF q(2)]]]
        runs_send [OF assms(1,2)] runs_done) auto
qed

lemma ensureSchedulerRole_runs:
  assumes "aws_responsive c view" "aws_service c view" "cl_roles a SCHEDULER_ROLE_NAME = Some r" "ro_arn r \<noteq> []"
    "ro_policies r SEND_POLICY_NAME = Some (send_policy arn)"
  shows "runs view a (ensureSchedulerRole c arn) (ro_arn r)"
proof -
  have put: "effect (PutRolePolicy SCHEDULER_ROLE_NAME SEND_POLICY_NAME (send_policy arn)) x a = a" for x
    using assms(3,5) by (simp add: change_role_def fun_upd_idem)
  have rest: "runs view a (\<lambda>w. then_do (cl_send c (PutRolePolicy SCHEDULER_ROLE_NAME SEND_POLICY_NAME (send_policy arn)) w)
       (\<lambda>x w3. (Inr (ro_arn r), w3))) (ro_arn r)"
    using assms(3) put by (intro runs_send [OF assms(1,2)] runs_done) auto
  have "runs view a (nonempty_or m (Some (ro_arn r))) (ro_arn r)" for m
    using assms(4) by (simp add: runs_def nonempty_or_def)
  then show ?thesis
    unfolding ensureSchedulerRole_def
    by (intro caught_send [OF assms(1,2), where ?r0.0 = "no_fields\<lparr>rs_RoleArn := Some (ro_arn r)\<rparr>"])
      (auto simp: assms(3) intro!: runs_then rest)
qed

lemma provision_schedule_runs:
  assumes "aws_responsive c view" "aws_service c view" "toEventBridgeExpression (ev_RECENT_SYNC_CRON cfg) = Inr x"
    "cl_queues a (sqs_url a QUEUE_NAME) = Some q" "qr_arn q \<noteq> []"
    "cl_schedules a (ev_EVENTBRIDGE_SCHEDULE_NAME cfg) = Some (schedule_of (provisioned_options cfg a x) (qr_arn q))"
  shows "runs view a (provision_schedule c cfg (sqs_url a QUEUE_NAME) (role_arn_at a)) ()"
  unfolding runs_def
proof (intro allI impI)
  fix w assume w: "view w = a"
  let ?opts = "provisioned_options cfg a x" and ?sc = "schedule_of (provisioned_options cfg a x) (qr_arn q)"
  have name: "sd_Name ?sc = ev_EVENTBRIDGE_SCHEDULE_NAME cfg" by (simp add: schedule_of_def provisioned_options_def)
  obtain r v where attrs: "cl_send c (GetQueueAttributes (sqs_url a QUEUE_NAME) [''QueueArn'']) w = (Inr r, v)"
      "rs_QueueArn r = Some (qr_arn q)"
    using responsive_ok [OF assms(1,2), of "GetQueueAttributes (sqs_url a QUEUE_NAME) [''QueueArn'']" w] assms(4) w
      exI [of _ "no_fields\<lparr>rs_QueueArn := Some (qr_arn q)\<rparr>"] by auto
  then have arn: "resolveQueueArn (scheduler_client_of c) ?opts w = Inr (qr_arn q)"
    using assms(5)
    by (simp add: resolveQueueArn_def scheduler_client_of_def Let_def provisioned_options_def show_undefined_def)
  obtain e v1 where create: "cl_send c (CreateSchedule ?sc) w = (Inl e, v1)"
    using service_ok [OF assms(2), of "CreateSchedule ?sc" w] assms(6) name w
    by (cases "cl_send c (CreateSchedule ?sc) w"; cases "fst (cl_send c (CreateSchedule ?sc) w)") auto
  then have v1: "view v1 = a"
    using w assms(6) name by (auto elim: service_rejected [OF assms(2)])
  have conflict: "cl_isConflict c e"
    using assms(1) create unfolding aws_responsive_def by (metis fst_conv)
  obtain r2 v2 where update: "cl_send c (UpdateSchedule ?sc) v1 = (Inr r2, v2)" "view v2 = a"
    using responsive_ok [OF assms(1,2), of "UpdateSchedule ?sc" v1] assms(6) name v1 by (auto simp: fun_upd_idem)
  have "eb_ensureSchedules (scheduler_client_of c) ?opts w = (Inr (), v2)"
    using arn create conflict update(1) by (simp add: eb_ensureSchedules_def scheduler_client_of_def Let_def)
  then show "\<exists>w1. provision_schedule c cfg (sqs_url a QUEUE_NAME) (role_arn_at a) w = (Inr (), w1) \<and> view w1 = a"
    using assms(3) update(2) by (simp add: provision_schedule_def provisioned_options_def)
qed

text \<open>The identifiers AWS hands out are not empty.\<close>

definition identified :: "account \<Rightarrow> bool" where
  "identified a \<longleftrightarrow> cl_id a \<noteq> [] \<and> (\<forall>u q. cl_queues a u = Some q \<longrightarrow> qr_arn q \<noteq> [])
     \<and> (\<forall>n r. cl_roles a n = Some r \<longrightarrow> ro_arn r \<noteq> [])"

lemma provisionAws_runs:
  assumes "aws_responsive c view" "aws_service c view" "provisioned cfg a" "identified a"
  shows "runs view a (provisionAws c cfg)
    \<lparr>pv_region = ev_AWS_REGION cfg, pv_bucket = bucket_name cfg (cl_id a), pv_queueUrl = sqs_url a QUEUE_NAME,
      pv_dlqUrl = sqs_url a DLQ_NAME, pv_roleArn = role_arn_at a\<rparr>"
proof -
  obtain B r x where p: "cl_buckets a (bucket_name cfg (cl_id a)) = Some B" "bucket_hardened B" "queues_wired cfg a"
    "cl_roles a SCHEDULER_ROLE_NAME = Some r" "ro_policies r SEND_POLICY_NAME = Some (send_policy (arn_at a (sqs_url a QUEUE_NAME)))"
    "toEventBridgeExpression (ev_RECENT_SYNC_CRON cfg) = Inr x"
    "cl_schedules a (ev_EVENTBRIDGE_SCHEDULE_NAME cfg) = Some (schedule_of (provisioned_options cfg a x) (arn_at a (sqs_url a QUEUE_NAME)))"
    using assms(3) by (auto simp: provisioned_def)
  obtain q where q: "cl_queues a (sqs_url a QUEUE_NAME) = Some q" "arn_at a (sqs_url a QUEUE_NAME) = qr_arn q"
    using p(3) by (auto simp: queues_wired_def arn_at_def)
  have nonempty: "cl_id a \<noteq> []" "\<And>u q. cl_queues a u = Some q \<Longrightarrow> qr_arn q \<noteq> []" "ro_arn r \<noteq> []"
    using assms(4) p(4) by (auto simp: identified_def)
  have role: "ro_arn r = role_arn_at a" using p(4) by (simp add: role_arn_at_def)
  note sched = provision_schedule_runs [OF assms(1,2) p(6) q(1) nonempty(2) [OF q(1)] p(7) [unfolded q(2)]]
  have waited: "runs view a (\<lambda>w. then_do (provision_schedule c cfg (sqs_url a QUEUE_NAME) (role_arn_at a) (cl_wait c n w))
      (\<lambda>u w6. (Inr y, w6))) y" for n y
    unfolding runs_def
  proof (intro allI impI)
    fix w assume "view w = a"
    then have "view (cl_wait c n w) = a" using service_wait [OF assms(2)] by simp
    then show "\<exists>w1. then_do (provision_schedule c cfg (sqs_url a QUEUE_NAME) (role_arn_at a) (cl_wait c n w))
        (\<lambda>u w6. (Inr y, w6)) = (Inr y, w1) \<and> view w1 = a"
      using sched by (auto simp: then_do_def elim: runsE)
  qed
  show ?thesis
    unfolding provisionAws_def Let_def
    using waited
    by (intro runs_then [OF resolveAccountId_runs [OF assms(1,2) nonempty(1)]]
        runs_then [OF ensureBucket_runs [OF assms(1,2) p(1,2)]]
        runs_then [OF ensureQueues_runs [OF assms(1,2) p(3) nonempty(2)]])
      (auto intro!: runs_then [OF queueArn_runs [OF assms(1,2) q(1) nonempty(2) [OF q(1)]]]
        runs_then [OF ensureSchedulerRole_runs [OF assms(1,2) p(4) nonempty(3) p(5) [unfolded q(2)], unfolded role]])
qed

end
