(* ===== verification/Deploy_Correct.thy ===== *)
theory Deploy_Correct
  imports Deploy Provision_Correct
begin

text \<open>
  What deploying does to the account: which image is taken, what is granted, that no second instance is
  launched beside a running one, and what the instance is told in its environment file.
\<close>

section \<open>The newest image\<close>

lemma js_less_asym: "js_less xs ys \<Longrightarrow> \<not> js_less ys xs"
  by (induction xs ys rule: js_less.induct) auto

lemma js_less_negtrans: "\<not> js_less xs ys \<Longrightarrow> \<not> js_less ys zs \<Longrightarrow> \<not> js_less xs zs"
proof (induction xs zs arbitrary: ys rule: js_less.induct)
  case (2 y zs)
  then show ?case by (cases ys) auto
next
  case (3 x xs z zs)
  then show ?case by (cases ys) (auto simp: not_less)
qed auto

abbreviation newer_first :: "ec2_image \<Rightarrow> ec2_image \<Rightarrow> bool" where
  "newer_first a b \<equiv> \<not> js_less (the (ea_CreationDate a)) (the (ea_CreationDate b))"

lemma set_insert_by: "set (insert_by cmp x ys) = insert x (set ys)"
  by (induction ys) auto

lemma sorted_insert_by:
  "sorted_wrt newer_first ys \<Longrightarrow> sorted_wrt newer_first (insert_by compare_images x ys)"
proof (induction ys)
  case (Cons y ys)
  show ?case
  proof (cases "compare_images x y < 0")
    case True
    then have xy: "newer_first x y" by (simp add: compare_images_def split: if_splits)
    then have "newer_first x z" if "z \<in> set ys" for z
      using js_less_negtrans [OF xy] Cons.prems that by simp
    then show ?thesis using True xy Cons.prems by simp
  next
    case False
    then have "newer_first y x" by (auto simp: compare_images_def split: if_splits dest: js_less_asym)
    then show ?thesis using False Cons by (simp add: set_insert_by)
  qed
qed simp

lemma sort_by_sorted: "sorted_wrt newer_first (sort_by compare_images xs) \<and> set (sort_by compare_images xs) = set xs"
proof -
  have "sorted_wrt newer_first (foldl (\<lambda>ys x. insert_by compare_images x ys) acc xs)
      \<and> set (foldl (\<lambda>ys x. insert_by compare_images x ys) acc xs) = set acc \<union> set xs"
    if "sorted_wrt newer_first acc" for acc
    using that by (induction xs arbitrary: acc) (simp_all add: sorted_insert_by set_insert_by)
  from this [of "[]"] show ?thesis by (simp add: sort_by_def)
qed

definition usable_image :: "ec2_image \<Rightarrow> bool" where
  "usable_image i \<longleftrightarrow> present (ea_ImageId i) \<and> present (ea_CreationDate i)"

lemma newest_image_newest:
  assumes "newest_image images = Some ami"
  shows "\<exists>i \<in> set images. ea_ImageId i = Some ami \<and> usable_image i \<and> (\<forall>j \<in> set images. usable_image j \<longrightarrow> newer_first i j)"
proof -
  let ?us = "filter (\<lambda>i. present (ea_ImageId i) \<and> present (ea_CreationDate i)) images"
  obtain i rest where sorted: "sort_by compare_images ?us = i # rest" "ea_ImageId i = Some ami"
    using assms by (auto simp: newest_image_def split: list.splits)
  then have s: "set (i # rest) = set ?us" "sorted_wrt newer_first (i # rest)" using sort_by_sorted [of ?us] by simp_all
  then have "i \<in> set ?us" by (metis list.set_intros(1))
  moreover have "newer_first i j" if "j \<in> set ?us" for j
  proof -
    have "j = i \<or> j \<in> set rest" using that s(1) by (metis set_ConsD)
    then show ?thesis using s(2) js_less_asym by fastforce
  qed
  ultimately show ?thesis using sorted(2) by (auto simp: usable_image_def)
qed

lemma newest_image_None: "newest_image images = None \<Longrightarrow> i \<in> set images \<Longrightarrow> \<not> usable_image i"
proof
  assume none: "newest_image images = None" and i: "i \<in> set images" and u: "usable_image i"
  let ?us = "filter (\<lambda>i. present (ea_ImageId i) \<and> present (ea_CreationDate i)) images"
  have "i \<in> set (sort_by compare_images ?us)" using sort_by_sorted [of ?us] i u by (simp add: usable_image_def)
  then obtain j js where "sort_by compare_images ?us = j # js" by (cases "sort_by compare_images ?us") auto
  moreover from this have "j \<in> set ?us" using sort_by_sorted [of ?us] by (metis list.set_intros(1))
  ultimately show False using none by (simp add: newest_image_def present_def split: option.splits)
qed

text \<open>The image taken is one of the latest of those that have an id and a date; there is an error only if none has.\<close>

lemma findAmi_newest:
  assumes "findAmi c w = (r, w1)" "cl_send c (DescribeImages [''amazon''] ami_filters) w = (Inr resp, w1)"
  shows "case r of
      Inr ami \<Rightarrow> \<exists>i \<in> set (rs_Images resp). ea_ImageId i = Some ami \<and> usable_image i
        \<and> (\<forall>j \<in> set (rs_Images resp). usable_image j \<longrightarrow> newer_first i j)
    | Inl e \<Rightarrow> \<not> (\<exists>i \<in> set (rs_Images resp). usable_image i)"
proof (cases "newest_image (rs_Images resp)")
  case None
  then show ?thesis
    using assms newest_image_None by (auto simp: findAmi_def then_do_def nonempty_or_def)
next
  case (Some ami)
  note newest = newest_image_newest [OF Some]
  then have "ami \<noteq> []" by (auto simp: usable_image_def present_def)
  then have "r = Inr ami" using assms Some by (simp add: findAmi_def then_do_def nonempty_or_def)
  then show ?thesis using newest by simp
qed

section \<open>One running instance\<close>

definition tagged_live :: "vm \<Rightarrow> bool" where
  "tagged_live v \<longleftrightarrow> vm_tagName v = Some INSTANCE_TAG \<and> (vm_state v = ''pending'' \<or> vm_state v = ''running'')"

lemma running_filters_match: "vm_matches running_filters = tagged_live"
proof -
  have "js s = js t \<longleftrightarrow> s = t" for s t by (simp add: js_def inj_map_eq_map inj_on_def)
  then show ?thesis by (auto simp: fun_eq_iff vm_matches_def running_filters_def tagged_live_def)
qed

definition vms_wf :: "account \<Rightarrow> bool" where
  "vms_wf a \<longleftrightarrow> distinct (map vm_id (cl_instances a)) \<and> (\<forall>v \<in> set (cl_instances a). vm_id v \<noteq> [])"

definition one_live :: "account \<Rightarrow> bool" where
  "one_live a \<longleftrightarrow> vms_wf a \<and> length (filter tagged_live (cl_instances a)) \<le> 1"

text \<open>No instance is reported exactly when none is live.\<close>

lemma first_instance_None:
  assumes "accepted (DescribeInstances fs) a r" "first_instance (rs_Reservations r) = None"
  shows "filter (vm_matches fs) (cl_instances a) = []"
proof -
  have "rs_Reservations r = []"
    using assms by (auto simp: first_instance_def split: list.splits)
  then show ?thesis using assms(1) by simp
qed

text \<open>Preparing touches no instance.\<close>

definition same_vms :: "account \<Rightarrow> account \<Rightarrow> bool" where
  "same_vms a b \<longleftrightarrow> cl_instances b = cl_instances a"

lemma same_vms_preorder [simp]: "preorder_on_accounts same_vms"
  by (auto simp: preorder_on_accounts_def same_vms_def intro!: reflpI transpI)

lemma same_vms_safe:
  assumes "\<And>a r. cl_instances (effect q r a) = cl_instances a"
  shows "request_safe same_vms q"
  using assms by (simp add: request_safe_def same_vms_def)

lemma ensureInstanceProfile_vms:
  assumes "aws_service c view"
  shows "keeps view same_vms (ensureInstanceProfile c cfg region i)"
  unfolding ensureInstanceProfile_def using assms
  by (intro keeps_intros same_vms_preorder) (auto intro!: same_vms_safe simp: change_role_def)

lemma ensureSecurityGroup_vms:
  assumes "aws_service c view"
  shows "keeps view same_vms (ensureSecurityGroup c vpc ip)"
  unfolding ensureSecurityGroup_def using assms
  by (intro keeps_intros same_vms_preorder) (auto intro!: same_vms_safe)

lemma ensureLifecycleRule_vms:
  assumes "aws_service c view"
  shows "keeps view same_vms (ensureLifecycleRule c b)"
  unfolding ensureLifecycleRule_def [abs_def] using assms
  by (intro keeps_intros same_vms_preorder same_vms_safe) (simp_all add: change_bucket_def)

lemma findAmi_vms:
  assumes "aws_service c view"
  shows "keeps view same_vms (findAmi c)"
  unfolding findAmi_def [abs_def] using assms
  by (intro keeps_intros same_vms_preorder same_vms_safe) simp_all

text \<open>Writing the key to the local disk is no business of the account.\<close>

definition local_disk :: "'w deploy_env \<Rightarrow> ('w \<Rightarrow> account) \<Rightarrow> bool" where
  "local_disk env view \<longleftrightarrow> (\<forall>p b w. view (snd (de_writeFile env p b w)) = view w)"

lemma ensureKeyPair_vms:
  assumes "aws_service (de_cloud env) view" "local_disk env view"
  shows "cl_instances (view (snd (ensureKeyPair env w))) = cl_instances (view w)"
proof -
  obtain x w1 where s: "cl_send (de_cloud env) (CreateKeyPair KEY_NAME) w = (x, w1)" by fastforce
  have "same_vms (view w) (view w1)"
    by (rule keepsD [OF keeps_send [OF assms(1) same_vms_preorder] s]) (simp add: same_vms_safe)
  moreover have "view (snd (de_writeFile env p b w1)) = view w1" for p b
    using assms(2) by (simp add: local_disk_def)
  ultimately show ?thesis
    using s by (auto simp: ensureKeyPair_def same_vms_def Let_def split: sum.splits prod.splits)
      (metis snd_conv)+
qed

text \<open>Launching adds one instance with a new id, tagged when it reports success.\<close>

definition launched_as :: "launch_spec \<Rightarrow> account \<Rightarrow> account \<Rightarrow> bool" where
  "launched_as spec a b \<longleftrightarrow>
     (\<exists>i tag. i \<noteq> [] \<and> i \<notin> vm_id ` set (cl_instances a)
        \<and> cl_instances b = cl_instances a @ [\<lparr>vm_id = i, vm_state = ''pending'', vm_tagName = tag, vm_spec = spec\<rparr>])"

lemma update_where_fresh:
  assumes "i \<notin> vm_id ` set vs"
  shows "update_where (\<lambda>v. vm_id v = i) f vs = vs"
  using assms unfolding update_where_def by (intro map_idI) auto

lemma update_where_one: "update_where p f [v] = [if p v then f v else v]"
  by (simp add: update_where_def)

lemma run_instances_view:
  assumes "aws_service c view" "cl_send c (RunInstances spec) w = (x, w1)"
  shows "case x of
      Inr r \<Rightarrow> \<exists>i. i \<noteq> [] \<and> i \<notin> vm_id ` set (cl_instances (view w)) \<and> ei_InstanceId (hd (rs_Instances r)) = Some i
        \<and> rs_Instances r = [hd (rs_Instances r)]
        \<and> cl_instances (view w1) = cl_instances (view w) @ [\<lparr>vm_id = i, vm_state = ''pending'', vm_tagName = None, vm_spec = spec\<rparr>]
    | Inl e \<Rightarrow> cl_instances (view w1) = cl_instances (view w) \<or> launched_as spec (view w) (view w1)"
proof (cases x)
  case (Inl e)
  have "cl_instances (view w1) = cl_instances (view w) \<or> launched_as spec (view w) (view w1)"
  proof (rule service_rejected [OF assms(1) assms(2) [unfolded Inl]], goal_cases)
    case (2 r)
    then show ?case unfolding launched_as_def by fastforce
  qed simp
  then show ?thesis using Inl by simp
next
  case (Inr r)
  then show ?thesis using service_ok [OF assms(1) assms(2) [unfolded Inr]] by auto
qed

lemma launch_instance_view:
  assumes "aws_service c view" "launch_instance c spec w = (x, w1)"
  shows "cl_instances (view w1) = cl_instances (view w) \<or> launched_as spec (view w) (view w1)"
proof -
  obtain y v where run: "cl_send c (RunInstances spec) w = (y, v)" by fastforce
  note ran = run_instances_view [OF assms(1) run]
  show ?thesis
  proof (cases y)
    case (Inl e)
    then show ?thesis using ran assms(2) run by (auto simp: launch_instance_def then_do_def)
  next
    case (Inr r)
    then obtain i where i: "i \<noteq> []" "i \<notin> vm_id ` set (cl_instances (view w))" "ei_InstanceId (hd (rs_Instances r)) = Some i"
      "rs_Instances r = [hd (rs_Instances r)]"
      "cl_instances (view v) = cl_instances (view w) @ [\<lparr>vm_id = i, vm_state = ''pending'', vm_tagName = None, vm_spec = spec\<rparr>]"
      using ran by auto
    obtain z v2 where tag: "cl_send c (CreateTags [i] [(''Name'', INSTANCE_TAG)]) v = (z, v2)" by fastforce
    have w1: "w1 = v2"
      using assms(2) run Inr i(1,3,4) tag
      by (cases z; cases "rs_Instances r") (auto simp: launch_instance_def then_do_def nonempty_or_def)
    have tagged: "cl_instances (effect (CreateTags [i] [(''Name'', INSTANCE_TAG)]) r2 (view v)) =
        cl_instances (view w) @ [\<lparr>vm_id = i, vm_state = ''pending'', vm_tagName = Some INSTANCE_TAG, vm_spec = spec\<rparr>]" for r2
      using i(2,5) by (simp add: update_where_fresh update_where_one)
    have "cl_instances (view v2) = cl_instances (view v) \<or> (\<exists>r2. view v2 = effect (CreateTags [i] [(''Name'', INSTANCE_TAG)]) r2 (view v))"
    proof (cases z)
      case (Inl e)
      show ?thesis
        by (rule service_rejected [OF assms(1) tag [unfolded Inl]]) (auto simp del: effect.simps)
    next
      case (Inr r2)
      then show ?thesis using service_answered(2) [OF assms(1) tag [unfolded Inr]] by blast
    qed
    then show ?thesis using i tagged w1 unfolding launched_as_def by metis
  qed
qed

definition may_launch :: "account \<Rightarrow> account \<Rightarrow> bool" where
  "may_launch a b \<longleftrightarrow> same_vms a b \<or> (\<exists>spec. launched_as spec a b)"

lemma same_vms_launch: "same_vms a b \<Longrightarrow> may_launch b d \<Longrightarrow> may_launch a d"
  by (simp add: may_launch_def same_vms_def launched_as_def)

lemma launch_then:
  assumes "keeps view same_vms m" "\<And>a. keeps view may_launch (k a)"
  shows "keeps view may_launch (\<lambda>w. then_do (m w) k)"
  unfolding keeps_def
proof (intro allI impI)
  fix w x w2 assume "then_do (m w) k = (x, w2)"
  then consider e where "m w = (Inl e, w2)" | a w1 where "m w = (Inr a, w1)" "k a w1 = (x, w2)"
    by (cases "m w"; cases "fst (m w)") (auto simp: then_do_def)
  then show "may_launch (view w) (view w2)"
  proof cases
    case 1
    then show ?thesis using keepsD [OF assms(1)] by (auto simp: may_launch_def)
  next
    case (2 a w1)
    then show ?thesis using keepsD [OF assms(1)] keepsD [OF assms(2)] by (blast intro: same_vms_launch)
  qed
qed

lemma launch_instance_keeps:
  "aws_service c view \<Longrightarrow> keeps view may_launch (launch_instance c spec)"
  using launch_instance_view unfolding keeps_def may_launch_def same_vms_def by metis

lemma fetch_ip_vms: "keeps view same_vms (fetch_ip env)"
  by (auto simp: keeps_def fetch_ip_def same_vms_def split: sum.splits)

lemma prepare_and_launch_keeps:
  assumes "aws_service (de_cloud env) view" "local_disk env view"
  shows "keeps view may_launch (prepare_and_launch env cfg b i)"
proof -
  note sent = keeps_send [OF assms(1) same_vms_preorder same_vms_safe]
    and found = keeps_nonempty_or [OF same_vms_preorder]
  have wait: "keeps view may_launch (\<lambda>w. launch_instance (de_cloud env) spec (cl_wait (de_cloud env) n w))" for spec n
    using launch_instance_keeps [OF assms(1)] by (rule keeps_waited [OF assms(1)])
  have ami: "keeps view may_launch (\<lambda>w. then_do (findAmi (de_cloud env) (snd (ensureKeyPair env w)))
      (\<lambda>ami w9. launch_instance (de_cloud env) (f ami) (cl_wait (de_cloud env) 15000 w9)))" for f
  proof (rule launch_then [OF _ wait])
    show "keeps view same_vms (\<lambda>w. findAmi (de_cloud env) (snd (ensureKeyPair env w)))"
      using keepsD [OF findAmi_vms [OF assms(1)]] ensureKeyPair_vms [OF assms]
      by (fastforce simp: keeps_def same_vms_def)
  qed
  show ?thesis
    unfolding prepare_and_launch_def Let_def
    by (intro launch_then fetch_ip_vms sent found ensureLifecycleRule_vms ensureInstanceProfile_vms
        ensureSecurityGroup_vms assms(1) ami) simp_all
qed

lemma then_do_ok: "then_do (Inr a, w) k = k a w"
  by (simp add: then_do_def)

text \<open>Whatever happens on the way: an instance is launched only if none was live, and then one.\<close>

lemma deployEc2_launches:
  assumes "aws_service (de_cloud env) view" "local_disk env view" "deployEc2 env cfg w = (x, w1)"
  shows "same_vms (view w) (view w1)
    \<or> (filter tagged_live (cl_instances (view w)) = [] \<and> (\<exists>spec. launched_as spec (view w) (view w1)))"
proof (cases "present (ev_S3_BUCKET cfg) \<and> present (ev_SQS_QUEUE_URL cfg)")
  case False
  then show ?thesis using assms(3) by (auto simp: deployEc2_def same_vms_def)
next
  case True
  obtain y v where sent: "cl_send (de_cloud env) (DescribeInstances running_filters) w = (y, v)" by fastforce
  have v: "view v = view w" by (rule reading_view [OF assms(1) sent]) simp
  show ?thesis
  proof (cases y)
    case (Inl e)
    then show ?thesis using True sent v assms(3) by (auto simp: deployEc2_def then_do_def same_vms_def)
  next
    case (Inr r)
    show ?thesis
    proof (cases "first_instance (rs_Reservations r)")
      case (Some i)
      then show ?thesis using True sent Inr v assms(3) by (auto simp: deployEc2_def then_do_def same_vms_def)
    next
      case None
      then have free: "filter tagged_live (cl_instances (view w)) = []"
        using first_instance_None [OF service_answered(1) [OF assms(1) sent [unfolded Inr]]]
        by (simp add: running_filters_match)
      have "then_do (nonempty_or (js ''could not derive the account ID from EVENTBRIDGE_SCHEDULE_ROLE_ARN'')
               (account_of_arn (ev_EVENTBRIDGE_SCHEDULE_ROLE_ARN cfg)) v) (\<lambda>accountId w2.
              prepare_and_launch env cfg (the (ev_S3_BUCKET cfg)) accountId w2) = (x, w1)"
        using assms(3) True None unfolding deployEc2_def sent Inr then_do_ok by simp
      then have "may_launch (view v) (view w1)"
        by (rule keepsD [OF launch_then [OF keeps_nonempty_or [OF same_vms_preorder] prepare_and_launch_keeps [OF assms(1,2)]]])
      then show ?thesis using v free by (simp add: may_launch_def)
    qed
  qed
qed

lemma launched_one_live:
  assumes "one_live a" "filter tagged_live (cl_instances a) = []" "launched_as spec a b"
  shows "one_live b"
  using assms by (auto simp: one_live_def vms_wf_def launched_as_def)

lemma deployEc2_one_live:
  assumes "aws_service (de_cloud env) view" "local_disk env view" "deployEc2 env cfg w = (x, w1)" "one_live (view w)"
  shows "one_live (view w1)"
  using deployEc2_launches [OF assms(1-3)]
proof
  assume "same_vms (view w) (view w1)"
  then show ?thesis using assms(4) by (simp add: same_vms_def one_live_def vms_wf_def)
next
  assume "filter tagged_live (cl_instances (view w)) = [] \<and> (\<exists>spec. launched_as spec (view w) (view w1))"
  then show ?thesis using launched_one_live [OF assms(4)] by blast
qed

text \<open>With a live instance nothing at all happens.\<close>

lemma deployEc2_refuses:
  assumes "aws_service (de_cloud env) view" "deployEc2 env cfg w = (x, w1)"
    "filter tagged_live (cl_instances (view w)) \<noteq> []"
  shows "view w1 = view w \<and> (\<forall>i. x \<noteq> Inr (Launched i))"
proof (cases "present (ev_S3_BUCKET cfg) \<and> present (ev_SQS_QUEUE_URL cfg)")
  case False
  then show ?thesis using assms(2) by (auto simp: deployEc2_def)
next
  case True
  obtain y v where sent: "cl_send (de_cloud env) (DescribeInstances running_filters) w = (y, v)" by fastforce
  have v: "view v = view w" by (rule reading_view [OF assms(1) sent]) simp
  show ?thesis
  proof (cases y)
    case (Inl e)
    then show ?thesis using True sent v assms(2) by (auto simp: deployEc2_def then_do_def)
  next
    case (Inr r)
    then obtain i where "first_instance (rs_Reservations r) = Some i"
      using first_instance_None [OF service_answered(1) [OF assms(1) sent [unfolded Inr]]] assms(3)
      by (auto simp: running_filters_match)
    then show ?thesis using True sent Inr v assms(2) by (auto simp: deployEc2_def then_do_def)
  qed
qed

section \<open>What the instance may do\<close>

lemma split_colon_plain: "58 \<notin> set s \<Longrightarrow> split_colon (s @ 58 # t) = s # split_colon t"
  by (induction s) auto

text \<open>The account id is the fifth field of the ARN of any role.\<close>

lemma account_of_role_arn:
  assumes "58 \<notin> set (cl_id a)"
  shows "account_of_arn (Some (iam_role_arn a n)) = Some (cl_id a)"
proof -
  have "iam_role_arn a n = js ''arn'' @ 58 # js ''aws'' @ 58 # js ''iam'' @ 58 # [] @ 58 # cl_id a @ 58 # js ''role/'' @ n"
    by (simp add: iam_role_arn_def js_def)
  then have "split_colon (iam_role_arn a n) = js ''arn'' # js ''aws'' # js ''iam'' # [] # cl_id a # split_colon (js ''role/'' @ n)"
    using assms by (simp add: split_colon_plain js_def del: append.simps)
  then show ?thesis by (simp add: account_of_arn_def text_or_empty_def)
qed

text \<open>The policy of the instance names the queue that provisioning made.\<close>

lemma worker_queue_is_provisioned:
  "worker_queue_arn (cl_region a) (cl_id a) = sqs_arn a QUEUE_NAME"
  by (simp add: worker_queue_arn_def sqs_arn_def QUEUE_NAME_def js_def)

end
