(* ===== verification/Teardown_Correct.thy ===== *)
theory Teardown_Correct
  imports Teardown Deploy_Correct
begin

text \<open>
  Teardown: the loop that empties the bucket ends when deletions are honoured and only then; the whole
  command undoes provisioning; what it leaves behind; and the account under all three commands.
\<close>

section \<open>Emptying the bucket\<close>

text \<open>The service deletes every object it is asked to delete when it accepts the request.\<close>

definition deletes_honoured :: "'w cloud \<Rightarrow> jstr \<Rightarrow> bool" where
  "deletes_honoured c b \<longleftrightarrow> (\<forall>ks w r w1. cl_send c (DeleteObjects b ks) w = (Inr r, w1) \<longrightarrow> rs_Errors r = [])"

lemma map_filter_id: "List.map_filter (\<lambda>k. k) (map Some ks) = ks"
  by (induction ks) (simp_all add: List.map_filter_def)

text \<open>What a listing says of the bucket.\<close>

lemma listed:
  assumes "aws_service c view" "cl_send c (ListObjectsV2 b n) w = (Inr r, w1)"
  shows "\<exists>B. cl_buckets (view w) b = Some B \<and> set (listed_keys r) \<subseteq> set (bk_keys B)
      \<and> (listed_keys r = [] \<longrightarrow> bk_keys B = []) \<and> (rs_IsTruncated r \<or> set (listed_keys r) = set (bk_keys B))"
    "view w1 = view w"
proof -
  obtain B ks where B: "cl_buckets (view w) b = Some B" "rs_Contents r = map Some ks" "set ks \<subseteq> set (bk_keys B)"
    "[] \<notin> set ks" "ks = [] \<longrightarrow> bk_keys B = []" "rs_IsTruncated r \<or> set ks = set (bk_keys B)" and v: "view w1 = view w"
    using service_ok [OF assms] unfolding accepted.simps effect.simps by blast
  have "filter (\<lambda>k. k \<noteq> []) ks = ks" using B(4) by (intro filter_True) auto
  then have keys: "listed_keys r = ks" using B(2) by (simp add: listed_keys_def map_filter_id)
  show "view w1 = view w" by (fact v)
  show "\<exists>B. cl_buckets (view w) b = Some B \<and> set (listed_keys r) \<subseteq> set (bk_keys B)
      \<and> (listed_keys r = [] \<longrightarrow> bk_keys B = []) \<and> (rs_IsTruncated r \<or> set (listed_keys r) = set (bk_keys B))"
    unfolding keys using B by blast
qed

definition keys_at :: "account \<Rightarrow> jstr \<Rightarrow> jstr list" where
  "keys_at a b = (case cl_buckets a b of None \<Rightarrow> [] | Some B \<Rightarrow> bk_keys B)"

text \<open>Only this bucket changes, and only by losing objects.\<close>

definition same_but_objects :: "jstr \<Rightarrow> account \<Rightarrow> account \<Rightarrow> bool" where
  "same_but_objects b a a' \<longleftrightarrow> (\<exists>f. a' = change_bucket b (bk_keys_update f) a \<and> (\<forall>xs. set (f xs) \<subseteq> set xs))"

lemma same_but_objects_refl [simp]: "same_but_objects b a a"
proof -
  have "a = change_bucket b (bk_keys_update (\<lambda>x. x)) a"
    by (simp add: change_bucket_def fun_upd_idem option.map_ident_strong)
  then show ?thesis unfolding same_but_objects_def by (intro exI [of _ "\<lambda>x. x"]) simp
qed

lemma same_but_objects_trans: "same_but_objects b a a1 \<Longrightarrow> same_but_objects b a1 a2 \<Longrightarrow> same_but_objects b a a2"
proof -
  assume "same_but_objects b a a1" "same_but_objects b a1 a2"
  then obtain f g where fg: "a1 = change_bucket b (bk_keys_update f) a" "\<forall>xs. set (f xs) \<subseteq> set xs"
    "a2 = change_bucket b (bk_keys_update g) a1" "\<forall>xs. set (g xs) \<subseteq> set xs"
    by (auto simp: same_but_objects_def)
  then have "a2 = change_bucket b (bk_keys_update (\<lambda>x. g (f x))) a"
    by (simp add: change_bucket_def option.map_comp comp_def)
  then show ?thesis unfolding same_but_objects_def using fg(2,4) by (intro exI [of _ "\<lambda>x. g (f x)"]) blast
qed

lemma deleted_objects:
  assumes "aws_service c view" "cl_send c (DeleteObjects b ks) w = (x, w1)"
  shows "same_but_objects b (view w) (view w1)"
    "x = Inr r \<Longrightarrow> keys_at (view w1) b = filter (\<lambda>k. k \<notin> set ks \<or> k \<in> set (rs_Errors r)) (keys_at (view w) b)"
proof -
  show "same_but_objects b (view w) (view w1)"
    by (rule send_related [OF assms(1) _ _ assms(2)])
      (auto intro!: request_safeI exI [of _ "filter _"] simp: same_but_objects_def)
  show "x = Inr r \<Longrightarrow> keys_at (view w1) b = filter (\<lambda>k. k \<notin> set ks \<or> k \<in> set (rs_Errors r)) (keys_at (view w) b)"
    using service_ok [OF assms(1), of "DeleteObjects b ks" w r w1] assms(2)
    by (auto simp: keys_at_def change_bucket_def split: option.split)
qed

text \<open>A request of the loop was rejected.\<close>

definition loop_rejected :: "'w cloud \<Rightarrow> jstr \<Rightarrow> ('w \<Rightarrow> account) \<Rightarrow> 'w \<Rightarrow> bool" where
  "loop_rejected c b view w \<longleftrightarrow>
     (\<exists>q w1. isl (fst (cl_send c q w1)) \<and> same_but_objects b (view w) (view w1)
        \<and> (q = ListObjectsV2 b 1000 \<or> (\<exists>ks. q = DeleteObjects b ks)))"

lemma loop_rejected_later: "same_but_objects b (view w) (view w1) \<Longrightarrow> loop_rejected c b view w1 \<Longrightarrow> loop_rejected c b view w"
  unfolding loop_rejected_def using same_but_objects_trans by blast

lemma empty_bucket_ends:
  assumes "aws_service c view" "deletes_honoured c b"
  shows "\<exists>x w1. empty_bucket c b n w = Some (x, w1) \<and> same_but_objects b (view w) (view w1)
    \<and> (case x of Inl e \<Rightarrow> loop_rejected c b view w | Inr m \<Rightarrow> cl_buckets (view w1) b \<noteq> None \<and> keys_at (view w1) b = [])"
proof (induction "length (keys_at (view w) b)" arbitrary: n w rule: less_induct)
  case less
  obtain y v where list: "cl_send c (ListObjectsV2 b 1000) w = (y, v)" by fastforce
  have v: "view v = view w" by (rule reading_view [OF assms(1) list]) simp
  show ?case
  proof (cases y)
    case (Inl e)
    then have "loop_rejected c b view w"
      unfolding loop_rejected_def using list by (intro exI [of _ "ListObjectsV2 b 1000"] exI [of _ w]) simp
    then show ?thesis using Inl list v by (subst empty_bucket.simps) simp
  next
    case (Inr r)
    obtain B where B: "cl_buckets (view w) b = Some B" "set (listed_keys r) \<subseteq> set (bk_keys B)"
      "listed_keys r = [] \<longrightarrow> bk_keys B = []" "rs_IsTruncated r \<or> set (listed_keys r) = set (bk_keys B)"
      using listed(1) [OF assms(1) list [unfolded Inr]] by blast
    have keys: "keys_at (view v) b = bk_keys B" using B(1) v by (simp add: keys_at_def)
    show ?thesis
    proof (cases "listed_keys r = []")
      case True
      then show ?thesis using list Inr B v keys by (subst empty_bucket.simps) (simp add: Let_def)
    next
      case False
      obtain z v2 where del: "cl_send c (DeleteObjects b (listed_keys r)) v = (z, v2)" by fastforce
      note d = deleted_objects [OF assms(1) del]
      have run: "empty_bucket c b n w = (case z of Inl e \<Rightarrow> Some (Inl e, v2)
          | Inr r2 \<Rightarrow> if \<not> rs_IsTruncated r then Some (Inr (n + length (listed_keys r)), v2)
              else empty_bucket c b (n + length (listed_keys r)) v2)"
        using list Inr False del by (subst empty_bucket.simps) (simp add: Let_def split: sum.split)
      show ?thesis
      proof (cases z)
        case (Inl e)
        then have "loop_rejected c b view w"
          unfolding loop_rejected_def using del v by (intro exI [of _ "DeleteObjects b (listed_keys r)"] exI [of _ v]) simp
        then show ?thesis using Inl run d(1) v by simp
      next
        case (Inr r2)
        have "rs_Errors r2 = []" using assms(2) del Inr by (auto simp: deletes_honoured_def)
        then have left: "keys_at (view v2) b = filter (\<lambda>k. k \<notin> set (listed_keys r)) (bk_keys B)"
          using d(2) [OF Inr] keys by simp
        have there: "cl_buckets (view v2) b \<noteq> None"
          using d(1) B(1) v by (auto simp: same_but_objects_def change_bucket_def)
        show ?thesis
        proof (cases "rs_IsTruncated r")
          case True
          obtain k where "k \<in> set (listed_keys r)" using False by (cases "listed_keys r") auto
          then have "length (keys_at (view v2) b) < length (keys_at (view w) b)"
            using B(2) left keys v by (auto intro!: length_filter_less)
          from less [OF this] obtain x w1 where ih: "empty_bucket c b (n + length (listed_keys r)) v2 = Some (x, w1)"
            "same_but_objects b (view v2) (view w1)"
            "case x of Inl e \<Rightarrow> loop_rejected c b view v2 | Inr m \<Rightarrow> cl_buckets (view w1) b \<noteq> None \<and> keys_at (view w1) b = []"
            by blast
          have "same_but_objects b (view w) (view v2)" using d(1) v by simp
          then show ?thesis
            using run Inr True ih same_but_objects_trans loop_rejected_later by (cases x) fastforce+
        next
          case False
          then have "keys_at (view v2) b = []" using B(4) left by (auto simp: filter_empty_conv)
          then show ?thesis using run Inr False d(1) v there by simp
        qed
      qed
    qed
  qed
qed

text \<open>
  While a listing stays truncated and the service reports the listed objects as not deleted, the loop goes on
  for ever.
\<close>

lemma empty_bucket_stuck:
  assumes "\<And>w. P w \<Longrightarrow> \<exists>r v r2 w2. cl_send c (ListObjectsV2 b 1000) w = (Inr r, v) \<and> listed_keys r \<noteq> [] \<and> rs_IsTruncated r
      \<and> cl_send c (DeleteObjects b (listed_keys r)) v = (Inr r2, w2) \<and> P w2"
    "P w"
  shows "empty_bucket c b n w = None"
proof -
  have stuck: "c' = c \<and> b' = b \<longrightarrow> \<not> P w'" if "empty_bucket c' b' n' w' = Some y" for c' b' n' w' y
    using that
  proof (induction rule: empty_bucket.raw_induct [rotated, consumes 1, case_names step])
    case (step f c' b' n' w' y)
    show ?case
    proof (intro impI notI)
      assume c: "c' = c \<and> b' = b" and P: "P w'"
      obtain r v r2 w2 where s: "cl_send c (ListObjectsV2 b 1000) w' = (Inr r, v)" "listed_keys r \<noteq> []" "rs_IsTruncated r"
        "cl_send c (DeleteObjects b (listed_keys r)) v = (Inr r2, w2)" "P w2"
        using assms(1) [OF P] by blast
      then have "f c b (n' + length (listed_keys r)) w2 = Some y" using step(2) c by (simp add: Let_def)
      then show False using step(1) s(5) c by blast
    qed
  qed
  then show ?thesis using assms(2) by (cases "empty_bucket c b n w") auto
qed

lemma emptyAndDeleteBucket_ends:
  assumes "aws_service c view" "deletes_honoured c b"
  shows "\<exists>x w1. emptyAndDeleteBucket c b w = Some (x, w1) \<and> (\<forall>m. x = Inr m \<longrightarrow> cl_buckets (view w1) b = None)"
proof -
  obtain x v where run: "empty_bucket c b 0 w = Some (x, v)" using empty_bucket_ends [OF assms] by metis
  obtain y w1 where del: "cl_send c (DeleteBucket b) v = (y, w1)" by fastforce
  have "cl_buckets (view w1) b = None" if "y = Inr r" for r
    using service_ok [OF assms(1) del [unfolded that]] by auto
  then show ?thesis
    using run del by (cases x; cases y) (auto simp: emptyAndDeleteBucket_def then_do_def)
qed

section \<open>The whole command\<close>

definition role_left :: "role option \<Rightarrow> role option" where
  "role_left r =
     (case r of
        None \<Rightarrow> None
      | Some x \<Rightarrow> if (ro_policies x)(SEND_POLICY_NAME := None) = Map.empty then None
                   else Some (ro_policies_update (\<lambda>m. m(SEND_POLICY_NAME := None)) x))"

definition teardown_spec :: "config \<Rightarrow> account \<Rightarrow> account" where
  "teardown_spec cfg a =
     a\<lparr>cl_instances := update_where (vm_matches teardown_filters) (vm_state_update (\<lambda>_. ''shutting-down'')) (cl_instances a),
       cl_schedules := (cl_schedules a)(ev_EVENTBRIDGE_SCHEDULE_NAME cfg := None),
       cl_queues := (cl_queues a)(sqs_url a QUEUE_NAME := None, sqs_url a DLQ_NAME := None),
       cl_roles := (cl_roles a)(SCHEDULER_ROLE_NAME := role_left (cl_roles a SCHEDULER_ROLE_NAME)),
       cl_buckets := (if present (ev_S3_BUCKET cfg) then (cl_buckets a)(the (ev_S3_BUCKET cfg) := None) else cl_buckets a)\<rparr>"

text \<open>A request to a service with nothing in the way: answered when acceptable, otherwise without effect.\<close>

lemma responsive_outcome:
  assumes "aws_responsive c view" "aws_service c view" "cl_send c q w = (x, w1)"
  shows "(\<exists>r. x = Inr r \<and> accepted q (view w) r \<and> view w1 = effect q r (view w))
    \<or> (isl x \<and> (\<forall>r. \<not> accepted q (view w) r) \<and> view w1 = view w)"
proof (cases x)
  case (Inl e)
  have none: "\<not> accepted q (view w) r" for r
    using assms(1,3) Inl unfolding aws_responsive_def by (metis fst_conv sum.disc(1))
  have "view w1 = view w"
    by (rule service_rejected [OF assms(2) assms(3) [unfolded Inl]]) (use none in auto)
  then show ?thesis using none Inl by simp
next
  case (Inr r)
  then show ?thesis using service_ok [OF assms(2) assms(3) [unfolded Inr]] by simp
qed

lemma deleteSchedule_view:
  assumes "aws_responsive c view" "aws_service c view"
  shows "view (deleteSchedule c cfg w) =
    (view w)\<lparr>cl_schedules := (cl_schedules (view w))(ev_EVENTBRIDGE_SCHEDULE_NAME cfg := None)\<rparr>"
proof -
  obtain x w1 where s: "cl_send c (DeleteSchedule (ev_EVENTBRIDGE_SCHEDULE_NAME cfg)) w = (x, w1)" by fastforce
  then show ?thesis
    using responsive_outcome [OF assms s]
    by (auto simp: deleteSchedule_def swallowing_def fun_upd_idem)
qed

lemma deleteQueue_view:
  assumes "aws_responsive c view" "aws_service c view"
  shows "view (deleteQueue c name w) =
    (view w)\<lparr>cl_queues := (cl_queues (view w))(sqs_url (view w) name := None)\<rparr>"
proof -
  obtain x w1 where s: "cl_send c (GetQueueUrl name) w = (x, w1)" by fastforce
  consider (there) r where "x = Inr r" "cl_queues (view w) (sqs_url (view w) name) \<noteq> None"
      "rs_QueueUrl r = Some (sqs_url (view w) name)" "view w1 = view w"
    | (gone) e where "x = Inl e" "cl_queues (view w) (sqs_url (view w) name) = None" "view w1 = view w"
  proof -
    assume there: "\<And>r. x = Inr r \<Longrightarrow> cl_queues (view w) (sqs_url (view w) name) \<noteq> None \<Longrightarrow>
        rs_QueueUrl r = Some (sqs_url (view w) name) \<Longrightarrow> view w1 = view w \<Longrightarrow> thesis"
      and gone: "\<And>e. x = Inl e \<Longrightarrow> cl_queues (view w) (sqs_url (view w) name) = None \<Longrightarrow> view w1 = view w \<Longrightarrow> thesis"
    have acc: "accepted (GetQueueUrl name) (view w) (no_fields\<lparr>rs_QueueUrl := Some (sqs_url (view w) name)\<rparr>)"
      if "cl_queues (view w) (sqs_url (view w) name) \<noteq> None"
      using that by simp
    show thesis
      using responsive_outcome [OF assms s] acc there gone by (cases x) (auto simp del: accepted.simps, auto)
  qed
  then show ?thesis
  proof cases
    case there
    obtain y w2 where d: "cl_send c (DeleteQueue (sqs_url (view w) name)) w1 = (y, w2)" by fastforce
    have "view w2 = (view w)\<lparr>cl_queues := (cl_queues (view w))(sqs_url (view w) name := None)\<rparr>"
      using responsive_outcome [OF assms d] there by auto
    then show ?thesis
      using s d there by (simp add: deleteQueue_def swallowing_def then_do_def present_def)
  next
    case gone
    then show ?thesis using s by (simp add: deleteQueue_def swallowing_def then_do_def fun_upd_idem)
  qed
qed

lemma deleteSchedulerRole_view:
  assumes "aws_responsive c view" "aws_service c view"
  shows "view (deleteSchedulerRole c w) =
    (view w)\<lparr>cl_roles := (cl_roles (view w))(SCHEDULER_ROLE_NAME := role_left (cl_roles (view w) SCHEDULER_ROLE_NAME))\<rparr>"
proof -
  obtain x w1 where p: "cl_send c (DeleteRolePolicy SCHEDULER_ROLE_NAME SEND_POLICY_NAME) w = (x, w1)" by fastforce
  obtain y w2 where d: "cl_send c (DeleteRole SCHEDULER_ROLE_NAME) w1 = (y, w2)" by fastforce
  have w2: "view (deleteSchedulerRole c w) = view w2"
    using p d by (simp add: deleteSchedulerRole_def swallowing_def)
  have w1: "view w1 = change_role SCHEDULER_ROLE_NAME (ro_policies_update (\<lambda>m. m(SEND_POLICY_NAME := None))) (view w)"
  proof -
    have "change_role SCHEDULER_ROLE_NAME (ro_policies_update (\<lambda>m. m(SEND_POLICY_NAME := None))) (view w) = view w"
      if "\<forall>r. cl_roles (view w) SCHEDULER_ROLE_NAME = Some r \<longrightarrow> ro_policies r SEND_POLICY_NAME = None"
      using that by (cases "cl_roles (view w) SCHEDULER_ROLE_NAME") (simp_all add: change_role_def fun_upd_idem)
    then show ?thesis using responsive_outcome [OF assms p] by auto
  qed
  show ?thesis
    using responsive_outcome [OF assms d] unfolding w2 w1
    by (cases "cl_roles (view w) SCHEDULER_ROLE_NAME")
      (auto simp: change_role_def role_left_def fun_upd_idem split: if_splits)
qed

lemma terminate_ids:
  assumes "vms_wf a" "accepted (DescribeInstances fs) a r"
  shows "set (found_ids r) = vm_id ` set (filter (vm_matches fs) (cl_instances a))"
proof -
  have ids: "set (List.map_filter ei_InstanceId xs) = {i. Some i \<in> set (map ei_InstanceId xs)}" for xs
    by (induction xs) (auto simp: List.map_filter_def)
  have "mset (map ei_InstanceId (concat (rs_Reservations r))) =
      mset (map (\<lambda>v. Some (vm_id v)) (filter (vm_matches fs) (cl_instances a)))"
    using assms(2) by simp
  then have same: "set (map ei_InstanceId (concat (rs_Reservations r))) =
      set (map (\<lambda>v. Some (vm_id v)) (filter (vm_matches fs) (cl_instances a)))"
    by (rule mset_eq_setD)
  have "set (List.map_filter ei_InstanceId (concat (rs_Reservations r))) = vm_id ` set (filter (vm_matches fs) (cl_instances a))"
    unfolding ids same by auto
  then show ?thesis using assms(1) by (auto simp: found_ids_def vms_wf_def)
qed

lemma describe_acceptable: "\<exists>r. accepted (DescribeInstances fs) a r"
proof -
  let ?vs = "filter (vm_matches fs) (cl_instances a)"
  let ?rs = "if ?vs = [] then [] else [map (\<lambda>v. \<lparr>ei_InstanceId = Some (vm_id v), ei_PublicIpAddress = None\<rparr>) ?vs]"
  have "accepted (DescribeInstances fs) a (no_fields\<lparr>rs_Reservations := ?rs\<rparr>)"
    by (simp add: multiset.map_comp comp_def filter_empty_conv)
  then show ?thesis ..
qed

lemma teardown_match_state: "vm_matches teardown_filters v \<Longrightarrow> vm_state v \<noteq> ''terminated''"
  by (auto simp: vm_matches_def teardown_filters_def js_def)

lemma matched_by_id:
  assumes "vms_wf a" "v \<in> set (cl_instances a)"
  shows "vm_id v \<in> vm_id ` set (filter p (cl_instances a)) \<longleftrightarrow> p v"
  using assms by (auto simp: vms_wf_def distinct_map dest: inj_onD)

lemma terminateInstances_view:
  assumes "aws_responsive c view" "aws_service c view" "vms_wf (view w)"
  shows "view (terminateInstances c w) = (view w)\<lparr>cl_instances :=
    update_where (vm_matches teardown_filters) (vm_state_update (\<lambda>_. ''shutting-down'')) (cl_instances (view w))\<rparr>"
proof -
  obtain r w1 where s: "cl_send c (DescribeInstances teardown_filters) w = (Inr r, w1)"
    "accepted (DescribeInstances teardown_filters) (view w) r" "view w1 = view w"
    using responsive_ok [OF assms(1,2) describe_acceptable [of teardown_filters "view w"]] unfolding effect.simps by blast
  note ids = terminate_ids [OF assms(3) s(2)]
  have upd: "update_where (\<lambda>v. vm_id v \<in> set (found_ids r) \<and> vm_state v \<noteq> ''terminated'') f (cl_instances (view w)) =
      update_where (vm_matches teardown_filters) f (cl_instances (view w))" for f
    unfolding update_where_def ids
    using matched_by_id [OF assms(3)] teardown_match_state by (intro map_cong) auto
  show ?thesis
  proof (cases "found_ids r = []")
    case True
    have "update_where (vm_matches teardown_filters) f (cl_instances (view w)) = cl_instances (view w)" for f
      unfolding upd [symmetric] by (simp add: True update_where_def)
    then show ?thesis using s True by (simp add: terminateInstances_def swallowing_def then_do_def)
  next
    case False
    obtain x w2 where t: "cl_send c (TerminateInstances (found_ids r)) w1 = (x, w2)" by fastforce
    have "accepted (TerminateInstances (found_ids r)) (view w1) r2" for r2 using ids s(3) by auto
    then have "view w2 = effect (TerminateInstances (found_ids r)) no_fields (view w)"
      using responsive_outcome [OF assms(1,2) t] s(3) by auto
    then show ?thesis
      using s False t by (simp add: terminateInstances_def swallowing_def then_do_def upd)
  qed
qed

lemma delete_managed_view:
  assumes "aws_responsive c view" "aws_service c view" "vms_wf (view w)"
  shows "view (delete_managed c cfg w) = (view w)\<lparr>
      cl_instances := update_where (vm_matches teardown_filters) (vm_state_update (\<lambda>_. ''shutting-down'')) (cl_instances (view w)),
      cl_schedules := (cl_schedules (view w))(ev_EVENTBRIDGE_SCHEDULE_NAME cfg := None),
      cl_queues := (cl_queues (view w))(sqs_url (view w) QUEUE_NAME := None, sqs_url (view w) DLQ_NAME := None),
      cl_roles := (cl_roles (view w))(SCHEDULER_ROLE_NAME := role_left (cl_roles (view w) SCHEDULER_ROLE_NAME))\<rparr>"
  unfolding delete_managed_def deleteSchedulerRole_view [OF assms(1,2)] deleteQueue_view [OF assms(1,2)]
    deleteSchedule_view [OF assms(1,2)] terminateInstances_view [OF assms]
  by (simp add: sqs_url_def)

lemma same_but_objects_bucket:
  assumes "same_but_objects b a a'" "cl_buckets a b = Some B" "[] \<notin> set (bk_keys B)"
  shows "\<exists>B'. cl_buckets a' b = Some B' \<and> [] \<notin> set (bk_keys B')"
    "a'\<lparr>cl_buckets := (cl_buckets a')(b := None)\<rparr> = a\<lparr>cl_buckets := (cl_buckets a)(b := None)\<rparr>"
  using assms by (auto simp: same_but_objects_def change_bucket_def) blast

lemma emptyAndDeleteBucket_view:
  assumes "aws_responsive c view" "aws_service c view" "deletes_honoured c b"
    "cl_buckets (view w) b = Some B" "[] \<notin> set (bk_keys B)"
  shows "\<exists>m w1. emptyAndDeleteBucket c b w = Some (Inr m, w1)
    \<and> view w1 = (view w)\<lparr>cl_buckets := (cl_buckets (view w))(b := None)\<rparr>"
proof -
  obtain x v where run: "empty_bucket c b 0 w = Some (x, v)" "same_but_objects b (view w) (view v)"
    "case x of Inl e \<Rightarrow> loop_rejected c b view w | Inr m \<Rightarrow> cl_buckets (view v) b \<noteq> None \<and> keys_at (view v) b = []"
    using empty_bucket_ends [OF assms(2,3)] by metis
  have "\<not> loop_rejected c b view w"
  proof
    assume "loop_rejected c b view w"
    then obtain q w1 where q: "isl (fst (cl_send c q w1))" "same_but_objects b (view w) (view w1)"
      "q = ListObjectsV2 b 1000 \<or> (\<exists>ks. q = DeleteObjects b ks)"
      unfolding loop_rejected_def by blast
    obtain B' where B': "cl_buckets (view w1) b = Some B'" "[] \<notin> set (bk_keys B')"
      using same_but_objects_bucket(1) [OF q(2) assms(4,5)] by blast
    have "\<exists>r. accepted q (view w1) r"
    proof (cases "q = ListObjectsV2 b 1000")
      case True
      have "accepted q (view w1) (no_fields\<lparr>rs_Contents := map Some (take 1000 (bk_keys B')), rs_IsTruncated := True\<rparr>)"
        using B' by (auto simp: True dest: in_set_takeD intro!: exI [of _ B'] exI [of _ "take 1000 (bk_keys B')"])
      then show ?thesis ..
    next
      case False
      then obtain ks where "q = DeleteObjects b ks" using q(3) by blast
      then have "accepted q (view w1) no_fields" using B' by (simp add: no_fields_def)
      then show ?thesis ..
    qed
    then show False using assms(1) q(1) unfolding aws_responsive_def by blast
  qed
  then obtain m where m: "x = Inr m" "cl_buckets (view v) b \<noteq> None" "keys_at (view v) b = []"
    using run(3) by (cases x) auto
  obtain y w1 where del: "cl_send c (DeleteBucket b) v = (y, w1)" by fastforce
  have "(\<exists>r. y = Inr r) \<and> view w1 = (view v)\<lparr>cl_buckets := (cl_buckets (view v))(b := None)\<rparr>"
    using responsive_outcome [OF assms(1,2) del] m(2,3) by (auto simp: keys_at_def)
  then show ?thesis
    using run(1) m(1) del same_but_objects_bucket(2) [OF run(2) assms(4,5)]
    by (auto simp: emptyAndDeleteBucket_def then_do_def)
qed

text \<open>With nothing in the way, and the bucket there when it is configured, the command does what it is specified to do.\<close>

lemma teardownAws_spec:
  assumes "aws_responsive c view" "aws_service c view" "vms_wf (view w)" "js ''--yes'' \<in> set args"
    "\<And>b. ev_S3_BUCKET cfg = Some b \<Longrightarrow> b \<noteq> [] \<Longrightarrow>
       deletes_honoured c b \<and> (\<exists>B. cl_buckets (view w) b = Some B \<and> [] \<notin> set (bk_keys B))"
  shows "\<exists>w1. teardownAws c cfg args w = Some (Inr (), w1) \<and> view w1 = teardown_spec cfg (view w)"
proof -
  let ?w1 = "delete_managed c cfg w"
  note v1 = delete_managed_view [OF assms(1-3), of cfg]
  show ?thesis
  proof (cases "present (ev_S3_BUCKET cfg)")
    case False
    then show ?thesis
      using assms(4) v1 by (simp add: teardownAws_def delete_bucket_part_def teardown_spec_def)
  next
    case True
    then obtain b where b: "ev_S3_BUCKET cfg = Some b" "b \<noteq> []" by (auto simp: present_def split: option.splits)
    obtain B where B: "deletes_honoured c b" "cl_buckets (view w) b = Some B" "[] \<notin> set (bk_keys B)"
      using assms(5) [OF b] by blast
    then have "cl_buckets (view ?w1) b = Some B" using v1 by simp
    then obtain m w2 where "emptyAndDeleteBucket c b ?w1 = Some (Inr m, w2)"
      "view w2 = (view ?w1)\<lparr>cl_buckets := (cl_buckets (view ?w1))(b := None)\<rparr>"
      using emptyAndDeleteBucket_view [OF assms(1,2) B(1)] B(3) by blast
    then show ?thesis
      using assms(4) True b v1 by (simp add: teardownAws_def delete_bucket_part_def teardown_spec_def)
  qed
qed

section \<open>Provisioning undone\<close>

lemma spec_outside:
  "k \<noteq> bucket_name cfg (cl_id a) \<Longrightarrow> cl_buckets (provision_spec cfg x a) k = cl_buckets a k"
  "k \<noteq> sqs_url a QUEUE_NAME \<Longrightarrow> k \<noteq> sqs_url a DLQ_NAME \<Longrightarrow> cl_queues (provision_spec cfg x a) k = cl_queues a k"
  "k \<noteq> SCHEDULER_ROLE_NAME \<Longrightarrow> cl_roles (provision_spec cfg x a) k = cl_roles a k"
  "k \<noteq> ev_EVENTBRIDGE_SCHEDULE_NAME cfg \<Longrightarrow> cl_schedules (provision_spec cfg x a) k = cl_schedules a k"
  "unmanaged (provision_spec cfg x a) = unmanaged a"
  by (simp_all add: provision_spec_def Let_def schedule_spec_def role_spec_def queues_spec_def queue_spec_def bucket_spec_def
      change_bucket_def change_role_def unmanaged_def split: option.split)

text \<open>An account in which none of the names is taken.\<close>

definition pristine :: "config \<Rightarrow> account \<Rightarrow> bool" where
  "pristine cfg a \<longleftrightarrow> cl_buckets a (bucket_name cfg (cl_id a)) = None
     \<and> cl_queues a (sqs_url a QUEUE_NAME) = None \<and> cl_queues a (sqs_url a DLQ_NAME) = None
     \<and> cl_roles a SCHEDULER_ROLE_NAME = None \<and> cl_schedules a (ev_EVENTBRIDGE_SCHEDULE_NAME cfg) = None"

lemma provisioned_role_left:
  assumes "cl_roles a SCHEDULER_ROLE_NAME = None"
  shows "role_left (cl_roles (provision_spec cfg x a) SCHEDULER_ROLE_NAME) = None"
proof -
  have "\<exists>r. cl_roles (provision_spec cfg x a) SCHEDULER_ROLE_NAME = Some r
      \<and> (ro_policies r)(SEND_POLICY_NAME := None) = Map.empty"
    using assms by (auto simp: provision_spec_def Let_def role_spec_def change_role_def)
  then show ?thesis by (auto simp: role_left_def)
qed

lemma teardown_undoes_provision:
  assumes "pristine cfg a" "ev_S3_BUCKET cfg = Some b" "b \<noteq> []"
    "a2 = change_bucket b (bk_keys_update f) (provision_spec cfg x a)"
  shows "teardown_spec cfg a2 =
    a\<lparr>cl_instances := update_where (vm_matches teardown_filters) (vm_state_update (\<lambda>_. ''shutting-down'')) (cl_instances a)\<rparr>"
proof -
  have b: "bucket_name cfg (cl_id a) = b" using assms(2,3) by (simp add: bucket_name_def)
  have un: "unmanaged a2 = unmanaged a"
    using spec_outside(5) [of cfg x a] assms(4) by (simp add: unmanaged_def change_bucket_def)
  then have url: "sqs_url a2 n = sqs_url a n" for n by (simp add: unmanaged_def sqs_url_def)
  have parts: "cl_queues a2 = cl_queues (provision_spec cfg x a)" "cl_roles a2 = cl_roles (provision_spec cfg x a)"
    "cl_schedules a2 = cl_schedules (provision_spec cfg x a)" "(cl_buckets a2)(b := None) = (cl_buckets (provision_spec cfg x a))(b := None)"
    using assms(4) by (simp_all add: change_bucket_def)
  have maps: "(cl_queues a2)(sqs_url a QUEUE_NAME := None, sqs_url a DLQ_NAME := None) = cl_queues a"
    "(cl_schedules a2)(ev_EVENTBRIDGE_SCHEDULE_NAME cfg := None) = cl_schedules a"
    "(cl_roles a2)(SCHEDULER_ROLE_NAME := None) = cl_roles a" "(cl_buckets a2)(b := None) = cl_buckets a"
    unfolding parts using assms(1) spec_outside [where cfg = cfg and a = a and x = x] b by (auto simp: pristine_def fun_eq_iff)
  have role: "role_left (cl_roles a2 SCHEDULER_ROLE_NAME) = None"
    unfolding parts using assms(1) provisioned_role_left by (simp add: pristine_def)
  show ?thesis
    unfolding teardown_spec_def url role
    using un maps assms(2,3) by (intro account.equality) (simp_all add: present_def unmanaged_def)
qed

text \<open>What teardown never looks at, although deploying and provisioning may have made it.\<close>

lemma teardown_leaves:
  "cl_profiles (teardown_spec cfg a) = cl_profiles a" "cl_groups (teardown_spec cfg a) = cl_groups a"
  "cl_keys (teardown_spec cfg a) = cl_keys a" "cl_roles (teardown_spec cfg a) ROLE_NAME = cl_roles a ROLE_NAME"
  "\<not> present (ev_S3_BUCKET cfg) \<Longrightarrow> cl_buckets (teardown_spec cfg a) = cl_buckets a"
  by (simp_all add: teardown_spec_def ROLE_NAME_def SCHEDULER_ROLE_NAME_def js_def)

section \<open>The fleet\<close>

text \<open>
  The instances over time: the three commands, interrupted or not, and what AWS does to an instance by itself.
  (Starting a stopped instance by hand is left out.)
\<close>

inductive vm_moves :: "vm \<Rightarrow> vm \<Rightarrow> bool" where
  stays: "vm_moves v v"
| boots: "vm_state v = ''pending'' \<Longrightarrow> vm_moves v (v\<lparr>vm_state := ''running''\<rparr>)"
| stops: "vm_state v = ''running'' \<Longrightarrow> vm_moves v (v\<lparr>vm_state := ''stopping''\<rparr>)"
| stopped: "vm_state v = ''stopping'' \<Longrightarrow> vm_moves v (v\<lparr>vm_state := ''stopped''\<rparr>)"
| fails: "vm_moves v (v\<lparr>vm_state := ''shutting-down''\<rparr>)"
| ends: "vm_state v = ''shutting-down'' \<Longrightarrow> vm_moves v (v\<lparr>vm_state := ''terminated''\<rparr>)"

inductive fleet_step :: "'w deploy_env \<Rightarrow> config \<Rightarrow> ('w \<Rightarrow> account) \<Rightarrow> 'w \<Rightarrow> 'w \<Rightarrow> bool"
  for env cfg view where
  provisions: "provisionAws (de_cloud env) cfg w = (x, w1) \<Longrightarrow> fleet_step env cfg view w w1"
| deploys: "deployEc2 env cfg w = (y, w1) \<Longrightarrow> fleet_step env cfg view w w1"
| tears_down: "teardownAws (de_cloud env) cfg args w = Some (z, w1) \<Longrightarrow> fleet_step env cfg view w w1"
| time: "list_all2 vm_moves (cl_instances (view w)) (cl_instances (view w1)) \<Longrightarrow> fleet_step env cfg view w w1"

text \<open>Everything but launching leaves the same instances, and none of them becomes live.\<close>

definition declines :: "account \<Rightarrow> account \<Rightarrow> bool" where
  "declines a b \<longleftrightarrow> list_all2 (\<lambda>v v'. vm_id v' = vm_id v \<and> (tagged_live v' \<longrightarrow> tagged_live v)) (cl_instances a) (cl_instances b)"

lemma declines_preorder [simp]: "preorder_on_accounts declines"
proof -
  have "declines a d" if "declines a b" "declines b d" for a b d
    using that unfolding declines_def by (rule list_all2_trans [rotated]) auto
  moreover have "declines a a" for a by (simp add: declines_def list_all2_refl)
  ultimately show ?thesis by (auto simp: preorder_on_accounts_def intro!: reflpI transpI)
qed

lemma declines_trans: "declines a b \<Longrightarrow> declines b d \<Longrightarrow> declines a d"
  using declines_preorder by (auto simp: preorder_on_accounts_def dest: transpD)

lemma declines_same: "cl_instances b = cl_instances a \<Longrightarrow> declines a b"
  by (simp add: declines_def list_all2_refl)

lemma vm_moves_declines:
  "vm_moves v v' \<Longrightarrow> vm_id v' = vm_id v \<and> (tagged_live v' \<longrightarrow> tagged_live v)"
  by (induction rule: vm_moves.induct) (auto simp: tagged_live_def)

lemma count_live_declines:
  "list_all2 (\<lambda>v v'. vm_id v' = vm_id v \<and> (tagged_live v' \<longrightarrow> tagged_live v)) vs vs' \<Longrightarrow>
     map vm_id vs' = map vm_id vs \<and> length (filter tagged_live vs') \<le> length (filter tagged_live vs)"
  by (induction rule: list_all2_induct) auto

lemma declines_one_live: "declines a b \<Longrightarrow> one_live a \<Longrightarrow> one_live b"
proof -
  assume d: "declines a b" and one: "one_live a"
  have m: "map vm_id (cl_instances b) = map vm_id (cl_instances a)"
    "length (filter tagged_live (cl_instances b)) \<le> length (filter tagged_live (cl_instances a))"
    using count_live_declines d unfolding declines_def by blast+
  then have "vm_id ` set (cl_instances b) = vm_id ` set (cl_instances a)" by (metis list.set_map)
  then show ?thesis using m one unfolding one_live_def vms_wf_def by (metis image_iff le_trans)
qed

lemma declines_safe:
  assumes "\<And>a r. cl_instances (effect q r a) = cl_instances a"
  shows "request_safe declines q"
  using assms declines_same by (simp add: request_safe_def)

lemma declines_terminate: "request_safe declines (TerminateInstances ids)"
  by (rule request_safeI) (auto simp: declines_def update_where_def list_all2_map2 tagged_live_def intro!: list_all2_refl)

definition keeps_state :: "('w \<Rightarrow> account) \<Rightarrow> (account \<Rightarrow> account \<Rightarrow> bool) \<Rightarrow> ('w \<Rightarrow> 'w) \<Rightarrow> bool" where
  "keeps_state view R f \<longleftrightarrow> (\<forall>w. R (view w) (view (f w)))"

lemma keeps_swallowed: "keeps view R m \<Longrightarrow> keeps_state view R (\<lambda>w. swallowing (m w))"
  by (simp add: swallowing_def keeps_def keeps_state_def) (metis prod.collapse)

lemma terminateInstances_declines: "aws_service c view \<Longrightarrow> keeps_state view declines (terminateInstances c)"
  unfolding terminateInstances_def [abs_def]
  by (intro keeps_swallowed keeps_intros declines_preorder declines_terminate) (auto intro!: declines_safe)

lemma deleteQueue_declines: "aws_service c view \<Longrightarrow> keeps_state view declines (deleteQueue c n)"
  unfolding deleteQueue_def [abs_def]
  by (intro keeps_swallowed keeps_intros declines_preorder) (auto intro!: declines_safe)

lemma deleteSchedule_declines: "aws_service c view \<Longrightarrow> keeps_state view declines (deleteSchedule c cfg)"
  unfolding deleteSchedule_def [abs_def]
  by (intro keeps_swallowed keeps_intros declines_preorder declines_safe) simp_all

lemma swallowed_send_declines:
  assumes "aws_service c view" "\<And>a r. cl_instances (effect q r a) = cl_instances a"
  shows "declines (view w) (view (swallowing (cl_send c q w)))"
  using keeps_swallowed [OF keeps_send [OF assms(1) declines_preorder declines_safe [OF assms(2)]]]
  by (simp add: keeps_state_def)

lemma delete_managed_declines:
  assumes "aws_service c view"
  shows "declines (view w) (view (delete_managed c cfg w))"
proof -
  let ?w1 = "terminateInstances c w"
  let ?w2 = "deleteSchedule c cfg ?w1"
  let ?w3 = "deleteQueue c QUEUE_NAME ?w2"
  let ?w4 = "deleteQueue c DLQ_NAME ?w3"
  let ?w5 = "swallowing (cl_send c (DeleteRolePolicy SCHEDULER_ROLE_NAME SEND_POLICY_NAME) ?w4)"
  have "declines (view w) (view ?w1)" "declines (view ?w1) (view ?w2)" "declines (view ?w2) (view ?w3)"
    "declines (view ?w3) (view ?w4)"
    using terminateInstances_declines [OF assms] deleteSchedule_declines [OF assms] deleteQueue_declines [OF assms]
    unfolding keeps_state_def by blast+
  moreover have "declines (view ?w4) (view ?w5)" "declines (view ?w5) (view (delete_managed c cfg w))"
    unfolding delete_managed_def deleteSchedulerRole_def
    by (rule swallowed_send_declines [OF assms]; simp add: change_role_def)+
  ultimately show ?thesis by (meson declines_trans)
qed

lemma empty_bucket_declines:
  assumes "aws_service c view" "empty_bucket c b n w = Some (x, w1)"
  shows "declines (view w) (view w1)"
proof -
  have send: "declines (view w) (view w1)"
    if "cl_send c q w = (y, w1)" "q = ListObjectsV2 b 1000 \<or> (\<exists>ks. q = DeleteObjects b ks)" for q y w w1
    using keepsD [OF keeps_send [OF assms(1) declines_preorder declines_safe] that(1)] that(2)
    by (auto simp: change_bucket_def)
  have "c' = c \<and> b' = b \<longrightarrow> declines (view w') (view (snd m))" if "empty_bucket c' b' n' w' = Some m" for c' b' n' w' m
    using that
  proof (induction rule: empty_bucket.raw_induct [rotated, consumes 1, case_names step])
    case (step f c' b' n' w' m)
    show ?case
    proof
      assume c: "c' = c \<and> b' = b"
      obtain y v where list: "cl_send c (ListObjectsV2 b 1000) w' = (y, v)" by fastforce
      note d1 = send [OF list disjI1 [OF refl]]
      show "declines (view w') (view (snd m))"
      proof (cases "isl y \<or> listed_keys (projr y) = []")
        case True
        then show ?thesis using step(2) c list d1 by (cases y) (auto simp: Let_def)
      next
        case False
        then obtain r where r: "y = Inr r" "listed_keys r \<noteq> []" by (cases y) auto
        obtain z v2 where del: "cl_send c (DeleteObjects b (listed_keys r)) v = (z, v2)" by fastforce
        have d2: "declines (view w') (view v2)"
          using declines_trans [OF d1 send [OF del disjI2 [OF exI [of _ "listed_keys r", OF refl]]]] .
        show ?thesis
          using step(2) step(1) c list r del d2 declines_trans [OF d2] by (cases z) (auto simp: Let_def split: if_splits)
      qed
    qed
  qed
  then show ?thesis using assms(2) by fastforce
qed

lemma teardownAws_declines:
  assumes "aws_service c view" "teardownAws c cfg args w = Some (x, w1)"
  shows "declines (view w) (view w1)"
proof (cases "js ''--yes'' \<in> set args")
  case False
  then show ?thesis using assms(2) by (auto simp: teardownAws_def declines_same)
next
  case True
  let ?v = "delete_managed c cfg w"
  obtain y where part: "delete_bucket_part c cfg ?v = Some (y, w1)"
    using assms(2) True by (auto simp: teardownAws_def split: option.splits sum.splits prod.splits)
  have "declines (view ?v) (view w1)"
  proof (cases "present (ev_S3_BUCKET cfg)")
    case False
    then show ?thesis using part by (simp add: delete_bucket_part_def declines_same)
  next
    case True
    let ?b = "the (ev_S3_BUCKET cfg)"
    obtain z v2 where loop: "empty_bucket c ?b 0 ?v = Some (z, v2)"
      "then_do (z, v2) (\<lambda>deleted v3. then_do (cl_send c (DeleteBucket ?b) v3) (\<lambda>r v4. (Inr deleted, v4))) = (y, w1)"
      using part True by (auto simp: delete_bucket_part_def emptyAndDeleteBucket_def split: option.splits)
    have "keeps view declines (\<lambda>v3. then_do (cl_send c (DeleteBucket ?b) v3) (\<lambda>r v4. (Inr m, v4)))" for m :: nat
      using assms(1) by (intro keeps_intros declines_preorder declines_safe) simp_all
    then have "declines (view v2) (view w1)"
      using loop(2) by (cases z) (auto simp: then_do_def [of "(_, v2)"] declines_same dest: keepsD)
    then show ?thesis using declines_trans [OF empty_bucket_declines [OF assms(1) loop(1)]] by blast
  qed
  then show ?thesis by (rule declines_trans [OF delete_managed_declines [OF assms(1)]])
qed

lemma fleet_keeps_one_live:
  assumes "aws_service (de_cloud env) view" "local_disk env view" "(fleet_step env cfg view)\<^sup>*\<^sup>* w w'" "one_live (view w)"
  shows "one_live (view w')"
  using assms(3,4)
proof (induction rule: rtranclp_induct)
  case (step w1 w2)
  from step(2) step.IH [OF step.prems] show ?case
  proof (induction rule: fleet_step.induct)
    case (provisions v x v1)
    have "cl_instances (view v1) = cl_instances (view v)"
      using frameD(1) [OF provisionAws_frame [OF assms(1) provisions(1)]] by (simp add: unmanaged_def)
    then show ?case by (rule declines_one_live [OF declines_same provisions(2)])
  next
    case (deploys v y v1)
    then show ?case using deployEc2_one_live [OF assms(1,2)] by blast
  next
    case (tears_down args v z v1)
    then show ?case using declines_one_live [OF teardownAws_declines [OF assms(1)]] by blast
  next
    case (time v v1)
    have "declines (view v) (view v1)"
      unfolding declines_def by (rule list_all2_mono [OF time(1) vm_moves_declines])
    then show ?case using time(2) declines_one_live by blast
  qed
qed

end
