(* ===== verification/Boot.thy ===== *)
theory Boot
  imports Adapters Job_Runner Sync_Service
begin

text \<open>
  How the processes come up and go down: \<open>src/database/client.ts\<close>, \<open>src/database/migrate.ts\<close>, \<open>main\<close> and
  \<open>shutdown\<close> of \<open>src/app.ts\<close> and \<open>main\<close> of \<open>src/worker.ts\<close> (whose shutdown is in \<open>Job_Runner\<close>). The
  driver of Postgres and the migrator of drizzle are parameters; log lines are left out.
\<close>

section \<open>The database client\<close>

record pool_options =
  po_connectionString :: jstr
  po_max :: nat
  po_connectionTimeoutMillis :: nat
  po_idleTimeoutMillis :: nat

definition pool_of :: "config \<Rightarrow> pool_options" where
  "pool_of cfg = \<lparr>po_connectionString = ev_DATABASE_URL cfg, po_max = ev_DATABASE_POOL_MAX cfg,
     po_connectionTimeoutMillis = 10000, po_idleTimeoutMillis = 30000\<rparr>"

record 'w pg_pool =
  pg_query :: "jstr \<Rightarrow> 'w \<Rightarrow> (js_error + unit) \<times> 'w"
  pg_end :: "'w \<Rightarrow> (js_error + unit) \<times> 'w"

definition checkDatabaseConnection :: "'w pg_pool \<Rightarrow> 'w \<Rightarrow> bool \<times> 'w" where
  "checkDatabaseConnection pool w =
     (case pg_query pool (js ''SELECT 1'') w of (Inl e, w1) \<Rightarrow> (False, w1) | (Inr u, w1) \<Rightarrow> (True, w1))"

definition closeDatabase :: "'w pg_pool \<Rightarrow> 'w \<Rightarrow> (js_error + unit) \<times> 'w" where
  "closeDatabase pool w = pg_end pool w"

section \<open>Migrations\<close>

text \<open>\<open>migrate\<close> is given the folder; the script ends with an exit code.\<close>

definition runMigrations :: "(jstr \<Rightarrow> 'w \<Rightarrow> (js_error + unit) \<times> 'w) \<Rightarrow> jstr \<Rightarrow> 'w \<Rightarrow> (js_error + unit) \<times> 'w" where
  "runMigrations migrate dirname w = migrate (dirname @ js ''/migrations'') w"

definition migrate_script :: "'w pg_pool \<Rightarrow> (jstr \<Rightarrow> 'w \<Rightarrow> (js_error + unit) \<times> 'w) \<Rightarrow> jstr \<Rightarrow> 'w \<Rightarrow> nat \<times> 'w" where
  "migrate_script pool migrate dirname w =
     (case then_do (runMigrations migrate dirname w) (\<lambda>u. closeDatabase pool) of
        (Inr u, w1) \<Rightarrow> (0, w1)
      | (Inl e, w1) \<Rightarrow> (1, snd (closeDatabase pool w1)))"

text \<open>The exit code says whether every migration was applied and the pool ended.\<close>

lemma migrate_script_zero:
  "fst (migrate_script pool migrate dirname w) = 0 \<longleftrightarrow>
     (\<exists>w1. migrate (dirname @ js ''/migrations'') w = (Inr (), w1) \<and> fst (pg_end pool w1) = Inr ())"
  by (auto simp: migrate_script_def runMigrations_def closeDatabase_def then_do_def split: prod.splits sum.splits)

section \<open>The API process\<close>

text \<open>
  The callbacks handed to \<open>server.close\<close> run when the last connection is gone, in their order. A server that
  was closed already gives its callback an error; nothing stops a second signal from getting that far.
\<close>

record api_process =
  ap_listening :: bool
  ap_requests :: nat \<comment> \<open>connections with a request in flight\<close>
  ap_waiting :: "bool list" \<comment> \<open>callbacks of \<open>server.close\<close>; \<open>True\<close>: it will be called with an error\<close>
  ap_ending :: "bool list" \<comment> \<open>callbacks that await \<open>closeDatabase\<close>\<close>
  ap_poolEnds :: nat \<comment> \<open>calls of \<open>pool.end\<close>\<close>
  ap_timers :: nat \<comment> \<open>armed timers that force the exit after 10 s\<close>
  ap_exit :: "nat option"

definition api_start :: api_process where
  "api_start = \<lparr>ap_listening = True, ap_requests = 0, ap_waiting = [], ap_ending = [], ap_poolEnds = 0,
     ap_timers = 0, ap_exit = None\<rparr>"

definition no_database_error :: js_error where
  "no_database_error = Plain_Error (js ''cannot reach Postgres - check DATABASE_URL and that Docker is up'')"

text \<open>\<open>main\<close>: listening, or an error that becomes exit code 1.\<close>

definition api_main :: "'w pg_pool \<Rightarrow> 'w \<Rightarrow> (js_error + api_process) \<times> 'w" where
  "api_main pool w =
     (case checkDatabaseConnection pool w of
        (False, w1) \<Rightarrow> (Inl no_database_error, w1) | (True, w1) \<Rightarrow> (Inr api_start, w1))"

definition start_exit :: "js_error + 'a \<Rightarrow> nat option" where
  "start_exit r = (case r of Inl e \<Rightarrow> Some 1 | Inr a \<Rightarrow> None)"

definition shutdown :: "api_process \<Rightarrow> api_process" where
  "shutdown s = s\<lparr>ap_waiting := ap_waiting s @ [\<not> ap_listening s], ap_listening := False, ap_timers := Suc (ap_timers s)\<rparr>"

definition close_callback :: "bool \<Rightarrow> bool list \<Rightarrow> api_process \<Rightarrow> api_process" where
  "close_callback error rest s = s\<lparr>ap_waiting := rest, ap_ending := ap_ending s @ [error], ap_poolEnds := Suc (ap_poolEnds s)\<rparr>"

inductive api_step :: "api_process \<Rightarrow> api_process \<Rightarrow> bool" where
  accept: "ap_exit s = None \<Longrightarrow> ap_listening s \<Longrightarrow> api_step s (s\<lparr>ap_requests := Suc (ap_requests s)\<rparr>)"
| answer: "ap_exit s = None \<Longrightarrow> ap_requests s = Suc n \<Longrightarrow> api_step s (s\<lparr>ap_requests := n\<rparr>)"
| signal: "ap_exit s = None \<Longrightarrow> api_step s (shutdown s)"
| closed: "ap_exit s = None \<Longrightarrow> \<not> ap_listening s \<Longrightarrow> ap_requests s = 0 \<Longrightarrow> ap_waiting s = error # rest \<Longrightarrow>
    api_step s (close_callback error rest s)"
| ended: "ap_exit s = None \<Longrightarrow> error \<in> set (ap_ending s) \<Longrightarrow>
    api_step s (s\<lparr>ap_exit := Some (if error then 1 else 0)\<rparr>)"
| forced: "ap_exit s = None \<Longrightarrow> 0 < ap_timers s \<Longrightarrow> api_step s (s\<lparr>ap_exit := Some 1\<rparr>)"

inductive_simps api_step_iff: "api_step s s'"

definition graceful :: "api_process \<Rightarrow> bool" where
  "graceful s \<longleftrightarrow>
     (0 < ap_poolEnds s \<longrightarrow> \<not> ap_listening s \<and> ap_requests s = 0)
     \<and> (ap_ending s \<noteq> [] \<longrightarrow> 0 < ap_poolEnds s)
     \<and> (ap_exit s = Some 0 \<longrightarrow> 0 < ap_poolEnds s)
     \<and> (ap_listening s \<longrightarrow> ap_waiting s = [] \<and> ap_ending s = [])
     \<and> (\<not> ap_listening s \<longrightarrow> False \<in> set (ap_waiting s) \<union> set (ap_ending s))"

lemma graceful_start: "graceful api_start"
  by (simp add: graceful_def api_start_def)

lemma graceful_step: "api_step s s' \<Longrightarrow> graceful s \<Longrightarrow> graceful s'"
  by (erule api_step.cases) (auto simp: graceful_def shutdown_def close_callback_def split: if_splits)

lemma graceful_reachable: "api_step\<^sup>*\<^sup>* api_start s \<Longrightarrow> graceful s"
  by (induction rule: rtranclp_induct) (auto intro: graceful_start graceful_step)

text \<open>The requests in flight finish one by one.\<close>

lemma requests_finish:
  "ap_exit s = None \<Longrightarrow> api_step\<^sup>*\<^sup>* s (s\<lparr>ap_requests := 0\<rparr>)"
proof (induction "ap_requests s" arbitrary: s)
  case 0
  then have "s\<lparr>ap_requests := 0\<rparr> = s" by simp
  then show ?case by simp
next
  case (Suc n)
  have "api_step s (s\<lparr>ap_requests := n\<rparr>)" using Suc.prems Suc.hyps(2) by (intro api_step.answer) simp_all
  moreover have "api_step\<^sup>*\<^sup>* (s\<lparr>ap_requests := n\<rparr>) (s\<lparr>ap_requests := n, ap_requests := 0\<rparr>)"
    using Suc.hyps(1) [of "s\<lparr>ap_requests := n\<rparr>"] Suc.prems by simp
  ultimately show ?case by (simp add: converse_rtranclp_into_rtranclp)
qed

lemma callbacks_run:
  "ap_exit s = None \<Longrightarrow> \<not> ap_listening s \<Longrightarrow> ap_requests s = 0 \<Longrightarrow>
   \<exists>s1. api_step\<^sup>*\<^sup>* s s1 \<and> ap_exit s1 = None \<and> set (ap_waiting s) \<union> set (ap_ending s) \<subseteq> set (ap_ending s1)"
proof (induction "ap_waiting s" arbitrary: s)
  case Nil
  then have "set (ap_waiting s) \<union> set (ap_ending s) \<subseteq> set (ap_ending s)" by (metis Un_absorb2 empty_set empty_subsetI order_refl sup_bot_left)
  then show ?case using Nil.prems(1) by blast
next
  case (Cons e rest)
  let ?s1 = "close_callback e rest s"
  have step: "api_step s ?s1" using Cons.prems Cons.hyps(2) by (intro api_step.closed) simp_all
  have "rest = ap_waiting ?s1" "ap_exit ?s1 = None" "\<not> ap_listening ?s1" "ap_requests ?s1 = 0"
    using Cons.prems by (simp_all add: close_callback_def)
  then obtain s2 where s2: "api_step\<^sup>*\<^sup>* ?s1 s2" "ap_exit s2 = None" "set rest \<union> set (ap_ending ?s1) \<subseteq> set (ap_ending s2)"
    using Cons.hyps(1) by metis
  have "set (ap_waiting s) \<union> set (ap_ending s) \<subseteq> set rest \<union> set (ap_ending ?s1)"
    using Cons.hyps(2) [symmetric] by (auto simp: close_callback_def)
  then show ?case using step s2 by (meson converse_rtranclp_into_rtranclp order_trans)
qed

text \<open>After a signal the process can always drain and exit with code 0.\<close>

lemma can_exit_cleanly:
  assumes "graceful s" "\<not> ap_listening s" "ap_exit s = None"
  shows "\<exists>s'. api_step\<^sup>*\<^sup>* s s' \<and> ap_exit s' = Some 0"
proof -
  let ?s1 = "s\<lparr>ap_requests := 0\<rparr>"
  obtain s2 where s2: "api_step\<^sup>*\<^sup>* ?s1 s2" "ap_exit s2 = None" "set (ap_waiting s) \<union> set (ap_ending s) \<subseteq> set (ap_ending s2)"
    using callbacks_run [of ?s1] assms by auto
  have "False \<in> set (ap_ending s2)" using assms(1,2) s2(3) by (auto simp: graceful_def)
  then have "api_step s2 (s2\<lparr>ap_exit := Some 0\<rparr>)" using api_step.ended [OF s2(2), of False] by simp
  then have "api_step\<^sup>*\<^sup>* s (s2\<lparr>ap_exit := Some 0\<rparr>)"
    using requests_finish [OF assms(3)] s2(1) by (meson rtranclp.rtrancl_into_rtrancl rtranclp_trans)
  then show ?thesis by (intro exI [of _ "s2\<lparr>ap_exit := Some 0\<rparr>"]) simp
qed

text \<open>A second signal ends an orderly shutdown, with nothing in flight, with exit code 1.\<close>

lemma second_signal_fails:
  "\<exists>s. api_step\<^sup>*\<^sup>* api_start s \<and> ap_exit s = Some 1 \<and> ap_requests s = 0 \<and> ap_poolEnds s = 2"
proof -
  let ?s2 = "shutdown (shutdown api_start)"
  let ?s4 = "close_callback True [] (close_callback False [True] ?s2)"
  note defs = shutdown_def close_callback_def api_start_def
  have "api_step api_start (shutdown api_start)" "api_step (shutdown api_start) ?s2"
    by (intro api_step.signal; simp add: defs)+
  moreover have "api_step ?s2 (close_callback False [True] ?s2)" "api_step (close_callback False [True] ?s2) ?s4"
    by (intro api_step.closed; simp add: defs)+
  moreover have "api_step ?s4 (?s4\<lparr>ap_exit := Some 1\<rparr>)"
    using api_step.ended [of ?s4 True] by (simp add: defs)
  ultimately have "api_step\<^sup>*\<^sup>* api_start (?s4\<lparr>ap_exit := Some 1\<rparr>)"
    by (meson converse_rtranclp_into_rtranclp rtranclp.rtrancl_refl)
  then show ?thesis by (intro exI [of _ "?s4\<lparr>ap_exit := Some 1\<rparr>"]) (simp add: defs)
qed

section \<open>The worker process\<close>

text \<open>The options of \<open>JobRunner\<close> with their defaults.\<close>

record job_runner_options =
  jo_maxConcurrent :: "nat option"
  jo_waitTimeSeconds :: "nat option"
  jo_visibilityTimeoutSeconds :: "nat option"
  jo_emptyPollDelayMs :: "nat option"

record job_runner_settings =
  jr_maxConcurrent :: nat
  jr_waitTimeSeconds :: nat
  jr_visibilityTimeoutSeconds :: nat
  jr_emptyPollDelayMs :: nat

definition or_default :: "'a option \<Rightarrow> 'a \<Rightarrow> 'a" where
  "or_default v d = (case v of None \<Rightarrow> d | Some x \<Rightarrow> x)"

definition new_job_runner :: "job_runner_options \<Rightarrow> job_runner_settings" where
  "new_job_runner opts =
     \<lparr>jr_maxConcurrent = or_default (jo_maxConcurrent opts) 4,
       jr_waitTimeSeconds = or_default (jo_waitTimeSeconds opts) 20,
       jr_visibilityTimeoutSeconds = or_default (jo_visibilityTimeoutSeconds opts) 300,
       jr_emptyPollDelayMs = or_default (jo_emptyPollDelayMs opts) 25\<rparr>"

text \<open>What \<open>main\<close> has put together when the poll loop starts.\<close>

record booted_worker =
  bw_queue :: "queue_args object"
  bw_storage :: "storage_args object"
  bw_scheduler :: "scheduler_args object"
  bw_runner :: job_runner_settings

definition worker_runner_options :: "config \<Rightarrow> job_runner_options" where
  "worker_runner_options cfg =
     \<lparr>jo_maxConcurrent = Some (ev_DOWNLOAD_CONCURRENCY cfg), jo_waitTimeSeconds = Some (ev_SQS_WAIT_TIME_SECONDS cfg),
       jo_visibilityTimeoutSeconds = Some (ev_SQS_VISIBILITY_TIMEOUT cfg), jo_emptyPollDelayMs = None\<rparr>"

text \<open>\<open>start\<close> is \<open>scheduler.start()\<close>.\<close>

definition worker_main ::
  "'w pg_pool \<Rightarrow> (scheduler_args object \<Rightarrow> 'w \<Rightarrow> (js_error + unit) \<times> 'w) \<Rightarrow> jstr list \<Rightarrow> config \<Rightarrow> adapters \<Rightarrow> 'w \<Rightarrow>
   (js_error + booted_worker) \<times> adapters \<times> 'w" where
  "worker_main pool start cwd cfg ad w =
     (case checkDatabaseConnection pool w of
        (False, w1) \<Rightarrow> (Inl no_database_error, ad, w1)
      | (True, w1) \<Rightarrow>
          (case getQueue cfg ad of
             (queue, ad1) \<Rightarrow>
               (case getStorage cwd cfg ad1 of
                  (storage, ad2) \<Rightarrow>
                    (case getScheduler cfg ad2 of
                       (Inl e, ad3) \<Rightarrow> (Inl e, ad3, w1)
                     | (Inr scheduler, ad3) \<Rightarrow>
                         (case start scheduler w1 of
                            (Inl e, w2) \<Rightarrow> (Inl e, ad3, w2)
                          | (Inr u, w2) \<Rightarrow>
                              (Inr \<lparr>bw_queue = queue, bw_storage = storage, bw_scheduler = scheduler,
                                 bw_runner = new_job_runner (worker_runner_options cfg)\<rparr>, ad3, w2))))))"

end
