(* ===== verification/Cloud_Demo.thy ===== *)
theory Cloud_Demo
  imports Teardown_Correct Deployed_Config
begin

text \<open>
  A cloud that behaves as documented and answers whatever it can, as a concrete function on accounts, and a
  sample account and configuration: the instances at which the properties of the commands are applied.
\<close>

section \<open>The cloud\<close>

definition fresh_id :: "jstr list \<Rightarrow> jstr" where
  "fresh_id xs = 105 # concat xs"

lemma fresh_id_fresh: "fresh_id xs \<notin> set xs"
proof
  assume "fresh_id xs \<in> set xs"
  then have "length (fresh_id xs) \<le> length (concat xs)"
    by (simp add: length_concat member_le_sum_list)
  then show False by (simp add: fresh_id_def)
qed

fun demo_answer :: "aws_request \<Rightarrow> account \<Rightarrow> aws_response option" where
  "demo_answer GetCallerIdentity a = Some (no_fields\<lparr>rs_Account := Some (cl_id a)\<rparr>)"
| "demo_answer (HeadBucket b) a = (if cl_buckets a b = None then None else Some no_fields)"
| "demo_answer (CreateBucket b loc) a =
     (if cl_buckets a b = None \<or> cl_region a = js ''us-east-1'' then Some no_fields else None)"
| "demo_answer (PutPublicAccessBlock b p q r s) a = (if cl_buckets a b = None then None else Some no_fields)"
| "demo_answer (PutBucketEncryption b x) a = (if cl_buckets a b = None then None else Some no_fields)"
| "demo_answer (PutBucketLifecycle b x) a = (if cl_buckets a b = None then None else Some no_fields)"
| "demo_answer (ListObjectsV2 b n) a =
     (case cl_buckets a b of
        None \<Rightarrow> None
      | Some B \<Rightarrow>
          (let ks = take n (filter (\<lambda>k. k \<noteq> []) (bk_keys B))
           in if ks = [] \<and> bk_keys B \<noteq> [] then None
              else Some (no_fields\<lparr>rs_Contents := map Some ks, rs_IsTruncated := ks \<noteq> bk_keys B\<rparr>)))"
| "demo_answer (DeleteObjects b ks) a = (if cl_buckets a b = None then None else Some no_fields)"
| "demo_answer (DeleteBucket b) a =
     (case cl_buckets a b of None \<Rightarrow> None | Some B \<Rightarrow> if bk_keys B = [] then Some no_fields else None)"
| "demo_answer (GetQueueUrl n) a =
     (if cl_queues a (sqs_url a n) = None then None else Some (no_fields\<lparr>rs_QueueUrl := Some (sqs_url a n)\<rparr>))"
| "demo_answer (CreateQueue n atts) a =
     (if (case cl_queues a (sqs_url a n) of None \<Rightarrow> True | Some q \<Rightarrow> list_all (\<lambda>(k, v). qr_attributes q k = Some v) atts)
      then Some (no_fields\<lparr>rs_QueueUrl := Some (sqs_url a n)\<rparr>) else None)"
| "demo_answer (GetQueueAttributes u ns) a =
     map_option (\<lambda>q. no_fields\<lparr>rs_QueueArn := Some (qr_arn q)\<rparr>) (cl_queues a u)"
| "demo_answer (SetQueueAttributes u atts) a = map_option (\<lambda>q. no_fields) (cl_queues a u)"
| "demo_answer (DeleteQueue u) a = map_option (\<lambda>q. no_fields) (cl_queues a u)"
| "demo_answer (GetRole n) a = map_option (\<lambda>x. no_fields\<lparr>rs_RoleArn := Some (ro_arn x)\<rparr>) (cl_roles a n)"
| "demo_answer (CreateRole n doc desc) a =
     (if cl_roles a n = None then Some (no_fields\<lparr>rs_RoleArn := Some (iam_role_arn a n)\<rparr>) else None)"
| "demo_answer (PutRolePolicy n p doc) a = map_option (\<lambda>x. no_fields) (cl_roles a n)"
| "demo_answer (DeleteRolePolicy n p) a =
     (case cl_roles a n of None \<Rightarrow> None | Some x \<Rightarrow> map_option (\<lambda>d. no_fields) (ro_policies x p))"
| "demo_answer (DeleteRole n) a =
     (case cl_roles a n of None \<Rightarrow> None | Some x \<Rightarrow> if ro_policies x = Map.empty then Some no_fields else None)"
| "demo_answer (GetInstanceProfile n) a = map_option (\<lambda>x. no_fields) (cl_profiles a n)"
| "demo_answer (CreateInstanceProfile n) a = (if cl_profiles a n = None then Some no_fields else None)"
| "demo_answer (AddRoleToInstanceProfile n x) a =
     (if cl_profiles a n = Some [] \<and> cl_roles a x \<noteq> None then Some no_fields else None)"
| "demo_answer (CreateSchedule sc) a = (if cl_schedules a (sd_Name sc) = None then Some no_fields else None)"
| "demo_answer (UpdateSchedule sc) a = map_option (\<lambda>x. no_fields) (cl_schedules a (sd_Name sc))"
| "demo_answer (DeleteSchedule n) a = map_option (\<lambda>x. no_fields) (cl_schedules a n)"
| "demo_answer (DescribeInstances fs) a =
     (let vs = filter (vm_matches fs) (cl_instances a)
      in Some (no_fields\<lparr>rs_Reservations := if vs = [] then []
           else [map (\<lambda>v. \<lparr>ei_InstanceId = Some (vm_id v), ei_PublicIpAddress = None\<rparr>) vs]\<rparr>))"
| "demo_answer (TerminateInstances ids) a =
     (if set ids \<subseteq> vm_id ` set (cl_instances a) then Some no_fields else None)"
| "demo_answer (DescribeVpcs fs) a = Some (no_fields\<lparr>rs_Vpcs := map Some (cl_vpcs a)\<rparr>)"
| "demo_answer (DescribeSubnets fs) a =
     Some (no_fields\<lparr>rs_Subnets := map (\<lambda>s. Some (fst s)) (filter (subnet_matches fs) (cl_subnets a))\<rparr>)"
| "demo_answer (DescribeSecurityGroups fs) a =
     Some (no_fields\<lparr>rs_SecurityGroups := map (\<lambda>g. Some (sg_id g)) (filter (group_matches fs) (cl_groups a))\<rparr>)"
| "demo_answer (CreateSecurityGroup n d v) a =
     (if list_ex (\<lambda>g. sg_name g = n \<and> sg_vpc g = v) (cl_groups a) then None
      else Some (no_fields\<lparr>rs_GroupId := Some (fresh_id (map sg_id (cl_groups a)))\<rparr>))"
| "demo_answer (AuthorizeSecurityGroupIngress i ps) a =
     (if i \<in> sg_id ` set (cl_groups a) then Some no_fields else None)"
| "demo_answer (CreateKeyPair n) a =
     (if n \<in> cl_keys a then None else Some (no_fields\<lparr>rs_KeyMaterial := Some (js ''key'')\<rparr>))"
| "demo_answer (DescribeImages os fs) a =
     Some (no_fields\<lparr>rs_Images :=
       [\<lparr>ea_ImageId = Some (js ''ami-1''), ea_CreationDate = Some (js ''2025-01-01'')\<rparr>,
        \<lparr>ea_ImageId = Some (js ''ami-3''), ea_CreationDate = Some (js ''2025-03-01'')\<rparr>,
        \<lparr>ea_ImageId = Some (js ''ami-2''), ea_CreationDate = Some (js ''2025-02-01'')\<rparr>]\<rparr>)"
| "demo_answer (RunInstances l) a =
     Some (no_fields\<lparr>rs_Instances := [\<lparr>ei_InstanceId = Some (fresh_id (map vm_id (cl_instances a))), ei_PublicIpAddress = None\<rparr>]\<rparr>)"
| "demo_answer (CreateTags ids tags) a = (if set ids \<subseteq> vm_id ` set (cl_instances a) then Some no_fields else None)"

definition demo_cloud :: "account cloud" where
  "demo_cloud =
     \<lparr>cl_send = (\<lambda>q a. case demo_answer q a of
          None \<Rightarrow> (Inl (Plain_Error (js ''rejected'')), a) | Some r \<Rightarrow> (Inr r, effect q r a)),
       cl_isConflict = (\<lambda>e. True), cl_wait = (\<lambda>n a. a)\<rparr>"

lemma demo_answer_accepted: "demo_answer q a = Some r \<Longrightarrow> accepted q a r"
proof (cases q)
  case (RunInstances l)
  assume "demo_answer q a = Some r"
  then show ?thesis
    using RunInstances fresh_id_fresh [of "map vm_id (cl_instances a)"] by (auto simp: fresh_id_def)
next
  case (CreateSecurityGroup n d v)
  assume "demo_answer q a = Some r"
  then show ?thesis
    using CreateSecurityGroup fresh_id_fresh [of "map sg_id (cl_groups a)"]
    by (auto simp: list_ex_iff fresh_id_def split: if_splits)
next
  case (ListObjectsV2 b n)
  assume "demo_answer q a = Some r"
  then obtain B ks where "cl_buckets a b = Some B" "ks = take n (filter (\<lambda>k. k \<noteq> []) (bk_keys B))"
    "\<not> (ks = [] \<and> bk_keys B \<noteq> [])" "r = no_fields\<lparr>rs_Contents := map Some ks, rs_IsTruncated := ks \<noteq> bk_keys B\<rparr>"
    using ListObjectsV2 by (auto simp: Let_def split: option.splits if_splits)
  then show ?thesis
    using ListObjectsV2 by (auto intro!: exI [of _ B] exI [of _ ks] dest: in_set_takeD)
next
  case (DescribeInstances fs)
  assume "demo_answer q a = Some r"
  then show ?thesis
    using DescribeInstances
    by (auto simp: Let_def multiset.map_comp comp_def filter_empty_conv split: if_splits)
qed (auto simp: no_fields_def list_all_iff split: if_splits option.splits)

lemma demo_answer_answers: "accepted q a r \<Longrightarrow> demo_answer q a \<noteq> None"
proof (cases q)
  case (ListObjectsV2 b n)
  assume "accepted q a r"
  then obtain B ks where f: "cl_buckets a b = Some B" "set ks \<subseteq> set (bk_keys B)" "length ks \<le> n" "[] \<notin> set ks"
    "ks = [] \<longrightarrow> bk_keys B = []"
    using ListObjectsV2 by auto
  show ?thesis
  proof (cases "bk_keys B = []")
    case True
    then show ?thesis using f(1) ListObjectsV2 by (simp add: Let_def)
  next
    case False
    then obtain k ks' where k: "ks = k # ks'" using f(5) by (cases ks) auto
    then have "k \<in> set (bk_keys B)" "k \<noteq> []" "0 < n" using f(2-4) by auto
    then have "take n (filter (\<lambda>k. k \<noteq> []) (bk_keys B)) \<noteq> []" by (auto simp: filter_empty_conv)
    then show ?thesis using f(1) ListObjectsV2 by (simp add: Let_def)
  qed
qed (auto simp: list_all_iff list_ex_iff Let_def split: option.splits)

lemma demo_service: "aws_service demo_cloud (\<lambda>a. a)"
  using demo_answer_accepted by (auto simp: aws_service_def demo_cloud_def split: option.splits)

lemma demo_responsive: "aws_responsive demo_cloud (\<lambda>a. a)"
  by (auto simp: aws_responsive_def demo_cloud_def split: option.splits dest: demo_answer_answers)

lemma demo_deletes: "deletes_honoured demo_cloud b"
  by (auto simp: deletes_honoured_def demo_cloud_def no_fields_def split: option.splits if_splits)

section \<open>An account and a configuration\<close>

definition demo_account :: account where
  "demo_account =
     \<lparr>cl_id = js ''123456789012'', cl_region = js ''eu-west-2'',
       cl_newBucket = \<lparr>bk_accessBlock = [], bk_encryption = None, bk_lifecycle = [], bk_keys = []\<rparr>,
       cl_vpcs = [js ''vpc-1''], cl_subnets = [(js ''subnet-1'', js ''vpc-1'')], cl_buckets = Map.empty,
       cl_queues = Map.empty, cl_roles = Map.empty, cl_schedules = Map.empty, cl_profiles = Map.empty,
       cl_groups = [], cl_keys = {}, cl_instances = []\<rparr>"

definition operator_settings :: "(string \<times> string) list" where
  "operator_settings =
     [(''DATABASE_URL'', ''postgres://db/saral''), (''META_ACCESS_TOKEN'', ''t''), (''META_IG_USER_ID'', ''17''),
      (''SQS_VISIBILITY_TIMEOUT'', ''60''), (''S3_BUCKET'', ''media''),
      (''SQS_QUEUE_URL'', ''https://sqs.eu-west-2.amazonaws.com/123456789012/hashtag-pipeline-jobs''),
      (''EVENTBRIDGE_SCHEDULE_ROLE_ARN'', ''arn:aws:iam::123456789012:role/hashtag-pipeline-scheduler-role'')]"

definition operator_env :: process_env where
  "operator_env = map_of (map (\<lambda>(k, v). (k, js v)) operator_settings)"

definition operator_lib :: env_lib where
  "operator_lib = \<lparr>el_is_url = (\<lambda>s. s \<noteq> []), el_message = (\<lambda>k c. js c)\<rparr>"

lemma sixty: "int_checks num_positive None (js_Number (js ''60'')) = Inr 60"
  by (simp add: js_def number_defs int_checks_def checked_def failed_unless_def)

lemma operator_loads:
  "\<exists>cfg. load_env operator_lib operator_env = Inr cfg \<and> ev_S3_BUCKET cfg = Some (js ''media'')
     \<and> ev_SQS_VISIBILITY_TIMEOUT cfg = 60 \<and> ev_RECENT_SYNC_CRON cfg = js ''0 */3 * * *''
     \<and> ev_SQS_QUEUE_URL cfg = Some (js ''https://sqs.eu-west-2.amazonaws.com/123456789012/hashtag-pipeline-jobs'')
     \<and> ev_EVENTBRIDGE_SCHEDULE_ROLE_ARN cfg = Some (js ''arn:aws:iam::123456789012:role/hashtag-pipeline-scheduler-role'')
     \<and> ev_AWS_REGION cfg = js ''eu-west-2''"
  using sixty
  by (simp add: load_env_Inr parse_env_def Let_def operator_env_def operator_settings_def operator_lib_def enum_field_def
      int_field_def string_field_def driver_field_def booleanish_field_def checked_def url_check_def slash_check_def
      nonempty_check_def version_check_def no_checks_def failed_unless_def field_issues_def aborted_def cross_checks_def
      present_def value_or_def)

definition operator_config :: config where
  "operator_config = projr (load_env operator_lib operator_env)"

lemma operator_config:
  "load_env operator_lib operator_env = Inr operator_config" "ev_S3_BUCKET operator_config = Some (js ''media'')"
  "ev_SQS_VISIBILITY_TIMEOUT operator_config = 60" "ev_RECENT_SYNC_CRON operator_config = js ''0 */3 * * *''"
  "ev_SQS_QUEUE_URL operator_config = Some (js ''https://sqs.eu-west-2.amazonaws.com/123456789012/hashtag-pipeline-jobs'')"
  "ev_EVENTBRIDGE_SCHEDULE_ROLE_ARN operator_config = Some (js ''arn:aws:iam::123456789012:role/hashtag-pipeline-scheduler-role'')"
  "ev_AWS_REGION operator_config = js ''eu-west-2''"
  using operator_loads by (auto simp: operator_config_def)

text \<open>What becomes of the sample account.\<close>

definition demo_provisioned :: account where
  "demo_provisioned = provision_spec operator_config (js ''cron(0 */3 * * ? *)'') demo_account"

lemma demo_send: "cl_send demo_cloud q a = (case demo_answer q a of None \<Rightarrow> (Inl (Plain_Error (js ''rejected'')), a) | Some r \<Rightarrow> (Inr r, effect q r a))"
  by (simp add: demo_cloud_def)

lemma demo_wait [simp]: "cl_wait demo_cloud n a = a" by (simp add: demo_cloud_def)

lemma names_nonempty: "sqs_url a n \<noteq> []" "sqs_arn a n \<noteq> []" "iam_role_arn a n \<noteq> []" "js s = [] \<longleftrightarrow> s = []"
  by (simp_all add: sqs_url_def sqs_arn_def iam_role_arn_def js_def)

lemma demo_account_fields:
  "cl_id demo_account = js ''123456789012''" "cl_buckets demo_account = Map.empty" "cl_queues demo_account = Map.empty"
  "cl_roles demo_account = Map.empty" "cl_schedules demo_account = Map.empty"
  by (simp_all add: demo_account_def)

lemma demo_provisions: "\<exists>v a. provisionAws demo_cloud operator_config demo_account = (Inr v, a)"
  by (simp add: provisionAws_def Let_def then_do_def resolveAccountId_def demo_send nonempty_or_def ensureBucket_def catching_def
    demo_account_fields bucket_name_def operator_config no_fields_def ensureQueues_def ensureQueueUrl_def create_queue_def queueArn_def
    names_nonempty change_bucket_def change_role_def ensureSchedulerRole_def provision_schedule_def three_hourly
    eb_ensureSchedules_def scheduler_client_of_def resolveQueueArn_def show_undefined_def schedule_of_def)

lemma demo_identified: "identified demo_provisioned"
  by (simp add: identified_def demo_provisioned_def provision_spec_def Let_def bucket_name_def operator_config 
    queues_spec_def queue_spec_def demo_account_fields role_spec_def schedule_spec_def bucket_spec_def change_bucket_def change_role_def names_nonempty)

lemma demo_pristine: "pristine operator_config demo_account"
  by (simp add: pristine_def demo_account_fields)

text \<open>The machine the commands run on.\<close>

definition deploy_machine :: "account deploy_env" where
  "deploy_machine = \<lparr>de_cloud = demo_cloud, de_checkip = (\<lambda>a. Inr (js ''203.0.113.7'' @ [10])),
     de_writeFile = (\<lambda>p b a. (Inr (), a)), de_cwd = js ''/home/ops''\<rparr>"

lemma demo_disk: "de_cloud deploy_machine = demo_cloud" "local_disk deploy_machine (\<lambda>a. a)"
  by (simp_all add: deploy_machine_def local_disk_def)

lemma demo_account_rest:
  "cl_vpcs demo_account = [js ''vpc-1'']" "cl_subnets demo_account = [(js ''subnet-1'', js ''vpc-1'')]"
  "cl_profiles demo_account = Map.empty" "cl_groups demo_account = []" "cl_keys demo_account = {}"
  "cl_instances demo_account = []"
  by (simp_all add: demo_account_def)

lemma demo_owner: "account_of_arn (ev_EVENTBRIDGE_SCHEDULE_ROLE_ARN operator_config) = Some (js ''123456789012'')"
  by (simp add: operator_config account_of_arn_def text_or_empty_def js_def)


lemma demo_provisioned_fields:
  "cl_vpcs demo_provisioned = [js ''vpc-1'']" "cl_subnets demo_provisioned = [(js ''subnet-1'', js ''vpc-1'')]"
  "cl_profiles demo_provisioned = Map.empty" "cl_groups demo_provisioned = []" "cl_keys demo_provisioned = {}"
  "cl_instances demo_provisioned = []" "cl_id demo_provisioned = js ''123456789012''"
  using spec_outside(5) [of operator_config "js ''cron(0 */3 * * ? *)''" demo_account]
  by (simp_all add: demo_provisioned_def unmanaged_def demo_account_rest demo_account_fields)

lemma demo_provisioned_bucket: "\<exists>B. cl_buckets demo_provisioned (js ''media'') = Some B \<and> bk_keys B = []"
  by (simp add: demo_provisioned_def provision_spec_def Let_def bucket_name_def operator_config(2) names_nonempty
      bucket_spec_def change_bucket_def demo_account_fields)

lemma demo_provisioned_role: "cl_roles demo_provisioned ROLE_NAME = None"
  using spec_outside(3) [of ROLE_NAME operator_config "js ''cron(0 */3 * * ? *)''" demo_account]
  by (simp add: demo_provisioned_def demo_account_fields ROLE_NAME_def SCHEDULER_ROLE_NAME_def js_def)

text \<open>An account in which the worker has stored two objects.\<close>

definition demo_used :: account where
  "demo_used = change_bucket (js ''media'') (bk_keys_update (\<lambda>_. [js ''media/1.jpg'', js ''media/2.jpg''])) demo_provisioned"

lemma demo_deploys:
  "\<exists>i a. deployEc2 deploy_machine operator_config demo_provisioned = (Inr (Launched i), a)"
proof -
  obtain B where "cl_buckets demo_provisioned (js ''media'') = Some B" using demo_provisioned_bucket by blast
  moreover have "newest_image
      [\<lparr>ea_ImageId = Some (js ''ami-1''), ea_CreationDate = Some (js ''2025-01-01'')\<rparr>,
        \<lparr>ea_ImageId = Some (js ''ami-3''), ea_CreationDate = Some (js ''2025-03-01'')\<rparr>,
        \<lparr>ea_ImageId = Some (js ''ami-2''), ea_CreationDate = Some (js ''2025-02-01'')\<rparr>] = Some (js ''ami-3'')"
    by (simp add: newest_image_def sort_by_def compare_images_def present_def js_def)
  ultimately show ?thesis
  by (simp add: deployEc2_def operator_config(2,5) present_def names_nonempty demo_disk demo_send then_do_def nonempty_or_def Let_def
    demo_provisioned_fields demo_provisioned_role demo_owner no_fields_def first_instance_def prepare_and_launch_def fetch_ip_def
    first_of_def subnet_matches_def ensureLifecycleRule_def ensureInstanceProfile_def catching_def change_bucket_def change_role_def
    ensureSecurityGroup_def fresh_id_def ensureKeyPair_def deploy_machine_def findAmi_def launch_instance_def update_where_def)
qed

text \<open>The processes on the instance.\<close>

definition demo_pool :: "unit pg_pool" where
  "demo_pool = \<lparr>pg_query = (\<lambda>q w. (Inr (), w)), pg_end = (\<lambda>w. (Inr (), w))\<rparr>"

definition demo_scheduler_start :: "scheduler_args object \<Rightarrow> unit \<Rightarrow> (js_error + unit) \<times> unit" where
  "demo_scheduler_start s w = (Inr (), eb_start w)"

lemma demo_pool_answers: "checkDatabaseConnection demo_pool w = (True, w)"
  by (simp add: checkDatabaseConnection_def demo_pool_def)

lemma demo_starts: "eb_starts demo_scheduler_start"
  by (simp add: eb_starts_def demo_scheduler_start_def)

end
