(* ===== verification/Cloud_Properties.thy ===== *)
theory Cloud_Properties
  imports Cloud_Demo
begin

text \<open>
  What the commands that manage the AWS account do to it: provisioning, deploying the worker and tearing down,
  under the hypothesis that AWS does what it documents (\<open>aws_service\<close>), and each property at the sample
  account.
\<close>

section \<open>Provisioning\<close>

text \<open>
  C16. When \<open>provisionAws\<close> succeeds, the account has become exactly what the specification of provisioning makes of
  it: the bucket with public access blocked and AES256 encryption, the two queues with the redrive policy to the dead-letter queue, the
  role with the send policy for the jobs queue and the schedule pointing at that queue; everything named in the
  printed summary is the resource that is really there.
\<close>

theorem provisioning_meets_its_specification:
  assumes "aws_service c view" "provisionAws c cfg w = (Inr v, w1)"
  shows "(\<exists>x. toEventBridgeExpression (ev_RECENT_SYNC_CRON cfg) = Inr x \<and> view w1 = provision_spec cfg x (view w))
    \<and> provisioned cfg (view w1)
    \<and> v = \<lparr>pv_region = ev_AWS_REGION cfg, pv_bucket = bucket_name cfg (cl_id (view w)),
       pv_queueUrl = sqs_url (view w) QUEUE_NAME, pv_dlqUrl = sqs_url (view w) DLQ_NAME, pv_roleArn = role_arn_at (view w1)\<rparr>"
  using provisionAws_spec [OF assms] provision_spec_provisioned by metis

theorem provisioning_meets_its_specification_witness:
  "\<exists>v a. provisionAws demo_cloud operator_config demo_account = (Inr v, a) \<and> a = demo_provisioned
     \<and> pv_bucket v = js ''media'' \<and> provisioned operator_config a"
proof -
  obtain v a where run: "provisionAws demo_cloud operator_config demo_account = (Inr v, a)" using demo_provisions by blast
  show ?thesis
    using provisioning_meets_its_specification [OF demo_service run] run three_hourly operator_config(2,4)
    by (auto simp: demo_provisioned_def bucket_name_def names_nonempty)
qed

text \<open>
  C38. Running \<open>provisionAws\<close> again after a successful run, with a service that answers what it can, succeeds with the same summary
  and leaves the account exactly as it is.
\<close>

theorem provisioning_again_changes_nothing:
  assumes "aws_service c view" "aws_responsive c view" "provisionAws c cfg w = (Inr v, w1)" "identified (view w1)"
  shows "\<exists>w2. provisionAws c cfg w1 = (Inr v, w2) \<and> view w2 = view w1"
proof -
  have ready: "provisioned cfg (view w1)" using provisionAws_spec(1) [OF assms(1,3)] provision_spec_provisioned by metis
  have same: "cl_id (view w1) = cl_id (view w)" "sqs_url (view w1) n = sqs_url (view w) n" for n
    using frame_fields [OF provisionAws_frame [OF assms(1,3)]] by simp_all
  show ?thesis
    using provisionAws_runs [OF assms(2,1) ready assms(4)] provisionAws_spec(2) [OF assms(1,3)] same
    by (auto elim: runsE)
qed

theorem provisioning_again_changes_nothing_witness:
  "\<exists>v. provisionAws demo_cloud operator_config demo_account = (Inr v, demo_provisioned)
     \<and> provisionAws demo_cloud operator_config demo_provisioned = (Inr v, demo_provisioned)"
proof -
  obtain v a where run: "provisionAws demo_cloud operator_config demo_account = (Inr v, a)" using demo_provisions by blast
  have a: "a = demo_provisioned"
    using provisionAws_spec(1) [OF demo_service run] three_hourly operator_config by (simp add: demo_provisioned_def)
  show ?thesis
    using provisioning_again_changes_nothing [OF demo_service demo_responsive run] demo_identified run a by simp
qed

text \<open>
  C39. Whatever request \<open>provisionAws\<close> fails at, nothing it does not manage is touched and nothing is lost: buckets keep their
  objects and lifecycle rules, queues their identity, roles their trust and other policies, and no bucket,
  queue, role or schedule outside its own names changes.
\<close>

theorem provisioning_loses_nothing:
  assumes "aws_service c view" "provisionAws c cfg w = (x, w1)"
  shows "provision_frame cfg (view w) (view w1)"
  by (rule provisionAws_frame [OF assms])

theorem provisioning_loses_nothing_witness:
  "provision_frame operator_config demo_account (snd (provisionAws demo_cloud operator_config demo_account))"
  using provisioning_loses_nothing [OF demo_service] by (metis prod.collapse)

section \<open>The instance\<close>



text \<open>
  The image an instance is launched from is, of those AWS lists with an id and a creation date, one with the
  latest date; \<open>findAmi\<close> fails only when none has both.
\<close>

theorem latest_image_is_launched:
  assumes "findAmi c w = (r, w1)" "cl_send c (DescribeImages [''amazon''] ami_filters) w = (Inr resp, w1)"
  shows "case r of
      Inr ami \<Rightarrow> \<exists>i \<in> set (rs_Images resp). ea_ImageId i = Some ami \<and> usable_image i
        \<and> (\<forall>j \<in> set (rs_Images resp). usable_image j \<longrightarrow> \<not> js_less (the (ea_CreationDate i)) (the (ea_CreationDate j)))
    | Inl e \<Rightarrow> \<not> (\<exists>i \<in> set (rs_Images resp). usable_image i)"
  by (rule findAmi_newest [OF assms])

theorem latest_image_is_launched_witness:
  "\<exists>r. findAmi demo_cloud demo_account = (r, demo_account) \<and> (\<forall>e. r \<noteq> Inl e)"
proof -
  have sent: "cl_send demo_cloud (DescribeImages [''amazon''] ami_filters) demo_account =
      (Inr (the (demo_answer (DescribeImages [''amazon''] ami_filters) demo_account)), demo_account)"
    by (simp add: demo_send)
  then have "snd (findAmi demo_cloud demo_account) = demo_account"
    by (auto simp: findAmi_def then_do_def nonempty_or_def split: option.splits)
  then obtain r where r: "findAmi demo_cloud demo_account = (r, demo_account)" by (metis prod.collapse)
  show ?thesis
    using latest_image_is_launched [OF r sent] r by (cases r) (auto simp: usable_image_def present_def names_nonempty)
qed



section \<open>Tearing down\<close>

text \<open>
  Emptying and deleting a bucket ends, however many pages of objects it has and whatever request is rejected, as
  long as the service deletes what it says it deletes; when it reports success the bucket is gone.
\<close>

theorem bucket_deletion_ends:
  assumes "aws_service c view" "deletes_honoured c b"
  shows "\<exists>x w1. emptyAndDeleteBucket c b w = Some (x, w1) \<and> (\<forall>m. x = Inr m \<longrightarrow> cl_buckets (view w1) b = None)"
  by (rule emptyAndDeleteBucket_ends [OF assms])

theorem bucket_deletion_ends_witness:
  "emptyAndDeleteBucket demo_cloud (js ''media'') demo_used \<noteq> None"
  using bucket_deletion_ends [OF demo_service demo_deletes, of "js ''media''" demo_used] by auto



end
