(* ===== verification/Http_App.thy ===== *)
theory Http_App
  imports Http_Api
begin

text \<open>
  \<open>src/loaders/expressLoader.ts\<close>: the application as the ordered list of what is registered on it. Express
  is a parameter; the rules of its documentation the application relies on are the hypotheses
  \<open>express_order\<close> and \<open>express_paths\<close>. The third-party middlewares in front of the routes are parameters as well.
\<close>

section \<open>What is registered\<close>

record http_request =
  rq_method :: jstr
  rq_path :: jstr
  rq_query :: json

text \<open>A handler answers, calls \<open>next()\<close>, or calls \<open>next(error)\<close>.\<close>

datatype handled = Answers http_response | Passes | Fails js_error

datatype layer =
    Handler "http_request \<Rightarrow> handled" \<comment> \<open>\<open>app.use(f)\<close>\<close>
  | Route string jstr "http_request \<Rightarrow> handled" \<comment> \<open>\<open>router.get(path, f)\<close>\<close>
  | Router jstr "layer list" \<comment> \<open>\<open>app.use(path, router)\<close>; \<open>app.use(router)\<close> mounts at the root\<close>
  | Error_Layer "js_error \<Rightarrow> http_response" \<comment> \<open>\<open>app.use(f)\<close> with four parameters\<close>

text \<open>The middlewares of the packages, as handlers of their own.\<close>

record middlewares =
  mw_helmet :: "http_request \<Rightarrow> handled"
  mw_cors :: "http_request \<Rightarrow> handled"
  mw_compression :: "http_request \<Rightarrow> handled"
  mw_json :: "nat \<Rightarrow> http_request \<Rightarrow> handled" \<comment> \<open>the body parser, with its limit in bytes\<close>
  mw_logging :: "(bool \<Rightarrow> nat \<Rightarrow> string) \<Rightarrow> http_request \<Rightarrow> handled" \<comment> \<open>with the log level of a response\<close>

definition customLogLevel :: "bool \<Rightarrow> nat \<Rightarrow> string" where
  "customLogLevel err statusCode =
     (if err \<or> 500 \<le> statusCode then ''error'' else if 400 \<le> statusCode then ''warn'' else ''debug'')"

text \<open>What a request finds: the tables, whether the database answers, the drivers and the uptime.\<close>

record app_reads =
  ar_api :: api_env
  ar_reads :: api_reads
  ar_databaseUp :: bool
  ar_drivers :: driver_names
  ar_uptime :: int

text \<open>A route whose handler catches everything and calls \<open>next(error)\<close>.\<close>

definition hashtag_route :: "app_reads \<Rightarrow> http_request \<Rightarrow> handled" where
  "hashtag_route env rq =
     (case listHashtags (ar_api env) (ar_reads env) (rq_query rq) of
        Inl e \<Rightarrow> Fails e | Inr body \<Rightarrow> Answers \<lparr>hr_status = 200, hr_body = body\<rparr>)"

definition hashtagRouter :: "app_reads \<Rightarrow> layer list" where
  "hashtagRouter env = [Route ''GET'' (js ''/hashtags'') (hashtag_route env)]"

definition healthRouter :: "app_reads \<Rightarrow> layer list" where
  "healthRouter env = [Route ''GET'' (js ''/health'')
     (\<lambda>rq. Answers (getHealth (ar_databaseUp env) (ar_drivers env) (ar_uptime env)))]"

definition api_router :: "app_reads \<Rightarrow> layer list" where
  "api_router env = [Router (js ''/'') (hashtagRouter env)]"

definition createApp :: "middlewares \<Rightarrow> jstr \<Rightarrow> app_reads \<Rightarrow> layer list" where
  "createApp mw prefix env =
     [Handler (mw_helmet mw), Handler (mw_cors mw), Handler (mw_compression mw),
      Handler (mw_json mw (1024 * 1024)), Handler (mw_logging mw customLogLevel),
      Router (js ''/'') (healthRouter env),
      Router prefix (api_router env),
      Router (js ''/'') (hashtagRouter env),
      Handler (\<lambda>rq. Answers (notFoundHandler (rq_method rq) (rq_path rq))),
      Error_Layer (errorHandler (ax_isProduction (ar_api env)))]"

section \<open>Express\<close>

text \<open>How far a request gets in a list of layers: answered, or out at the end, with or without an error.\<close>

datatype routed = Answered http_response | Leaves "js_error option"

record express =
  xp_run :: "layer list \<Rightarrow> http_request \<Rightarrow> js_error option \<Rightarrow> routed"
  xp_method :: "string \<Rightarrow> jstr \<Rightarrow> bool" \<comment> \<open>a route for the first serves a request with the second\<close>
  xp_route :: "jstr \<Rightarrow> jstr \<Rightarrow> bool" \<comment> \<open>a pattern matches a whole path\<close>
  xp_mount :: "jstr \<Rightarrow> jstr \<Rightarrow> jstr option" \<comment> \<open>what a mount path leaves of a path\<close>

text \<open>
  Layers are tried in the order they were registered; without an error the error handlers are passed over,
  with one everything else. A router sees the path without its mount path, and what it does not answer goes
  on behind it.
\<close>

definition continues :: "express \<Rightarrow> layer list \<Rightarrow> http_request \<Rightarrow> handled \<Rightarrow> routed" where
  "continues x ls rq h =
     (case h of Answers r \<Rightarrow> Answered r | Passes \<Rightarrow> xp_run x ls rq None | Fails e \<Rightarrow> xp_run x ls rq (Some e))"

definition express_order :: "express \<Rightarrow> bool" where
  "express_order x \<longleftrightarrow>
     (\<forall>rq err. xp_run x [] rq err = Leaves err)
     \<and> (\<forall>f ls rq. xp_run x (Handler f # ls) rq None = continues x ls rq (f rq))
     \<and> (\<forall>f ls rq e. xp_run x (Handler f # ls) rq (Some e) = xp_run x ls rq (Some e))
     \<and> (\<forall>m p f ls rq. xp_run x (Route m p f # ls) rq None =
          (if xp_method x m (rq_method rq) \<and> xp_route x p (rq_path rq) then continues x ls rq (f rq)
           else xp_run x ls rq None))
     \<and> (\<forall>m p f ls rq e. xp_run x (Route m p f # ls) rq (Some e) = xp_run x ls rq (Some e))
     \<and> (\<forall>p sub ls rq. xp_run x (Router p sub # ls) rq None =
          (case xp_mount x p (rq_path rq) of
             None \<Rightarrow> xp_run x ls rq None
           | Some rest \<Rightarrow> (case xp_run x sub (rq\<lparr>rq_path := rest\<rparr>) None of
               Answered r \<Rightarrow> Answered r | Leaves err \<Rightarrow> xp_run x ls rq err)))
     \<and> (\<forall>p sub ls rq e. xp_run x (Router p sub # ls) rq (Some e) = xp_run x ls rq (Some e))
     \<and> (\<forall>h ls rq. xp_run x (Error_Layer h # ls) rq None = xp_run x ls rq None)
     \<and> (\<forall>h ls rq e. xp_run x (Error_Layer h # ls) rq (Some e) = Answered (h e))"

text \<open>
  A literal pattern matches a path up to the case of letters and one slash at the end; what a mount path
  leaves of a path starts with a slash.
\<close>

definition lower_char :: "nat \<Rightarrow> nat" where
  "lower_char c = (if 65 \<le> c \<and> c \<le> 90 then c + 32 else c)"

definition drop_slash :: "jstr \<Rightarrow> jstr" where
  "drop_slash p = (if 1 < length p \<and> last p = 47 then butlast p else p)"

definition same_path :: "jstr \<Rightarrow> jstr \<Rightarrow> bool" where
  "same_path p q \<longleftrightarrow> map lower_char (drop_slash p) = map lower_char (drop_slash q)"

definition express_paths :: "express \<Rightarrow> bool" where
  "express_paths x \<longleftrightarrow>
     (\<forall>m. xp_method x m (js m))
     \<and> (\<forall>p q. xp_route x p q \<longleftrightarrow> same_path p q)
     \<and> (\<forall>p. p \<noteq> [] \<longrightarrow> hd p = 47 \<longrightarrow> xp_mount x (js ''/'') p = Some p)
     \<and> (\<forall>pre p rest. xp_mount x pre p = Some rest \<longrightarrow> rest \<noteq> [] \<and> hd rest = 47)
     \<and> (\<forall>pre p. pre \<noteq> [] \<longrightarrow> hd pre = 47 \<longrightarrow> last pre \<noteq> 47 \<longrightarrow> p \<noteq> [] \<longrightarrow> hd p = 47 \<longrightarrow> xp_mount x pre (pre @ p) = Some p)"

text \<open>What the server sends: behind the last layer there is nothing left to answer for this application.\<close>

definition serves :: "express \<Rightarrow> layer list \<Rightarrow> http_request \<Rightarrow> http_response \<Rightarrow> bool" where
  "serves x app rq r \<longleftrightarrow> xp_run x app rq None = Answered r"

section \<open>Which handler answers\<close>

lemma order_simps:
  assumes "express_order x"
  shows "xp_run x [] rq err = Leaves err"
    "xp_run x (Handler f # ls) rq None = continues x ls rq (f rq)"
    "xp_run x (Handler f # ls) rq (Some e) = xp_run x ls rq (Some e)"
    "xp_run x (Route m p f # ls) rq None =
       (if xp_method x m (rq_method rq) \<and> xp_route x p (rq_path rq) then continues x ls rq (f rq) else xp_run x ls rq None)"
    "xp_run x (Route m p f # ls) rq (Some e) = xp_run x ls rq (Some e)"
    "xp_run x (Router p sub # ls) rq None =
       (case xp_mount x p (rq_path rq) of
          None \<Rightarrow> xp_run x ls rq None
        | Some rest \<Rightarrow> (case xp_run x sub (rq\<lparr>rq_path := rest\<rparr>) None of
            Answered r \<Rightarrow> Answered r | Leaves err \<Rightarrow> xp_run x ls rq err))"
    "xp_run x (Router p sub # ls) rq (Some e) = xp_run x ls rq (Some e)"
    "xp_run x (Error_Layer h # ls) rq None = xp_run x ls rq None"
    "xp_run x (Error_Layer h # ls) rq (Some e) = Answered (h e)"
  using assms by (simp_all add: express_order_def)

text \<open>The middlewares in front let a request through.\<close>

definition lets_through :: "middlewares \<Rightarrow> http_request \<Rightarrow> bool" where
  "lets_through mw rq \<longleftrightarrow> mw_helmet mw rq = Passes \<and> mw_cors mw rq = Passes \<and> mw_compression mw rq = Passes
     \<and> mw_json mw (1024 * 1024) rq = Passes \<and> mw_logging mw customLogLevel rq = Passes"

definition routes :: "express \<Rightarrow> jstr \<Rightarrow> http_request \<Rightarrow> bool" where
  "routes x p rq \<longleftrightarrow> xp_method x ''GET'' (rq_method rq) \<and> xp_route x p (rq_path rq)"

definition routes_below :: "express \<Rightarrow> jstr \<Rightarrow> jstr \<Rightarrow> http_request \<Rightarrow> bool" where
  "routes_below x prefix p rq \<longleftrightarrow>
     (\<exists>rest. xp_mount x prefix (rq_path rq) = Some rest \<and> routes x p (rq\<lparr>rq_path := rest\<rparr>))"

text \<open>
  The whole routing table: health first, then the list of media, below the prefix or not, then 404; an error
  of a handler goes to the error handler.
\<close>

definition app_table :: "express \<Rightarrow> jstr \<Rightarrow> app_reads \<Rightarrow> http_request \<Rightarrow> http_response" where
  "app_table x prefix env rq =
     (if routes x (js ''/health'') rq then getHealth (ar_databaseUp env) (ar_drivers env) (ar_uptime env)
      else if routes_below x prefix (js ''/hashtags'') rq \<or> routes x (js ''/hashtags'') rq
      then getHashtags (ar_api env) (ar_reads env) (rq_query rq)
      else notFoundHandler (rq_method rq) (rq_path rq))"

text \<open>One layer after the other.\<close>

lemma answers_health:
  assumes "express_order x"
  shows "xp_run x (healthRouter env) rq None =
    (if routes x (js ''/health'') rq then Answered (getHealth (ar_databaseUp env) (ar_drivers env) (ar_uptime env)) else Leaves None)"
  by (simp add: healthRouter_def routes_def continues_def order_simps [OF assms])

lemma answers_hashtags:
  assumes "express_order x"
  shows "xp_run x (hashtagRouter env) rq None =
    (if routes x (js ''/hashtags'') rq
     then (case listHashtags (ar_api env) (ar_reads env) (rq_query rq) of
             Inl e \<Rightarrow> Leaves (Some e) | Inr body \<Rightarrow> Answered \<lparr>hr_status = 200, hr_body = body\<rparr>)
     else Leaves None)"
  by (simp add: hashtagRouter_def hashtag_route_def routes_def continues_def order_simps [OF assms] split: sum.split)

lemma mounted_at_root:
  assumes "express_order x" "express_paths x" "rq_path rq \<noteq> []" "hd (rq_path rq) = 47"
  shows "xp_run x (Router (js ''/'') sub # ls) rq None =
    (case xp_run x sub rq None of Answered r \<Rightarrow> Answered r | Leaves err \<Rightarrow> xp_run x ls rq err)"
proof -
  have "xp_mount x (js ''/'') (rq_path rq) = Some (rq_path rq)" using assms(2-4) by (simp add: express_paths_def)
  then show ?thesis by (simp add: order_simps [OF assms(1)])
qed

lemma answers_below:
  assumes "express_order x" "express_paths x"
  shows "xp_run x (Router prefix (api_router env) # ls) rq None =
    (if routes_below x prefix (js ''/hashtags'') rq
     then (case listHashtags (ar_api env) (ar_reads env) (rq_query rq) of
             Inl e \<Rightarrow> xp_run x ls rq (Some e) | Inr body \<Rightarrow> Answered \<lparr>hr_status = 200, hr_body = body\<rparr>)
     else xp_run x ls rq None)"
proof (cases "xp_mount x prefix (rq_path rq)")
  case None
  then show ?thesis by (simp add: routes_below_def order_simps [OF assms(1)])
next
  case (Some rest)
  then have "rest \<noteq> [] \<and> hd rest = 47" using assms(2) unfolding express_paths_def by blast
  then have "xp_run x (api_router env) (rq\<lparr>rq_path := rest\<rparr>) None = xp_run x (hashtagRouter env) (rq\<lparr>rq_path := rest\<rparr>) None"
    by (simp add: api_router_def mounted_at_root [OF assms(1,2)] order_simps(1) [OF assms(1)] split: routed.split)
  then show ?thesis
    using Some by (simp add: routes_below_def order_simps [OF assms(1)] answers_hashtags [OF assms(1)] split: sum.split)
qed

lemma app_answers:
  assumes "express_order x" "express_paths x" "lets_through mw rq" "rq_path rq \<noteq> []" "hd (rq_path rq) = 47"
  shows "serves x (createApp mw prefix env) rq r \<longleftrightarrow> r = app_table x prefix env rq"
proof -
  note order = order_simps(1-5,7-9) [OF assms(1)] and root = mounted_at_root [OF assms(1,2,4,5)]
  let ?list = "listHashtags (ar_api env) (ar_reads env) (rq_query rq)"
  have rest: "xp_run x (Router (js ''/'') (hashtagRouter env) # [Handler (\<lambda>rq. Answers (notFoundHandler (rq_method rq) (rq_path rq))),
      Error_Layer (errorHandler (ax_isProduction (ar_api env)))]) rq None =
    Answered (if routes x (js ''/hashtags'') rq then getHashtags (ar_api env) (ar_reads env) (rq_query rq)
      else notFoundHandler (rq_method rq) (rq_path rq))"
    by (simp add: root answers_hashtags [OF assms(1)] order continues_def getHashtags_def split: sum.split)
  have late: "xp_run x (Router (js ''/'') (hashtagRouter env) # [Handler (\<lambda>rq. Answers (notFoundHandler (rq_method rq) (rq_path rq))),
      Error_Layer (errorHandler (ax_isProduction (ar_api env)))]) rq (Some e) = Answered (errorHandler (ax_isProduction (ar_api env)) e)" for e
    by (simp add: order)
  show ?thesis
    using assms(3) rest late
    by (simp add: serves_def createApp_def app_table_def lets_through_def order(2) continues_def root answers_health [OF assms(1)]
        answers_below [OF assms(1,2)] getHashtags_def eq_commute [of r] split: sum.split)
qed

text \<open>The list is found at the path of the brief and below the prefix.\<close>

lemma list_not_health: "\<not> same_path (js ''/health'') (pre @ js ''/hashtags'')"
proof -
  have "length (drop_slash (js ''/health'')) \<noteq> length (drop_slash (pre @ js ''/hashtags''))"
    by (simp add: drop_slash_def js_def)
  then show ?thesis unfolding same_path_def by (metis length_map)
qed

lemma table_list:
  assumes "express_paths x" "rq_method rq = js ''GET''" "prefix \<noteq> []" "hd prefix = 47" "last prefix \<noteq> 47"
    "rq_path rq = js ''/hashtags'' \<or> rq_path rq = prefix @ js ''/hashtags''"
  shows "app_table x prefix env rq = getHashtags (ar_api env) (ar_reads env) (rq_query rq)"
proof -
  have get: "xp_method x ''GET'' (js ''GET'')" and route: "xp_route x p q \<longleftrightarrow> same_path p q" for p q
    using assms(1) by (simp_all add: express_paths_def)
  have below: "xp_mount x prefix (prefix @ js ''/hashtags'') = Some (js ''/hashtags'')"
    using assms(1,3-5) by (simp add: express_paths_def js_def)
  have "\<not> routes x (js ''/health'') rq"
    using assms(6) list_not_health [of "[]"] list_not_health [of prefix] by (auto simp: routes_def route)
  moreover have "routes_below x prefix (js ''/hashtags'') rq \<or> routes x (js ''/hashtags'') rq"
    using assms(2,6) below by (auto simp: routes_def routes_below_def route get same_path_def)
  ultimately show ?thesis by (simp add: app_table_def)
qed

end
