(* ===== verification/Row_Types.thy ===== *)
theory Row_Types
  imports Commands_Correct
begin

text \<open>
  What the columns promise beyond their constraints, row by row: the range of the integer columns of posts
  and history, which columns are filled together, and the length of the stored error texts. Every statement
  of the repositories keeps it, so it is an instance of \<open>command_invariant\<close>.
\<close>

section \<open>Conforming rows\<close>

definition post_conforms :: "media_post \<Rightarrow> bool" where
  "post_conforms m \<longleftrightarrow>
     int4_opt_ok (mp_likeCount m) \<and> int4_opt_ok (mp_commentsCount m) \<and> int4_opt_ok (map_option int (mp_bestTopRank m))
     \<and> (mp_seenInTop m \<longleftrightarrow> mp_bestTopRank m \<noteq> None) \<and> (mp_seenInTop m \<or> mp_seenInRecent m)
     \<and> (case mp_firstSeenVia m of Top \<Rightarrow> mp_seenInTop m | Recent \<Rightarrow> mp_seenInRecent m)
     \<and> mp_metricsUpdatedAt m \<noteq> None"

definition history_conforms :: "post_history \<Rightarrow> bool" where
  "history_conforms h \<longleftrightarrow>
     int4_opt_ok (ph_likeCount h) \<and> int4_opt_ok (ph_commentsCount h) \<and> int4_opt_ok (map_option int (ph_rank h))
     \<and> (ph_rank h \<noteq> None \<longleftrightarrow> ph_source h = Top)
     \<and> ph_changedFields h \<noteq> [] \<and> distinct (ph_changedFields h)"

definition text_fits :: "nat \<Rightarrow> jstr option \<Rightarrow> bool" where
  "text_fits n v \<longleftrightarrow> (case v of None \<Rightarrow> True | Some s \<Rightarrow> length s \<le> n)"

definition asset_conforms :: "media_asset \<Rightarrow> bool" where
  "asset_conforms a \<longleftrightarrow>
     text_fits 2000 (ma_lastError a)
     \<and> (ma_status a = Stored \<longrightarrow> ma_sha256 a \<noteq> None \<and> ma_storageKey a \<noteq> None \<and> ma_storageProvider a \<noteq> None
          \<and> ma_sizeBytes a \<noteq> None \<and> ma_storedAt a \<noteq> None \<and> ma_lastError a = None)
     \<and> (ma_status a = Asset_Failed \<longrightarrow> ma_lastError a \<noteq> None)
     \<and> (ma_status a = Downloading \<longrightarrow> ma_downloadStartedAt a \<noteq> None \<and> 0 < ma_attempts a)"

definition run_conforms :: "sync_run \<Rightarrow> bool" where
  "run_conforms r \<longleftrightarrow>
     text_fits 4000 (sr_error r) \<and> sr_hitItemCap r \<le> 1
     \<and> (sr_status r \<noteq> Running \<longrightarrow> sr_finishedAt r \<noteq> None)
     \<and> (sr_durationMs r = map_option (\<lambda>t. t - sr_startedAt r) (sr_finishedAt r))"

definition hashtag_conforms :: "hashtag \<Rightarrow> bool" where
  "hashtag_conforms h \<longleftrightarrow>
     text_fits 2000 (ht_lastSyncError h) \<and> (ht_lastSyncError h = None \<longleftrightarrow> ht_consecutiveFailures h = 0)
     \<and> (ht_igHashtagId h = None \<longleftrightarrow> ht_igHashtagIdResolvedAt h = None)"

definition rows_conform :: "database \<Rightarrow> bool" where
  "rows_conform db \<longleftrightarrow>
     (\<forall>m \<in> set (db_mediaPosts db). post_conforms m) \<and> (\<forall>h \<in> set (db_history db). history_conforms h)
     \<and> (\<forall>a \<in> set (db_assets db). asset_conforms a) \<and> (\<forall>r \<in> set (db_syncRuns db). run_conforms r)
     \<and> (\<forall>h \<in> set (db_hashtags db). hashtag_conforms h)"

section \<open>The rows that are written\<close>

lemma text_fits_slice [simp]: "text_fits n (Some (js_slice n s))" "text_fits n (map_option (js_slice n) v)" "text_fits n None"
  by (auto simp: text_fits_def length_js_slice split: option.split)

lemma new_post_conforms:
  assumes "int4_opt_ok (mm_like_count (ui_media inp))" "int4_opt_ok (mm_comments_count (ui_media inp))"
    "int4_opt_ok (map_option int (effectiveRank inp))"
  shows "post_conforms (new_post u now i takenAt inp)"
  using assms by (simp add: post_conforms_def new_post_def Let_def effectiveRank_def split: media_source.split)

lemma least_int4:
  "int4_opt_ok (map_option int a) \<Longrightarrow> int4_opt_ok (map_option int b) \<Longrightarrow> int4_opt_ok (map_option int (sql_least a b))"
  by (auto simp: int4_opt_ok_def sql_least_def min_def split: option.splits)

lemma refresh_post_conforms:
  assumes "post_conforms m" "int4_opt_ok (mm_like_count (ui_media inp))" "int4_opt_ok (mm_comments_count (ui_media inp))"
    "int4_opt_ok (map_option int (effectiveRank inp))"
  shows "post_conforms (refresh_post u now inp m)"
proof -
  have "int4_opt_ok (map_option int (sql_least (mp_bestTopRank m) (Some (ui_rank inp))))" if "ui_source inp = Top"
    using assms that by (intro least_int4) (simp_all add: post_conforms_def effectiveRank_def)
  moreover have "sql_least v (Some n) \<noteq> None" for v n by (simp add: sql_least_def split: option.split)
  ultimately show ?thesis
    using assms by (auto simp: post_conforms_def refresh_post_def Let_def split: media_source.splits)
qed

lemma new_history_conforms:
  assumes "int4_opt_ok (mm_like_count (ui_media inp))" "int4_opt_ok (mm_comments_count (ui_media inp))"
    "int4_opt_ok (map_option int (effectiveRank inp))" "changed \<noteq> []" "distinct changed"
  shows "history_conforms (new_history u now i mediaId changed inp)"
  using assms by (simp add: history_conforms_def new_history_def Let_def effectiveRank_def split: media_source.split)

lemma changed_fields_distinct: "distinct (changed_fields p c)"
  by (simp add: changed_fields_def TRACKED_FIELDS_def split: option.split)

lemma upsertMedia_conforms:
  assumes "rows_conform db"
  shows "rows_conform (snd (upsertMedia u dp now inp db))"
proof (cases "int4_opt_ok (mm_like_count (ui_media inp)) \<and> int4_opt_ok (mm_comments_count (ui_media inp))
    \<and> int4_opt_ok (map_option int (effectiveRank inp))")
  case False
  then show ?thesis
    using assms by (auto simp: upsertMedia_def upsert_post_def split: sum.split)
next
  case True
  have post: "rows_conform db1" if "upsert_post u now t inp db = (Inr row, db1)" for t row db1
    using that assms True
    by (auto simp: upsert_post_def rows_conform_def set_update_where Let_def refresh_post_conforms new_post_conforms
        split: if_splits option.splits)
  have hist: "rows_conform db2"
    if "rows_conform db1" "insert_history u now i ch inp db1 = (Inr h, db2)" "ch \<noteq> []" "distinct ch" for i ch h db1 db2
    using that True by (auto simp: insert_history_def rows_conform_def new_history_conforms split: if_splits)
  show ?thesis
    using assms post
    by (auto simp: upsertMedia_def Let_def split: sum.split prod.split intro: hist [OF post] changed_fields_distinct)
qed

section \<open>Every statement keeps it\<close>

lemma mark_conforms:
  assumes "rows_conform db" "\<And>a. asset_conforms a \<Longrightarrow> asset_conforms (f a)"
  shows "rows_conform (update_asset i f db)"
  using assms by (simp add: rows_conform_def update_asset_def ball_update_where)

lemma asset_statements_conform:
  assumes "rows_conform db"
  shows "rows_conform (markSkipped now i msg db)" "rows_conform (markDownloading now i db)"
    "rows_conform (markFailed now i msg db)" "rows_conform (markStored now i st db)"
    "rows_conform (snd (ensurePending now i url db))"
  using assms
  by (auto simp: markSkipped_def markDownloading_def markFailed_def markStored_def asset_conforms_def intro!: mark_conforms)
    (auto simp: ensurePending_def rows_conform_def ball_update_where asset_conforms_def refresh_url_def new_asset_def Let_def
      split: option.splits)

lemma run_statements_conform:
  assumes "rows_conform db"
  shows "rows_conform (snd (startRun now sinp db))" "rows_conform (finishRun now rid out db)"
    "rows_conform (recordPageProgress rid d db)" "rows_conform (snd (recordPage now pinp db))"
  using assms
  by (auto simp: startRun_def finishRun_def recordPageProgress_def recordPage_def rows_conform_def ball_update_where
      run_conforms_def new_run_def finish_def add_progress_def Let_def)

lemma hashtag_statements_conform:
  assumes "rows_conform db"
  shows "rows_conform (snd (setIgHashtagId now i ig db))" "rows_conform (markSyncSucceeded now i kind db)"
    "rows_conform (markSyncFailed now i msg db)" "rows_conform (snd (setActive u now name active db))"
    "rows_conform (snd (ensureTracked u now inp db))"
  using assms
  by (auto simp: setIgHashtagId_def markSyncSucceeded_def markSyncFailed_def setActive_def ensureTracked_def rows_conform_def
      ball_update_where hashtag_conforms_def new_hashtag_def Let_def split: option.splits media_source.splits)

interpretation conforming: command_invariant rows_conform
  by unfold_locales
    (simp_all add: upsertMedia_conforms asset_statements_conform run_statements_conform hashtag_statements_conform)

end
