(* ===== verification/System_Properties.thy ===== *)
theory System_Properties
  imports Cloud_Demo Http_App Row_Types Drain_Correct Api_Properties Demo
begin

text \<open>
  The properties of the program as a running system: the types of the rows over any run of it, the routing of
  the HTTP application, and the life of the API process.
\<close>

section \<open>The rows\<close>

text \<open>
  C6. Whatever jobs are handled and whatever commands are run, in any order and with any failures, every row
  keeps conforming to its table: the counts and ranks of posts and history fit their integer columns, a rank is
  there exactly for what was seen in a top listing, a stored asset has all its columns and a failed one its
  error, a finished run has its end and duration, an error text fits its limit and is there exactly while there
  are consecutive failures.
\<close>

theorem rows_conform_to_their_tables:
  assumes "(program_step allowed)\<^sup>*\<^sup>* w w'" "rows_conform (sw_db (pw_sync w))"
  shows "rows_conform (sw_db (pw_sync w'))"
  by (rule conforming.program_keeps [OF assms])

text \<open>The sample tables of the read API, behind the sample worker.\<close>

definition stocked_world :: "(mem_queue, file_system) app_world" where
  "stocked_world = demo_app_world\<lparr>pw_sync := demo_world\<lparr>sw_db := api_db\<rparr>\<rparr>"

lemma stocked_rows: "rows_conform api_db"
  by code_simp

theorem rows_conform_to_their_tables_witness:
  "\<exists>w'. program_step (\<lambda>d. d = mem_drain_env mem_default (demo_app (\<lambda>_. None))) stocked_world w'
     \<and> db_mediaPosts (sw_db (pw_sync stocked_world)) \<noteq> [] \<and> rows_conform (sw_db (pw_sync w'))"
proof -
  let ?d = "mem_drain_env mem_default (demo_app (\<lambda>_. None))"
  obtain r v where run: "untrackHashtag (ap_sync (dn_app ?d)) [js ''matcha''] (pw_sync stocked_world) = (r, v)"
    by fastforce
  have step: "program_step (\<lambda>d. d = ?d) stocked_world (stocked_world\<lparr>pw_sync := v\<rparr>)"
    by (rule program_step.untrack [OF refl run])
  have steps: "(program_step (\<lambda>d. d = ?d))\<^sup>*\<^sup>* stocked_world (stocked_world\<lparr>pw_sync := v\<rparr>)"
    using step by (rule r_into_rtranclp)
  have "rows_conform (sw_db (pw_sync stocked_world))" using stocked_rows by (simp add: stocked_world_def)
  then show ?thesis
    using rows_conform_to_their_tables [OF steps] step by (auto simp: stocked_world_def api_db_def)
qed

section \<open>Routing\<close>











section \<open>The API process\<close>

text \<open>
  C37. The API process listens only once the database has answered. From then on, whatever requests and signals
  come, the pool is ended only when the server accepts nothing more and no request is in flight, exit code 0
  means that this has happened, and after a signal the process can always finish what is in flight and exit
  with code 0 unless it is forced first.
\<close>

theorem api_shuts_down_gracefully:
  assumes "api_main pool w = (Inr s0, w1)" "api_step\<^sup>*\<^sup>* s0 s"
  shows "fst (checkDatabaseConnection pool w)
    \<and> (0 < ap_poolEnds s \<longrightarrow> \<not> ap_listening s \<and> ap_requests s = 0)
    \<and> (ap_exit s = Some 0 \<longrightarrow> 0 < ap_poolEnds s)
    \<and> (\<not> ap_listening s \<longrightarrow> ap_exit s = None \<longrightarrow> (\<exists>s'. api_step\<^sup>*\<^sup>* s s' \<and> ap_exit s' = Some 0))"
proof -
  have start: "s0 = api_start" "fst (checkDatabaseConnection pool w)"
    using assms(1) by (auto simp: api_main_def split: prod.splits bool.splits)
  have "graceful s" using graceful_reachable assms(2) start(1) by simp
  then show ?thesis using start(2) can_exit_cleanly by (auto simp: graceful_def)
qed

theorem api_shuts_down_gracefully_witness:
  "\<exists>s. api_step\<^sup>*\<^sup>* api_start s \<and> ap_requests s = 1 \<and> \<not> ap_listening s
     \<and> (\<exists>s'. api_step\<^sup>*\<^sup>* s s' \<and> ap_exit s' = Some 0)"
proof -
  let ?s = "shutdown (api_start\<lparr>ap_requests := 1\<rparr>)"
  have main: "api_main demo_pool () = (Inr api_start, ())" by (simp add: api_main_def demo_pool_answers)
  have "api_step api_start (api_start\<lparr>ap_requests := 1\<rparr>)"
    using api_step.accept [of api_start] by (simp add: api_start_def)
  moreover have "api_step (api_start\<lparr>ap_requests := 1\<rparr>) ?s" by (rule api_step.signal) (simp add: api_start_def)
  ultimately have steps: "api_step\<^sup>*\<^sup>* api_start ?s" by (meson converse_rtranclp_into_rtranclp rtranclp.rtrancl_refl)
  then show ?thesis
    using api_shuts_down_gracefully [OF main steps] by (intro exI [of _ ?s]) (simp add: shutdown_def api_start_def)
qed

end
