(* ===== verification/Lock_Steps.thy ===== *)
theory Lock_Steps
  imports Sync_Service
begin

text \<open>
  \<open>src/database/advisoryLock.ts\<close> over time: many calls of \<open>withAdvisoryLock\<close> in several worker
  processes, each at its own \<open>await\<close>. The Postgres server keeps, per session, the list of advisory
  locks it holds: \<open>pg_try_advisory_lock\<close> is granted unless another session holds the key and counts
  repeated grants, \<open>pg_advisory_unlock\<close> undoes one, the end of a session all of them. A worker has a
  pool of sessions, of which a call borrows one (\<open>pool.connect\<close>) for as long as it lasts.
  \<open>Sync_Service\<close> has the same function inside one worker, with the synchronisation it protects.
\<close>

section \<open>Sessions\<close>

record pg_session =
  ps_worker :: nat
  ps_busy :: bool
  ps_locks :: "int list"

datatype lock_outcome = Rethrown | Not_acquired | Acquired

text \<open>Where a call is: at which \<open>await\<close>, and with which session.\<close>

datatype lock_pc =
    Called
  | Trying nat
  | Inside nat
  | Unlocking nat lock_outcome
  | Releasing nat lock_outcome
  | Returned lock_outcome
  | Killed

text \<open>
  \<open>ls_stray\<close> records that a lock was left on a session without its call knowing or caring: the answer
  to a granted try was lost, or the unlock was rejected, which the code logs and goes on.
\<close>

record lock_state =
  ls_sessions :: "nat \<rightharpoonup> pg_session"
  ls_next :: nat
  ls_pc :: "nat \<Rightarrow> lock_pc"
  ls_stray :: bool

text \<open>What the calls are: their keys, their workers, \<open>hashtext\<close> and the size of a pool.\<close>

record lock_env =
  le_hash :: "jstr \<Rightarrow> int"
  le_key :: "nat \<Rightarrow> jstr"
  le_worker :: "nat \<Rightarrow> nat"
  le_pool_max :: nat

definition lock_hash :: "lock_env \<Rightarrow> nat \<Rightarrow> int" where
  "lock_hash env i = le_hash env (le_key env i)"

text \<open>Sessions are numbered in the order they are opened; those below \<open>ls_next\<close> existed.\<close>

definition locks_of :: "lock_state \<Rightarrow> nat \<Rightarrow> int list" where
  "locks_of st s = (case ls_sessions st s of None \<Rightarrow> [] | Some x \<Rightarrow> ps_locks x)"

definition on_session :: "nat \<Rightarrow> (pg_session \<Rightarrow> pg_session) \<Rightarrow> lock_state \<Rightarrow> lock_state" where
  "on_session s f st = st\<lparr>ls_sessions := (ls_sessions st)(s := map_option f (ls_sessions st s))\<rparr>"

definition goto :: "nat \<Rightarrow> lock_pc \<Rightarrow> lock_state \<Rightarrow> lock_state" where
  "goto i pc st = st\<lparr>ls_pc := (ls_pc st)(i := pc)\<rparr>"

definition grantable :: "nat \<Rightarrow> int \<Rightarrow> lock_state \<Rightarrow> bool" where
  "grantable s k st \<longleftrightarrow> list_all (\<lambda>t. t = s \<or> k \<notin> set (locks_of st t)) [0..<ls_next st]"

definition pg_try_advisory_lock :: "nat \<Rightarrow> int \<Rightarrow> lock_state \<Rightarrow> bool \<times> lock_state" where
  "pg_try_advisory_lock s k st =
     (if grantable s k st then (True, on_session s (\<lambda>x. x\<lparr>ps_locks := k # ps_locks x\<rparr>) st)
      else (False, st))"

definition pg_advisory_unlock :: "nat \<Rightarrow> int \<Rightarrow> lock_state \<Rightarrow> lock_state" where
  "pg_advisory_unlock s k = on_session s (\<lambda>x. x\<lparr>ps_locks := remove1 k (ps_locks x)\<rparr>)"

section \<open>One call\<close>

text \<open>\<open>pool.connect\<close>: an idle session of the worker's pool, or a new one while the pool is not full.\<close>

definition pool_sessions :: "lock_env \<Rightarrow> nat \<Rightarrow> lock_state \<Rightarrow> nat list" where
  "pool_sessions env i st =
     filter (\<lambda>s. case ls_sessions st s of None \<Rightarrow> False | Some x \<Rightarrow> ps_worker x = le_worker env i) [0..<ls_next st]"

definition idle_sessions :: "lock_env \<Rightarrow> nat \<Rightarrow> lock_state \<Rightarrow> nat list" where
  "idle_sessions env i st =
     filter (\<lambda>s. case ls_sessions st s of None \<Rightarrow> False | Some x \<Rightarrow> \<not> ps_busy x) (pool_sessions env i st)"

definition connect :: "lock_env \<Rightarrow> nat \<Rightarrow> lock_state \<Rightarrow> lock_state option" where
  "connect env i st =
     (case idle_sessions env i st of
        s # _ \<Rightarrow> Some (goto i (Trying s) (on_session s (\<lambda>x. x\<lparr>ps_busy := True\<rparr>) st))
      | [] \<Rightarrow>
          (if length (pool_sessions env i st) < le_pool_max env
           then Some (goto i (Trying (ls_next st))
             (st\<lparr>ls_sessions := (ls_sessions st)(ls_next st \<mapsto>
                    \<lparr>ps_worker = le_worker env i, ps_busy = True, ps_locks = []\<rparr>),
                 ls_next := Suc (ls_next st)\<rparr>))
           else None))"

text \<open>The try, and the branch on \<open>acquire.rows[0]?.locked\<close>.\<close>

definition try_lock :: "lock_env \<Rightarrow> nat \<Rightarrow> nat \<Rightarrow> lock_state \<Rightarrow> lock_state" where
  "try_lock env i s st =
     (case pg_try_advisory_lock s (lock_hash env i) st of
        (True, st') \<Rightarrow> goto i (Inside s) st'
      | (False, st') \<Rightarrow> goto i (Releasing s Not_acquired) st')"

text \<open>The try whose answer is lost: the call throws, the server has done its part.\<close>

definition try_lost :: "lock_env \<Rightarrow> nat \<Rightarrow> nat \<Rightarrow> lock_state \<Rightarrow> lock_state" where
  "try_lost env i s st =
     (case pg_try_advisory_lock s (lock_hash env i) st of
        (g, st') \<Rightarrow> goto i (Releasing s Rethrown) (st'\<lparr>ls_stray := (ls_stray st \<or> g)\<rparr>))"

text \<open>\<open>client.release\<close>: back to the pool, locks and all.\<close>

definition release :: "nat \<Rightarrow> nat \<Rightarrow> lock_outcome \<Rightarrow> lock_state \<Rightarrow> lock_state" where
  "release i s out st = goto i (Returned out) (on_session s (\<lambda>x. x\<lparr>ps_busy := False\<rparr>) st)"

definition end_session :: "nat \<Rightarrow> lock_state \<Rightarrow> lock_state" where
  "end_session s st = st\<lparr>ls_sessions := (ls_sessions st)(s := None)\<rparr>"

definition kill_worker :: "lock_env \<Rightarrow> nat \<Rightarrow> lock_state \<Rightarrow> lock_state" where
  "kill_worker env wk st =
     st\<lparr>ls_sessions := (\<lambda>s. case ls_sessions st s of None \<Rightarrow> None
          | Some x \<Rightarrow> if ps_worker x = wk then None else Some x),
        ls_pc := (\<lambda>i. if le_worker env i = wk then Killed else ls_pc st i)\<rparr>"

text \<open>
  The steps of the system. A call starts only in a worker that runs; \<open>fn\<close> takes as long as it takes
  and returns or throws; a session can end at any moment, under a running call too.
\<close>

inductive lock_step :: "lock_env \<Rightarrow> lock_state \<Rightarrow> lock_state \<Rightarrow> bool" for env where
  connects: "ls_pc st i = Called \<Longrightarrow> connect env i st = Some st' \<Longrightarrow> lock_step env st st'"
| connect_fails: "ls_pc st i = Called \<Longrightarrow> lock_step env st (goto i (Returned Rethrown) st)"
| tries: "ls_pc st i = Trying s \<Longrightarrow> ls_sessions st s \<noteq> None \<Longrightarrow> lock_step env st (try_lock env i s st)"
| try_fails: "ls_pc st i = Trying s \<Longrightarrow> lock_step env st (goto i (Releasing s Rethrown) st)"
| try_loses: "ls_pc st i = Trying s \<Longrightarrow> ls_sessions st s \<noteq> None \<Longrightarrow> lock_step env st (try_lost env i s st)"
| fn_settles: "ls_pc st i = Inside s \<Longrightarrow> out = Acquired \<or> out = Rethrown \<Longrightarrow>
    lock_step env st (goto i (Unlocking s out) st)"
| unlocks: "ls_pc st i = Unlocking s out \<Longrightarrow>
    lock_step env st (goto i (Releasing s out) (pg_advisory_unlock s (lock_hash env i) st))"
| unlock_fails: "ls_pc st i = Unlocking s out \<Longrightarrow>
    lock_step env st (goto i (Releasing s out) (st\<lparr>ls_stray := True\<rparr>))"
| releases: "ls_pc st i = Releasing s out \<Longrightarrow> lock_step env st (release i s out st)"
| session_ends: "lock_step env st (end_session s st)"
| worker_dies: "lock_step env st (kill_worker env wk st)"

inductive_cases lock_stepE: "lock_step env st st'"

definition lock_start :: lock_state where
  "lock_start = \<lparr>ls_sessions = Map.empty, ls_next = 0, ls_pc = (\<lambda>_. Called), ls_stray = False\<rparr>"

abbreviation lock_reachable :: "lock_env \<Rightarrow> lock_state \<Rightarrow> bool" where
  "lock_reachable env \<equiv> (lock_step env)\<^sup>*\<^sup>* lock_start"

lemmas lock_defs = goto_def on_session_def release_def end_session_def kill_worker_def
  pg_advisory_unlock_def

section \<open>The invariant\<close>

fun pc_session :: "lock_pc \<Rightarrow> nat option" where
  "pc_session (Trying s) = Some s"
| "pc_session (Inside s) = Some s"
| "pc_session (Unlocking s out) = Some s"
| "pc_session (Releasing s out) = Some s"
| "pc_session _ = None"

text \<open>Between the grant and the unlock.\<close>

fun holds_lock :: "lock_pc \<Rightarrow> bool" where
  "holds_lock (Inside s) = True"
| "holds_lock (Unlocking s out) = True"
| "holds_lock _ = False"

definition sessions_ok :: "lock_env \<Rightarrow> lock_state \<Rightarrow> bool" where
  "sessions_ok env st \<longleftrightarrow>
     (\<forall>s x. ls_sessions st s = Some x \<longrightarrow> s < ls_next st)
     \<and> (\<forall>i s. pc_session (ls_pc st i) = Some s \<longrightarrow>
          s < ls_next st \<and> (\<forall>x. ls_sessions st s = Some x \<longrightarrow>
            ps_busy x \<and> ps_worker x = le_worker env i))
     \<and> (\<forall>i j s. pc_session (ls_pc st i) = Some s \<longrightarrow> pc_session (ls_pc st j) = Some s \<longrightarrow> i = j)"

definition locks_ok :: "lock_env \<Rightarrow> lock_state \<Rightarrow> bool" where
  "locks_ok env st \<longleftrightarrow>
     (\<forall>i s. holds_lock (ls_pc st i) \<longrightarrow> pc_session (ls_pc st i) = Some s \<longrightarrow> ls_sessions st s \<noteq> None \<longrightarrow>
        lock_hash env i \<in> set (locks_of st s))
     \<and> (\<forall>s t k. k \<in> set (locks_of st s) \<longrightarrow> k \<in> set (locks_of st t) \<longrightarrow> s = t)"

definition strays_ok :: "lock_env \<Rightarrow> lock_state \<Rightarrow> bool" where
  "strays_ok env st \<longleftrightarrow>
     ls_stray st \<or> (\<forall>s. distinct (locks_of st s) \<and> (\<forall>k \<in> set (locks_of st s).
        \<exists>i. holds_lock (ls_pc st i) \<and> pc_session (ls_pc st i) = Some s \<and> lock_hash env i = k))"

lemma connect_cases:
  assumes "connect env i st = Some st'"
  obtains s x where "ls_sessions st s = Some x" "\<not> ps_busy x" "ps_worker x = le_worker env i"
      "st' = goto i (Trying s) (on_session s (\<lambda>x. x\<lparr>ps_busy := True\<rparr>) st)"
    | "st' = goto i (Trying (ls_next st)) (st\<lparr>ls_sessions := (ls_sessions st)(ls_next st \<mapsto>
          \<lparr>ps_worker = le_worker env i, ps_busy = True, ps_locks = []\<rparr>), ls_next := Suc (ls_next st)\<rparr>)"
proof (cases "idle_sessions env i st")
  case Nil
  then show thesis using assms that(2) by (auto simp: connect_def split: if_splits)
next
  case (Cons s ss)
  then have "s \<in> set (idle_sessions env i st)" by simp
  then obtain x where "ls_sessions st s = Some x" "\<not> ps_busy x" "ps_worker x = le_worker env i"
    by (auto simp: idle_sessions_def pool_sessions_def split: option.splits)
  then show thesis using assms Cons that(1) by (auto simp: connect_def)
qed

lemma sessions_okD:
  assumes "sessions_ok env st"
  shows "ls_sessions st s = Some x \<Longrightarrow> s < ls_next st"
    and "pc_session (ls_pc st i) = Some s \<Longrightarrow> s < ls_next st"
    and "pc_session (ls_pc st i) = Some s \<Longrightarrow> ls_sessions st s = Some x \<Longrightarrow>
      ps_busy x \<and> ps_worker x = le_worker env i"
    and "pc_session (ls_pc st i) = Some s \<Longrightarrow> pc_session (ls_pc st j) = Some s \<Longrightarrow> i = j"
  using assms by (auto simp: sessions_ok_def)

lemma sessions_okI:
  assumes "\<And>s x. ls_sessions st s = Some x \<Longrightarrow> s < ls_next st"
    "\<And>i s. pc_session (ls_pc st i) = Some s \<Longrightarrow> s < ls_next st"
    "\<And>i s x. pc_session (ls_pc st i) = Some s \<Longrightarrow> ls_sessions st s = Some x \<Longrightarrow>
      ps_busy x \<and> ps_worker x = le_worker env i"
    "\<And>i j s. pc_session (ls_pc st i) = Some s \<Longrightarrow> pc_session (ls_pc st j) = Some s \<Longrightarrow> i = j"
  shows "sessions_ok env st"
  using assms by (simp add: sessions_ok_def)

text \<open>Most steps keep the sessions as they are and do not give a call a session it did not have.\<close>

lemma sessions_ok_move:
  assumes ok: "sessions_ok env st" and next_eq: "ls_next st' = ls_next st"
    and sess: "\<And>s y. ls_sessions st' s = Some y \<Longrightarrow> \<exists>x. ls_sessions st s = Some x
        \<and> ps_busy y = ps_busy x \<and> ps_worker y = ps_worker x"
    and pc: "\<And>j s. pc_session (ls_pc st' j) = Some s \<Longrightarrow> pc_session (ls_pc st j) = Some s"
  shows "sessions_ok env st'"
proof (rule sessions_okI)
  show "s < ls_next st'" if "ls_sessions st' s = Some x" for s x
    using sess [OF that] sessions_okD(1) [OF ok] next_eq by auto
  show "s < ls_next st'" if "pc_session (ls_pc st' i) = Some s" for i s
    using pc [OF that] sessions_okD(2) [OF ok] next_eq by auto
  show "ps_busy x \<and> ps_worker x = le_worker env i"
    if "pc_session (ls_pc st' i) = Some s" "ls_sessions st' s = Some x" for i s x
    using sess [OF that(2)] sessions_okD(3) [OF ok pc [OF that(1)]] by auto
  show "i = j" if "pc_session (ls_pc st' i) = Some s" "pc_session (ls_pc st' j) = Some s" for i j s
    using pc [OF that(1)] pc [OF that(2)] by (rule sessions_okD(4) [OF ok])
qed

lemma sessions_ok_release:
  assumes ok: "sessions_ok env st" and i: "ls_pc st i = Releasing s out"
  shows "sessions_ok env (release i s out st)"
proof -
  let ?st = "release i s out st"
  have pc: "pc_session (ls_pc st j) = Some t \<and> t \<noteq> s" if "pc_session (ls_pc ?st j) = Some t" for j t
    using that i sessions_okD(4) [OF ok, of i s j]
    by (auto simp: release_def goto_def on_session_def split: if_splits)
  have same: "ls_sessions ?st t = ls_sessions st t" if "t \<noteq> s" for t
    using that by (simp add: release_def goto_def on_session_def)
  have "t < ls_next ?st" if "ls_sessions ?st t = Some x" for t x
    using that sessions_okD(1) [OF ok]
    by (auto simp: release_def goto_def on_session_def split: if_splits)
  moreover have "ls_next ?st = ls_next st"
    by (simp add: release_def goto_def on_session_def)
  moreover have "ps_busy x \<and> ps_worker x = le_worker env j"
    if "pc_session (ls_pc ?st j) = Some t" "ls_sessions ?st t = Some x" for j t x
    using pc [OF that(1)] same [of t] that(2) sessions_okD(3) [OF ok, of j t x] by simp
  ultimately show ?thesis
    using pc sessions_okD(2,4) [OF ok] by (intro sessions_okI) metis+
qed

lemma sessions_ok_borrow:
  assumes ok: "sessions_ok env st" and free: "\<And>j. pc_session (ls_pc st j) \<noteq> Some s"
    and n: "ls_next st' = max (ls_next st) (Suc s)"
    and sess: "ls_sessions st' = (ls_sessions st)(s \<mapsto> x)" "ps_busy x" "ps_worker x = le_worker env i"
    and pc: "ls_pc st' = (ls_pc st)(i := Trying s)"
  shows "sessions_ok env st'"
proof (rule sessions_okI)
  show "t < ls_next st'" if "ls_sessions st' t = Some y" for t y
    using that n sess sessions_okD(1) [OF ok, of t] by (auto split: if_splits)
  show "t < ls_next st'" if "pc_session (ls_pc st' j) = Some t" for j t
    using that n pc sessions_okD(2) [OF ok, of j t] by (auto split: if_splits)
  show "ps_busy y \<and> ps_worker y = le_worker env j"
    if "pc_session (ls_pc st' j) = Some t" "ls_sessions st' t = Some y" for j t y
    using that sess pc free [of j] sessions_okD(3) [OF ok, of j t y] by (auto split: if_splits)
  show "j = l" if "pc_session (ls_pc st' j) = Some t" "pc_session (ls_pc st' l) = Some t" for j l t
    using that pc free sessions_okD(4) [OF ok, of j t l] by (auto split: if_splits)
qed

lemma sessions_ok_connect:
  assumes "connect env i st = Some st'" "sessions_ok env st"
  shows "sessions_ok env st'"
  using assms(1)
proof (cases rule: connect_cases)
  case (1 s x)
  have "pc_session (ls_pc st j) \<noteq> Some s" for j
    using sessions_okD(3) [OF assms(2), of j s x] 1 by auto
  moreover have "s < ls_next st" using sessions_okD(1) [OF assms(2) 1(1)] .
  ultimately show ?thesis
    using 1 by (intro sessions_ok_borrow [OF assms(2), where s = s and i = i and x = "x\<lparr>ps_busy := True\<rparr>"])
      (auto simp: goto_def on_session_def)
next
  case 2
  have "pc_session (ls_pc st j) \<noteq> Some (ls_next st)" for j
    using sessions_okD(2) [OF assms(2), of j "ls_next st"] by auto
  then show ?thesis
    using 2 by (intro sessions_ok_borrow [OF assms(2), where s = "ls_next st" and i = i and
        x = "\<lparr>ps_worker = le_worker env i, ps_busy = True, ps_locks = []\<rparr>"])
      (auto simp: goto_def)
qed

lemma sessions_ok_step:
  assumes "lock_step env st st'" "sessions_ok env st"
  shows "sessions_ok env st'"
  using assms(1)
proof cases
  case (connects i)
  then show ?thesis using assms(2) by (blast intro: sessions_ok_connect)
next
  case (releases i s out)
  then show ?thesis using assms(2) by (simp add: sessions_ok_release)
qed (rule sessions_ok_move [OF assms(2)];
     auto simp: lock_defs try_lock_def try_lost_def pg_try_advisory_lock_def
       split: if_splits option.splits)+

definition holds_on :: "lock_state \<Rightarrow> nat \<Rightarrow> nat \<Rightarrow> bool" where
  "holds_on st i s \<longleftrightarrow> holds_lock (ls_pc st i) \<and> pc_session (ls_pc st i) = Some s"

lemma locks_ok_move:
  assumes "locks_ok env st" "\<And>s. locks_of st' s = locks_of st s \<or> locks_of st' s = []"
    "\<And>i s. holds_on st' i s \<Longrightarrow> ls_sessions st' s \<noteq> None \<Longrightarrow>
       holds_on st i s \<and> ls_sessions st s \<noteq> None \<and> locks_of st' s = locks_of st s"
  shows "locks_ok env st'"
proof -
  have "k \<in> set (locks_of st' s) \<Longrightarrow> k \<in> set (locks_of st s)" for k s
    using assms(2) [of s] by auto
  then show ?thesis
    using assms(1,3) unfolding locks_ok_def holds_on_def by metis
qed

lemma strays_ok_move:
  assumes "strays_ok env st" "ls_stray st \<Longrightarrow> ls_stray st'"
    "\<And>s. locks_of st' s = locks_of st s \<or> locks_of st' s = []"
    "\<And>i s. \<not> ls_stray st' \<Longrightarrow> holds_on st i s \<Longrightarrow> locks_of st' s \<noteq> [] \<Longrightarrow> holds_on st' i s"
  shows "strays_ok env st'"
proof (cases "ls_stray st'")
  case False
  show ?thesis unfolding strays_ok_def
  proof (intro disjI2 allI conjI ballI)
    fix s
    show "distinct (locks_of st' s)"
      using assms(1) assms(2,3) False unfolding strays_ok_def by (metis distinct.simps(1))
    fix k assume k: "k \<in> set (locks_of st' s)"
    then have "k \<in> set (locks_of st s)" "locks_of st' s \<noteq> []" using assms(3) [of s] by auto
    then obtain i where "holds_on st i s" "lock_hash env i = k"
      using assms(1,2) False unfolding strays_ok_def holds_on_def by blast
    then show "\<exists>i. holds_lock (ls_pc st' i) \<and> pc_session (ls_pc st' i) = Some s \<and> lock_hash env i = k"
      using assms(4) [OF False] \<open>locks_of st' s \<noteq> []\<close> unfolding holds_on_def by blast
  qed
qed (simp add: strays_ok_def)

text \<open>The grant and the unlock are the two steps that change who holds what.\<close>

lemma locks_of_on_session:
  "locks_of (on_session s f st) t =
     (if t = s then (case ls_sessions st s of None \<Rightarrow> [] | Some x \<Rightarrow> ps_locks (f x)) else locks_of st t)"
  by (simp add: locks_of_def on_session_def split: option.split)

lemma stray_moves [simp]:
  "ls_stray (goto i pc st) = ls_stray st" "ls_stray (on_session s f st) = ls_stray st"
  by (simp_all add: goto_def on_session_def)

lemma pc_moves [simp]:
  "ls_pc (goto i pc st) = (ls_pc st)(i := pc)" "ls_pc (on_session s f st) = ls_pc st"
  by (simp_all add: goto_def on_session_def)

lemma not_holding: "\<not> holds_lock (ls_pc st i) \<Longrightarrow> \<not> holds_on st i s"
  by (simp add: holds_on_def)

lemma locks_of_busy [simp]: "locks_of (on_session s (\<lambda>x. x\<lparr>ps_busy := b\<rparr>) st) = locks_of st"
  by (rule ext) (simp add: locks_of_on_session, simp add: locks_of_def split: option.split)

lemma locks_of_goto [simp]: "locks_of (goto i pc st) = locks_of st"
  by (simp add: locks_of_def goto_def fun_eq_iff)

lemma sessions_goto [simp]: "ls_sessions (goto i pc st) = ls_sessions st"
  by (simp add: goto_def)

lemma sessions_on_session [simp]:
  "ls_sessions (on_session s f st) t = None \<longleftrightarrow> ls_sessions st t = None"
  by (simp add: on_session_def)

lemma locks_of_stray [simp]: "locks_of (st\<lparr>ls_stray := b\<rparr>) = locks_of st"
  by (simp add: locks_of_def fun_eq_iff)

lemma locks_of_closed: "ls_sessions st s = None \<Longrightarrow> locks_of st s = []"
  by (simp add: locks_of_def)

lemma locks_of_below: "sessions_ok env st \<Longrightarrow> k \<in> set (locks_of st s) \<Longrightarrow> s < ls_next st"
  by (cases "ls_sessions st s") (auto simp: locks_of_def dest: sessions_okD(1))

lemma grantableD:
  "grantable s k st \<Longrightarrow> sessions_ok env st \<Longrightarrow> k \<in> set (locks_of st t) \<Longrightarrow> t = s"
  using locks_of_below [of env st k t] by (auto simp: grantable_def list_all_iff)

lemma holds_on_goto:
  "holds_on (goto i pc st) j s = (if j = i then holds_lock pc \<and> pc_session pc = Some s else holds_on st j s)"
  by (simp add: holds_on_def goto_def)

lemma holds_on_session [simp]: "holds_on (on_session s f st) = holds_on st"
  by (simp add: holds_on_def on_session_def fun_eq_iff)

lemma holds_on_stray [simp]: "holds_on (st\<lparr>ls_stray := b\<rparr>) = holds_on st"
  by (simp add: holds_on_def fun_eq_iff)

lemma holds_on_unique:
  "sessions_ok env st \<Longrightarrow> holds_on st i s \<Longrightarrow> pc_session (ls_pc st j) = Some s \<Longrightarrow> i = j"
  unfolding holds_on_def by (metis sessions_okD(4))

lemma locks_okD:
  assumes "locks_ok env st"
  shows "holds_on st i s \<Longrightarrow> ls_sessions st s \<noteq> None \<Longrightarrow> lock_hash env i \<in> set (locks_of st s)"
    and "k \<in> set (locks_of st s) \<Longrightarrow> k \<in> set (locks_of st t) \<Longrightarrow> s = t"
  using assms unfolding locks_ok_def holds_on_def by blast+

lemma locks_okI:
  assumes "\<And>i s. holds_on st i s \<Longrightarrow> ls_sessions st s \<noteq> None \<Longrightarrow> lock_hash env i \<in> set (locks_of st s)"
    and "\<And>s t k. k \<in> set (locks_of st s) \<Longrightarrow> k \<in> set (locks_of st t) \<Longrightarrow> s = t"
  shows "locks_ok env st"
  using assms unfolding locks_ok_def holds_on_def by blast

lemma strays_okD:
  assumes "strays_ok env st" "\<not> ls_stray st"
  shows "distinct (locks_of st s)"
    and "k \<in> set (locks_of st s) \<Longrightarrow> \<exists>i. holds_on st i s \<and> lock_hash env i = k"
  using assms unfolding strays_ok_def holds_on_def by blast+

lemma strays_okI:
  assumes "\<And>s. \<not> ls_stray st \<Longrightarrow> distinct (locks_of st s)"
    and "\<And>s k. \<not> ls_stray st \<Longrightarrow> k \<in> set (locks_of st s) \<Longrightarrow> \<exists>i. holds_on st i s \<and> lock_hash env i = k"
  shows "strays_ok env st"
  using assms unfolding strays_ok_def holds_on_def by blast

lemma in_set_remove1D: "k \<in> set (remove1 x xs) \<Longrightarrow> k \<in> set xs"
  using set_remove1_subset by fast

lemma locks_ok_grant:
  assumes ok: "sessions_ok env st" "locks_ok env st" and i: "ls_pc st i = Trying s" "ls_sessions st s = Some x"
    and g: "grantable s (lock_hash env i) st" and pc: "holds_lock pc \<longrightarrow> pc_session pc = Some s"
  shows "locks_ok env (goto i pc (on_session s (\<lambda>x. x\<lparr>ps_locks := lock_hash env i # ps_locks x\<rparr>) st))"
    (is "locks_ok env ?st")
proof (rule locks_okI)
  have lk: "set (locks_of ?st t) = (if t = s then insert (lock_hash env i) (set (locks_of st s)) else set (locks_of st t))" for t
    using i(2) by (simp add: locks_of_on_session) (simp add: locks_of_def)
  show "lock_hash env j \<in> set (locks_of ?st t)" if "holds_on ?st j t" "ls_sessions ?st t \<noteq> None" for j t
    using that pc i(2) locks_okD(1) [OF ok(2), of j t] unfolding lk
    by (auto simp: holds_on_goto split: if_splits)
  show "t = u" if "k \<in> set (locks_of ?st t)" "k \<in> set (locks_of ?st u)" for t u k
    using that grantableD [OF g ok(1)] locks_okD(2) [OF ok(2), of k] unfolding lk
    by (metis insertE)
qed

lemma locks_ok_unlock:
  assumes ok: "sessions_ok env st" "locks_ok env st" and i: "ls_pc st i = Unlocking s out"
    and pc: "\<not> holds_lock pc"
  shows "locks_ok env (goto i pc (pg_advisory_unlock s (lock_hash env i) st))"
    (is "locks_ok env ?st")
proof (rule locks_okI)
  have lk: "locks_of ?st t = (if t = s then remove1 (lock_hash env i) (locks_of st s) else locks_of st t)" for t
    by (simp add: pg_advisory_unlock_def locks_of_on_session) (simp add: locks_of_def split: option.split)
  have sub: "k \<in> set (locks_of ?st t) \<Longrightarrow> k \<in> set (locks_of st t)" for k t
    unfolding lk by (auto split: if_splits dest: in_set_remove1D)
  show "lock_hash env j \<in> set (locks_of ?st t)" if h: "holds_on ?st j t" and o: "ls_sessions ?st t \<noteq> None" for j t
  proof -
    have j: "j \<noteq> i" "holds_on st j t" using h pc by (auto simp: holds_on_goto pg_advisory_unlock_def split: if_splits)
    then have "t \<noteq> s" using holds_on_unique [OF ok(1) j(2), of i] i by auto
    then show ?thesis using o locks_okD(1) [OF ok(2) j(2)] unfolding lk
      by (simp add: pg_advisory_unlock_def)
  qed
  show "t = u" if "k \<in> set (locks_of ?st t)" "k \<in> set (locks_of ?st u)" for t u k
    using sub [OF that(1)] sub [OF that(2)] by (rule locks_okD(2) [OF ok(2)])
qed

lemma strays_ok_grant:
  assumes ok: "sessions_ok env st" "locks_ok env st" "strays_ok env st"
    and i: "ls_pc st i = Trying s" "ls_sessions st s = Some x" and g: "grantable s (lock_hash env i) st"
  shows "strays_ok env (goto i (Inside s) (on_session s (\<lambda>x. x\<lparr>ps_locks := lock_hash env i # ps_locks x\<rparr>) st))"
    (is "strays_ok env ?st")
proof (rule strays_okI)
  have lk: "locks_of ?st t = (if t = s then lock_hash env i # locks_of st s else locks_of st t)" for t
    using i(2) by (simp add: locks_of_on_session) (simp add: locks_of_def)
  have mine: "j = i" if "holds_on st j s" for j
    using holds_on_unique [OF ok(1) that, of i] i(1) by auto
  have idle: "\<not> holds_on st i t" for t using i(1) by (simp add: holds_on_def)
  have none: "locks_of st s = []" if "\<not> ls_stray st"
    using strays_okD(2) [OF ok(3) that, of _ s] mine idle by (metis last_in_set)
  have calm: "ls_stray ?st = ls_stray st" by (simp add: goto_def on_session_def)
  show "distinct (locks_of ?st t)" if "\<not> ls_stray ?st" for t
    using that strays_okD(1) [OF ok(3)] none unfolding lk calm by auto
  show "\<exists>j. holds_on ?st j t \<and> lock_hash env j = k"
    if "\<not> ls_stray ?st" "k \<in> set (locks_of ?st t)" for t k
  proof (cases "t = s")
    case True
    then show ?thesis using that none unfolding lk calm by (auto simp: holds_on_goto)
  next
    case False
    then have "\<not> ls_stray st" "k \<in> set (locks_of st t)"
      using that calm lk by simp_all
    then obtain j where "holds_on st j t" "lock_hash env j = k"
      using strays_okD(2) [OF ok(3)] by blast
    moreover have "j \<noteq> i" using idle calculation(1) by auto
    ultimately show ?thesis by (auto simp: holds_on_goto)
  qed
qed

lemma strays_ok_unlock:
  assumes ok: "sessions_ok env st" "strays_ok env st" and i: "ls_pc st i = Unlocking s out"
  shows "strays_ok env (goto i (Releasing s out) (pg_advisory_unlock s (lock_hash env i) st))"
    (is "strays_ok env ?st")
proof (rule strays_okI)
  have lk: "locks_of ?st t = (if t = s then remove1 (lock_hash env i) (locks_of st s) else locks_of st t)" for t
    by (simp add: pg_advisory_unlock_def locks_of_on_session) (simp add: locks_of_def split: option.split)
  have calm: "ls_stray ?st = ls_stray st" by (simp add: goto_def pg_advisory_unlock_def on_session_def)
  show "distinct (locks_of ?st t)" if "\<not> ls_stray ?st" for t
    using that strays_okD(1) [OF ok(2)] unfolding lk calm by auto
  show "\<exists>j. holds_on ?st j t \<and> lock_hash env j = k"
    if q: "\<not> ls_stray ?st" "k \<in> set (locks_of ?st t)" for t k
  proof -
    have "k \<in> set (locks_of st t)" using q(2) unfolding lk by (auto split: if_splits dest: in_set_remove1D)
    then obtain j where j: "holds_on st j t" "lock_hash env j = k"
      using q(1) strays_okD(2) [OF ok(2)] unfolding calm by blast
    have "j \<noteq> i"
    proof
      assume "j = i"
      then have "t = s" "k = lock_hash env i" using i j by (simp_all add: holds_on_def)
      then show False using q strays_okD(1) [OF ok(2)] unfolding lk calm by simp
    qed
    then show ?thesis using j by (auto simp: holds_on_goto pg_advisory_unlock_def)
  qed
qed

lemma locks_ok_step:
  assumes "lock_step env st st'" "sessions_ok env st" "locks_ok env st"
  shows "locks_ok env st'"
  using assms(1)
proof cases
  case (connects i)
  from connects(2) show ?thesis
  proof (cases rule: connect_cases)
    case (1 s x)
    then show ?thesis
      using connects(1) by (intro locks_ok_move [OF assms(3)])
        (auto simp: holds_on_goto split: if_splits)
  next
    case 2
    have "\<not> holds_on st j (ls_next st)" for j
      using sessions_okD(2) [OF assms(2), of j "ls_next st"] by (auto simp: holds_on_def)
    then show ?thesis
      using 2 by (intro locks_ok_move [OF assms(3)])
        (auto simp: holds_on_def locks_of_def goto_def split: option.splits if_splits)
  qed
next
  case (tries i s)
  then obtain x where x: "ls_sessions st s = Some x" by auto
  show ?thesis
  proof (cases "grantable s (lock_hash env i) st")
    case True
    then show ?thesis
      using tries locks_ok_grant [OF assms(2,3) tries(2) x True, of "Inside s"]
      by (simp add: try_lock_def pg_try_advisory_lock_def)
  next
    case False
    then show ?thesis using tries
      by (intro locks_ok_move [OF assms(3)])
        (auto simp: try_lock_def pg_try_advisory_lock_def holds_on_goto split: if_splits)
  qed
next
  case (try_loses i s)
  then obtain x where x: "ls_sessions st s = Some x" by auto
  let ?pc = "Releasing s Rethrown"
  have stray: "locks_ok env (st\<lparr>ls_stray := b\<rparr>) = locks_ok env st" for st b
    by (simp add: locks_ok_def)
  have swap: "goto i ?pc (st\<lparr>ls_stray := b\<rparr>) = (goto i ?pc st)\<lparr>ls_stray := b\<rparr>" for st b
    by (simp add: goto_def)
  show ?thesis
  proof (cases "grantable s (lock_hash env i) st")
    case True
    then show ?thesis
      using try_loses locks_ok_grant [OF assms(2,3) try_loses(2) x True, of ?pc]
      by (simp add: try_lost_def pg_try_advisory_lock_def swap stray)
  next
    case False
    then show ?thesis using try_loses
      by (intro locks_ok_move [OF assms(3)])
        (auto simp: try_lost_def pg_try_advisory_lock_def holds_on_goto split: if_splits)
  qed
next
  case (unlocks i s out)
  then show ?thesis by (simp add: locks_ok_unlock [OF assms(2,3)])
qed (rule locks_ok_move [OF assms(3)];
     auto simp: holds_on_def locks_of_def lock_defs split: if_splits option.splits)+

lemma strays_ok_step:
  assumes "lock_step env st st'" "sessions_ok env st" "locks_ok env st" "strays_ok env st"
  shows "strays_ok env st'"
  using assms(1)
proof cases
  case (connects i)
  from connects(2) show ?thesis
  proof (cases rule: connect_cases)
    case (1 s x)
    then show ?thesis using connects(1)
      by (intro strays_ok_move [OF assms(4)])
        (auto simp: holds_on_goto not_holding)
  next
    case 2
    then show ?thesis using connects(1)
      by (intro strays_ok_move [OF assms(4)])
        (auto simp: holds_on_def locks_of_def goto_def split: option.splits if_splits)
  qed
next
  case (tries i s)
  then obtain x where x: "ls_sessions st s = Some x" by auto
  show ?thesis
  proof (cases "grantable s (lock_hash env i) st")
    case True
    then show ?thesis
      using tries strays_ok_grant [OF assms(2-4) tries(2) x True]
      by (simp add: try_lock_def pg_try_advisory_lock_def)
  next
    case False
    then show ?thesis using tries
      by (intro strays_ok_move [OF assms(4)])
        (auto simp: try_lock_def pg_try_advisory_lock_def holds_on_goto not_holding)
  qed
next
  case (try_loses i s)
  show ?thesis
  proof (cases "grantable s (lock_hash env i) st")
    case True
    then show ?thesis
      using try_loses
      by (simp add: strays_ok_def try_lost_def pg_try_advisory_lock_def goto_def on_session_def)
  next
    case False
    then show ?thesis using try_loses
      by (intro strays_ok_move [OF assms(4)])
        (auto simp: try_lost_def pg_try_advisory_lock_def holds_on_goto not_holding)
  qed
next
  case (unlocks i s out)
  then show ?thesis by (simp add: strays_ok_unlock [OF assms(2,4)])
next
  case (worker_dies wk)
  have "ps_worker x = wk"
    if "holds_on st i s" "ls_sessions st s = Some x" "le_worker env i = wk" for i s x
    using that sessions_okD(3) [OF assms(2)] by (auto simp: holds_on_def)
  then show ?thesis using worker_dies
    by (intro strays_ok_move [OF assms(4)])
      (auto simp: holds_on_def locks_of_def kill_worker_def split: option.splits if_splits)
qed (rule strays_ok_move [OF assms(4)];
     auto simp: holds_on_def locks_of_def lock_defs split: if_splits option.splits)+

lemma lock_reachable_ok:
  "lock_reachable env st \<Longrightarrow> sessions_ok env st \<and> locks_ok env st \<and> strays_ok env st"
proof (induction rule: rtranclp_induct)
  case base
  show ?case
    by (simp add: lock_start_def sessions_ok_def locks_ok_def strays_ok_def locks_of_def)
next
  case (step st st')
  then show ?case by (blast intro: sessions_ok_step locks_ok_step strays_ok_step)
qed

section \<open>Mutual exclusion\<close>

text \<open>
  A call is inside when it is running \<open>fn\<close> (or has not yet got past the unlock); it is protected while
  its session is open.
\<close>

definition protected_by :: "lock_state \<Rightarrow> nat \<Rightarrow> nat \<Rightarrow> bool" where
  "protected_by st i s \<longleftrightarrow> holds_on st i s \<and> ls_sessions st s \<noteq> None"

lemma mutual_exclusion:
  assumes "lock_reachable env st" "protected_by st i s" "protected_by st j t"
    "lock_hash env i = lock_hash env j"
  shows "i = j"
proof -
  note ok = lock_reachable_ok [OF assms(1)]
  have "lock_hash env i \<in> set (locks_of st s)" "lock_hash env i \<in> set (locks_of st t)"
    using ok assms(2-4) locks_okD(1) unfolding protected_by_def by metis+
  then have "s = t" using ok locks_okD(2) by blast
  then show ?thesis
    using ok assms(2,3) unfolding protected_by_def holds_on_def by (metis sessions_okD(4))
qed

text \<open>Nobody is kept out for nothing: a lock that is held is held by a call inside.\<close>

lemma lock_free_when_idle:
  assumes "lock_reachable env st" "\<not> ls_stray st" "\<And>i s. protected_by st i s \<Longrightarrow> lock_hash env i \<noteq> k"
  shows "grantable s k st"
proof -
  have "k \<notin> set (locks_of st t)" for t
  proof
    assume k: "k \<in> set (locks_of st t)"
    then have "ls_sessions st t \<noteq> None" using locks_of_closed by force
    moreover obtain i where "holds_on st i t" "lock_hash env i = k"
      using k assms(2) lock_reachable_ok [OF assms(1)] strays_okD(2) by blast
    ultimately show False using assms(3) unfolding protected_by_def by blast
  qed
  then show ?thesis by (simp add: grantable_def list_all_iff)
qed

section \<open>One call from beginning to end\<close>

text \<open>
  The steps a call takes when nothing fails: it returns with the result of \<open>fn\<close> when the lock was free
  and skips otherwise, and leaves every session with the locks it had. This is what
  \<open>withAdvisoryLock\<close> of \<open>Sync_Service\<close> does with its world in one go.
\<close>

lemma whole_call_free:
  assumes "ls_pc st i = Trying s" "ls_sessions st s = Some x" "grantable s (lock_hash env i) st"
  shows "\<exists>st'. (lock_step env)\<^sup>*\<^sup>* st st' \<and> ls_pc st' = (ls_pc st)(i := Returned Acquired)
    \<and> locks_of st' = locks_of st \<and> ls_stray st' = ls_stray st"
proof -
  let ?k = "lock_hash env i"
  let ?a = "goto i (Inside s) (on_session s (\<lambda>x. x\<lparr>ps_locks := ?k # ps_locks x\<rparr>) st)"
  let ?b = "goto i (Unlocking s Acquired) ?a"
  let ?c = "goto i (Releasing s Acquired) (pg_advisory_unlock s ?k ?b)"
  have "lock_step env st ?a"
    using tries [of st i s env] assms by (simp add: try_lock_def pg_try_advisory_lock_def)
  moreover have "lock_step env ?a ?b" by (rule fn_settles) (simp_all add: goto_def)
  moreover have "lock_step env ?b ?c" by (rule unlocks) (simp add: goto_def)
  moreover have "lock_step env ?c (release i s Acquired ?c)" by (rule releases) (simp add: goto_def)
  ultimately have "(lock_step env)\<^sup>*\<^sup>* st (release i s Acquired ?c)"
    by (meson rtranclp.rtrancl_refl rtranclp.rtrancl_into_rtrancl)
  then show ?thesis
    using assms(2) by (intro exI [of _ "release i s Acquired ?c"])
      (auto simp: lock_defs locks_of_def fun_eq_iff)
qed

lemma whole_call_held:
  assumes "ls_pc st i = Trying s" "ls_sessions st s = Some x" "\<not> grantable s (lock_hash env i) st"
  shows "\<exists>st'. (lock_step env)\<^sup>*\<^sup>* st st' \<and> ls_pc st' = (ls_pc st)(i := Returned Not_acquired)
    \<and> locks_of st' = locks_of st \<and> ls_stray st' = ls_stray st"
proof -
  let ?a = "goto i (Releasing s Not_acquired) st"
  have "lock_step env st ?a"
    using tries [of st i s env] assms by (simp add: try_lock_def pg_try_advisory_lock_def)
  moreover have "lock_step env ?a (release i s Not_acquired ?a)"
    by (rule releases) (simp add: goto_def)
  ultimately have "(lock_step env)\<^sup>*\<^sup>* st (release i s Not_acquired ?a)"
    by (meson rtranclp.rtrancl_refl rtranclp.rtrancl_into_rtrancl)
  then show ?thesis
    by (intro exI [of _ "release i s Not_acquired ?a"]) (auto simp: release_def)
qed

section \<open>Where the protection ends\<close>

text \<open>Two workers, whose calls 0 and 1 are for the same key.\<close>

definition two_workers :: lock_env where
  "two_workers = \<lparr>le_hash = (\<lambda>k. int (length k)), le_key = (\<lambda>_. syncLockKey 7 Recent),
     le_worker = (\<lambda>i. i), le_pool_max = 10\<rparr>"

definition session_for :: "nat \<Rightarrow> bool \<Rightarrow> int list \<Rightarrow> pg_session" where
  "session_for wk busy ks = \<lparr>ps_worker = wk, ps_busy = busy, ps_locks = ks\<rparr>"

definition both_called :: "(nat \<rightharpoonup> pg_session) \<Rightarrow> lock_pc \<Rightarrow> lock_pc \<Rightarrow> bool \<Rightarrow> lock_state" where
  "both_called ss p q stray = \<lparr>ls_sessions = ss, ls_next = 2, ls_pc = (\<lambda>_. Called)(0 := p, 1 := q), ls_stray = stray\<rparr>"

abbreviation sync_lock :: int where
  "sync_lock \<equiv> lock_hash two_workers 0"

lemmas two_defs = two_workers_def session_for_def both_called_def goto_def on_session_def

lemma both_trying:
  "lock_reachable two_workers
     (both_called [0 \<mapsto> session_for 0 True [], 1 \<mapsto> session_for 1 True []] (Trying 0) (Trying 1) False)"
proof -
  let ?a = "lock_start\<lparr>ls_sessions := [0 \<mapsto> session_for 0 True []], ls_next := 1,
    ls_pc := (\<lambda>_. Called)(0 := Trying 0)\<rparr>"
  have "lock_step two_workers lock_start ?a"
    by (rule connects [of _ 0])
      (simp_all add: lock_start_def connect_def idle_sessions_def pool_sessions_def two_defs)
  moreover have "lock_step two_workers ?a
      (both_called [0 \<mapsto> session_for 0 True [], 1 \<mapsto> session_for 1 True []] (Trying 0) (Trying 1) False)"
    by (rule connects [of _ 1])
      (simp_all add: lock_start_def connect_def idle_sessions_def pool_sessions_def two_defs numeral_2_eq_2)
  ultimately show ?thesis by (meson rtranclp.rtrancl_refl rtranclp.rtrancl_into_rtrancl)
qed

lemma one_inside:
  "lock_reachable two_workers
     (both_called [0 \<mapsto> session_for 0 True [sync_lock], 1 \<mapsto> session_for 1 True []] (Inside 0) (Trying 1) False)"
  (is "lock_reachable _ ?st")
proof -
  have "lock_step two_workers
      (both_called [0 \<mapsto> session_for 0 True [], 1 \<mapsto> session_for 1 True []] (Trying 0) (Trying 1) False) ?st"
    using tries [of "both_called [0 \<mapsto> session_for 0 True [], 1 \<mapsto> session_for 1 True []] (Trying 0) (Trying 1) False" 0 0 two_workers]
    by (simp add: try_lock_def pg_try_advisory_lock_def grantable_def locks_of_def two_defs numeral_2_eq_2 fun_upd_twist)
  with both_trying show ?thesis by (rule rtranclp.rtrancl_into_rtrancl)
qed

text \<open>
  The lock is the session's, not the call's. When the session of a running call ends (the server
  restarts, the connection breaks), Postgres frees the lock while \<open>fn\<close> goes on: the other worker's try
  is granted and both run. Nothing in \<open>fn\<close> asks whether the lock is still held.
\<close>

lemma lost_session_lets_another_in:
  "\<exists>st. lock_reachable two_workers st \<and> \<not> ls_stray st \<and> ls_pc st 0 = Inside 0 \<and> ls_pc st 1 = Inside 1"
proof -
  let ?a = "both_called [0 \<mapsto> session_for 0 True [sync_lock], 1 \<mapsto> session_for 1 True []] (Inside 0) (Trying 1) False"
  let ?b = "both_called [1 \<mapsto> session_for 1 True []] (Inside 0) (Trying 1) False"
  let ?c = "try_lock two_workers 1 1 ?b"
  have "end_session 0 ?a = ?b"
    by (simp add: end_session_def both_called_def fun_eq_iff)
  then have "lock_step two_workers ?a ?b" by (metis session_ends)
  moreover have "lock_step two_workers ?b ?c"
    by (rule tries) (simp_all add: both_called_def)
  ultimately have "lock_reachable two_workers ?c"
    using one_inside by (meson rtranclp.rtrancl_into_rtrancl)
  moreover have "\<not> ls_stray ?c \<and> ls_pc ?c 0 = Inside 0 \<and> ls_pc ?c 1 = Inside 1"
    by (simp add: try_lock_def pg_try_advisory_lock_def grantable_def locks_of_def two_defs numeral_2_eq_2)
  ultimately show ?thesis by blast
qed

text \<open>
  A rejected unlock is logged and forgotten: the session goes back to its pool with the lock, and
  the other worker is refused although no call is inside.
\<close>

lemma rejected_unlock_keeps_others_out:
  "\<exists>st. lock_reachable two_workers st \<and> ls_pc st 0 = Returned Acquired \<and> ls_pc st 1 = Trying 1
     \<and> (\<forall>i s. \<not> holds_on st i s) \<and> \<not> grantable 1 sync_lock st"
proof -
  let ?a = "both_called [0 \<mapsto> session_for 0 True [sync_lock], 1 \<mapsto> session_for 1 True []] (Inside 0) (Trying 1) False"
  let ?b = "goto 0 (Unlocking 0 Acquired) ?a"
  let ?c = "goto 0 (Releasing 0 Acquired) (?b\<lparr>ls_stray := True\<rparr>)"
  let ?d = "release 0 0 Acquired ?c"
  have "lock_step two_workers ?a ?b" by (rule fn_settles) (simp_all add: both_called_def)
  moreover have "lock_step two_workers ?b ?c" by (rule unlock_fails) simp
  moreover have "lock_step two_workers ?c ?d" by (rule releases) simp
  ultimately have "lock_reachable two_workers ?d"
    using one_inside by (meson rtranclp.rtrancl_into_rtrancl)
  moreover have "\<not> grantable 1 sync_lock ?d" "ls_pc ?d 0 = Returned Acquired" "ls_pc ?d 1 = Trying 1"
    by (simp_all add: release_def grantable_def locks_of_def two_defs numeral_2_eq_2)
  moreover have "\<not> holds_on ?d i s" for i s
    by (rule not_holding) (simp add: release_def both_called_def)
  ultimately show ?thesis by blast
qed

text \<open>
  A call keeps its session while \<open>fn\<close> runs, and every query of \<open>fn\<close> needs another one from the same
  pool. When each session of a full pool is in the hands of a call, no query gets one and every one of
  them waits until its connection times out; with \<open>DATABASE_POOL_MAX\<close> at 1 a single call is enough.
\<close>

lemma full_pool_starves:
  assumes "le_pool_max env \<le> length (pool_sessions env j st)"
    "\<And>s. s \<in> set (pool_sessions env j st) \<Longrightarrow> \<exists>i. pc_session (ls_pc st i) = Some s" "sessions_ok env st"
  shows "connect env j st = None"
proof -
  have "\<not> (case ls_sessions st s of None \<Rightarrow> False | Some x \<Rightarrow> \<not> ps_busy x)" if s: "s \<in> set (pool_sessions env j st)" for s
  proof -
    obtain i where "pc_session (ls_pc st i) = Some s" using assms(2) s by blast
    from sessions_okD(3) [OF assms(3) this] show ?thesis by (auto split: option.split)
  qed
  then have "idle_sessions env j st = []" by (simp add: idle_sessions_def filter_empty_conv)
  then show ?thesis using assms(1) by (simp add: connect_def)
qed

lemma lone_session_starves:
  "\<exists>st. lock_reachable (two_workers\<lparr>le_worker := (\<lambda>_. 0), le_pool_max := 1\<rparr>) st \<and> ls_pc st 0 = Inside 0
     \<and> connect (two_workers\<lparr>le_worker := (\<lambda>_. 0), le_pool_max := 1\<rparr>) 1 st = None"
proof -
  let ?env = "two_workers\<lparr>le_worker := (\<lambda>_. 0), le_pool_max := 1\<rparr>"
  let ?a = "lock_start\<lparr>ls_sessions := [0 \<mapsto> session_for 0 True []], ls_next := 1,
    ls_pc := (\<lambda>_. Called)(0 := Trying 0)\<rparr>"
  let ?b = "try_lock ?env 0 0 ?a"
  have a: "lock_step ?env lock_start ?a"
    by (rule connects [of _ 0])
      (simp_all add: lock_start_def connect_def idle_sessions_def pool_sessions_def two_defs)
  have "lock_step ?env ?a ?b" by (rule tries) (simp_all add: lock_start_def)
  with a have r: "lock_reachable ?env ?b" by (meson rtranclp.rtrancl_refl rtranclp.rtrancl_into_rtrancl)
  have pool: "pool_sessions ?env 1 ?b = [0]" and pc: "ls_pc ?b 0 = Inside 0"
    by (simp_all add: try_lock_def pg_try_advisory_lock_def grantable_def locks_of_def pool_sessions_def lock_start_def two_defs)
  have "connect ?env 1 ?b = None"
    using lock_reachable_ok [OF r] pool pc by (intro full_pool_starves) (auto intro!: exI [of _ 0])
  then show ?thesis using r pc by blast
qed

text \<open>What a try decides in a reachable state without strays.\<close>

lemma try_decides:
  assumes "lock_reachable env st" "\<not> ls_stray st" "ls_pc st i = Trying s" "ls_sessions st s \<noteq> None"
  shows "ls_pc (try_lock env i s st) i = Inside s \<longleftrightarrow>
    (\<forall>j t. protected_by st j t \<longrightarrow> lock_hash env j \<noteq> lock_hash env i)"
proof -
  note ok = lock_reachable_ok [OF assms(1)]
  have pc: "ls_pc (try_lock env i s st) i = Inside s \<longleftrightarrow> grantable s (lock_hash env i) st"
    by (simp add: try_lock_def pg_try_advisory_lock_def)
  have "lock_hash env j \<noteq> lock_hash env i"
    if g: "grantable s (lock_hash env i) st" and p: "protected_by st j t" for j t
  proof
    assume "lock_hash env j = lock_hash env i"
    then have "lock_hash env i \<in> set (locks_of st t)"
      using ok p locks_okD(1) unfolding protected_by_def by metis
    then have "t = s" using g ok grantableD by blast
    then have "j = i" using p assms(3) ok holds_on_unique [of env st j s i] by (simp add: protected_by_def)
    then show False using p assms(3) by (simp add: protected_by_def holds_on_def)
  qed
  then show ?thesis using pc lock_free_when_idle [OF assms(1,2)] by blast
qed

end
