(* ===== verification/Lock_Properties.thy ===== *)
theory Lock_Properties
  imports Lock_Steps
begin

text \<open>
  What the advisory lock promises the synchronisation: at most one run per hashtag and kind among all
  workers, and no run skipped without another one inside.
\<close>

text \<open>
  C4. \<open>withAdvisoryLock\<close> with the keys of \<open>syncLockKey\<close>, called any number of times in any number of
  worker processes on one database, with rejections and lost answers at every query, sessions that
  end and workers that are killed: two calls for the same hashtag and kind that are both between the
  grant and the unlock, on sessions that are still open, are the same call. And a try is granted
  exactly when no call is inside for its lock, unless a lock was left behind by a lost answer or a
  rejected unlock.
\<close>

theorem one_sync_per_hashtag:
  assumes "lock_reachable env st"
  shows "(\<forall>i j s t h kind. le_key env i = syncLockKey h kind \<and> le_key env j = syncLockKey h kind
        \<and> protected_by st i s \<and> protected_by st j t \<longrightarrow> i = j)
    \<and> (\<forall>i s. \<not> ls_stray st \<and> ls_pc st i = Trying s \<and> ls_sessions st s \<noteq> None \<longrightarrow>
        (ls_pc (try_lock env i s st) i = Inside s \<longleftrightarrow>
          (\<forall>j t. protected_by st j t \<longrightarrow> lock_hash env j \<noteq> lock_hash env i)))"
  using mutual_exclusion [OF assms] try_decides [OF assms] by (auto simp: lock_hash_def)

theorem one_sync_per_hashtag_witness:
  "lock_reachable two_workers
     (both_called [0 \<mapsto> session_for 0 True [sync_lock], 1 \<mapsto> session_for 1 True []] (Inside 0) (Trying 1) False)
   \<and> ls_pc (try_lock two_workers 1 1
       (both_called [0 \<mapsto> session_for 0 True [sync_lock], 1 \<mapsto> session_for 1 True []] (Inside 0) (Trying 1) False)) 1
     \<noteq> Inside 1"
  (is "_ \<and> ls_pc (try_lock _ _ _ ?st) 1 \<noteq> _")
proof (intro conjI one_inside)
  have inside: "protected_by ?st 0 0"
    by (simp add: protected_by_def holds_on_def both_called_def)
  have "\<not> ls_stray ?st \<and> ls_pc ?st 1 = Trying 1 \<and> ls_sessions ?st 1 \<noteq> None"
    by (simp add: both_called_def)
  then have "ls_pc (try_lock two_workers 1 1 ?st) 1 = Inside 1 \<longleftrightarrow>
      (\<forall>j t. protected_by ?st j t \<longrightarrow> lock_hash two_workers j \<noteq> lock_hash two_workers 1)"
    using one_sync_per_hashtag [OF one_inside] by blast
  moreover have "lock_hash two_workers 0 = lock_hash two_workers 1"
    by (simp add: lock_hash_def two_workers_def)
  ultimately show "ls_pc (try_lock two_workers 1 1 ?st) 1 \<noteq> Inside 1" using inside by blast
qed

end
