(* ===== verification/Sqs_Worker.thy ===== *)
theory Sqs_Worker
  imports Sqs_Queue Job_Runner
begin

text \<open>
  The worker on SQS: \<open>src/adapters/aws/SqsQueue.ts\<close> and \<open>JobRunner.process\<close> against the service. SQS is not
  in the repository; what it keeps is a view of its state, and \<open>sqs_service\<close> states the documented
  behaviour the driver relies on. SQS is not an instance of the contract of \<open>Queue_Port\<close>: it delivers
  at least once, and a handle that was returned still deletes its message.
\<close>

section \<open>The service\<close>

text \<open>
  What a queue and its dead-letter queue store between them, as pairs of identifier and body, and the
  message each receipt handle was issued for.
\<close>

record sqs_view =
  sv_stored :: "(jstr \<times> jstr) set"
  sv_issued :: "jstr \<Rightarrow> jstr option"

definition view_keeps :: "sqs_view \<Rightarrow> sqs_view \<Rightarrow> bool" where
  "view_keeps v v' \<longleftrightarrow> sv_stored v \<subseteq> sv_stored v'
     \<and> (\<forall>h i. sv_issued v h = Some i \<longrightarrow> sv_issued v' h = Some i)"

lemma view_keeps_refl [simp]: "view_keeps v v"
  by (simp add: view_keeps_def)

lemma view_keeps_trans: "view_keeps u v \<Longrightarrow> view_keeps v w \<Longrightarrow> view_keeps u w"
  by (auto simp: view_keeps_def)

text \<open>
  A rejected call may have been carried out. Identifiers are unique. A receive hands out stored messages
  with a handle each (the redrive to the dead-letter queue moves a message, it stays stored), a delete
  removes at most the message its handle was issued for, and a batch without failures is stored.
\<close>

definition sqs_service :: "'w sqs_client \<Rightarrow> ('w \<Rightarrow> sqs_view) \<Rightarrow> bool" where
  "sqs_service c view \<longleftrightarrow>
     (\<forall>w i b b'. (i, b) \<in> sv_stored (view w) \<longrightarrow> (i, b') \<in> sv_stored (view w) \<longrightarrow> b = b')
   \<and> (\<forall>body d w. view_keeps (view w) (view (snd (sc_sendMessage c body d w))))
   \<and> (\<forall>es w. view_keeps (view w) (view (snd (sc_sendMessageBatch c es w))))
   \<and> (\<forall>es ok w e. fst (sc_sendMessageBatch c es w) = Inr (ok, []) \<longrightarrow> e \<in> set es \<longrightarrow>
        (\<exists>i. (i, se_MessageBody e) \<in> sv_stored (view (snd (sc_sendMessageBatch c es w)))))
   \<and> (\<forall>n t w. view_keeps (view w) (view (snd (sc_receiveMessage c n t w))))
   \<and> (\<forall>n t w raws raw b h. fst (sc_receiveMessage c n t w) = Inr raws \<longrightarrow> raw \<in> set raws \<longrightarrow>
        rw_Body raw = Some b \<longrightarrow> rw_ReceiptHandle raw = Some h \<longrightarrow>
        (\<exists>i. rw_MessageId raw = Some i \<and> (i, b) \<in> sv_stored (view w)
           \<and> sv_issued (view (snd (sc_receiveMessage c n t w))) h = Some i))
   \<and> (\<forall>h w i b. sv_issued (view w) h \<noteq> Some i \<longrightarrow> (i, b) \<in> sv_stored (view w) \<longrightarrow>
        (i, b) \<in> sv_stored (view (snd (sc_deleteMessage c h w))))
   \<and> (\<forall>h w h' i. sv_issued (view w) h' = Some i \<longrightarrow> sv_issued (view (snd (sc_deleteMessage c h w))) h' = Some i)
   \<and> (\<forall>h v w. view_keeps (view w) (view (snd (sc_changeMessageVisibility c h v w))))"

lemma sqs_serviceD:
  assumes "sqs_service c view"
  shows "(i, b) \<in> sv_stored (view w) \<Longrightarrow> (i, b') \<in> sv_stored (view w) \<Longrightarrow> b = b'"
    and "view_keeps (view w) (view (snd (sc_sendMessage c body d w)))"
    and "view_keeps (view w) (view (snd (sc_sendMessageBatch c es w)))"
    and "fst (sc_sendMessageBatch c es w) = Inr (ok, []) \<Longrightarrow> e \<in> set es \<Longrightarrow>
      \<exists>i. (i, se_MessageBody e) \<in> sv_stored (view (snd (sc_sendMessageBatch c es w)))"
    and "view_keeps (view w) (view (snd (sc_receiveMessage c n t w)))"
    and "fst (sc_receiveMessage c n t w) = Inr raws \<Longrightarrow> raw \<in> set raws \<Longrightarrow>
      rw_Body raw = Some x \<Longrightarrow> rw_ReceiptHandle raw = Some h \<Longrightarrow>
      \<exists>i. rw_MessageId raw = Some i \<and> (i, x) \<in> sv_stored (view w)
        \<and> sv_issued (view (snd (sc_receiveMessage c n t w))) h = Some i"
    and "sv_issued (view w) h \<noteq> Some i \<Longrightarrow> (i, b) \<in> sv_stored (view w) \<Longrightarrow>
      (i, b) \<in> sv_stored (view (snd (sc_deleteMessage c h w)))"
    and "sv_issued (view w) h' = Some i \<Longrightarrow> sv_issued (view (snd (sc_deleteMessage c h w))) h' = Some i"
    and "view_keeps (view w) (view (snd (sc_changeMessageVisibility c h v w)))"
  using assms unfolding sqs_service_def by (elim conjE; metis)+

section \<open>The driver on the service\<close>

lemma send_all_stored:
  assumes "sqs_service c view"
  shows "view_keeps (view w) (view (snd (send_all c reqs ids w)))
    \<and> (fst (send_all c reqs ids w) = Inr out \<longrightarrow>
        (\<forall>es \<in> set reqs. \<forall>e \<in> set es. \<exists>i. (i, se_MessageBody e) \<in> sv_stored (view (snd (send_all c reqs ids w)))))"
proof (induction reqs arbitrary: ids w)
  case (Cons es reqs)
  obtain r w1 where r: "sc_sendMessageBatch c es w = (r, w1)" by fastforce
  have k: "view_keeps (view w) (view w1)" using sqs_serviceD(3) [OF assms, of w es] r by simp
  show ?case
  proof (cases "\<exists>ok. r = Inr (ok, [])")
    case True
    then obtain ok where ok: "r = Inr (ok, [])" by blast
    note rest = Cons [of w1 "ids @ map or_empty ok"]
    have "\<exists>i. (i, se_MessageBody e) \<in> sv_stored (view w1)" if "e \<in> set es" for e
      using sqs_serviceD(4) [OF assms, of es w ok e] that r ok by simp
    then have "\<exists>i. (i, se_MessageBody e) \<in> sv_stored (view (snd (send_all c reqs (ids @ map or_empty ok) w1)))"
      if "e \<in> set es" for e
      using that rest unfolding view_keeps_def by blast
    then show ?thesis using rest view_keeps_trans [OF k] by (simp add: r ok)
  next
    case False
    then show ?thesis using k by (auto simp: r split: sum.split prod.split)
  qed
qed simp

text \<open>A batch that is reported as enqueued is stored in full.\<close>

lemma sqs_enqueueBatch_stored:
  assumes "sqs_service c view" "sqs_enqueueBatch c jobs d w = (Inr ids, w1)" "j \<in> set jobs"
  shows "\<exists>i. (i, stringify_job j) \<in> sv_stored (view w1)"
proof -
  have "stringify_job j \<in> set (concat (map (map se_MessageBody) (requests_of d jobs)))"
    using assms(3) unfolding concat_requests by simp
  then obtain es e where e: "es \<in> set (requests_of d jobs)" "e \<in> set es" "se_MessageBody e = stringify_job j"
    by auto
  have "fst (send_all c (requests_of d jobs) [] w) = Inr ids" "snd (send_all c (requests_of d jobs) [] w) = w1"
    using assms(2) by (simp_all add: sqs_enqueueBatch_requests)
  then show ?thesis
    using send_all_stored [OF assms(1), of w "requests_of d jobs" "[]" ids] e by (metis (no_types, lifting))
qed

lemma parse_raw_mem:
  "m \<in> set (parse_raw raws) \<Longrightarrow>
    \<exists>raw \<in> set raws. \<exists>b. rw_Body raw = Some b \<and> rw_ReceiptHandle raw = Some (qm_receiptHandle m)
      \<and> parseBody b = Some (qm_job m) \<and> qm_id m = or_empty (rw_MessageId raw)"
proof (induction raws)
  case (Cons raw raws)
  show ?case
  proof (cases "m \<in> set (parse_raw raws)")
    case True
    then show ?thesis using Cons.IH by auto
  next
    case False
    then show ?thesis using Cons.prems
      by (auto simp: truthy_str_def split: if_splits option.splits)
  qed
qed simp

text \<open>What the driver hands out was stored, parses as its job, and comes with a handle of its own.\<close>

lemma sqs_receive_mem:
  assumes "sqs_service c view" "sqs_receive c dw mm wt w = (Inr ms, w1)" "m \<in> set ms"
  shows "sv_issued (view w1) (qm_receiptHandle m) = Some (qm_id m)
    \<and> (\<exists>b. (qm_id m, b) \<in> sv_stored (view w) \<and> parseBody b = Some (qm_job m))"
proof -
  let ?n = "min (case mm of None \<Rightarrow> 1 | Some n \<Rightarrow> n) 10" and ?t = "case wt of None \<Rightarrow> dw | Some n \<Rightarrow> n"
  obtain raws where r: "sc_receiveMessage c ?n ?t w = (Inr raws, w1)" "ms = parse_raw raws"
    using assms(2) by (auto simp: sqs_receive_def split: prod.splits sum.splits)
  then obtain raw b where "raw \<in> set raws" "rw_Body raw = Some b" "rw_ReceiptHandle raw = Some (qm_receiptHandle m)"
    "parseBody b = Some (qm_job m)" "qm_id m = or_empty (rw_MessageId raw)"
    using assms(3) parse_raw_mem by blast
  moreover have "fst (sc_receiveMessage c ?n ?t w) = Inr raws" by (simp add: r(1))
  ultimately obtain i where "rw_MessageId raw = Some i" "(i, b) \<in> sv_stored (view w)"
      "sv_issued (view w1) (qm_receiptHandle m) = Some i"
    using sqs_serviceD(6) [OF assms(1)] r(1) by (metis snd_conv)
  then show ?thesis
    using \<open>qm_id m = _\<close> \<open>parseBody b = _\<close> by (auto simp: or_empty_def)
qed

lemma sqs_receive_keeps:
  "sqs_service c view \<Longrightarrow> view_keeps (view w) (view (snd (sqs_receive c dw mm wt w)))"
  using sqs_serviceD(5) [of c view w "min (case mm of None \<Rightarrow> 1 | Some n \<Rightarrow> n) 10" "case wt of None \<Rightarrow> dw | Some n \<Rightarrow> n"]
  by (auto simp: sqs_receive_def split: prod.split sum.split)

section \<open>The worker on the service\<close>

text \<open>Handlers send to the queue and do nothing else to it.\<close>

definition handlers_keep :: "('w \<Rightarrow> sqs_view) \<Rightarrow> (job_type \<Rightarrow> (jstr, 'w) handler option) \<Rightarrow> bool" where
  "handlers_keep view handlers \<longleftrightarrow>
     (\<forall>t h j cx w. handlers t = Some h \<longrightarrow> view_keeps (view w) (view (snd (h j cx w))))"

text \<open>Whether a message may be deleted after its handler has run: it succeeded, or never will.\<close>

definition settles :: "(job_type \<Rightarrow> (jstr, 'w) handler option) \<Rightarrow> jstr queue_message \<Rightarrow> 'w \<Rightarrow> bool" where
  "settles handlers m w \<longleftrightarrow>
     (case handlers (type_of_job (qm_job m)) of
        None \<Rightarrow> True
      | Some h \<Rightarrow> (case fst (h (qm_job m) (context_of m) w) of Inl e \<Rightarrow> is_permanent e | Inr _ \<Rightarrow> True))"

text \<open>
  \<open>sk_hand\<close> are the messages that were received and not yet processed, by all workers of the queue
  together; \<open>sk_settled\<close> are the identifiers whose handler has come to its verdict. Between the
  operations anything can happen that deletes nothing: visibility timeouts and redrives, EventBridge
  sending, a worker killed in the middle of a handler.
\<close>

record 'w sqs_worker =
  sk_world :: 'w
  sk_hand :: "jstr queue_message set"
  sk_settled :: "jstr set"

definition sqs_process ::
  "'w sqs_client \<Rightarrow> (job_type \<Rightarrow> (jstr, 'w) handler option) \<Rightarrow> jstr queue_message \<Rightarrow> 'w sqs_worker \<Rightarrow> 'w sqs_worker" where
  "sqs_process c handlers m s =
     s\<lparr>sk_world := snd (process (sqs_ack c) (sqs_nack c) handlers m (sk_world s)), sk_hand := sk_hand s - {m},
       sk_settled := (if settles handlers m (sk_world s) then insert (qm_id m) (sk_settled s) else sk_settled s)\<rparr>"

definition sqs_poll :: "'w sqs_client \<Rightarrow> nat \<Rightarrow> nat option \<Rightarrow> nat option \<Rightarrow> 'w sqs_worker \<Rightarrow> 'w sqs_worker" where
  "sqs_poll c dw mm wt s =
     (case sqs_receive c dw mm wt (sk_world s) of
        (Inl e, w) \<Rightarrow> s\<lparr>sk_world := w\<rparr>
      | (Inr ms, w) \<Rightarrow> s\<lparr>sk_world := w, sk_hand := sk_hand s \<union> set ms\<rparr>)"

inductive sqs_step ::
  "'w sqs_client \<Rightarrow> ('w \<Rightarrow> sqs_view) \<Rightarrow> (job_type \<Rightarrow> (jstr, 'w) handler option) \<Rightarrow> 'w sqs_worker \<Rightarrow> 'w sqs_worker \<Rightarrow> bool"
  for c view handlers where
  polls: "sqs_step c view handlers s (sqs_poll c dw mm wt s)"
| processes: "m \<in> sk_hand s \<Longrightarrow> sqs_step c view handlers s (sqs_process c handlers m s)"
| beats: "m \<in> sk_hand s \<Longrightarrow>
    sqs_step c view handlers s (s\<lparr>sk_world := snd (sqs_extendVisibility c m n (sk_world s))\<rparr>)"
| elapses: "view_keeps (view (sk_world s)) (view w) \<Longrightarrow> sqs_step c view handlers s (s\<lparr>sk_world := w\<rparr>)"
| crashes: "H \<subseteq> sk_hand s \<Longrightarrow> sqs_step c view handlers s (s\<lparr>sk_hand := H\<rparr>)"

text \<open>What \<open>process\<close> does to the messages that are not settled by it.\<close>

lemma ack_other:
  assumes "sqs_service c view" "sv_issued (view w) (qm_receiptHandle m) = Some (qm_id m)"
    "(i, b) \<in> sv_stored (view w)" "i \<noteq> qm_id m"
  shows "(i, b) \<in> sv_stored (view (snd (sqs_ack c m w)))"
  using assms sqs_serviceD(7) [OF assms(1), of w "qm_receiptHandle m" i b] by (simp add: sqs_ack_def)

lemma ack_issued:
  "sqs_service c view \<Longrightarrow> sv_issued (view w) h = Some i \<Longrightarrow> sv_issued (view (snd (sqs_ack c m w))) h = Some i"
  using sqs_serviceD(8) by (simp add: sqs_ack_def)

lemma nack_keeps: "sqs_service c view \<Longrightarrow> view_keeps (view w) (view (snd (sqs_nack c m w)))"
  using sqs_serviceD(9) by (simp add: sqs_nack_def)

text \<open>The worlds \<open>process\<close> goes through: the handler, at most two acknowledgements, a return.\<close>

lemma process_cases:
  assumes "process ack nack handlers m w = (r, w')"
  obtains "handlers (type_of_job (qm_job m)) = None" "w' = snd (ack m w)"
  | h v where "handlers (type_of_job (qm_job m)) = Some h" "h (qm_job m) (context_of m) w = (Inr (), v)"
      "w' = snd (ack m v) \<or> w' = snd (ack m (snd (ack m v))) \<or> w' = snd (nack m (snd (ack m v)))"
  | h v e where "handlers (type_of_job (qm_job m)) = Some h" "h (qm_job m) (context_of m) w = (Inl e, v)"
      "if is_permanent e then w' = snd (ack m v) else w' = snd (nack m v)"
proof (cases "handlers (type_of_job (qm_job m))")
  case None
  then show thesis using assms that(1) by (simp add: process_def)
next
  case (Some h)
  obtain x v where x: "h (qm_job m) (context_of m) w = (x, v)" by fastforce
  show thesis
  proof (cases x)
    case (Inl e)
    then show thesis using assms that(3) [OF Some] x Some by (auto simp: process_def split: if_splits)
  next
    case (Inr u)
    obtain y v1 where y: "ack m v = (y, v1)" by fastforce
    show thesis
    proof (cases y)
      case (Inl e)
      then show thesis using assms that(2) [OF Some] x y Some Inr by (auto simp: process_def split: if_splits)
    next
      case y': (Inr u')
      then show thesis using assms that(2) [OF Some] x y Some Inr by (auto simp: process_def)
    qed
  qed
qed

lemma sqs_process_facts:
  assumes "sqs_service c view" "handlers_keep view handlers"
    "sv_issued (view w) (qm_receiptHandle m) = Some (qm_id m)"
    "process (sqs_ack c) (sqs_nack c) handlers m w = (r, w')"
  shows "sv_issued (view w) h = Some i \<Longrightarrow> sv_issued (view w') h = Some i"
    and "(i, b) \<in> sv_stored (view w) \<Longrightarrow> i \<noteq> qm_id m \<or> \<not> settles handlers m w \<Longrightarrow> (i, b) \<in> sv_stored (view w')"
proof -
  note ack_i = ack_issued [OF assms(1)] and ack_o = ack_other [OF assms(1)]
  have nack_i: "sv_issued (view u) h = Some i \<Longrightarrow> sv_issued (view (snd (sqs_nack c m u))) h = Some i" for u h i
    using nack_keeps [OF assms(1)] unfolding view_keeps_def by blast
  have nack_s: "p \<in> sv_stored (view u) \<Longrightarrow> p \<in> sv_stored (view (snd (sqs_nack c m u)))" for u p
    using nack_keeps [OF assms(1)] unfolding view_keeps_def by blast
  have run: "view_keeps (view w) (view v)"
    if "handlers (type_of_job (qm_job m)) = Some hd" "hd (qm_job m) (context_of m) w = (x, v)" for hd x v
    using assms(2) that unfolding handlers_keep_def by (metis snd_conv)
  have run_i: "sv_issued (view w) h = Some i \<Longrightarrow> sv_issued (view v) h = Some i"
    and run_s: "p \<in> sv_stored (view w) \<Longrightarrow> p \<in> sv_stored (view v)"
    if "handlers (type_of_job (qm_job m)) = Some hd" "hd (qm_job m) (context_of m) w = (x, v)" for hd x v h i p
    using run [OF that] unfolding view_keeps_def by blast+
  show "sv_issued (view w) h = Some i \<Longrightarrow> sv_issued (view w') h = Some i"
    using assms(4)
  proof (cases rule: process_cases)
    case 1
    then show "sv_issued (view w) h = Some i \<Longrightarrow> ?thesis" by (simp add: ack_i)
  next
    case (2 hd v)
    then show "sv_issued (view w) h = Some i \<Longrightarrow> ?thesis" using run_i ack_i nack_i by metis
  next
    case (3 hd v e)
    then show "sv_issued (view w) h = Some i \<Longrightarrow> ?thesis" using run_i ack_i nack_i by metis
  qed
  assume st: "(i, b) \<in> sv_stored (view w)" and free: "i \<noteq> qm_id m \<or> \<not> settles handlers m w"
  from assms(4) show "(i, b) \<in> sv_stored (view w')"
  proof (cases rule: process_cases)
    case 1
    then have "i \<noteq> qm_id m" using free by (simp add: settles_def)
    then show ?thesis using 1 ack_o [OF assms(3) st] by simp
  next
    case (2 hd v)
    then have ne: "i \<noteq> qm_id m" using free by (simp add: settles_def)
    have v: "sv_issued (view v) (qm_receiptHandle m) = Some (qm_id m)" "(i, b) \<in> sv_stored (view v)"
      using run_i [OF 2(1,2) assms(3)] run_s [OF 2(1,2) st] .
    note once = ack_o [OF v ne] and issued = ack_i [OF v(1), of m]
    show ?thesis using 2(3) once ack_o [OF issued once ne] nack_s [OF once] by auto
  next
    case (3 hd v e)
    have v: "sv_issued (view v) (qm_receiptHandle m) = Some (qm_id m)" "(i, b) \<in> sv_stored (view v)"
      using run_i [OF 3(1,2) assms(3)] run_s [OF 3(1,2) st] .
    show ?thesis
    proof (cases "is_permanent e")
      case True
      then have "i \<noteq> qm_id m" using free 3 by (simp add: settles_def)
      then show ?thesis using 3(3) True ack_o [OF v] by simp
    next
      case False
      then show ?thesis using 3(3) nack_s [OF v(2)] by simp
    qed
  qed
qed

section \<open>What happens to a stored message\<close>

definition hand_ok :: "('w \<Rightarrow> sqs_view) \<Rightarrow> 'w sqs_worker \<Rightarrow> bool" where
  "hand_ok view s \<longleftrightarrow> (\<forall>m \<in> sk_hand s. sv_issued (view (sk_world s)) (qm_receiptHandle m) = Some (qm_id m))"

definition kept :: "('w \<Rightarrow> sqs_view) \<Rightarrow> jstr \<times> jstr \<Rightarrow> 'w sqs_worker \<Rightarrow> bool" where
  "kept view p s \<longleftrightarrow> p \<in> sv_stored (view (sk_world s)) \<or> fst p \<in> sk_settled s"

text \<open>A message whose body is no job is in nobody's hand.\<close>

definition untouched :: "('w \<Rightarrow> sqs_view) \<Rightarrow> jstr \<times> jstr \<Rightarrow> 'w sqs_worker \<Rightarrow> bool" where
  "untouched view p s \<longleftrightarrow> p \<in> sv_stored (view (sk_world s)) \<and> fst p \<notin> qm_id ` sk_hand s"

lemma view_keeps_step:
  assumes "view_keeps (view (sk_world s)) (view w)" "H \<subseteq> sk_hand s" "hand_ok view s"
  shows "hand_ok view (s\<lparr>sk_world := w, sk_hand := H\<rparr>)"
    and "kept view p s \<Longrightarrow> kept view p (s\<lparr>sk_world := w, sk_hand := H\<rparr>)"
    and "untouched view p s \<Longrightarrow> untouched view p (s\<lparr>sk_world := w, sk_hand := H\<rparr>)"
  using assms unfolding hand_ok_def kept_def untouched_def view_keeps_def by auto

lemma sqs_poll_facts:
  assumes "sqs_service c view" "hand_ok view s"
  shows "hand_ok view (sqs_poll c dw mm wt s)"
    and "kept view p s \<Longrightarrow> kept view p (sqs_poll c dw mm wt s)"
    and "untouched view p s \<Longrightarrow> parseBody (snd p) = None \<Longrightarrow> untouched view p (sqs_poll c dw mm wt s)"
proof -
  obtain r w where r: "sqs_receive c dw mm wt (sk_world s) = (r, w)" by fastforce
  have k: "view_keeps (view (sk_world s)) (view w)"
    using sqs_receive_keeps [OF assms(1), of "sk_world s" dw mm wt] r by simp
  note old = view_keeps_step [OF k subset_refl assms(2)]
  have shape: "sqs_poll c dw mm wt s = (s\<lparr>sk_world := w, sk_hand := sk_hand s\<rparr>)
      \<lparr>sk_hand := sk_hand s \<union> (case r of Inl e \<Rightarrow> {} | Inr ms \<Rightarrow> set ms)\<rparr>"
    by (cases r) (simp_all add: sqs_poll_def r)
  have new: "sv_issued (view w) (qm_receiptHandle m) = Some (qm_id m)
      \<and> (\<exists>b. (qm_id m, b) \<in> sv_stored (view (sk_world s)) \<and> parseBody b = Some (qm_job m))"
    if "m \<in> (case r of Inl e \<Rightarrow> {} | Inr ms \<Rightarrow> set ms)" for m
    using that r sqs_receive_mem [OF assms(1)] by (cases r) auto
  show "hand_ok view (sqs_poll c dw mm wt s)"
    using old(1) new unfolding shape hand_ok_def by auto
  show "kept view p s \<Longrightarrow> kept view p (sqs_poll c dw mm wt s)"
    using old(2) unfolding shape kept_def by simp
  assume p: "untouched view p s" "parseBody (snd p) = None"
  have "qm_id m \<noteq> fst p" if mem: "m \<in> (case r of Inl e \<Rightarrow> {} | Inr ms \<Rightarrow> set ms)" for m
  proof
    assume "qm_id m = fst p"
    moreover obtain b where "(qm_id m, b) \<in> sv_stored (view (sk_world s))" "parseBody b = Some (qm_job m)"
      using new [OF mem] by blast
    moreover have "(fst p, snd p) \<in> sv_stored (view (sk_world s))" using p(1) by (simp add: untouched_def)
    ultimately have "b = snd p" using sqs_serviceD(1) [OF assms(1)] by metis
    then show False using p(2) \<open>parseBody b = _\<close> by simp
  qed
  then show "untouched view p (sqs_poll c dw mm wt s)"
    using old(3) [OF p(1)] unfolding shape untouched_def by fastforce
qed

lemma sqs_process_step:
  assumes "sqs_service c view" "handlers_keep view handlers" "hand_ok view s" "m \<in> sk_hand s"
  shows "hand_ok view (sqs_process c handlers m s)"
    and "kept view p s \<Longrightarrow> kept view p (sqs_process c handlers m s)"
    and "untouched view p s \<Longrightarrow> untouched view p (sqs_process c handlers m s)"
proof -
  obtain r w where r: "process (sqs_ack c) (sqs_nack c) handlers m (sk_world s) = (r, w)" by fastforce
  have m: "sv_issued (view (sk_world s)) (qm_receiptHandle m) = Some (qm_id m)"
    using assms(3,4) by (simp add: hand_ok_def)
  note facts = sqs_process_facts [OF assms(1,2) m r]
  show "hand_ok view (sqs_process c handlers m s)"
    using assms(3) facts(1) r by (simp add: hand_ok_def sqs_process_def)
  show "kept view p s \<Longrightarrow> kept view p (sqs_process c handlers m s)"
    using facts(2) [of "fst p" "snd p"] r by (auto simp: kept_def sqs_process_def)
  show "untouched view p s \<Longrightarrow> untouched view p (sqs_process c handlers m s)"
    using facts(2) [of "fst p" "snd p"] r assms(4) by (auto simp: untouched_def sqs_process_def)
qed

lemma sqs_steps_keep:
  assumes "(sqs_step c view handlers)\<^sup>*\<^sup>* s s'" "sqs_service c view" "handlers_keep view handlers" "hand_ok view s"
  shows "hand_ok view s' \<and> (kept view p s \<longrightarrow> kept view p s')
    \<and> (parseBody (snd p) = None \<longrightarrow> untouched view p s \<longrightarrow> untouched view p s')"
  using assms(1)
proof (induction rule: rtranclp_induct)
  case base
  show ?case using assms(4) by simp
next
  case (step s1 s2)
  then have ok: "hand_ok view s1" by simp
  from step(2) have "hand_ok view s2 \<and> (kept view p s1 \<longrightarrow> kept view p s2)
      \<and> (parseBody (snd p) = None \<longrightarrow> untouched view p s1 \<longrightarrow> untouched view p s2)"
  proof cases
    case (polls dw mm wt)
    then show ?thesis using sqs_poll_facts [OF assms(2) ok] by blast
  next
    case (processes m)
    then show ?thesis using sqs_process_step [OF assms(2,3) ok] by blast
  next
    case (beats m n)
    have "view_keeps (view (sk_world s1)) (view (snd (sqs_extendVisibility c m n (sk_world s1))))"
      using sqs_serviceD(9) [OF assms(2)] by (simp add: sqs_extendVisibility_def)
    from view_keeps_step [OF this subset_refl ok] show ?thesis unfolding beats by simp
  next
    case (elapses w)
    from view_keeps_step [OF elapses(2) subset_refl ok] show ?thesis unfolding elapses(1) by simp
  next
    case (crashes H)
    from view_keeps_step [OF view_keeps_refl crashes(2) ok] show ?thesis unfolding crashes(1) by simp
  qed
  then show ?case using step by blast
qed

section \<open>A small service\<close>

text \<open>
  A list of bodies, deleted ones blanked out, with unary identifiers that are their own handles; a
  receive hands out the first message. On it the theorems about \<open>sqs_service\<close> are instantiated.
\<close>

type_synonym small_sqs = "jstr option list"

definition small_id :: "nat \<Rightarrow> jstr" where
  "small_id k = replicate (Suc k) 49"

definition small_view :: "small_sqs \<Rightarrow> sqs_view" where
  "small_view w = \<lparr>sv_stored = {(small_id k, b) | k b. k < length w \<and> w ! k = Some b}, sv_issued = Some\<rparr>"

definition small_first :: "small_sqs \<Rightarrow> raw_message list" where
  "small_first w = map (\<lambda>k. \<lparr>rw_MessageId = Some (small_id k), rw_Body = w ! k, rw_ReceiptHandle = Some (small_id k),
     rw_ApproximateReceiveCount = Some 1\<rparr>) (take 1 (filter (\<lambda>k. w ! k \<noteq> None) [0..<length w]))"

definition small_client :: "small_sqs sqs_client" where
  "small_client =
     \<lparr>sc_sendMessage = (\<lambda>b d w. (Inr (Some (small_id (length w))), w @ [Some b])),
       sc_sendMessageBatch = (\<lambda>es w. (Inr (map (\<lambda>e. Some []) es, []), w @ map (Some \<circ> se_MessageBody) es)),
       sc_receiveMessage = (\<lambda>n t w. (Inr (small_first w), w)),
       sc_deleteMessage = (\<lambda>h w. (Inr (), map (\<lambda>k. if small_id k = h then None else w ! k) [0..<length w])),
       sc_changeMessageVisibility = (\<lambda>h v w. (Inr (), w))\<rparr>"

lemma small_id_inject [simp]: "small_id k = small_id l \<longleftrightarrow> k = l"
  unfolding small_id_def by (metis length_replicate old.nat.inject)

lemma small_view_append: "view_keeps (small_view w) (small_view (w @ v))"
  by (auto simp: view_keeps_def small_view_def nth_append)

lemma small_service: "sqs_service small_client small_view"
  unfolding sqs_service_def
proof (intro conjI allI impI)
  fix es :: "sqs_entry list" and ok :: "jstr option list" and w :: small_sqs and e :: sqs_entry
  assume "e \<in> set es"
  then obtain k where k: "k < length es" "es ! k = e" by (auto simp: in_set_conv_nth)
  then have "(small_id (length w + k), se_MessageBody e) \<in> sv_stored (small_view (w @ map (Some \<circ> se_MessageBody) es))"
    by (auto simp: small_view_def nth_append)
  then show "\<exists>i. (i, se_MessageBody e) \<in> sv_stored (small_view (snd (sc_sendMessageBatch small_client es w)))"
    by (auto simp: small_client_def)
next
  fix n t :: nat and w :: small_sqs and raws :: "raw_message list" and raw :: raw_message and b h :: jstr
  assume "fst (sc_receiveMessage small_client n t w) = Inr raws" "raw \<in> set raws" "rw_Body raw = Some b"
    "rw_ReceiptHandle raw = Some h"
  then show "\<exists>i. rw_MessageId raw = Some i \<and> (i, b) \<in> sv_stored (small_view w)
      \<and> sv_issued (small_view (snd (sc_receiveMessage small_client n t w))) h = Some i"
    by (auto simp: small_client_def small_first_def small_view_def dest!: in_set_takeD)
qed (auto simp: small_client_def small_view_append, auto simp: small_view_def)

end
