(* ===== verification/Sqs_Program.thy ===== *)
theory Sqs_Program
  imports Sqs_Worker Consumers
begin

text \<open>
  The program's own handlers on SQS: whatever a sync, a dispatch or a download does and wherever it
  fails, all it does to the queue is to send to it.
\<close>

section \<open>Sending is all that happens to the queue\<close>

text \<open>\<open>R\<close> relates a queue to what sending can make of it.\<close>

definition sends_only :: "('q \<Rightarrow> 'q \<Rightarrow> bool) \<Rightarrow> ('q, 'h) sync_env \<Rightarrow> bool" where
  "sends_only R env \<longleftrightarrow> reflp R \<and> transp R \<and> (\<forall>now j q. R q (snd (se_enqueue env now j q)))"

definition moved :: "('q \<Rightarrow> 'q \<Rightarrow> bool) \<Rightarrow> 'q sync_world \<Rightarrow> 'q sync_world \<Rightarrow> bool" where
  "moved R w w' \<longleftrightarrow> R (sw_queue w) (sw_queue w')"

lemma moved_refl: "sends_only R env \<Longrightarrow> sw_queue w' = sw_queue w \<Longrightarrow> moved R w w'"
  by (simp add: sends_only_def moved_def reflpD)

lemma moved_trans: "sends_only R env \<Longrightarrow> moved R u v \<Longrightarrow> moved R v w \<Longrightarrow> moved R u w"
  unfolding sends_only_def moved_def by (meson transpD)

lemma moved_then:
  assumes "sends_only R env" "moved R w (snd m)" "\<And>a v. moved R v (snd (k a v))"
  shows "moved R w (snd (then_do m k))"
proof (cases m)
  case (Pair r v)
  then show ?thesis
    using assms(2,3) moved_trans [OF assms(1), of w v] by (cases r) (simp_all add: then_do_def)
qed

lemma moved_db: "sends_only R env \<Longrightarrow> moved R w (snd (db_call env f w))"
  by (rule moved_refl) (simp_all add: db_call_def split: prod.split)

lemma moved_queue: "sends_only R env \<Longrightarrow> moved R w (snd (queue_call env j w))"
  using with_fault_state [of "se_fault env (sw_calls w)" "se_enqueue env (se_now env (sw_calls w)) j (sw_queue w)" "sw_queue w"]
  by (auto simp: moved_def queue_call_def sends_only_def reflpD split: prod.split)

lemma moved_items:
  assumes "sends_only R env"
  shows "moved R w (snd (sync_items env opts runId rank items counts w))"
proof (induction items arbitrary: rank counts w)
  case Nil
  show ?case by (simp add: moved_refl [OF assms])
next
  case (Cons item items)
  have "moved R v (snd (queue_call env j v))" for j v by (rule moved_queue [OF assms])
  then show ?case
    by (auto intro!: moved_then [OF assms] moved_db [OF assms] Cons simp: case_prod_beta)
qed

lemma moved_page:
  assumes "sends_only R env" "sync_page env opts runId page loc w = (r, loc', w')"
  shows "moved R w w'"
proof -
  obtain x v where x: "db_call env (\<lambda>now. recordPage now (page_input_of opts runId (sl_itemsSeen loc) page)) w = (x, v)"
    by fastforce
  obtain y u where y: "sync_items env opts runId (sl_itemsSeen loc + 1) (mg_items page) no_counts v = (y, u)"
    by fastforce
  have m: "moved R w v" "moved R v u"
    using moved_db [OF assms(1)] moved_items [OF assms(1)] x y by (metis snd_conv)+
  have u: "moved R w u" by (rule moved_trans [OF assms(1) m])
  have last: "moved R w t" if "db_call env f u = (z, t)" for f :: "time \<Rightarrow> database \<Rightarrow> (js_error + unit) \<times> database" and z t
    using moved_trans [OF assms(1) u] moved_db [OF assms(1), of u f] that by simp
  from assms(2) x y m u show ?thesis
    by (auto simp: sync_page_def Let_def split: sum.splits prod.splits intro: last)
qed

lemma moved_loop:
  assumes "sends_only R env"
  shows "sync_loop env opts runId po maxItems wk loc w = (r, loc', w') \<Longrightarrow> moved R w w'"
  using assms
proof (induction env opts runId po maxItems wk loc w arbitrary: r loc' w' rule: sync_loop.induct)
  case (1 env opts runId po maxItems wk loc w)
  note def = sync_loop.simps [of env opts runId po maxItems wk loc w]
  obtain q n1 where q: "next_page (se_net env) po wk (sw_net w) = (q, n1)" by fastforce
  show ?case
  proof (cases "\<exists>page wk1. q = Inr (Some (page, wk1))")
    case False
    then show ?thesis
      using "1.prems" q by (intro moved_refl) (auto simp: def split: sum.splits option.splits)
  next
    case True
    then obtain page wk1 where p: "q = Inr (Some (page, wk1))" by blast
    obtain s loc1 w1 where s: "sync_page env opts runId page loc (w\<lparr>sw_net := n1\<rparr>) = (s, loc1, w1)"
      by (metis prod_cases3)
    have w1: "moved R w w1" using moved_page [OF "1.prems"(2) s] by (simp add: moved_def)
    show ?thesis
    proof (cases "(\<exists>u. s = Inr u) \<and> \<not> maxItems \<le> int (sl_itemsSeen loc1)")
      case True
      then obtain u where u: "s = Inr u" "\<not> maxItems \<le> int (sl_itemsSeen loc1)" by blast
      then have "sync_loop env opts runId po maxItems wk1 loc1 w1 = (r, loc', w')"
        using "1.prems"(1) q p s by (simp add: def)
      then have "moved R w1 w'" using "1.IH" q p s u "1.prems"(2) by metis
      then show ?thesis using moved_trans [OF "1.prems"(2) w1] by blast
    next
      case False
      then show ?thesis using "1.prems"(1) q p s w1 by (auto simp: def split: sum.splits if_splits)
    qed
  qed
qed

lemma moved_run:
  assumes so: "sends_only R env"
  shows "moved R w (snd (sync_with_run env opts ig maxItems run w))"
proof -
  let ?po = "paginate_options_of env opts ig maxItems run"
  obtain q loc w1 where q: "sync_loop env opts (sr_id run) ?po maxItems (walk_start ?po (sw_net w))
      (start_locals run) w = (q, loc, w1)" by (metis prod_cases3)
  have succ: "moved R v (snd (sync_succeed env opts i l v))" for i l v
    unfolding sync_succeed_def by (intro moved_then [OF so] moved_db [OF so] moved_refl [OF so]) simp
  have fail: "moved R v (snd (sync_fail env opts run l e v))" for l e v
    unfolding sync_fail_def by (intro moved_then [OF so] moved_db [OF so] moved_refl [OF so]) simp
  obtain s w2 where s: "sync_succeed env opts (sr_id run) loc w1 = (s, w2)" by fastforce
  have m: "moved R w w1" "moved R w1 w2" using moved_loop [OF so q] succ s by (metis snd_conv)+
  then have w2: "moved R w w2" by (rule moved_trans [OF so])
  have f: "moved R w (snd (sync_fail env opts run loc e v))" if "moved R w v" for e v
    by (rule moved_trans [OF so that fail])
  show ?thesis
    using q s w2 m(1) f [OF m(1)] f [OF w2]
    by (simp add: sync_with_run_def Let_def split: sum.split fate.split)
qed

lemma moved_resolve: "sends_only R env \<Longrightarrow> moved R w (snd (resolve_step env h w))"
  unfolding resolve_step_def
  by (auto split: prod.split sum.split simp: moved_refl)
    (simp add: moved_def then_do_def db_call_def sends_only_def reflpD split: prod.split sum.split)

lemma moved_obtain: "sends_only R env \<Longrightarrow> moved R w (snd (obtain_run env opts w))"
  unfolding obtain_run_def
  by (intro moved_then moved_db) (auto split: option.split simp: moved_refl moved_db)

lemma moved_runSync:
  assumes so: "sends_only R env"
  shows "moved R w (snd (runSync env opts w))"
  unfolding runSync_def
  by (intro moved_then [OF so] moved_db [OF so])
    (auto split: option.split intro!: moved_then [OF so] moved_resolve [OF so] moved_obtain [OF so] moved_run [OF so]
      simp: moved_refl [OF so])

lemma moved_sync:
  assumes so: "sends_only R env"
  shows "moved R w (snd (sync env opts w))"
proof -
  have lock: "moved R w (snd (withAdvisoryLock env key (runSync env opts) w))" for key
  proof -
    let ?k = "se_lock_hash env key"
    let ?v = "w\<lparr>sw_calls := Suc (sw_calls w), sw_locks := ?k # sw_locks w\<rparr>"
    obtain x w2 where x: "runSync env opts ?v = (x, w2)" by fastforce
    have "moved R ?v w2" using moved_runSync [OF so, of ?v opts] x by simp
    then have "R (sw_queue w) (sw_queue w2)" "R (sw_queue w) (sw_queue w)"
      using so by (simp_all add: moved_def sends_only_def reflpD)
    then show ?thesis
      using x by (auto simp: moved_def withAdvisoryLock_def Let_def split: option.split fault.split sum.split fate.split)
  qed
  show ?thesis
    unfolding sync_def by (intro moved_then [OF so] lock) (auto split: option.split simp: moved_refl [OF so])
qed

section \<open>The handlers of the program\<close>

definition queue_in :: "('q, 's) app_world \<Rightarrow> 'q" where
  "queue_in w = sw_queue (pw_sync w)"

definition app_sends_only :: "('q \<Rightarrow> 'q \<Rightarrow> bool) \<Rightarrow> ('q, 'h, 's) app_env \<Rightarrow> bool" where
  "app_sends_only R env \<longleftrightarrow> sends_only R (ap_sync env) \<and> (\<forall>now jobs q. R q (snd (ap_enqueueBatch env now jobs q)))"

lemma sync_moves_queue: "queue_in (snd (on_sync f w)) = sw_queue (snd (f (pw_sync w)))"
  by (simp add: queue_in_def on_sync_def split: prod.split)

lemma download_leaves_queue: "queue_in (snd (on_asset f w)) = queue_in w"
  by (simp add: queue_in_def on_asset_def split: prod.split)

lemma moved_batch:
  assumes "app_sends_only R env"
  shows "moved R w (snd (batch_call env jobs w))"
  using assms with_fault_state [of "se_fault (ap_sync env) (sw_calls w)"
      "ap_enqueueBatch env (se_now (ap_sync env) (sw_calls w)) jobs (sw_queue w)" "sw_queue w"]
  by (auto simp: moved_def batch_call_def app_sends_only_def sends_only_def reflpD split: prod.split)

lemma handler_sends_only:
  assumes "app_sends_only R env" "buildHandlers env t = Some h"
  shows "R (queue_in w) (queue_in (snd (h job ctx w)))"
proof -
  have so: "sends_only R (ap_sync env)" using assms(1) by (simp add: app_sends_only_def)
  then have refl: "R q q" for q by (simp add: sends_only_def reflpD)
  have sync_ok: "moved R v (snd (sync_hashtag env kind i ctx v))" for kind i v
    unfolding sync_hashtag_def
    by (intro moved_then [OF so] moved_db [OF so])
      (auto split: option.split intro!: moved_then [OF so] moved_sync [OF so] simp: moved_refl [OF so])
  have "moved R v (snd (then_do (db_call (ap_sync env) f v)
      (\<lambda>due v1. if due = [] then (Inr (), v1)
                else then_do (batch_call env (map (sync_job_for kind) due) v1) (\<lambda>ids v2. (Inr (), v2)))))" for f kind v
    by (intro moved_then [OF so] moved_db [OF so])
      (auto intro!: moved_then [OF so] moved_batch [OF assms(1)] simp: moved_refl [OF so])
  then have "R (queue_in w) (queue_in (snd (dispatchDueSyncs env job ctx w)))"
    using refl by (cases job) (simp_all add: dispatchDueSyncs_def sync_moves_queue moved_def, simp_all add: queue_in_def)
  moreover have "R (queue_in w) (queue_in (snd (syncMedia env job ctx w)))"
    using sync_ok refl by (cases job) (simp_all add: syncMedia_def sync_moves_queue moved_def, simp_all add: queue_in_def)
  moreover have "R (queue_in w) (queue_in (snd (downloadAsset env job ctx w)))"
    using refl by (cases job) (simp_all add: downloadAsset_def download_leaves_queue)
  ultimately show ?thesis
    using assms(2) by (auto simp: buildHandlers_def split: job_type.splits)
qed

section \<open>On SQS\<close>

text \<open>
  The worker of the program with the SQS driver. The client acts on the queue inside the world of the
  handlers. A handler in which the process dies settles nothing: here it counts as a failure, after
  which the message is at most made visible again, as its timeout would do.
\<close>

definition in_world :: "('q \<Rightarrow> 'a \<times> 'q) \<Rightarrow> ('q, 's) app_world \<Rightarrow> 'a \<times> ('q, 's) app_world" where
  "in_world f w = (case f (queue_in w) of (r, q) \<Rightarrow> (r, w\<lparr>pw_sync := (pw_sync w)\<lparr>sw_queue := q\<rparr>\<rparr>))"

definition queue_client :: "'q sqs_client \<Rightarrow> ('q, 's) app_world sqs_client" where
  "queue_client c =
     \<lparr>sc_sendMessage = (\<lambda>b d. in_world (sc_sendMessage c b d)),
       sc_sendMessageBatch = (\<lambda>es. in_world (sc_sendMessageBatch c es)),
       sc_receiveMessage = (\<lambda>n t. in_world (sc_receiveMessage c n t)),
       sc_deleteMessage = (\<lambda>h. in_world (sc_deleteMessage c h)),
       sc_changeMessageVisibility = (\<lambda>h v. in_world (sc_changeMessageVisibility c h v))\<rparr>"

lemma in_world_simps [simp]:
  "fst (in_world f w) = fst (f (queue_in w))" "queue_in (snd (in_world f w)) = snd (f (queue_in w))"
  by (simp_all add: in_world_def queue_in_def split: prod.split)

definition program_handlers :: "('q, jstr, 's) app_env \<Rightarrow> job_type \<Rightarrow> (jstr, ('q, 's) app_world) handler option" where
  "program_handlers env t =
     map_option (\<lambda>h job ctx w. case h job ctx w of
          (Inl (Threw e), w') \<Rightarrow> (Inl e, w')
        | (Inl Crashed, w') \<Rightarrow> (Inl (Plain_Error (js ''crash'')), w')
        | (Inr u, w') \<Rightarrow> (Inr u, w')) (buildHandlers env t)"

definition uses_sqs :: "'q sqs_client \<Rightarrow> ('q, jstr, 's) app_env \<Rightarrow> bool" where
  "uses_sqs c env \<longleftrightarrow>
     se_enqueue (ap_sync env) = (\<lambda>now j. sqs_enqueue c j None)
     \<and> ap_enqueueBatch env = (\<lambda>now jobs. sqs_enqueueBatch c jobs None)"

lemma queue_client_service:
  assumes "sqs_service c view"
  shows "sqs_service (queue_client c) (\<lambda>w. view (queue_in w))"
  unfolding sqs_service_def queue_client_def sqs_client.simps in_world_simps
  apply (intro conjI)
  subgoal using sqs_serviceD(1) [OF assms] by metis
  subgoal using sqs_serviceD(2) [OF assms] by simp
  subgoal using sqs_serviceD(3) [OF assms] by simp
  subgoal using sqs_serviceD(4) [OF assms] by metis
  subgoal using sqs_serviceD(5) [OF assms] by simp
  subgoal using sqs_serviceD(6) [OF assms] by metis
  subgoal using sqs_serviceD(7) [OF assms] by metis
  subgoal using sqs_serviceD(8) [OF assms] by metis
  subgoal using sqs_serviceD(9) [OF assms] by simp
  done

lemma program_handlers_keep:
  assumes "sqs_service c view" "uses_sqs c env"
  shows "handlers_keep (\<lambda>w. view (queue_in w)) (program_handlers env)"
proof -
  let ?R = "\<lambda>q q'. view_keeps (view q) (view q')"
  have "view_keeps (view q) (view (snd (sqs_enqueue c j None q)))" for j q
    using sqs_serviceD(2) [OF assms(1), of q "stringify_job j" None]
    by (auto simp: sqs_enqueue_def delay_option_def split: prod.split sum.split)
  moreover have "view_keeps (view q) (view (snd (sqs_enqueueBatch c jobs None q)))" for jobs q
    using send_all_stored [OF assms(1)] by (simp add: sqs_enqueueBatch_requests)
  moreover have "reflp ?R" "transp ?R"
    by (auto simp: reflp_def intro: transpI view_keeps_trans)
  ultimately have so: "app_sends_only ?R env"
    using assms(2) by (simp add: app_sends_only_def sends_only_def uses_sqs_def)
  show ?thesis
    unfolding handlers_keep_def program_handlers_def
    using handler_sends_only [OF so] by (auto split: prod.split sum.split fate.split) (metis snd_conv)+
qed

end
