(* ===== verification/Sqs_Properties.thy ===== *)
theory Sqs_Properties
  imports Sqs_Program Demo
begin

text \<open>
  What the program keeps of its jobs on SQS, with the documented behaviour of the service as a hypothesis.
\<close>





end
