(* ===== verification/Client_Setup.thy ===== *)
theory Client_Setup
  imports Env_Config Meta_Client
begin

text \<open>
  The construction of the Graph API client (\<open>src/lib/meta/MetaGraphClient.ts\<close>): the fields of the object,
  the environment its requests are made in, and the reading it keeps.
\<close>

record client_options =
  co_accessToken :: "jstr option"
  co_igUserId :: "jstr option"
  co_baseUrl :: "jstr option"

record graph_client =
  gc_accessToken :: jstr
  gc_igUserId :: jstr
  gc_baseUrl :: jstr

definition no_options :: client_options where
  "no_options = \<lparr>co_accessToken = None, co_igUserId = None, co_baseUrl = None\<rparr>"

text \<open>\<open>options?.x ?? env.X\<close>: an empty text counts as given.\<close>

definition coalesce :: "'a option \<Rightarrow> 'a \<Rightarrow> 'a" where
  "coalesce v d = (case v of None \<Rightarrow> d | Some x \<Rightarrow> x)"

definition newMetaGraphClient :: "config \<Rightarrow> client_options \<Rightarrow> graph_client" where
  "newMetaGraphClient cfg options =
     \<lparr>gc_accessToken = coalesce (co_accessToken options) (ev_META_ACCESS_TOKEN cfg),
       gc_igUserId = coalesce (co_igUserId options) (ev_META_IG_USER_ID cfg),
       gc_baseUrl = coalesce (co_baseUrl options) (ev_META_API_BASE_URL cfg) @ 47 # ev_META_GRAPH_VERSION cfg\<rparr>"

definition metaClient :: "config \<Rightarrow> graph_client" where
  "metaClient cfg = newMetaGraphClient cfg no_options"

definition getLastRateLimit :: "net_state \<Rightarrow> rate_limit_usage option" where
  "getLastRateLimit st = ns_lastRateLimit st"

text \<open>What \<open>request\<close> and \<open>paginateMedia\<close> read of the client and the environment, over a given network.\<close>

definition net_of_client :: "config \<Rightarrow> graph_client \<Rightarrow> net_env \<Rightarrow> net_env" where
  "net_of_client cfg cl net =
     net\<lparr>ne_token := gc_accessToken cl, ne_igUserId := gc_igUserId cl,
         ne_threshold := of_nat (ev_META_THROTTLE_THRESHOLD_PCT cfg)\<rparr>"

text \<open>The text of a URL: the base with the version, the path, the parameters as the runtime encodes them.\<close>

definition full_url :: "((string \<times> jstr) list \<Rightarrow> jstr) \<Rightarrow> graph_client \<Rightarrow> meta_url \<Rightarrow> jstr" where
  "full_url encode cl url = gc_baseUrl cl @ 47 # mu_path url @ 63 # encode (mu_params url)"

section \<open>A client of a loaded configuration\<close>

lemma string_field_nonempty:
  "no_issue (string_field p k None nonempty_check) \<Longrightarrow> value_or [] (string_field p k None nonempty_check) \<noteq> []"
  by (auto simp: no_issue_def string_field_def value_or_def checked_def nonempty_check_def failed_unless_def
      split: option.splits if_splits)

text \<open>
  The shared client of a process that has started authenticates: its token and its account are not
  empty, and its threshold is a percentage.
\<close>

lemma loaded_client_authenticates:
  assumes "load_env lib p = Inr cfg"
  shows "gc_accessToken (metaClient cfg) \<noteq> [] \<and> gc_igUserId (metaClient cfg) \<noteq> []
    \<and> 1 \<le> ne_threshold (net_of_client cfg (metaClient cfg) net)
    \<and> ne_threshold (net_of_client cfg (metaClient cfg) net) \<le> 100"
proof -
  have "ev_META_ACCESS_TOKEN cfg \<noteq> [] \<and> ev_META_IG_USER_ID cfg \<noteq> []"
    using assms unfolding load_env_Inr parse_env_def Let_def if_Inr not_not append_is_Nil_conv field_issues_Nil
    by (elim conjE, hypsubst) (simp add: string_field_nonempty)
  moreover have "1 \<le> ev_META_THROTTLE_THRESHOLD_PCT cfg" "ev_META_THROTTLE_THRESHOLD_PCT cfg \<le> 100"
    using load_env_bounds [OF assms] by (simp_all add: bounds_ok_def)
  moreover from this(2) have "(of_nat (ev_META_THROTTLE_THRESHOLD_PCT cfg) :: rat) \<le> of_nat 100"
    unfolding of_nat_le_iff .
  ultimately show ?thesis
    by (simp add: metaClient_def newMetaGraphClient_def no_options_def coalesce_def net_of_client_def)
qed

text \<open>An empty token that is passed explicitly is not replaced by the configured one.\<close>

lemma explicit_empty_token:
  "gc_accessToken (newMetaGraphClient cfg (no_options\<lparr>co_accessToken := Some []\<rparr>)) = []"
  by (simp add: newMetaGraphClient_def coalesce_def)

text \<open>The reading is the one of the last response that carried usage headers.\<close>

lemma rate_limit_carried:
  assumes "ne_fetch env (ns_tick st) url = Response status h body" "parseRateLimitHeaders h = Some u"
    "fetch_once env schema url st = (out, usage, st')"
  shows "getLastRateLimit st' = Some u"
  using assms by (auto simp: fetch_once_def getLastRateLimit_def Let_def)

lemma rate_limit_kept:
  assumes "ne_fetch env (ns_tick st) url = Response status h body" "parseRateLimitHeaders h = None"
    "fetch_once env schema url st = (out, usage, st')"
  shows "getLastRateLimit st' = getLastRateLimit st"
  using assms by (auto simp: fetch_once_def getLastRateLimit_def Let_def)

end
