(* ===== verification/Unit_Tests.thy ===== *)
theory Unit_Tests
  imports Meta_Walk Http_Api Adapters Caption_Parser Job_Runner
begin

text \<open>
  The repository's own unit tests (\<open>test/unit\<close>), evaluated on the model: each lemma is one \<open>it\<close> block,
  with the inputs and the expectations of the test. They check the definitions against what the
  authors observed of the code; the properties do not rest on them.
\<close>

section \<open>\<open>captionParser.test.ts\<close>\<close>

lemmas caption_eval = js_def spec_hashtags_def spec_mentions_def caption_hashtags_raw_def is_high_def is_low_def
  hashtag_matches.simps(2) mention_matches.simps(2) Let_def hashtag_char_def mention_char_def ascii_unicode_def
  ascii_letter_def ascii_digit_def ascii_upper_def ascii_lower_def utf16_units_def utf16_def normalize_def
  js_slice_def MAX_VALUE_LENGTH_def tag_ok_def strip_dots_def

lemma test_empty_captions:
  "parseCaptionEntities ascii_unicode None = []" "parseCaptionEntities ascii_unicode (Some []) = []"
  "parseCaptionEntities ascii_unicode (Some (js ''no tags at all here'')) = []"
  by (simp_all only: parseCaptionEntities_spec) (simp_all add: parseCaptionEntities_def caption_eval)

lemma test_lowercased:
  "parseCaptionArrays ascii_unicode (Some (js ''Morning ritual #Matcha #MatchaLatte at @SomeCafe_London''))
     = ([js ''matcha'', js ''matchalatte''], [js ''somecafe_london''])"
  by (simp add: parseCaptionArrays_spec) (simp add: caption_eval)

lemma test_repeated_tags:
  "parseCaptionArrays ascii_unicode (Some (js ''#matcha #matcha #MATCHA #Matcha'')) = ([js ''matcha''], [])"
  by (simp add: parseCaptionArrays_spec) (simp add: caption_eval)

text \<open>
  Thai, with its combining mark U+0E31; the categories of the five code points are those of the
  Unicode Character Database. Without the marks in the class, the tag would end after one character.
\<close>

definition thai_matcha :: jstr where
  "thai_matcha = [3617, 3633, 3607, 3593, 3632]"

definition thai_unicode :: "bool \<Rightarrow> unicode" where
  "thai_unicode marks = ascii_unicode\<lparr>u_letter := (\<lambda>c. c \<in> {3617, 3607, 3593, 3632}), u_mark := (\<lambda>c. marks \<and> c = 3633)\<rparr>"

lemma test_combining_marks:
  "parseCaptionArrays (thai_unicode True) (Some (35 # thai_matcha)) = ([thai_matcha], [])"
  "parseCaptionArrays (thai_unicode False) (Some (35 # thai_matcha)) = ([[3617]], [])"
  by (simp_all add: parseCaptionArrays_spec) (simp_all add: caption_eval thai_unicode_def thai_matcha_def)

lemma test_digit_only:
  "parseCaptionArrays ascii_unicode (Some (js ''#2026 #1 #matcha'')) = ([js ''matcha''], [])"
  by (simp add: parseCaptionArrays_spec) (simp add: caption_eval)

lemma test_trailing_periods:
  "parseCaptionArrays ascii_unicode (Some (js ''thanks @some.cafe. lovely'')) = ([], [js ''some.cafe''])"
  by (simp add: parseCaptionArrays_spec) (simp add: caption_eval)

lemma test_punctuation_and_newlines:
  "parseCaptionArrays ascii_unicode (Some (js ''#matcha,'' @ 10 # js ''#kyoto!'' @ 10 # js ''(#wagashi)''))
     = ([js ''matcha'', js ''kyoto'', js ''wagashi''], [])"
  by (simp add: parseCaptionArrays_spec) (simp add: caption_eval)

lemma test_email_like:
  "parseCaptionArrays ascii_unicode (Some (js ''reach me at hi@somecafe'')) = ([], [js ''somecafe''])"
  by (simp add: parseCaptionArrays_spec) (simp add: caption_eval)

lemma test_two_columns:
  "parseCaptionArrays ascii_unicode (Some (js ''#Matcha at @SomeCafe with #Kyoto vibes''))
     = ([js ''matcha'', js ''kyoto''], [js ''somecafe''])"
  "parseCaptionArrays ascii_unicode None = ([], [])"
  "parseCaptionArrays ascii_unicode (Some (js ''plain text'')) = ([], [])"
  by (simp_all add: parseCaptionArrays_spec) (simp_all add: caption_eval)

text \<open>\<open>'#' + 'a'.repeat(400)\<close>: a value is cut to the width of the column.\<close>

lemma long_value:
  assumes "0 < n"
  shows "map length (fst (parseCaptionArrays ascii_unicode (Some (35 # replicate n 97)))) = [min n 255]"
proof -
  have step: "code_points (97 # s) = 97 # code_points s" for s
    by (cases s) (simp_all add: is_high_def)
  have points: "code_points (replicate m 97) = replicate m 97" for m
    by (induction m) (simp_all add: step)
  have run: "takeWhile (hashtag_char ascii_unicode) (replicate m 97) = replicate m 97"
    "dropWhile (hashtag_char ascii_unicode) (replicate m 97) = []" for m
    by (simp_all add: caption_eval)
  have hc: "hashtag_char ascii_unicode 97" by (simp add: caption_eval)
  have units: "utf16_units (replicate m 97) = replicate m 97" for m
    by (induction m) (simp_all add: utf16_units_def utf16_def)
  obtain m where m: "n = Suc m" using assms by (cases n) auto
  have "code_points (35 # replicate n 97) = 35 # replicate n 97"
    using points [of n] m by (simp add: is_high_def)
  then have "caption_hashtags_raw ascii_unicode (35 # replicate n 97) = [replicate n 97]"
    using assms unfolding caption_hashtags_raw_def by (simp add: hashtag_matches.simps(2) run units hc)
  moreover have "normalize ascii_unicode (replicate n 97) = replicate (min n 255) 97"
    by (simp add: normalize_def js_slice_def MAX_VALUE_LENGTH_def ascii_unicode_def ascii_lower_def ascii_upper_def min.commute)
  ultimately show ?thesis
    using assms by (simp add: parseCaptionArrays_spec spec_hashtags_def tag_ok_def ascii_digit_def list_all_iff)
qed

lemma test_capped_value:
  "map length (fst (parseCaptionArrays ascii_unicode (Some (35 # replicate 400 97)))) = [255]"
  using long_value [of 400] by simp

section \<open>\<open>queueAndRunner.test.ts\<close>\<close>

text \<open>
  A queue with the test's visibility timeout and receive limit, one job in it; \<open>receive\<close> without a wait
  is one poll, and the tests take milliseconds: all of it happens at time 0 unless the test waits.
\<close>

definition test_job :: job where
  "test_job = Sync_Recent_Job 7684"

definition one_job :: mem_queue where
  "one_job = snd (mem_enqueue 0 0 test_job mem_empty)"

definition test_config :: "nat \<Rightarrow> mem_config" where
  "test_config n = \<lparr>mc_visibilityTimeoutMs = 60000, mc_maxReceiveCount = n\<rparr>"

lemmas queue_eval = one_job_def test_config_def mem_enqueue_def mem_empty_def mem_poll_def message_of_def
  mem_nack_def mem_ack_def mem_find_def find_row_def Let_def mem_depth_def mem_inFlightCount_def mem_deadLetterCount_def

lemma test_received_is_invisible:
  "map qm_receivedCount (fst (mem_poll (test_config 3) 0 10 one_job)) = [1]"
  "fst (mem_poll (test_config 3) 0 10 (snd (mem_poll (test_config 3) 0 10 one_job))) = []"
  "mem_inFlightCount (snd (mem_poll (test_config 3) 0 10 one_job)) = 1"
  by (simp_all add: queue_eval)

text \<open>A delivery whose message is nacked, \<open>n\<close> times in a row: the messages seen, and the queue then.\<close>

fun nack_rounds :: "mem_config \<Rightarrow> nat \<Rightarrow> mem_queue \<Rightarrow> uuid queue_message list \<times> mem_queue" where
  "nack_rounds c 0 q = ([], q)"
| "nack_rounds c (Suc n) q =
     (case mem_poll c 0 1 q of
        ([], q1) \<Rightarrow> ([], q1)
      | (m # _, q1) \<Rightarrow> (case nack_rounds c n (mem_nack 0 m q1) of (ms, q2) \<Rightarrow> (m # ms, q2)))"

lemma test_nacked_is_redelivered:
  "map qm_receivedCount (fst (nack_rounds (test_config 3) 2 one_job)) = [1, 2]"
  "map qm_id (fst (nack_rounds (test_config 3) 2 one_job)) = [0, 0]"
  "distinct (map qm_receiptHandle (fst (nack_rounds (test_config 3) 2 one_job)))"
  by (simp_all add: queue_eval numeral_2_eq_2)

lemma test_dead_letter:
  "length (fst (nack_rounds (test_config 2) 2 one_job)) = 2"
  "fst (mem_poll (test_config 2) 0 1 (snd (nack_rounds (test_config 2) 2 one_job))) = []"
  "mem_deadLetterCount (snd (mem_poll (test_config 2) 0 1 (snd (nack_rounds (test_config 2) 2 one_job)))) = 1"
  by (simp_all add: queue_eval numeral_2_eq_2)

lemma test_acked_stays_away:
  "(case mem_poll \<lparr>mc_visibilityTimeoutMs = 50, mc_maxReceiveCount = 3\<rparr> 0 1 one_job of
      (ms, q) \<Rightarrow> fst (mem_poll \<lparr>mc_visibilityTimeoutMs = 50, mc_maxReceiveCount = 3\<rparr> 80 1 (mem_ack (hd ms) q))) = []"
  by (simp add: queue_eval)

text \<open>
  The delayed job: not there at once; with \<open>waitTimeSeconds: 2\<close> the loop polls every 100 ms and has it
  in the iteration that begins 1000 ms later.
\<close>

definition test_clock :: poll_env where
  "test_clock = \<lparr>pe_start = 0, pe_clock = (\<lambda>k. 100 * int k), pe_later = (\<lambda>k. 100 * int k), pe_others = (\<lambda>_ q. q)\<rparr>"

lemma test_delay:
  "fst (mem_poll (test_config 3) 0 1 (snd (mem_enqueue 0 1 test_job mem_empty))) = []"
  "map_option (length \<circ> fst) (mem_receive 12 (test_config 3) test_clock 1 2 (snd (mem_enqueue 0 1 test_job mem_empty))) = Some 1"
  by (simp_all add: queue_eval mem_receive_def test_clock_def numeral_eq_Suc)

text \<open>
  The runner, one message after the other; the world of the handler is the list of jobs it has seen.
\<close>

definition test_handlers :: "(job list \<Rightarrow> js_error + unit) \<Rightarrow> job_type \<Rightarrow> (uuid, mem_queue \<times> job list) handler option" where
  "test_handlers verdict t =
     (if t = Sync_Recent then Some (\<lambda>j cx (q, seen). (verdict seen, q, seen @ [j])) else None)"

fun run_rounds :: "mem_config \<Rightarrow> (job_type \<Rightarrow> (uuid, mem_queue \<times> job list) handler option) \<Rightarrow> nat \<Rightarrow>
    mem_queue \<times> job list \<Rightarrow> mem_queue \<times> job list" where
  "run_rounds c handlers 0 w = w"
| "run_rounds c handlers (Suc n) w =
     (case mem_poll c 0 1 (fst w) of
        ([], q1) \<Rightarrow> run_rounds c handlers n (q1, snd w)
      | (m # _, q1) \<Rightarrow> run_rounds c handlers n (snd (process mem_ack_w (mem_nack_w 0) handlers m (q1, snd w))))"

abbreviation four :: nat where
  "four \<equiv> Suc (Suc (Suc (Suc 0)))"

lemmas runner_eval = queue_eval process_def test_handlers_def mem_ack_w_def mem_nack_w_def test_job_def context_of_def
  is_permanent_def

lemma test_acks_on_success:
  "run_rounds (test_config 3) (test_handlers (\<lambda>_. Inr ())) 2 (one_job, [])
     = (mem_empty\<lparr>mq_next := 3\<rparr>, [test_job])"
  by (simp add: runner_eval numeral_2_eq_2)

lemma test_retries_a_failure:
  "snd (run_rounds (test_config 5) (test_handlers (\<lambda>seen. if length seen < 2 then Inl (Plain_Error (js ''transient failure'')) else Inr ()))
     (Suc (Suc (Suc (Suc 0)))) (one_job, [])) = [test_job, test_job, test_job]"
  "mem_depth (fst (run_rounds (test_config 5) (test_handlers (\<lambda>seen. if length seen < 2 then Inl (Plain_Error (js ''transient failure'')) else Inr ()))
     four (one_job, []))) = 0"
  by (simp_all add: runner_eval)

lemma test_drops_unprocessable:
  "run_rounds (test_config 5) (test_handlers (\<lambda>_. Inl (Unprocessable_Job_Error (js ''payload will never be valid'')))) four (one_job, [])
     = (mem_empty\<lparr>mq_next := 3\<rparr>, [test_job])"
  by (simp add: runner_eval)

lemma test_drops_unhandled:
  "run_rounds (test_config 5) (test_handlers (\<lambda>_. Inr ())) 2 (snd (mem_enqueue 0 0 (Download_Job 7684) mem_empty), [])
     = (mem_empty\<lparr>mq_next := 3\<rparr>, [])"
  by (simp add: runner_eval numeral_2_eq_2)

section \<open>\<open>cursor.test.ts\<close>\<close>

text \<open>
  The tokens of the test are what the client would send for a given body. \<open>Date.parse\<close> rejects
  \<open>nope\<close> and reads the time of the test.
\<close>

definition test_id :: jstr where
  "test_id = js ''949d67c3-b749-48b2-bfc4-31ae82ef2d14''"

definition test_iso :: jstr where
  "test_iso = js ''2026-08-12T17:08:55.000Z''"

definition test_cursors :: cursor_env where
  "test_cursors = \<lparr>cx_iso = (\<lambda>_. test_iso), cx_date_parse = (\<lambda>s. if s = test_iso then Some 1786554535000 else None),
     cx_loose = (\<lambda>_. [])\<rparr>"

definition token_for :: "(string \<times> jstr) list \<Rightarrow> jstr" where
  "token_for body = b64_encode (utf8_encode (stringify_object body))"

lemma token_body:
  assumes "ascii (stringify_object body)"
  shows "json_parse (utf8_decode (b64_decode loose (token_for body))) = Some (JObj (map (\<lambda>(k, v). (js k, JStr v)) body))"
  using assms by (simp add: token_for_def utf8_encode_ascii b64_roundtrip ascii_octets utf8_decode_ascii json_parse_stringify)

text \<open>The first byte the token decodes to is a stray continuation byte.\<close>

lemma test_cursor_not_json:
  "decodeCursor test_cursors (js ''not-base64-json'') = Inl (cursor_error ''cursor is not valid base64url-encoded JSON'')"
proof -
  have "b64_decode loose (js ''not-base64-json'') = [158, 139, 126, 109, 171, 30, 235, 143, 163, 178, 137]" for loose
    by (simp add: js_def b64_decode_def b64_value_def)
  moreover have "utf8_decode (158 # bs) = 65533 # utf8_decode bs" for bs
    by (simp add: lead_byte_def)
  moreover have "json_parse (65533 # s) = None" for s
    by (simp add: json_parse_def skip_space_def is_json_space_def strip_prefix_def jp_number_def Let_def js_def
        ascii_digit_def)
  ultimately show ?thesis by (simp add: decodeCursor_def del: utf8_decode.simps)
qed

lemma decode_token:
  assumes "ascii (stringify_object body)"
  shows "decodeCursor test_cursors (token_for body) =
    (case (jfield ''takenAt'' (JObj (map (\<lambda>(k, v). (js k, JStr v)) body)),
        jfield ''id'' (JObj (map (\<lambda>(k, v). (js k, JStr v)) body))) of
       (Some (JStr t), Some (JStr i)) \<Rightarrow>
         (if t = test_iso
          then (case uuid_parse i of None \<Rightarrow> Inl (cursor_error ''cursor contains an invalid id'')
                | Some k \<Rightarrow> Inr (1786554535000, k))
          else Inl (cursor_error ''cursor contains an invalid takenAt timestamp''))
     | _ \<Rightarrow> Inl (cursor_error ''cursor is missing takenAt or id''))"
  unfolding decodeCursor_def token_body [OF assms]
  by (auto simp: test_cursors_def split: option.split json.split)

lemma test_cursor_bad_bodies:
  "decodeCursor test_cursors (token_for []) = Inl (cursor_error ''cursor is missing takenAt or id'')"
  "decodeCursor test_cursors (token_for [(''takenAt'', js ''nope''), (''id'', test_id)])
     = Inl (cursor_error ''cursor contains an invalid takenAt timestamp'')"
  "decodeCursor test_cursors (token_for [(''takenAt'', test_iso), (''id'', js ''x'')])
     = Inl (cursor_error ''cursor contains an invalid id'')"
  "decodeCursor test_cursors (token_for [(''takenAt'', test_iso), (''id'', 39 # js '' OR 1=1 --'')])
     = Inl (cursor_error ''cursor contains an invalid id'')"
proof -
  have plain: "ascii (stringify_object body)" if "\<And>k v. (k, v) \<in> set body \<Longrightarrow> ascii (js k) \<and> ascii v" for body
    using stringify_members_ascii [of body] that by (auto simp: stringify_object_def list_all_iff)
  note decode = decode_token [OF plain]
  show "decodeCursor test_cursors (token_for []) = Inl (cursor_error ''cursor is missing takenAt or id'')"
    by (subst decode) auto
  show "decodeCursor test_cursors (token_for [(''takenAt'', js ''nope''), (''id'', test_id)])
     = Inl (cursor_error ''cursor contains an invalid takenAt timestamp'')"
    by (subst decode) (auto simp: test_iso_def test_id_def js_def)
  show "decodeCursor test_cursors (token_for [(''takenAt'', test_iso), (''id'', js ''x'')])
     = Inl (cursor_error ''cursor contains an invalid id'')"
    by (subst decode) (auto simp: test_iso_def uuid_parse_def js_def)
  show "decodeCursor test_cursors (token_for [(''takenAt'', test_iso), (''id'', 39 # js '' OR 1=1 --'')])
     = Inl (cursor_error ''cursor contains an invalid id'')"
    by (subst decode) (auto simp: test_iso_def uuid_parse_def js_def)
qed

lemma test_cursor_roundtrip:
  "uuid_parse test_id = Some 197543038577362735220905681576545692948"
  "decodeCursor test_cursors (encodeCursor test_cursors 1786554535000 197543038577362735220905681576545692948) = Inr (1786554535000, 197543038577362735220905681576545692948)"
proof -
  show "uuid_parse test_id = Some 197543038577362735220905681576545692948"
    by (simp add: uuid_parse_def test_id_def js_def hex_value_def)
  show "decodeCursor test_cursors (encodeCursor test_cursors 1786554535000 197543038577362735220905681576545692948) = Inr (1786554535000, 197543038577362735220905681576545692948)"
    by (rule decode_encode) (simp_all add: iso_ok_def test_cursors_def test_iso_def js_def uuid_limit_def)
qed

text \<open>The query schema; a query string is an object of strings.\<close>

definition query :: "(string \<times> string) list \<Rightarrow> json" where
  "query kvs = JObj (map (\<lambda>(k, v). (js k, JStr (js v))) kvs)"

definition default_query :: list_query where
  "default_query = \<lparr>lq_hashtag = None, lq_limit = 25, lq_cursor = None, lq_mediaType = None, lq_takenAfter = None,
     lq_takenBefore = None, lq_includeStale = True, lq_includeAsset = True\<rparr>"

lemmas query_eval = listHashtagMediaQuerySchema_def query_def default_query_def Let_def hashtag_field_def limit_field_def
  cursor_field_def mediaType_field_def date_field_def flag_field_def

lemma test_query_defaults: "listHashtagMediaQuerySchema env (query []) = Inr default_query"
  by (simp add: query_eval)

lemma test_query_limit:
  "listHashtagMediaQuerySchema env (query [(''limit'', ''50'')]) = Inr (default_query\<lparr>lq_limit := 50\<rparr>)"
  "is_error (listHashtagMediaQuerySchema env (query [(''limit'', ''101'')]))"
  "is_error (listHashtagMediaQuerySchema env (query [(''limit'', ''0'')]))"
  "is_error (listHashtagMediaQuerySchema env (query [(''limit'', ''abc'')]))"
  by (simp_all add: query_eval coerce_number_def number_defs js_def int_checks_def failed_unless_def checked_def)

lemma test_query_mediaType:
  "is_error (listHashtagMediaQuerySchema env (query [(''mediaType'', ''GIF'')]))"
  "listHashtagMediaQuerySchema env (query [(''mediaType'', ''VIDEO'')]) = Inr (default_query\<lparr>lq_mediaType := Some VIDEO\<rparr>)"
  by (simp_all add: query_eval metaMediaTypeSchema_def media_type_of_def media_type_name_def)

text \<open>\<open>new Date\<close> is a parameter: whatever time it reads from the text of the test.\<close>

lemma test_query_date:
  assumes "ax_date env (JStr (js ''2026-08-01'')) = Some t"
  shows "listHashtagMediaQuerySchema env (query [(''takenAfter'', ''2026-08-01'')]) = Inr (default_query\<lparr>lq_takenAfter := Some t\<rparr>)"
  using assms by (simp add: query_eval)

lemma test_query_includeStale:
  "listHashtagMediaQuerySchema env (query [(''includeStale'', ''false'')]) = Inr (default_query\<lparr>lq_includeStale := False\<rparr>)"
  "listHashtagMediaQuerySchema env (query [(''includeStale'', ''true'')]) = Inr default_query"
  by (simp_all add: query_eval)

section \<open>\<open>toEventBridgeExpression\<close>\<close>

lemma test_expression_fields:
  "toEventBridgeExpression (js ''0 */3 * *'') = Inl (field_count_error four (js ''0 */3 * *''))"
  by (simp add: toEventBridgeExpression_def Let_def js_def js_trim_def is_js_space_def split_spaces.simps)

section \<open>\<open>metaGraphClient.test.ts\<close>\<close>

text \<open>
  \<open>fetch\<close> is stubbed as in the test: the answer to the n-th request is a status and a body. The bodies
  keep the shape of the fixtures and leave out the fields the test does not look at.
\<close>

definition test_item :: "string \<Rightarrow> jstr" where
  "test_item i = js ''{\"id\":\"'' @ js i @ js ''\",\"media_type\":\"IMAGE\",\"permalink\":\"p\",\"timestamp\":\"t\"}''"

definition test_page :: "jstr \<Rightarrow> jstr \<Rightarrow> jstr" where
  "test_page items paging = js ''{\"data\":['' @ items @ js ''],\"paging\":{'' @ paging @ js ''}}''"

definition page_a :: jstr where
  "page_a = test_page (test_item ''a1'' @ 44 # test_item ''a2'') (js ''\"cursors\":{\"after\":\"C1\"},\"next\":\"n\"'')"
definition page_b :: jstr where
  "page_b = test_page (test_item ''b1'') (js ''\"cursors\":{\"after\":\"C2\"}'')"
definition page_ok :: jstr where
  "page_ok = test_page (test_item ''ok'') []"

definition too_large :: jstr where
  "too_large = js ''{\"error\":{\"code\":1,\"message\":\"Please reduce the amount of data\"}}''"

definition test_net :: "(nat \<Rightarrow> nat \<times> jstr) \<Rightarrow> net_env" where
  "test_net answer = \<lparr>ne_fetch = (\<lambda>n u. case answer n of (status, body) \<Rightarrow>
       Response status \<lparr>x_app_usage = None, x_business_use_case_usage = None\<rparr> body),
     ne_jitter = (\<lambda>_. 0), ne_abort = (\<lambda>_. False), ne_threshold = 80, ne_token = js ''SECRET'',
     ne_igUserId = js ''17'', ne_is_url = (\<lambda>_. True), ne_url_text = mu_path, ne_number_text = (\<lambda>_. []),
     ne_issue_text = (\<lambda>_. [])\<rparr>"

definition test_options :: "media_source \<Rightarrow> nat \<Rightarrow> nat \<Rightarrow> paginate_options" where
  "test_options edge maxItems pageSize = \<lparr>po_hashtagId = js ''1'', po_edge = edge, po_maxItems = maxItems,
     po_pageSize = pageSize, po_startCursor = None\<rparr>"

definition test_walk :: "(nat \<Rightarrow> nat \<times> jstr) \<Rightarrow> paginate_options \<Rightarrow> net_state \<Rightarrow> media_page list \<times> js_error option \<times> net_state" where
  "test_walk answer opts st = the (walk_pages four (test_net answer) opts (walk_start opts st) st)"

text \<open>The identifiers a reader of all pages sees, the error it ends with, and the limits it asked for.\<close>

definition test_seen :: "media_page list \<times> js_error option \<times> net_state \<Rightarrow> jstr list \<times> bool \<times> nat list" where
  "test_seen r = (case r of (pgs, err, st) \<Rightarrow>
     (map mm_id (concat (map mg_items pgs)), err = None, map url_limit (ns_requests st)))"

text \<open>The bodies as JSON values, and what the client makes of them, whatever it asked for.\<close>

definition jitem :: "string \<Rightarrow> json" where
  "jitem i = JObj [(js ''id'', JStr (js i)), (js ''media_type'', JStr (js ''IMAGE'')), (js ''permalink'', JStr (js ''p'')),
     (js ''timestamp'', JStr (js ''t''))]"

definition jcursor :: "string \<Rightarrow> jstr \<times> json" where
  "jcursor c = (js ''cursors'', JObj [(js ''after'', JStr (js c))])"

lemma fixtures:
  "json_parse page_a = Some (JObj [(js ''data'', JArr [jitem ''a1'', jitem ''a2'']),
     (js ''paging'', JObj [jcursor ''C1'', (js ''next'', JStr (js ''n''))])])"
  "json_parse page_b = Some (JObj [(js ''data'', JArr [jitem ''b1'']), (js ''paging'', JObj [jcursor ''C2''])])"
  "json_parse page_ok = Some (JObj [(js ''data'', JArr [jitem ''ok'']), (js ''paging'', JObj [])])"
  "json_parse too_large = Some (JObj [(js ''error'', JObj [(js ''code'', JNum 1),
     (js ''message'', JStr (js ''Please reduce the amount of data''))])])"
  by code_simp+

definition item_of :: "string \<Rightarrow> meta_media" where
  "item_of i = \<lparr>mm_id = js i, mm_media_type = IMAGE, mm_timestamp = js ''t'', mm_permalink = js ''p'', mm_media_url = None,
     mm_caption = None, mm_like_count = None, mm_comments_count = None\<rparr>"

definition paging_of :: "jstr option \<Rightarrow> jstr option \<Rightarrow> meta_paging" where
  "paging_of after nxt = \<lparr>pg_cursors = map_option (\<lambda>c. \<lparr>cu_before = None, cu_after = Some c\<rparr>) after, pg_next = nxt, pg_previous = None\<rparr>"

lemmas schema_eval = metaMediaResponseSchema_def metaPagingSchema_def metaCursorsSchema_def metaMediaSchema_def
  metaErrorResponseSchema_def metaMediaTypeSchema_def media_type_of_def media_type_name_def req_field_def opt_field_def
  z_nonempty_string_def z_url_def z_array_def

lemma fixture_nonempty: "page_a \<noteq> []" "page_b \<noteq> []" "page_ok \<noteq> []" "too_large \<noteq> []"
  by (simp_all add: page_a_def page_b_def page_ok_def test_page_def too_large_def)

lemma classified:
  "classify env (metaMediaResponseSchema (\<lambda>_. True)) url 200 page_a
     = Done \<lparr>mr_data = [item_of ''a1'', item_of ''a2''], mr_paging = Some (paging_of (Some (js ''C1'')) (Some (js ''n'')))\<rparr>"
  "classify env (metaMediaResponseSchema (\<lambda>_. True)) url 200 page_b
     = Done \<lparr>mr_data = [item_of ''b1''], mr_paging = Some (paging_of (Some (js ''C2'')) None)\<rparr>"
  "classify env (metaMediaResponseSchema (\<lambda>_. True)) url 200 page_ok
     = Done \<lparr>mr_data = [item_of ''ok''], mr_paging = Some (paging_of None None)\<rparr>"
  by (simp_all add: classify_def response_json_def fixture_nonempty fixtures response_ok_def schema_eval
      jitem_def jcursor_def item_of_def paging_of_def)

lemma classified_too_large:
  "classify env schema url 500 too_large = Throw (metaPayloadTooLargeError (js ''Please reduce the amount of data'')
     (url_limit url) (Some (JObj [(js ''code'', JNum 1)])))"
  by (simp add: classify_def response_json_def fixture_nonempty fixtures schema_eval classify_error_def has_code_def
      AUTH_ERROR_CODES_def RATE_LIMIT_ERROR_CODES_def asks_for_less_def code_details_def num_member_def js_def
      ascii_lower_def ascii_upper_def)

lemma four_attempts: "MAX_ATTEMPTS = four"
  by (simp add: MAX_ATTEMPTS_def)

lemma no_usage:
  "parseRateLimitHeaders \<lparr>x_app_usage = None, x_business_use_case_usage = None\<rparr> = None" "throttleDelayMs None k = 0"
  by (simp_all add: parseRateLimitHeaders_def safeJsonParse_def usage_candidates_def throttleDelayMs_def)

lemmas walk_eval = test_seen_def test_walk_def test_net_def test_options_def walk_start_def truthy_num_def
  next_page_def negotiate.simps request_def four_attempts no_usage
  fetch_once_def classified classified_too_large paging_of_def item_of_def has_more_def after_cursor_def truthy_cursor_def
  net_sleep_def net_start_def isPayloadTooLarge.simps metaPayloadTooLargeError_def url_limit_def page_url_def buildUrl_def
  show_int_def dec_digits.simps read_dec_def Let_def

text \<open>The second request carries the cursor of the first page; the walk ends where \<open>next\<close> is absent.\<close>

lemma test_follows_cursor:
  "test_seen (test_walk (\<lambda>n. (200, if n = 0 then page_a else page_b)) (test_options Top 100 2) net_start)
   = ([js ''a1'', js ''a2'', js ''b1''], True, [2, 2])"
  "map (\<lambda>u. map_of (mu_params u) ''after'') (ns_requests (snd (snd
     (test_walk (\<lambda>n. (200, if n = 0 then page_a else page_b)) (test_options Top 100 2) net_start)))) = [None, Some (js ''C1'')]"
  by (simp_all add: walk_eval)

text \<open>The last request asks for what is left; a server that ignores it makes the walk exceed \<open>maxItems\<close>.\<close>

lemma test_shrinks_last_request:
  "test_seen (test_walk (\<lambda>_. (200, page_a)) (test_options Recent 3 2) net_start)
   = ([js ''a1'', js ''a2'', js ''a1'', js ''a2''], True, [2, 1])"
  by (simp_all add: walk_eval)

lemma test_cursor_without_next:
  "test_seen (test_walk (\<lambda>_. (200, page_b)) (test_options Top 50 5) net_start) = ([js ''b1''], True, [5])"
  by (simp_all add: walk_eval)

lemma test_halves_page_size:
  "test_seen (test_walk (\<lambda>n. if n < 2 then (500, too_large) else (200, page_ok)) (test_options Top 50 24) net_start)
   = ([js ''ok''], True, [24, 12, 6])"
  by (simp_all add: walk_eval)

lemma test_no_blind_retry:
  "test_seen (test_walk (\<lambda>n. if n < 1 then (500, too_large) else (200, page_ok)) (test_options Top 10 8) net_start)
   = ([js ''ok''], True, [8, 4])"
  by (simp_all add: walk_eval)

text \<open>After a run that was brought down to 4, the next one starts at twice that.\<close>

lemma test_probes_upward:
  "test_seen (test_walk (\<lambda>_. (200, page_ok)) (test_options Top 10 8) (net_start\<lparr>ns_learnedPageSize := (\<lambda>_. None)(Top := Some 4)\<rparr>))
   = ([js ''ok''], True, [8])"
  "ns_learnedPageSize (snd (snd (test_walk (\<lambda>n. if n < 1 then (500, too_large) else (200, page_ok)) (test_options Top 10 8) net_start))) Top = Some 4"
  by (simp_all add: walk_eval)

definition one_error :: "string \<Rightarrow> string \<Rightarrow> jstr" where
  "one_error code message = js ''{\"error\":{\"code\":'' @ js code @ js '',\"message\":\"'' @ js message @ js ''\"}}''"

lemma test_expired_token:
  "case resolveHashtagId (test_net (\<lambda>_. (400, one_error ''190'' ''Error validating access token''))) (js ''matcha'') net_start of
     (Inl e, st) \<Rightarrow> isMetaAuthError e \<and> length (ns_requests st) = 1 | _ \<Rightarrow> False"
  by code_simp

lemma test_no_hashtag:
  "fst (resolveHashtagId (test_net (\<lambda>_. (200, js ''{\"data\":[]}''))) (js ''nosuchtag'') net_start)
   = Inl (apiError 404 ''HASHTAG_NOT_FOUND'' (js ''Meta returned no hashtag ID for \"nosuchtag\"'') None)"
  by code_simp

lemma test_field_list:
  "''children'' \<notin> set MEDIA_FIELDS" "''caption'' \<in> set MEDIA_FIELDS" "''like_count'' \<in> set MEDIA_FIELDS"
  by (simp_all add: MEDIA_FIELDS_def)

text \<open>\<open>parseMetaTimestamp\<close> hands \<open>Date.parse\<close> the offset with its colon.\<close>

lemma test_timestamp:
  "parseMetaTimestamp (\<lambda>s. if s = js ''2026-08-12T17:08:55+00:00'' then Some 1786554535000 else None)
     (js ''2026-08-12T17:08:55+0000'') = Inr 1786554535000"
  "parseMetaTimestamp (\<lambda>_. None) (js ''not-a-date'') = Inl (Plain_Error (js ''unparseable Meta timestamp: not-a-date''))"
  by (simp_all add: parseMetaTimestamp_def normalize_offset_def js_def ascii_digit_def)

end
