(* ===== verification/Spec2Isabelle.thy ===== *)
theory Spec2Isabelle
  imports Pipeline_Properties Queue_Properties Meta_Properties Data_Properties Api_Properties Boot_Properties Ops_Properties
    Cloud_Properties System_Properties Lock_Properties Sqs_Properties Client_Setup Unit_Tests
begin

text \<open>
  Verification development for the Instagram hashtag media pipeline.

  \<^bold>\<open>The program.\<close> A scheduler puts a dispatch job on a queue every three hours. A worker polls the queue: the dispatch
  job becomes one sync job per due hashtag; a sync job walks the pages of Meta's Graph API, lands every payload, upserts the
  posts with a change-only history and queues a download per new media file; a download streams the file to a
  content-addressed object store. An HTTP API lists the stored posts with keyset pagination. Queue, storage
  and scheduler each have a local driver and an AWS one. Operator commands track hashtags, sync in the
  foreground, replay raw payloads, and provision, deploy to and tear down an AWS account.

  \<^bold>\<open>How the code is rendered.\<close> A JavaScript string is its list of UTF-16 code units (\<open>jstr\<close>), a \<open>Date\<close> its integer
  milliseconds, a UUID a number, a JSON number an exact rational. A table is the list of its rows, a statement
  a function from the current time and the database to its result and the new database. A rejected promise or a
  thrown error is \<open>Inl\<close> of \<open>js_error\<close>; a driver or an SDK client is a record of functions on an arbitrary state. Whatever is called in
  the course of a job may fail: every statement and every enqueue may be rejected with or without having had its
  effect, and the process may die before or after it (\<open>fault\<close> in \<open>Sync_Service\<close>). Concurrency (the poll loop, the queue under
  several callers, the advisory lock under several workers, the workers on SQS, the shutdown of the two processes) is a step relation. Log lines are left out everywhere.

  \<^bold>\<open>Theories and source files.\<close> Paths are below \<open>src/src/\<close>, those of the commands below \<open>src/commands/\<close>.

  \<^item> \<open>Prelude\<close>: strings, tables and list lemmas. \<open>Json\<close>: \<open>JSON.parse\<close> and \<open>stringify\<close> with their round trip.
    \<open>Uuid\<close>, \<open>Text_Codec\<close> (UTF-8, base64url), \<open>Zod_Checks\<close> (fields of a zod object, \<open>Number()\<close>).
  \<^item> \<open>Api_Errors\<close>: \<open>api/errors/ApiError.ts\<close>, \<open>api/middlewares/errorHandler.ts\<close>.
  \<^item> \<open>Rate_Limit\<close>, \<open>Meta_Types\<close>, \<open>Meta_Client\<close>: \<open>lib/meta/\<close>, the client as a request with retries and a resumable page
    walk; \<open>Meta_Walk\<close> has its guarantees. \<open>Client_Setup\<close>: the construction of the client from the configuration.
  \<^item> \<open>Models\<close>: \<open>api/models/\<close> with the constraints as \<open>db_wf\<close>. \<open>Hashtag_Repository\<close>, \<open>Sync_Run_Repository\<close> (with the data
    points), \<open>Media_Asset_Repository\<close>, \<open>Media_Repository\<close>: \<open>api/repositories/\<close>, one definition per statement.
    \<open>Media_History\<close> and \<open>Row_Types\<close>: what sequences of statements do to the rows.
  \<^item> \<open>Caption_Parser\<close>: \<open>api/services/captionParser.ts\<close>, the two regular expressions as matchers.
  \<^item> \<open>Jobs\<close>: \<open>types/jobs.ts\<close>. \<open>Queue_Port\<close>: \<open>ports/Queue.ts\<close>, the contract as the locales \<open>queue_sink\<close> and \<open>job_queue\<close>. \<open>Memory_Queue\<close>,
    \<open>Memory_Queue_Steps\<close>: \<open>adapters/local/InMemoryQueue.ts\<close>, an instance of both. \<open>Sqs_Queue\<close>: \<open>adapters/aws/SqsQueue.ts\<close>;
    \<open>Sqs_Worker\<close>: the driver and the runner against the service, \<open>Sqs_Program\<close>: with the handlers of the program.
  \<^item> \<open>Job_Runner\<close>: \<open>worker/JobRunner.ts\<close>, a client of \<open>queue_sink\<close>, and the shutdown of \<open>worker.ts\<close>. \<open>Boot\<close>:
    \<open>database/client.ts\<close>, \<open>database/migrate.ts\<close>, \<open>app.ts\<close> and the start of \<open>worker.ts\<close>.
  \<^item> \<open>Storage_Port\<close>: \<open>ports/Storage.ts\<close>, the contract as the locale \<open>object_store\<close>. \<open>Disk_Storage\<close>, \<open>S3_Storage\<close>: the two drivers; the
    disk is an instance, S3 one under \<open>s3_service\<close>.
  \<^item> \<open>Sync_Service\<close>: \<open>api/services/HashtagSyncService.ts\<close> and \<open>database/advisoryLock.ts\<close>; \<open>Sync_Invariants\<close>, \<open>Sync_Progress\<close> and \<open>Sync_Correct\<close> prove what it
    keeps. \<open>Lock_Steps\<close>: \<open>database/advisoryLock.ts\<close> again, as the steps of many calls in many workers. \<open>Asset_Service\<close>: \<open>api/services/MediaAssetService.ts\<close>, with \<open>Asset_Correct\<close>. \<open>Consumers\<close>: \<open>api/consumers/index.ts\<close>.
  \<^item> \<open>Media_Query\<close>, \<open>Media_Paging\<close>, \<open>Cursor\<close>, \<open>Http_Api\<close>, \<open>Http_Correct\<close>: the read API, from the SQL listing to the responses of
    \<open>GET /hashtags\<close> and \<open>GET /health\<close>. \<open>Http_App\<close>: \<open>loaders/expressLoader.ts\<close>, the application as its list of layers.
  \<^item> \<open>Env_Config\<close>: \<open>lib/env/index.ts\<close>. \<open>Schedulers\<close>: \<open>ports/Scheduler.ts\<close> and both drivers. \<open>Adapters\<close>: \<open>adapters/index.ts\<close>.
  \<^item> \<open>Drain\<close>, \<open>Commands\<close>: \<open>_drain.ts\<close>, \<open>_runner.ts\<close>, \<open>trackHashtag.ts\<close>, \<open>untrackHashtag.ts\<close>, \<open>syncTop.ts\<close>, \<open>syncRecent.ts\<close>, \<open>replay.ts\<close>,
    \<open>seed.ts\<close>; \<open>Drain_Correct\<close>, \<open>Commands_Correct\<close>, \<open>Replay_Correct\<close>.
  \<^item> \<open>Cloud_Api\<close> (requests and responses of the SDK clients), \<open>Cloud_Account\<close> (what AWS documents of them, as a
    hypothesis), \<open>Provision\<close>: \<open>provisionAws.ts\<close>, \<open>Deploy\<close>: \<open>deployEc2.ts\<close>, \<open>Teardown\<close>: \<open>teardownAws.ts\<close>, each with a
    \<open>_Correct\<close> theory; \<open>Deployed_Config\<close>: the environment file the instance starts from, and the worker there.
  \<^item> The \<open>_Properties\<close> theories state the properties C1 to C40, each with an application to the samples of \<open>Demo\<close>,
    \<open>Cloud_Demo\<close> or its own theory.
  \<^item> \<open>Unit_Tests\<close>: the tests of \<open>test/unit/\<close> evaluated on the definitions, one lemma per test.

  \<^bold>\<open>Interfaces.\<close> \<open>job_queue\<close> and \<open>object_store\<close> are the ports; their clients (the runner, the download) are proved against the
  laws, the drivers are interpretations. \<open>drainable\<close> is what a queue has to promise for the drain loop to end.
  \<open>item_invariant\<close>, \<open>sync_invariant\<close>, \<open>consumer_invariant\<close> and \<open>command_invariant\<close> extend one another: a property of the database that every
  statement keeps is kept by every page, run, job and command, at each point where the process can die; the
  instances are the constraints, the identity of posts, the growth of history and raw payloads, and the row types.

  \<^bold>\<open>What is shown.\<close>

  \<^item> Sync and download: recorded progress never gets ahead of what is persisted; reported results are the
    recorded ones; a stored row has its bytes in the store; the lock is released, lets one sync per hashtag and kind in
    among all workers while their sessions last, and keeps nobody out without reason.
  \<^item> Data: constraints and row types hold in every run of the program; history has changes only; a redelivered
    upsert adds nothing; the caption arrays are those of a declarative reading of the two expressions.
  \<^item> Queues and runner: a message is in one place; receives end; a poison job is parked; at most the configured number of jobs
    runs; the runner drains. On SQS no job is lost between the batch that enqueues it and the verdict of its handler.
  \<^item> Graph API: bounded attempts, no retry of an expired token, a page size that is accepted is found, the
    walk ends within its budget, errors do not contain the token.
  \<^item> Read API: following the cursors delivers every row once, also under concurrent writes what stays matched;
    client errors get 4xx; the routing table of the application is the intended one.
  \<^item> Commands: replay makes the upserts of the live run; the drain ends. Provisioning does what its
    specification says, is idempotent and loses nothing where it fails; at most one worker instance is live over any
    sequence of commands; teardown undoes provisioning; the deployed configuration loads and its worker boots.

  \<^bold>\<open>Recursion and fuel.\<close> Loops that always end are functions with a measure (retries and negotiation in \<open>Meta_Client\<close>, batches in
  \<open>Sqs_Queue\<close>, the page loop \<open>sync_loop\<close>). The loops that need not end are \<open>drain_loop\<close> and \<open>empty_bucket\<close>, partial functions with value \<open>None\<close>;
  C34 and \<open>bucket_deletion_ends\<close> prove that they end under a law of the driver and of the service, and \<open>empty_bucket_stuck\<close> that without it
  the latter may not. Fuel is used for the long poll of the in-memory queue (C10: it suffices when it covers the wait in steps of 100 ms),
  and for clients that follow cursors or pages (\<open>browse\<close>, \<open>crawl\<close>, \<open>walk_pages\<close>), where the theorems say how much suffices.

  \<^bold>\<open>Parameters.\<close> Unicode classes and \<open>toLowerCase\<close>, \<open>Date.parse\<close> and \<open>toISOString\<close>, zod's URL check and issue texts, the network with
  timers and \<open>Math.random\<close>, the CDN, SHA-256, node-cron's validator, the SDK clients, the Postgres pool, drizzle's
  migrator, Express and its middlewares. What is relied on is a named hypothesis: \<open>scheduler_service\<close> (EventBridge), \<open>s3_service\<close>, \<open>sqs_service\<close>,
  \<open>aws_service\<close>, \<open>aws_responsive\<close> and \<open>deletes_honoured\<close> (the account, with lost answers allowed), \<open>local_disk\<close>, \<open>eb_starts\<close>,
  \<open>express_order\<close> and \<open>express_paths\<close>, \<open>clock_ok\<close>. Each is met by a concrete instance in a sample theory.

  \<^bold>\<open>Not modelled.\<close> The options of pino, drizzle-kit and vitest; dotenv; log lines and the instructions
  \<open>deploy:ec2\<close> prints; secondary indexes; the 30 s forced exit of the worker. Numbers of the database are unbounded except for
  the counts and ranks of posts and history, whose overflow the upsert reports; the counters of runs, the positions of
  payloads and the attempts of assets are taken not to overflow their \<open>integer\<close> columns. Isolation between
  concurrent transactions is that of whole statements in some order. Starting a stopped EC2 instance by hand is not a
  step of the fleet. SQS is not an instance of
  \<open>job_queue\<close>: it delivers at least once, and a handle that was returned still deletes its message; \<open>Sqs_Worker\<close> states what
  holds instead. The steps of \<open>Sqs_Worker\<close> take the processing of a message as one step; the statements of two
  syncs on one database are interleaved only as far as the lock lets both run, which \<open>Lock_Steps\<close> bounds. Postgres' advisory
  locks are as its manual has them.
\<close>

end
